(* ===== verification/Prelude.thy ===== *)
theory Prelude
  imports Main "HOL-Library.Word"
begin

text \<open>
  Shared vocabulary of the Shielder development.

  \<^item> Machine integers: Rust's \<open>u8 .. u128\<close> and the \<open>U256\<close> / \<open>U512\<close> of the EVM are words of that
    width. The operators \<open>+\<close>, \<open>-\<close>, \<open>*\<close> of \<open>U256\<close> wrap around, as they do on words.
  \<^item> Outcomes: \<open>result\<close> has Rust's \<open>Ok\<close> and \<open>Err\<close> and a third constructor \<open>Panic\<close> for
    \<open>expect\<close>, \<open>unwrap\<close>, \<open>assert\<close> and overflow panics; \<open>and_then\<close> is the \<open>?\<close> operator.
  \<^item> Byte strings: little and big endian encodings of naturals with their round trips.
  \<^item> Time: instants and durations are counted in nanoseconds.

  Native integer additions (\<open>+= 1\<close> on a \<open>u32\<close>) are modelled with overflow checks on, so that an
  overflow is a \<open>Panic\<close>.
\<close>

named_theorems bytes_simps \<open>round trips and lengths of byte encodings\<close>
named_theorems result_simps \<open>when a chain of fallible steps succeeds\<close>

unbundle bit_operations_syntax

section \<open>Machine integers\<close>

type_synonym u8 = "8 word"
type_synonym u16 = "16 word"
type_synonym u32 = "32 word"
type_synonym u64 = "64 word"
type_synonym u128 = "128 word"
type_synonym u256 = "256 word"
type_synonym u512 = "512 word"
type_synonym address = "160 word"
type_synonym bytes = "u8 list"
type_synonym bytes3 = "u8 \<times> u8 \<times> u8"
type_synonym hash32 = "u256"

definition checked_add :: "'a::len word \<Rightarrow> 'a word \<Rightarrow> 'a word option" where
  "checked_add a b = (if unat a + unat b < 2 ^ LENGTH('a) then Some (a + b) else None)"

definition checked_sub :: "'a::len word \<Rightarrow> 'a word \<Rightarrow> 'a word option" where
  "checked_sub a b = (if b \<le> a then Some (a - b) else None)"

lemma checked_add_SomeD: "checked_add a b = Some c \<Longrightarrow> unat c = unat a + unat b"
  by (auto simp: checked_add_def unat_word_ariths split: if_splits)

lemma checked_sub_SomeD: "checked_sub a b = Some c \<Longrightarrow> unat c = unat a - unat b \<and> unat b \<le> unat a"
  by (auto simp: checked_sub_def unat_sub word_le_nat_alt split: if_splits)

lemma checked_add_uint: "checked_add a b = Some c \<longleftrightarrow> uint c = uint a + uint (b :: 'a::len word)"
proof -
  have fits: "unat a + unat b < 2 ^ LENGTH('a) \<longleftrightarrow> uint a + uint b < 2 ^ LENGTH('a)"
    by (simp flip: uint_nat of_nat_less_iff [where 'a = int])
  show ?thesis
  proof (cases "uint a + uint b < 2 ^ LENGTH('a)")
    case True
    then show ?thesis
      using uint_add_lem [of a b] by (auto simp: checked_add_def fits word_uint_eq_iff)
  next
    case False
    moreover from this have "uint c \<noteq> uint a + uint b" using uint_lt2p [of c] by linarith
    ultimately show ?thesis by (simp add: checked_add_def fits)
  qed
qed

lemma checked_sub_uint: "checked_sub a b = Some c \<longleftrightarrow> uint c = uint a - uint (b :: 'a::len word)"
proof (cases "uint b \<le> uint a")
  case True
  then show ?thesis
    using uint_sub_lem [of b a] by (auto simp: checked_sub_def word_le_def word_uint_eq_iff)
next
  case False
  moreover from this have "uint c \<noteq> uint a - uint b" using uint_ge_0 [of c] by linarith
  ultimately show ?thesis by (simp add: checked_sub_def word_le_def)
qed

lemma unat_add_lt:
  fixes a b :: "'a::len word"
  shows "unat a + unat b < 2 ^ LENGTH('a) \<Longrightarrow> unat (a + b) = unat a + unat b"
  by (simp add: unat_word_ariths)

lemma unat_mult_lt:
  fixes a b :: "'a::len word"
  shows "unat a * unat b < 2 ^ LENGTH('a) \<Longrightarrow> unat (a * b) = unat a * unat b"
  by (simp add: unat_word_ariths)

lemma unat_of_nat_lt:
  "n < 2 ^ LENGTH('a::len) \<Longrightarrow> unat (of_nat n :: 'a word) = n"
  by (simp add: unat_of_nat take_bit_nat_eq_self)

lemma of_nat_mod_len: "(of_nat (n mod 2 ^ LENGTH('a::len)) :: 'a word) = of_nat n"
  by (simp flip: take_bit_eq_mod add: of_nat_take_bit)

lemma unat_lt_pow: "unat (w :: 'a::len word) < 2 ^ LENGTH('a)"
  by (rule unsigned_less)

section \<open>Outcomes\<close>

datatype ('a, 'e) result = Ok 'a | Err 'e | Panic string

fun and_then :: "('a, 'e) result \<Rightarrow> ('a \<Rightarrow> ('b, 'e) result) \<Rightarrow> ('b, 'e) result" where
  "and_then (Ok x) f = f x"
| "and_then (Err e) f = Err e"
| "and_then (Panic m) f = Panic m"

fun map_err :: "('e \<Rightarrow> 'g) \<Rightarrow> ('a, 'e) result \<Rightarrow> ('a, 'g) result" where
  "map_err f (Ok x) = Ok x"
| "map_err f (Err e) = Err (f e)"
| "map_err f (Panic m) = Panic m"

fun map_ok :: "('a \<Rightarrow> 'b) \<Rightarrow> ('a, 'e) result \<Rightarrow> ('b, 'e) result" where
  "map_ok f (Ok x) = Ok (f x)"
| "map_ok f (Err e) = Err e"
| "map_ok f (Panic m) = Panic m"

fun ok_or :: "'a option \<Rightarrow> 'e \<Rightarrow> ('a, 'e) result" where
  "ok_or (Some x) e = Ok x"
| "ok_or None e = Err e"

fun expect :: "'a option \<Rightarrow> string \<Rightarrow> ('a, 'e) result" where
  "expect (Some x) m = Ok x"
| "expect None m = Panic m"

fun is_ok :: "('a, 'e) result \<Rightarrow> bool" where
  "is_ok (Ok x) = True"
| "is_ok _ = False"

fun is_panic :: "('a, 'e) result \<Rightarrow> bool" where
  "is_panic (Panic m) = True"
| "is_panic _ = False"

lemma and_then_Ok [result_simps]:
  "and_then r f = Ok y \<longleftrightarrow> (\<exists>x. r = Ok x \<and> f x = Ok y)"
  by (cases r) auto

lemma and_then_Err [result_simps]:
  "and_then r f = Err e \<longleftrightarrow> r = Err e \<or> (\<exists>x. r = Ok x \<and> f x = Err e)"
  by (cases r) auto

lemma and_then_Panic [result_simps]:
  "and_then r f = Panic m \<longleftrightarrow> r = Panic m \<or> (\<exists>x. r = Ok x \<and> f x = Panic m)"
  by (cases r) auto

lemma map_err_Ok [result_simps]: "map_err f r = Ok x \<longleftrightarrow> r = Ok x"
  by (cases r) auto

lemma map_err_Panic [result_simps]: "map_err f r = Panic m \<longleftrightarrow> r = Panic m"
  by (cases r) auto

lemma map_ok_Ok [result_simps]: "map_ok f r = Ok y \<longleftrightarrow> (\<exists>x. r = Ok x \<and> y = f x)"
  by (cases r) auto

lemma ok_or_Ok [result_simps]: "ok_or r e = Ok x \<longleftrightarrow> r = Some x"
  by (cases r) auto

lemma ok_or_Err [result_simps]: "ok_or r e = Err e' \<longleftrightarrow> r = None \<and> e' = e"
  by (cases r) auto

lemma ok_or_Panic [result_simps]: "ok_or r e \<noteq> Panic m"
  by (cases r) auto

lemma expect_Ok [result_simps]: "expect r m = Ok x \<longleftrightarrow> r = Some x"
  by (cases r) auto

lemma expect_Panic [result_simps]: "expect r m = Panic m' \<longleftrightarrow> r = None \<and> m' = m"
  by (cases r) auto

text \<open>\<open>expect\<close> on a result: an error becomes a panic. \<open>try_map\<close> applies a fallible function from left to right.\<close>

fun expect_ok :: "('a, 'x) result \<Rightarrow> string \<Rightarrow> ('a, 'e) result" where
  "expect_ok (Ok x) m = Ok x"
| "expect_ok (Err e) m = Panic m"
| "expect_ok (Panic m') m = Panic m'"

fun try_map :: "('a \<Rightarrow> ('b, 'e) result) \<Rightarrow> 'a list \<Rightarrow> ('b list, 'e) result" where
  "try_map f [] = Ok []"
| "try_map f (x # xs) = and_then (f x) (\<lambda>y. and_then (try_map f xs) (\<lambda>ys. Ok (y # ys)))"

lemma expect_ok_Ok [result_simps]: "expect_ok r m = Ok x \<longleftrightarrow> r = Ok x"
  by (cases r) auto

lemma expect_ok_Err [result_simps]: "expect_ok r m \<noteq> Err e"
  by (cases r) auto

lemma try_map_Ok [result_simps]: "try_map f xs = Ok ys \<longleftrightarrow> map f xs = map Ok ys"
proof (induction xs arbitrary: ys)
  case Nil
  then show ?case by auto
next
  case (Cons x xs)
  then show ?case by (cases ys) (auto simp: and_then_Ok)
qed

lemma is_ok_iff [result_simps]: "is_ok r \<longleftrightarrow> (\<exists>x. r = Ok x)"
  by (cases r) auto

section \<open>Byte strings\<close>

fun le_nat :: "bytes \<Rightarrow> nat" where
  "le_nat [] = 0"
| "le_nat (b # bs) = unat b + 256 * le_nat bs"

fun nat_le :: "nat \<Rightarrow> nat \<Rightarrow> bytes" where
  "nat_le 0 n = []"
| "nat_le (Suc k) n = of_nat (n mod 256) # nat_le k (n div 256)"

definition nat_be :: "nat \<Rightarrow> nat \<Rightarrow> bytes" where
  "nat_be k n = rev (nat_le k n)"

definition be_nat :: "bytes \<Rightarrow> nat" where
  "be_nat bs = le_nat (rev bs)"

lemma length_nat_le [simp, bytes_simps]: "length (nat_le k n) = k"
  by (induction k arbitrary: n) auto

lemma length_nat_be [simp, bytes_simps]: "length (nat_be k n) = k"
  by (simp add: nat_be_def)

lemma le_nat_bound: "le_nat bs < 256 ^ length bs"
proof (induction bs)
  case Nil
  then show ?case by simp
next
  case (Cons b bs)
  have "unat b < 256" using unat_lt_pow [of b] by simp
  with Cons show ?case by simp
qed

lemma le_nat_nat_le [bytes_simps]: "le_nat (nat_le k n) = n mod 256 ^ k"
proof (induction k arbitrary: n)
  case 0
  then show ?case by simp
next
  case (Suc k)
  have "unat (of_nat (n mod 256) :: u8) = n mod 256"
    by (simp add: unat_of_nat take_bit_eq_mod)
  with Suc show ?case by (simp add: mod_mult2_eq)
qed

lemma nat_le_le_nat [bytes_simps]: "length bs = k \<Longrightarrow> nat_le k (le_nat bs) = bs"
proof (induction bs arbitrary: k)
  case Nil
  then show ?case by simp
next
  case (Cons b bs)
  have "unat b < 256" using unat_lt_pow [of b] by simp
  then have "(unat b + 256 * le_nat bs) mod 256 = unat b"
    and "(unat b + 256 * le_nat bs) div 256 = le_nat bs" by auto
  with Cons show ?case by (cases k) auto
qed

lemma nat_le_inj: "m < 256 ^ k \<Longrightarrow> n < 256 ^ k \<Longrightarrow> nat_le k m = nat_le k n \<longleftrightarrow> m = n"
  by (metis le_nat_nat_le mod_less)

lemma nat_be_inj: "m < 256 ^ k \<Longrightarrow> n < 256 ^ k \<Longrightarrow> nat_be k m = nat_be k n \<longleftrightarrow> m = n"
  by (simp add: nat_be_def nat_le_inj)

lemma be_nat_nat_be [bytes_simps]: "be_nat (nat_be k n) = n mod 256 ^ k"
  by (simp add: be_nat_def nat_be_def bytes_simps)

lemma be_nat_bound: "be_nat bs < 256 ^ length bs"
  using le_nat_bound [of "rev bs"] by (simp add: be_nat_def)

lemma nat_be_be_nat [bytes_simps]: "length bs = k \<Longrightarrow> nat_be k (be_nat bs) = bs"
  by (simp add: be_nat_def nat_be_def bytes_simps)

lemma le_nat_append: "le_nat (xs @ ys) = le_nat xs + 256 ^ length xs * le_nat ys"
  by (induction xs) (auto simp: algebra_simps)

lemma le_nat_replicate_zero [simp]: "le_nat (replicate n 0) = 0"
  by (induction n) auto

text \<open>Words as byte strings of a given length.\<close>

definition to_le_bytes :: "nat \<Rightarrow> 'a::len word \<Rightarrow> bytes" where
  "to_le_bytes k w = nat_le k (unat w)"

definition to_be_bytes :: "nat \<Rightarrow> 'a::len word \<Rightarrow> bytes" where
  "to_be_bytes k w = nat_be k (unat w)"

definition from_le_bytes :: "bytes \<Rightarrow> 'a::len word" where
  "from_le_bytes bs = of_nat (le_nat bs)"

definition from_be_bytes :: "bytes \<Rightarrow> 'a::len word" where
  "from_be_bytes bs = of_nat (be_nat bs)"

lemma length_to_bytes [simp, bytes_simps]:
  "length (to_le_bytes k w) = k" "length (to_be_bytes k w) = k"
  by (simp_all add: to_le_bytes_def to_be_bytes_def)

lemma unat_lt_256_pow:
  assumes "LENGTH('a::len) \<le> 8 * k"
  shows "unat (w :: 'a word) < 256 ^ k"
proof -
  have "unat w < 2 ^ LENGTH('a)" by (rule unat_lt_pow)
  also have "\<dots> \<le> 2 ^ (8 * k)" using assms by simp
  also have "\<dots> = (256 :: nat) ^ k" by (simp add: power_mult)
  finally show ?thesis .
qed

lemma from_le_to_le [bytes_simps]:
  "LENGTH('a::len) \<le> 8 * k \<Longrightarrow> from_le_bytes (to_le_bytes k w) = (w :: 'a word)"
  by (simp add: from_le_bytes_def to_le_bytes_def bytes_simps unat_lt_256_pow)

lemma from_be_to_be [bytes_simps]:
  "LENGTH('a::len) \<le> 8 * k \<Longrightarrow> from_be_bytes (to_be_bytes k w) = (w :: 'a word)"
  by (simp add: from_be_bytes_def to_be_bytes_def bytes_simps unat_lt_256_pow)

lemma to_be_bytes_inj:
  assumes "LENGTH('a::len) \<le> 8 * k"
  shows "to_be_bytes k (v :: 'a word) = to_be_bytes k w \<longleftrightarrow> v = w"
  using assms by (metis from_be_to_be)

lemma to_le_from_le [bytes_simps]:
  assumes "length bs = k" and "8 * k \<le> LENGTH('a::len)"
  shows "to_le_bytes k (from_le_bytes bs :: 'a word) = bs"
proof -
  have "le_nat bs < 256 ^ k" using le_nat_bound [of bs] assms(1) by simp
  also have "(256 :: nat) ^ k = 2 ^ (8 * k)" by (simp add: power_mult)
  also have "\<dots> \<le> 2 ^ LENGTH('a)" using assms(2) by simp
  finally show ?thesis
    using assms(1) by (simp add: to_le_bytes_def from_le_bytes_def unat_of_nat_lt bytes_simps)
qed

section \<open>Lists\<close>

lemma append_eq_same_length:
  "length xs = length us \<Longrightarrow> xs @ ys = us @ vs \<longleftrightarrow> xs = us \<and> ys = vs"
  by simp

text \<open>\<open>fold\<close> with a possibly failing body: a \<open>for\<close> loop whose body uses \<open>?\<close>.\<close>

fun try_fold :: "('x \<Rightarrow> 's \<Rightarrow> ('s, 'e) result) \<Rightarrow> 'x list \<Rightarrow> 's \<Rightarrow> ('s, 'e) result" where
  "try_fold f [] s = Ok s"
| "try_fold f (x # xs) s = and_then (f x s) (try_fold f xs)"

lemma try_fold_append:
  "try_fold f (xs @ ys) s = and_then (try_fold f xs s) (try_fold f ys)"
proof (induction xs arbitrary: s)
  case Nil
  then show ?case by simp
next
  case (Cons x xs)
  then show ?case by (cases "f x s") auto
qed

lemma try_fold_invariant:
  assumes "\<And>x s s'. x \<in> set xs \<Longrightarrow> P s \<Longrightarrow> f x s = Ok s' \<Longrightarrow> P s'"
    and "P s" and "try_fold f xs s = Ok s'"
  shows "P s'"
  using assms by (induction xs arbitrary: s) (auto simp: result_simps)

section \<open>Time\<close>

type_synonym datetime = int
type_synonym duration = nat

definition from_secs :: "u64 \<Rightarrow> duration" where
  "from_secs s = unat s * 10 ^ 9"

text \<open>
  The last representable instant of the calendar (9999-12-31T23:59:59.999999999Z, in nanoseconds
  since the epoch). Adding a duration beyond it panics.
\<close>

definition datetime_max :: datetime where
  "datetime_max = 253402300799999999999"

definition datetime_add :: "datetime \<Rightarrow> int \<Rightarrow> (datetime, 'e) result" where
  "datetime_add t d = (if t + d \<le> datetime_max then Ok (t + d)
     else Panic ''resulting value is out of range'')"

lemma datetime_add_Ok [result_simps]: "datetime_add t d = Ok t' \<Longrightarrow> t' = t + d"
  by (auto simp: datetime_add_def split: if_splits)

end
