(* ===== verification/TypeConversions.thy ===== *)
theory TypeConversions
  imports Prelude
begin

text \<open>
  The crate \<open>type-conversions\<close>: conversions between field elements, \<open>U256\<close>, raw bytes and
  addresses. The field itself comes from another package, so a conversion takes its operations as
  an argument of type \<open>'f field_api\<close>; the locale \<open>prime_field_repr\<close> states what that package
  documents (canonical 32-byte little-endian representation, reduction modulo the prime when built
  from limbs). The scalar field of BN254 with the modulus of \<open>secrets.rs\<close> is the instance.
\<close>

section \<open>The operations\<close>

record 'f field_api =
  ff_from :: "u64 list \<Rightarrow> 'f"
  ff_to_repr :: "'f \<Rightarrow> bytes"
  ff_from_repr :: "bytes \<Rightarrow> 'f option"

datatype conv_error =
    IncorrectVecLength nat nat
  | Halo2FieldElementCreationFailed
  | HexU256ParseError

text \<open>The four little-endian 64-bit limbs of a \<open>U256\<close>.\<close>

fun nat_limbs :: "nat \<Rightarrow> nat \<Rightarrow> u64 list" where
  "nat_limbs 0 n = []"
| "nat_limbs (Suc k) n = of_nat (n mod 2 ^ 64) # nat_limbs k (n div 2 ^ 64)"

fun limbs_nat :: "u64 list \<Rightarrow> nat" where
  "limbs_nat [] = 0"
| "limbs_nat (l # ls) = unat l + 2 ^ 64 * limbs_nat ls"

definition as_limbs :: "u256 \<Rightarrow> u64 list" where
  "as_limbs v = nat_limbs 4 (unat v)"

definition u256_to_field :: "'f field_api \<Rightarrow> u256 \<Rightarrow> 'f" where
  "u256_to_field FF v = ff_from FF (as_limbs v)"

definition field_to_u256 :: "'f field_api \<Rightarrow> 'f \<Rightarrow> u256" where
  "field_to_u256 FF x = from_le_bytes (ff_to_repr FF x)"

definition byte_vec_to_array :: "nat \<Rightarrow> bytes \<Rightarrow> (bytes, conv_error) result" where
  "byte_vec_to_array n bs =
     (if length bs = n then Ok bs else Err (IncorrectVecLength n (length bs)))"

definition bytes_to_field :: "'f field_api \<Rightarrow> bytes \<Rightarrow> ('f, conv_error) result" where
  "bytes_to_field FF bs = and_then (byte_vec_to_array 32 bs)
     (\<lambda>arr. case ff_from_repr FF arr of
        Some x \<Rightarrow> Ok x
      | None \<Rightarrow> Err Halo2FieldElementCreationFailed)"

definition field_to_bytes :: "'f field_api \<Rightarrow> 'f \<Rightarrow> bytes" where
  "field_to_bytes FF x = ff_to_repr FF x"

text \<open>\<open>U256::from_str\<close> is the parameter \<open>parse\<close>.\<close>

definition hex_to_u256 :: "(string \<Rightarrow> u256 option) \<Rightarrow> string \<Rightarrow> (u256, conv_error) result" where
  "hex_to_u256 parse hex = ok_or (parse hex) HexU256ParseError"

definition hex_32_to_f ::
  "'f field_api \<Rightarrow> (string \<Rightarrow> u256 option) \<Rightarrow> string \<Rightarrow> ('f, conv_error) result" where
  "hex_32_to_f FF parse hex = and_then (hex_to_u256 parse hex) (\<lambda>v. Ok (u256_to_field FF v))"

definition bytes_to_u256 :: "bytes \<Rightarrow> (u256, conv_error) result" where
  "bytes_to_u256 bs = and_then (byte_vec_to_array 32 bs) (\<lambda>arr. Ok (from_le_bytes arr))"

definition u256_to_bytes :: "u256 \<Rightarrow> bytes" where
  "u256_to_bytes v = to_le_bytes 32 v"

text \<open>An address is 20 bytes, most significant first.\<close>

definition address_as_slice :: "address \<Rightarrow> bytes" where
  "address_as_slice a = to_be_bytes 20 a"

definition address_to_field :: "'f field_api \<Rightarrow> address \<Rightarrow> 'f" where
  "address_to_field FF a =
     (let bs = replicate 12 0 @ address_as_slice a
      in u256_to_field FF (from_be_bytes bs))"

definition field_to_address :: "'f field_api \<Rightarrow> 'f \<Rightarrow> address" where
  "field_to_address FF x = (let bs = rev (ff_to_repr FF x) in from_be_bytes (drop 12 bs))"

definition address_to_u256 :: "address \<Rightarrow> u256" where
  "address_to_u256 a = from_be_bytes (replicate 12 0 @ address_as_slice a)"

definition to_bytes_le :: "'f field_api \<Rightarrow> 'f \<Rightarrow> bytes" where
  "to_bytes_le FF x = ff_to_repr FF x"

definition to_bytes_be :: "'f field_api \<Rightarrow> 'f \<Rightarrow> bytes" where
  "to_bytes_be FF x = rev (to_bytes_le FF x)"

section \<open>Limbs and bytes\<close>

lemma length_nat_limbs [simp]: "length (nat_limbs k n) = k"
  by (induction k arbitrary: n) auto

lemma limbs_nat_nat_limbs: "limbs_nat (nat_limbs k n) = n mod (2 ^ 64) ^ k"
proof (induction k arbitrary: n)
  case 0
  then show ?case by simp
next
  case (Suc k)
  have "unat (of_nat (n mod 2 ^ 64) :: u64) = n mod 2 ^ 64"
    by (rule unat_of_nat_lt) simp
  with Suc show ?case by (simp add: mod_mult2_eq)
qed

lemma length_as_limbs [simp]: "length (as_limbs v) = 4"
  by (simp add: as_limbs_def)

lemma limbs_nat_as_limbs [simp]: "limbs_nat (as_limbs v) = unat v"
  using unat_lt_pow [of v] by (simp add: as_limbs_def limbs_nat_nat_limbs)

lemma be_nat_zero_prefix [simp]: "be_nat (replicate k 0 @ bs) = be_nat bs"
  by (simp add: be_nat_def le_nat_append)

lemma be_nat_address [simp]: "be_nat (address_as_slice a) = unat a"
  using unat_lt_256_pow [of 20 a] by (simp add: address_as_slice_def to_be_bytes_def bytes_simps)

lemma unat_address_lt: "unat (a :: address) < 2 ^ 160"
  using unat_lt_pow [of a] by simp

lemma unat_address_to_u256 [simp]: "unat (address_to_u256 a) = unat a"
proof -
  have "unat a < 2 ^ LENGTH(256)" using unat_address_lt [of a] by (rule less_trans) simp
  from unat_of_nat_lt [OF this] show ?thesis
    unfolding address_to_u256_def from_be_bytes_def be_nat_zero_prefix be_nat_address .
qed

lemma address_to_u256_inj: "address_to_u256 a = address_to_u256 b \<longleftrightarrow> a = b"
  by (metis unat_address_to_u256 word_unat_eq_iff)

lemma address_to_field_alt: "address_to_field FF a = u256_to_field FF (address_to_u256 a)"
  by (simp add: address_to_field_def address_to_u256_def)

lemma drop_rev_nat_le:
  assumes "j \<le> k"
  shows "drop (k - j) (rev (nat_le k n)) = rev (nat_le j n)"
proof -
  have "take j (nat_le k n) = nat_le j n" using assms
  proof (induction k arbitrary: n j)
    case 0
    then show ?case by simp
  next
    case (Suc k)
    then show ?case by (cases j) auto
  qed
  then show ?thesis using assms by (simp add: drop_rev)
qed

section \<open>What the field package documents\<close>

locale prime_field_repr =
  fixes FF :: "'f field_api" and p :: nat and val :: "'f \<Rightarrow> nat"
  assumes val_lt: "val x < p"
    and val_inj: "val x = val y \<Longrightarrow> x = y"
    and p_bound: "p \<le> 256 ^ 32"
    and to_repr: "ff_to_repr FF x = nat_le 32 (val x)"
    and from_repr: "length bs = 32 \<Longrightarrow> ff_from_repr FF bs = Some x \<longleftrightarrow> le_nat bs = val x"
    and from_limbs: "length ls = 4 \<Longrightarrow> val (ff_from FF ls) = limbs_nat ls mod p"
begin

lemma val_u256_to_field: "val (u256_to_field FF v) = unat v mod p"
  by (simp add: u256_to_field_def from_limbs)

lemma val_bound: "val x < 2 ^ LENGTH(256)"
  using val_lt [of x] p_bound by simp

lemma le_nat_to_repr: "le_nat (ff_to_repr FF x) = val x"
  using val_lt [of x] p_bound by (simp add: to_repr bytes_simps)

lemma field_to_u256_val: "unat (field_to_u256 FF x) = val x"
  unfolding field_to_u256_def from_le_bytes_def le_nat_to_repr
  by (rule unat_of_nat_lt [OF val_bound])

lemma field_u256_roundtrip: "u256_to_field FF (field_to_u256 FF x) = x"
  by (rule val_inj) (simp add: val_u256_to_field field_to_u256_val val_lt)

lemma u256_field_reduces: "unat (field_to_u256 FF (u256_to_field FF v)) = unat v mod p"
  by (simp add: field_to_u256_val val_u256_to_field)

lemma u256_field_roundtrip: "unat v < p \<Longrightarrow> field_to_u256 FF (u256_to_field FF v) = v"
  by (simp add: word_unat_eq_iff u256_field_reduces)

lemma u256_to_field_eq_iff:
  "u256_to_field FF v = u256_to_field FF w \<longleftrightarrow> unat v mod p = unat w mod p"
  by (metis val_u256_to_field val_inj)

lemma bytes_field_roundtrip: "bytes_to_field FF (field_to_bytes FF x) = Ok x"
proof -
  have "length (ff_to_repr FF x) = 32" by (simp add: to_repr)
  moreover from this have "ff_from_repr FF (ff_to_repr FF x) = Some x"
    by (simp add: from_repr le_nat_to_repr)
  ultimately show ?thesis
    by (simp add: bytes_to_field_def byte_vec_to_array_def field_to_bytes_def)
qed

lemma bytes_to_field_Ok_iff:
  "bytes_to_field FF bs = Ok x \<longleftrightarrow> bs = field_to_bytes FF x"
proof
  assume "bytes_to_field FF bs = Ok x"
  then have len: "length bs = 32" and "ff_from_repr FF bs = Some x"
    by (auto simp: bytes_to_field_def byte_vec_to_array_def split: if_splits option.splits)
  then have "le_nat bs = val x" by (simp add: from_repr)
  then show "bs = field_to_bytes FF x"
    using len nat_le_le_nat [of bs 32] by (simp add: field_to_bytes_def to_repr)
next
  assume "bs = field_to_bytes FF x"
  then show "bytes_to_field FF bs = Ok x" by (simp add: bytes_field_roundtrip)
qed

lemma field_to_address_val: "unat (field_to_address FF x) = val x mod 2 ^ 160"
proof -
  have "drop 12 (rev (nat_le 32 (val x))) = nat_be 20 (val x)"
    using drop_rev_nat_le [of 20 32 "val x"] by (simp add: nat_be_def)
  then have "field_to_address FF x = of_nat (val x mod 2 ^ 160)"
    by (simp add: field_to_address_def to_repr from_be_bytes_def bytes_simps)
  then show ?thesis by (simp add: unat_of_nat take_bit_eq_mod)
qed

end

text \<open>A field whose modulus exceeds every address value, as every field of the protocol does.\<close>

locale address_field = prime_field_repr +
  assumes address_fits: "2 ^ 160 \<le> p"
begin

lemma val_address_to_field: "val (address_to_field FF a) = unat a"
  using unat_address_lt [of a] address_fits
  by (simp add: address_to_field_alt val_u256_to_field)

lemma address_field_roundtrip: "field_to_address FF (address_to_field FF a) = a"
  using unat_address_lt [of a]
  by (simp add: word_unat_eq_iff field_to_address_val val_address_to_field)

lemma address_to_field_inj: "address_to_field FF a = address_to_field FF b \<longleftrightarrow> a = b"
  by (metis address_field_roundtrip)

end

section \<open>The scalar field of BN254\<close>

definition FIELD_MODULUS :: u256 where
  "FIELD_MODULUS = of_nat (limbs_nat
     [0x43e1f593f0000001, 0x2833e84879b97091, 0xb85045b68181585d, 0x30644e72e131a029])"

definition fr_modulus :: nat where
  "fr_modulus = 0x30644e72e131a029b85045b68181585d2833e84879b9709143e1f593f0000001"

lemma unat_FIELD_MODULUS: "unat FIELD_MODULUS = fr_modulus"
  by (simp add: FIELD_MODULUS_def fr_modulus_def)

lemma fr_modulus_bounds:
  "0 < fr_modulus" "fr_modulus \<le> 256 ^ 32" "fr_modulus < 2 ^ 254" "2 ^ 160 \<le> fr_modulus"
  "2 ^ 252 \<le> fr_modulus"
  by (simp_all add: fr_modulus_def)

typedef fr = "{n. n < fr_modulus}" morphisms fr_val Abs_fr
  by (rule exI [of _ 0]) (simp add: fr_modulus_bounds)

definition fr_of_nat :: "nat \<Rightarrow> fr" where
  "fr_of_nat n = Abs_fr (n mod fr_modulus)"

lemma fr_val_of_nat [simp]: "fr_val (fr_of_nat n) = n mod fr_modulus"
  by (simp add: fr_of_nat_def Abs_fr_inverse fr_modulus_bounds)

lemma fr_of_nat_val [simp]: "fr_of_nat (fr_val x) = x"
  using fr_val [of x] by (simp add: fr_of_nat_def fr_val_inverse)

lemma fr_val_lt: "fr_val x < fr_modulus"
  using fr_val [of x] by simp

definition Fr :: "fr field_api" where
  "Fr = \<lparr>
     ff_from = (\<lambda>ls. fr_of_nat (limbs_nat ls)),
     ff_to_repr = (\<lambda>x. nat_le 32 (fr_val x)),
     ff_from_repr = (\<lambda>bs. if le_nat bs < fr_modulus then Some (fr_of_nat (le_nat bs)) else None) \<rparr>"

interpretation bn254: address_field Fr fr_modulus fr_val
proof unfold_locales
  show "fr_modulus \<le> 256 ^ 32" "2 ^ 160 \<le> fr_modulus" by (rule fr_modulus_bounds)+
next
  fix bs :: bytes and x :: fr
  show "(ff_from_repr Fr bs = Some x) = (le_nat bs = fr_val x)"
    by (auto simp: Fr_def fr_val_lt)
qed (auto simp: Fr_def fr_val_lt fr_val_inject)

section \<open>Correctness of the conversions\<close>

text \<open>
  A \<open>U256\<close> below the modulus survives the trip through the field, and any other value comes back
  reduced: the two conversions are inverse exactly on the canonical range.
\<close>

lemma field_to_u256_u256_to_field_iff:
  "field_to_u256 Fr (u256_to_field Fr v) = v \<longleftrightarrow> unat v < fr_modulus"
proof
  assume "field_to_u256 Fr (u256_to_field Fr v) = v"
  then show "unat v < fr_modulus"
    by (metis bn254.field_to_u256_val fr_val_lt)
qed (rule bn254.u256_field_roundtrip)

lemma bytes_to_u256_roundtrip: "bytes_to_u256 (u256_to_bytes v) = Ok v"
  by (simp add: bytes_to_u256_def u256_to_bytes_def byte_vec_to_array_def bytes_simps)

lemma u256_to_bytes_of_Ok: "bytes_to_u256 bs = Ok v \<longleftrightarrow> bs = u256_to_bytes v"
  by (auto simp: bytes_to_u256_def u256_to_bytes_def byte_vec_to_array_def bytes_simps)

end
