(* ===== verification/FrRing.thy ===== *)
theory FrRing
  imports TypeConversions
begin

text \<open>
  The scalar field of BN254 as a commutative ring, so that what the generated verifiers compute
  modulo \<open>r\<close> is stated with the ring operations on \<open>fr\<close>. A machine word stands for the field element
  \<open>felt w\<close>; \<open>addmod\<close>, \<open>mulmod\<close> and \<open>sub(r, _)\<close> on words are the ring operations, as long as the
  subtrahend does not exceed the modulus.
\<close>

named_theorems felt_simps \<open>words of the verifier as field elements\<close>

section \<open>Ring structure\<close>

lemma fr_modulus_neq_1: "fr_modulus \<noteq> Suc 0" "1 mod fr_modulus = 1"
  by (simp_all add: fr_modulus_def)

lemma fr_eqI: "fr_val x = fr_val y \<Longrightarrow> x = y"
  by (simp add: fr_val_inject)

instantiation fr :: comm_ring_1
begin

definition zero_fr :: fr where "zero_fr = fr_of_nat 0"
definition one_fr :: fr where "one_fr = fr_of_nat 1"
definition plus_fr :: "fr \<Rightarrow> fr \<Rightarrow> fr" where "plus_fr x y = fr_of_nat (fr_val x + fr_val y)"
definition times_fr :: "fr \<Rightarrow> fr \<Rightarrow> fr" where "times_fr x y = fr_of_nat (fr_val x * fr_val y)"
definition uminus_fr :: "fr \<Rightarrow> fr" where "uminus_fr x = fr_of_nat (fr_modulus - fr_val x)"
definition minus_fr :: "fr \<Rightarrow> fr \<Rightarrow> fr" where "minus_fr x y = x + - (y :: fr)"

instance
proof
  fix a b c :: fr
  have le: "fr_val a \<le> fr_modulus" using fr_val_lt [of a] by simp
  show "a + b + c = a + (b + c)"
    by (rule fr_eqI) (simp add: plus_fr_def mod_simps add.assoc)
  show "a + b = b + a" by (simp add: plus_fr_def add.commute)
  show "0 + a = a"
    by (rule fr_eqI) (simp add: plus_fr_def zero_fr_def fr_val_lt)
  show "- a + a = 0"
    by (rule fr_eqI) (simp add: plus_fr_def uminus_fr_def zero_fr_def mod_simps le)
  show "a - b = a + - b" by (simp add: minus_fr_def)
  show "a * b * c = a * (b * c)"
    by (rule fr_eqI) (simp add: times_fr_def mod_simps mult.assoc)
  show "a * b = b * a" by (simp add: times_fr_def mult.commute)
  show "1 * a = a"
    by (rule fr_eqI) (simp add: times_fr_def one_fr_def fr_val_lt fr_modulus_neq_1)
  show "(a + b) * c = a * c + b * c"
    by (rule fr_eqI) (simp add: times_fr_def plus_fr_def mod_simps add_mult_distrib)
  have "fr_val 0 \<noteq> fr_val 1" by (simp add: zero_fr_def one_fr_def fr_modulus_def)
  then show "(0 :: fr) \<noteq> 1" by auto
qed

end

section \<open>Naturals and words as field elements\<close>

lemma fr_of_nat_eq_iff: "fr_of_nat m = fr_of_nat n \<longleftrightarrow> m mod fr_modulus = n mod fr_modulus"
  by (metis fr_val_of_nat fr_eqI)

lemma fr_of_nat_add: "fr_of_nat (m + n) = fr_of_nat m + fr_of_nat n"
  by (rule fr_eqI) (simp add: plus_fr_def mod_simps)

lemma fr_of_nat_mult: "fr_of_nat (m * n) = fr_of_nat m * fr_of_nat n"
  by (rule fr_eqI) (simp add: times_fr_def mod_simps)

lemma fr_of_nat_mod [simp]: "fr_of_nat (n mod fr_modulus) = fr_of_nat n"
  by (simp add: fr_of_nat_eq_iff)

lemma fr_of_nat_0 [simp]: "fr_of_nat 0 = 0"
  by (simp add: zero_fr_def)

lemma fr_of_nat_1 [simp]: "fr_of_nat (Suc 0) = 1"
  by (simp add: one_fr_def)

lemma fr_of_nat_modulus [simp]: "fr_of_nat fr_modulus = 0"
  by (simp only: zero_fr_def fr_of_nat_eq_iff mod_self mod_0)

lemma fr_of_nat_complement:
  assumes "n \<le> fr_modulus"
  shows "fr_of_nat (fr_modulus - n) = - fr_of_nat n"
proof -
  have "fr_of_nat (fr_modulus - n) + fr_of_nat n = 0"
    using assms by (simp flip: fr_of_nat_add)
  then show ?thesis by (simp add: eq_neg_iff_add_eq_0)
qed

definition felt :: "u256 \<Rightarrow> fr" where
  "felt w = fr_of_nat (unat w)"

text \<open>A word the arithmetic may take as an operand: at most the modulus, which \<open>sub(r, 0)\<close> yields.\<close>

definition reduced :: "u256 \<Rightarrow> bool" where
  "reduced w \<longleftrightarrow> unat w \<le> fr_modulus"

lemma fr_modulus_lt_word: "fr_modulus < 2 ^ LENGTH(256)"
  by (simp add: fr_modulus_def)

lemma unat_of_nat_le_modulus: "n \<le> fr_modulus \<Longrightarrow> unat (of_nat n :: u256) = n"
  using fr_modulus_lt_word by (intro unat_of_nat_lt) simp

lemma felt_of_nat [felt_simps]: "n \<le> fr_modulus \<Longrightarrow> felt (of_nat n) = fr_of_nat n"
  by (simp only: felt_def unat_of_nat_le_modulus)

lemma reduced_of_nat [felt_simps]: "n \<le> fr_modulus \<Longrightarrow> reduced (of_nat n)"
  by (simp only: reduced_def unat_of_nat_le_modulus)

lemma reduced_mod [felt_simps]: "reduced (of_nat (n mod fr_modulus))"
  using fr_modulus_bounds by (intro reduced_of_nat) (simp add: less_imp_le)

lemma felt_mod [felt_simps]: "felt (of_nat (n mod fr_modulus)) = fr_of_nat n"
  using fr_modulus_bounds by (subst felt_of_nat) (simp_all add: less_imp_le)

lemma reduced_0 [felt_simps]: "reduced 0"
  by (simp add: reduced_def)

lemma reduced_1 [felt_simps]: "reduced 1"
  by (simp add: reduced_def fr_modulus_def)

lemma felt_0 [felt_simps]: "felt 0 = 0"
  by (simp add: felt_def)

lemma felt_1 [felt_simps]: "felt 1 = 1"
  by (simp add: felt_def)

lemma sub_modulus:
  assumes "reduced w"
  shows "unat (of_nat fr_modulus - w) = fr_modulus - unat w"
  using assms
  by (subst unat_sub) (simp_all add: reduced_def word_le_nat_alt unat_of_nat_le_modulus)

lemma felt_sub [felt_simps]: "reduced w \<Longrightarrow> felt (of_nat fr_modulus - w) = - felt w"
  by (simp add: felt_def sub_modulus reduced_def fr_of_nat_complement)

lemma reduced_sub [felt_simps]: "reduced w \<Longrightarrow> reduced (of_nat fr_modulus - w)"
  by (simp add: reduced_def sub_modulus)

lemma fr_of_nat_val_felt: "fr_val (felt w) = unat w mod fr_modulus"
  by (simp add: felt_def)

lemma felt_field_to_u256 [felt_simps]: "felt (field_to_u256 Fr x) = x"
  by (simp add: felt_def bn254.field_to_u256_val)

lemma reduced_field_to_u256 [felt_simps]: "reduced (field_to_u256 Fr x)"
  using fr_val_lt [of x] by (simp add: reduced_def bn254.field_to_u256_val)

end
