(* ===== verification/Yul.thy ===== *)
theory Yul
  imports FrRing "HOL-Library.Monad_Syntax"
begin

text \<open>
  Rust number formatting, and the part of Yul (the assembly of Solidity) in which the generated
  verifiers are written: expressions as text and as terms, a parser of the text that undoes the
  printer, and the execution of lines of text over variables, memory and calldata. The generator
  handles text only; this theory is what that text means, so that its output can be proved right.

  Failure is \<open>None\<close>: of a Rust function a panic, of the execution a line that is not well formed, an
  unknown identifier, or the declaration of a variable that is already declared.
\<close>

named_theorems yul_simps \<open>reading and running printed lines\<close>

section \<open>Numbers\<close>

definition digit_char :: "nat \<Rightarrow> char" where
  "digit_char d = char_of (if d < 10 then 48 + d else 87 + d)"

definition digit_val :: "char \<Rightarrow> nat" where
  "digit_val c = (let x = of_char c in if x < 58 then x - 48 else x - 87)"

function show_base :: "nat \<Rightarrow> nat \<Rightarrow> string" where
  "show_base b n = (if b < 2 \<or> n < b then [digit_char n]
     else show_base b (n div b) @ [digit_char (n mod b)])"
  by auto
termination by (relation "measure snd") (auto simp: div_less_dividend)

declare show_base.simps [simp del]

text \<open>\<open>{n}\<close> and \<open>{n:x}\<close> of Rust's formatting.\<close>

definition show_dec :: "nat \<Rightarrow> string" where
  "show_dec n = show_base 10 n"

definition show_hex :: "nat \<Rightarrow> string" where
  "show_hex n = show_base 16 n"

definition read_base :: "nat \<Rightarrow> string \<Rightarrow> nat" where
  "read_base b s = foldl (\<lambda>acc c. acc * b + digit_val c) 0 s"

lemma digit_val_char [simp]: "d < 16 \<Longrightarrow> digit_val (digit_char d) = d"
  by (auto simp: digit_val_def digit_char_def Let_def)

lemma read_show_base:
  assumes "2 \<le> b" and "b \<le> 16"
  shows "read_base b (show_base b n) = n"
  using assms
proof (induction b n rule: show_base.induct)
  case (1 b n)
  show ?case
  proof (cases "n < b")
    case True
    with 1 show ?thesis by (simp add: show_base.simps [of b n] read_base_def)
  next
    case False
    then have "read_base b (show_base b (n div b)) = n div b" using 1 by simp
    moreover have "n mod b < 16" using 1(2,3) mod_less_divisor [of b n] by linarith
    ultimately show ?thesis
      using False 1(2) by (simp add: show_base.simps [of b n] read_base_def)
  qed
qed

lemma show_hex_inj: "show_hex m = show_hex n \<longleftrightarrow> m = n"
  unfolding show_hex_def by (rule iffI, drule arg_cong [of _ _ "read_base 16"]) (simp_all add: read_show_base)

lemma show_dec_inj: "show_dec m = show_dec n \<longleftrightarrow> m = n"
  unfolding show_dec_def by (rule iffI, drule arg_cong [of _ _ "read_base 10"]) (simp_all add: read_show_base)


definition ident_char :: "char \<Rightarrow> bool" where
  "ident_char c = (let x = (of_char c :: nat)
     in 48 \<le> x \<and> x \<le> 57 \<or> 65 \<le> x \<and> x \<le> 90 \<or> x = 95 \<or> 97 \<le> x \<and> x \<le> 122)"

definition starts_with_digit :: "string \<Rightarrow> bool" where
  "starts_with_digit s = (case s of [] \<Rightarrow> False | c # _ \<Rightarrow> (of_char c :: nat) \<in> {48..57})"

definition word_ok :: "string \<Rightarrow> bool" where
  "word_ok s \<longleftrightarrow> s \<noteq> [] \<and> list_all ident_char s"

definition ident_ok :: "string \<Rightarrow> bool" where
  "ident_ok s \<longleftrightarrow> word_ok s \<and> \<not> starts_with_digit s"

lemma ident_char_digit: "d < 16 \<Longrightarrow> ident_char (digit_char d)"
  by (auto simp: ident_char_def digit_char_def Let_def)

lemma ident_char_show_base:
  "2 \<le> b \<Longrightarrow> b \<le> 16 \<Longrightarrow> list_all ident_char (show_base b n)"
proof (induction b n rule: show_base.induct)
  case (1 b n)
  have "n mod b < 16" using 1(2,3) mod_less_divisor [of b n] by linarith
  with 1 show ?case by (subst show_base.simps) (auto intro: ident_char_digit)
qed

lemma show_base_not_Nil [simp]: "show_base b n \<noteq> []"
  by (subst show_base.simps) simp

lemma word_ok_show [yul_simps]: "word_ok (show_dec n)" "word_ok (''0x'' @ show_hex n)"
  "word_ok (show_hex n)"
  by (simp_all add: word_ok_def show_dec_def show_hex_def ident_char_show_base)
    (simp_all add: ident_char_def)

lemma word_ok_append [yul_simps]:
  "word_ok s \<Longrightarrow> list_all ident_char t \<Longrightarrow> word_ok (s @ t)"
  "word_ok s \<Longrightarrow> list_all ident_char t \<Longrightarrow> word_ok (t @ s)"
  by (auto simp: word_ok_def)

lemma starts_with_digit_append [yul_simps]:
  "s \<noteq> [] \<Longrightarrow> starts_with_digit (s @ t) = starts_with_digit s"
  by (cases s) (auto simp: starts_with_digit_def)

section \<open>Expressions\<close>

datatype yul = Atom string | Call string "yul list"

fun show_yul :: "yul \<Rightarrow> string" and show_args :: "yul list \<Rightarrow> string" where
  "show_yul (Atom w) = w"
| "show_yul (Call f es) = f @ ''('' @ show_args es @ '')''"
| "show_args [] = []"
| "show_args [e] = show_yul e"
| "show_args (e # e' # es) = show_yul e @ '', '' @ show_args (e' # es)"

fun yul_ok :: "yul \<Rightarrow> bool" where
  "yul_ok (Atom w) = word_ok w"
| "yul_ok (Call f es) = (word_ok f \<and> es \<noteq> [] \<and> list_all yul_ok es)"

text \<open>The parser; the fuel bounds the characters it may still read.\<close>

fun parse_yul :: "nat \<Rightarrow> string \<Rightarrow> (yul \<times> string) option"
  and parse_args :: "nat \<Rightarrow> string \<Rightarrow> (yul list \<times> string) option" where
  "parse_yul 0 s = None"
| "parse_yul (Suc n) s =
     (let w = takeWhile ident_char s; s' = dropWhile ident_char s
      in if w = [] then None
         else if take 1 s' = ''('' then
           (case parse_args n (drop 1 s') of Some (es, t) \<Rightarrow> Some (Call w es, t) | None \<Rightarrow> None)
         else Some (Atom w, s'))"
| "parse_args 0 s = None"
| "parse_args (Suc n) s =
     (case parse_yul n s of
        None \<Rightarrow> None
      | Some (e, t) \<Rightarrow>
          if take 1 t = '')'' then Some ([e], drop 1 t)
          else if take 2 t = '', '' then
            (case parse_args n (drop 2 t) of Some (es, u) \<Rightarrow> Some (e # es, u) | None \<Rightarrow> None)
          else None)"

definition parse_expr :: "string \<Rightarrow> yul option" where
  "parse_expr s = (case parse_yul (length s) s of Some (e, []) \<Rightarrow> Some e | _ \<Rightarrow> None)"

definition delimited :: "string \<Rightarrow> bool" where
  "delimited s = (case s of [] \<Rightarrow> True | c # _ \<Rightarrow> c = CHR '')'' \<or> c = CHR '','')"

lemma delimited_simps [simp]:
  "delimited []" "delimited (CHR '')'' # s)" "delimited (CHR '','' # s)"
  by (simp_all add: delimited_def)

lemma delimited_split:
  assumes "delimited t" and "word_ok w"
  shows "takeWhile ident_char (w @ t) = w" "dropWhile ident_char (w @ t) = t" "take 1 t \<noteq> ''(''"
proof -
  have "takeWhile ident_char t = [] \<and> dropWhile ident_char t = t \<and> take 1 t \<noteq> ''(''"
    using assms(1) by (auto simp: delimited_def ident_char_def split: list.splits)
  with assms(2) show "takeWhile ident_char (w @ t) = w" "dropWhile ident_char (w @ t) = t"
    "take 1 t \<noteq> ''(''"
    by (simp_all add: word_ok_def list_all_iff takeWhile_append dropWhile_append)
qed

lemma open_split:
  assumes "word_ok w"
  shows "takeWhile ident_char (w @ CHR ''('' # t) = w"
    "dropWhile ident_char (w @ CHR ''('' # t) = CHR ''('' # t"
  using assms by (simp_all add: word_ok_def list_all_iff takeWhile_append dropWhile_append ident_char_def)

lemma parse_show:
  shows "\<And>n t. yul_ok e \<Longrightarrow> length (show_yul e) \<le> n \<Longrightarrow> delimited t \<Longrightarrow>
      parse_yul n (show_yul e @ t) = Some (e, t)"
    and "\<And>n t. list_all yul_ok es \<Longrightarrow> es \<noteq> [] \<Longrightarrow> length (show_args es) < n \<Longrightarrow>
      parse_args n (show_args es @ CHR '')'' # t) = Some (es, t)"
proof (induction e and es rule: show_yul_show_args.induct)
  case (1 w)
  then have "w \<noteq> []" by (simp add: word_ok_def)
  moreover from this 1 obtain m where "n = Suc m" by (cases n) auto
  ultimately show ?case using delimited_split [OF 1(3), of w] 1 by simp
next
  case (2 f es)
  then have f: "word_ok f" "f \<noteq> []" by (auto simp: word_ok_def)
  obtain m where n: "n = Suc m" using 2(3) by (cases n) auto
  have "length (show_args es) < m" using 2(3) f(2) by (cases f) (auto simp: n)
  with 2 have "parse_args m (show_args es @ CHR '')'' # t) = Some (es, t)" by simp
  then show ?case using open_split [OF f(1), of "show_args es @ CHR '')'' # t"] f(2)
    by (simp add: n)
next
  case 3
  then show ?case by simp
next
  case (4 e)
  obtain m where n: "n = Suc m" using 4(4) by (cases n) auto
  have "parse_yul m (show_yul e @ CHR '')'' # t) = Some (e, CHR '')'' # t)"
    using 4 by (simp add: n)
  then show ?case by (simp add: n)
next
  case (5 e e' es)
  obtain m where n: "n = Suc m" using 5(5) by (cases n) auto
  let ?u = "show_args (e' # es) @ CHR '')'' # t"
  have "parse_yul m (show_yul e @ CHR '','' # CHR '' '' # ?u) = Some (e, CHR '','' # CHR '' '' # ?u)"
    using 5 by (simp add: n)
  moreover have "parse_args m ?u = Some (e' # es, t)" using 5 by (simp add: n)
  ultimately show ?case by (simp add: n)
qed

lemma parse_expr_show [yul_simps]: "yul_ok e \<Longrightarrow> parse_expr (show_yul e) = Some e"
  using parse_show(1) [of e "length (show_yul e)" "[]"] by (simp add: parse_expr_def)

lemma show_yul_inj: "yul_ok e \<Longrightarrow> yul_ok e' \<Longrightarrow> show_yul e = show_yul e' \<longleftrightarrow> e = e'"
  by (metis parse_expr_show option.inject)

text \<open>What the parser accepts is exactly what the printer prints.\<close>

lemma parse_sound:
  "parse_yul n s = Some (e, t) \<Longrightarrow> s = show_yul e @ t \<and> yul_ok e"
  "parse_args n s = Some (es, t) \<Longrightarrow>
     s = show_args es @ CHR '')'' # t \<and> list_all yul_ok es \<and> es \<noteq> []"
proof (induction n s and n s arbitrary: e t and es t rule: parse_yul_parse_args.induct)
  case (2 n s)
  let ?w = "takeWhile ident_char s" and ?s = "dropWhile ident_char s"
  have w: "?w \<noteq> [] \<Longrightarrow> word_ok ?w"
    by (auto simp: word_ok_def list_all_iff dest: set_takeWhileD)
  have s: "s = ?w @ ?s" by simp
  show ?case
  proof (cases "take 1 ?s = ''(''")
    case True
    then have call: "?s = CHR ''('' # drop 1 ?s" by (cases ?s) auto
    from 2(2) True obtain es where "?w \<noteq> []" "parse_args n (drop 1 ?s) = Some (es, t)"
      "e = Call ?w es"
      by (auto simp: Let_def split: if_splits option.splits)
    with 2(1) [OF refl refl _ True, of es t] w s call show ?thesis
      by (metis append.assoc append_Cons append_Nil show_yul.simps(2) yul_ok.simps(2))
  next
    case False
    with 2(2) have "?w \<noteq> []" "e = Atom ?w" "t = ?s" by (auto simp: Let_def split: if_splits)
    with w show ?thesis by simp
  qed
next
  case (4 n s)
  from 4(3) obtain e1 u where e1: "parse_yul n s = Some (e1, u)"
    by (auto split: option.splits)
  with 4(1) have s: "s = show_yul e1 @ u" "yul_ok e1" by auto
  show ?case
  proof (cases "take 1 u = '')''")
    case True
    then have "u = CHR '')'' # drop 1 u" by (cases u) auto
    with True 4(3) e1 s show ?thesis by (auto split: if_splits)
  next
    case False
    with 4(3) e1 obtain es' where u: "take 2 u = '', ''"
      "parse_args n (drop 2 u) = Some (es', t)" "es = e1 # es'"
      by (auto split: if_splits option.splits)
    then have "u = '', '' @ drop 2 u" by (metis append_take_drop_id)
    moreover have "drop 2 u = show_args es' @ CHR '')'' # t \<and> list_all yul_ok es' \<and> es' \<noteq> []"
      using 4(2) [OF e1 refl False u(1) u(2)] by simp
    ultimately show ?thesis using s u(3) by (cases es') auto
  qed
qed auto

lemma parse_exprD: "parse_expr s = Some e \<Longrightarrow> s = show_yul e \<and> yul_ok e"
  by (auto simp: parse_expr_def dest!: parse_sound(1) split: option.splits prod.splits list.splits)

lemma parse_expr_iff: "parse_expr s = Some e \<longleftrightarrow> s = show_yul e \<and> yul_ok e"
  using parse_exprD parse_expr_show by blast

section \<open>Execution\<close>

text \<open>
  Memory and calldata hold one word at each byte offset that is used; an access to memory at an
  offset that is not a multiple of 32 is not covered and fails.
\<close>

record yul_state =
  ys_vars :: "string \<Rightarrow> u256 option"
  ys_memory :: "nat \<Rightarrow> u256"
  ys_calldata :: "nat \<Rightarrow> u256"

definition addmod :: "u256 \<Rightarrow> u256 \<Rightarrow> u256 \<Rightarrow> u256" where
  "addmod a b m = (if m = 0 then 0 else of_nat ((unat a + unat b) mod unat m))"

definition mulmod :: "u256 \<Rightarrow> u256 \<Rightarrow> u256 \<Rightarrow> u256" where
  "mulmod a b m = (if m = 0 then 0 else of_nat ((unat a * unat b) mod unat m))"

definition builtin ::
  "(nat \<Rightarrow> u256) \<Rightarrow> (nat \<Rightarrow> u256) \<Rightarrow> string \<Rightarrow> u256 list \<Rightarrow> u256 option" where
  "builtin memory calldata f vs = (case vs of
      [a] \<Rightarrow> if f = ''calldataload'' then Some (calldata (unat a))
        else if f = ''mload'' \<and> 32 dvd unat a then Some (memory (unat a)) else None
    | [a, b] \<Rightarrow> if f = ''sub'' then Some (a - b) else if f = ''add'' then Some (a + b) else None
    | [a, b, m] \<Rightarrow> if f = ''addmod'' then Some (addmod a b m)
        else if f = ''mulmod'' then Some (mulmod a b m) else None
    | _ \<Rightarrow> None)"

definition literal :: "string \<Rightarrow> u256" where
  "literal w = of_nat (if take 2 w = ''0x'' then read_base 16 (drop 2 w) else read_base 10 w)"

fun eval_yul :: "yul_state \<Rightarrow> yul \<Rightarrow> u256 option"
  and eval_args :: "yul_state \<Rightarrow> yul list \<Rightarrow> u256 list option" where
  "eval_yul st (Atom w) = (if starts_with_digit w then Some (literal w) else ys_vars st w)"
| "eval_yul st (Call f es) = Option.bind (eval_args st es) (builtin (ys_memory st) (ys_calldata st) f)"
| "eval_args st [] = Some []"
| "eval_args st (e # es) =
     Option.bind (eval_yul st e) (\<lambda>v. map_option ((#) v) (eval_args st es))"

definition eval_text :: "yul_state \<Rightarrow> string \<Rightarrow> u256 option" where
  "eval_text st s = Option.bind (parse_expr s) (eval_yul st)"

text \<open>
  A line declares a variable, assigns to one, stores a word, or opens or closes a block. The
  variables declared in a block are gone at its end; none may be declared twice.
\<close>

type_synonym scopes = "(string \<Rightarrow> u256 option) list"

definition strip_prefix :: "string \<Rightarrow> string \<Rightarrow> string option" where
  "strip_prefix p s = (if take (length p) s = p then Some (drop (length p) s) else None)"

definition run_let :: "string \<Rightarrow> yul_state \<Rightarrow> yul_state option" where
  "run_let s st = (let x = takeWhile ident_char s; t = dropWhile ident_char s
     in if \<not> ident_ok x \<or> ys_vars st x \<noteq> None then None
        else Option.bind (if t = [] then Some 0 else Option.bind (strip_prefix '' := '' t) (eval_text st))
          (\<lambda>v. Some (st\<lparr>ys_vars := (ys_vars st)(x \<mapsto> v)\<rparr>)))"

definition run_set :: "string \<Rightarrow> string \<Rightarrow> yul_state \<Rightarrow> yul_state option" where
  "run_set x s st = (if ys_vars st x = None then None
     else map_option (\<lambda>v. st\<lparr>ys_vars := (ys_vars st)(x \<mapsto> v)\<rparr>) (eval_text st s))"

definition run_call :: "string \<Rightarrow> yul_state \<Rightarrow> yul_state option" where
  "run_call s st = (case parse_expr s of
      Some (Call f [p, v]) \<Rightarrow>
        if f = ''mstore'' then
          Option.bind (eval_yul st p) (\<lambda>a. Option.bind (eval_yul st v) (\<lambda>w.
            if 32 dvd unat a then Some (st\<lparr>ys_memory := (ys_memory st)(unat a := w)\<rparr>) else None))
        else None
    | _ \<Rightarrow> None)"

definition leave_scope :: "(string \<Rightarrow> u256 option) \<Rightarrow> yul_state \<Rightarrow> yul_state" where
  "leave_scope outer st =
     st\<lparr>ys_vars := (\<lambda>x. case outer x of None \<Rightarrow> None | Some _ \<Rightarrow> ys_vars st x)\<rparr>"

definition run_line :: "string \<Rightarrow> yul_state \<times> scopes \<Rightarrow> (yul_state \<times> scopes) option" where
  "run_line line cfg = (let st = fst cfg; sc = snd cfg; s = dropWhile (\<lambda>c. c = CHR '' '') line
     in if s = ''{'' then Some (st, ys_vars st # sc)
        else if s = ''}'' then
          (case sc of [] \<Rightarrow> None | outer # sc' \<Rightarrow> Some (leave_scope outer st, sc'))
        else map_option (\<lambda>st'. (st', sc))
          (case strip_prefix ''let '' s of
             Some t \<Rightarrow> run_let t st
           | None \<Rightarrow> (case strip_prefix '' := '' (dropWhile ident_char s) of
               Some t \<Rightarrow> run_set (takeWhile ident_char s) t st
             | None \<Rightarrow> run_call s st)))"

fun run_lines :: "string list \<Rightarrow> yul_state \<times> scopes \<Rightarrow> (yul_state \<times> scopes) option" where
  "run_lines [] cfg = Some cfg"
| "run_lines (l # ls) cfg = Option.bind (run_line l cfg) (run_lines ls)"

lemma run_lines_append:
  "run_lines (ls @ ls') cfg = Option.bind (run_lines ls cfg) (run_lines ls')"
  by (induction ls arbitrary: cfg) (auto split: Option.bind_split)

section \<open>The lines and expressions the generator prints\<close>

definition fmt_call2 :: "string \<Rightarrow> string \<Rightarrow> string \<Rightarrow> string" where
  "fmt_call2 f a b = f @ ''('' @ a @ '', '' @ b @ '')''"

definition fmt_load :: "string \<Rightarrow> string \<Rightarrow> string" where
  "fmt_load f a = f @ ''('' @ a @ '')''"

text \<open>\<open>addmod({a}, {b}, r)\<close>, \<open>mulmod({a}, {b}, r)\<close> and \<open>sub(r, {a})\<close>.\<close>

definition add_r :: "string \<Rightarrow> string \<Rightarrow> string" where
  "add_r a b = ''addmod('' @ a @ '', '' @ b @ '', r)''"

definition mul_r :: "string \<Rightarrow> string \<Rightarrow> string" where
  "mul_r a b = ''mulmod('' @ a @ '', '' @ b @ '', r)''"

definition neg_r :: "string \<Rightarrow> string" where
  "neg_r a = ''sub(r, '' @ a @ '')''"

text \<open>\<open>let {x}\<close>, \<open>let {x} := {v}\<close>, \<open>{x} := {v}\<close> and \<open>mstore({p}, {v})\<close>.\<close>

definition fmt_decl :: "string \<Rightarrow> string" where
  "fmt_decl x = ''let '' @ x"

definition fmt_let :: "string \<Rightarrow> string \<Rightarrow> string" where
  "fmt_let x v = ''let '' @ x @ '' := '' @ v"

definition fmt_set :: "string \<Rightarrow> string \<Rightarrow> string" where
  "fmt_set x v = x @ '' := '' @ v"

definition fmt_mstore :: "string \<Rightarrow> string \<Rightarrow> string" where
  "fmt_mstore p v = ''mstore('' @ p @ '', '' @ v @ '')''"

lemma eval_textD: "eval_text st s = Some v \<Longrightarrow> \<exists>e. s = show_yul e \<and> yul_ok e \<and> eval_yul st e = Some v"
  by (auto simp: eval_text_def bind_eq_Some_conv dest: parse_exprD)

lemma eval_text_show: "yul_ok e \<Longrightarrow> eval_text st (show_yul e) = eval_yul st e"
  by (simp add: eval_text_def parse_expr_show)

lemma eval_atom [yul_simps]:
  "word_ok w \<Longrightarrow> eval_text st w = (if starts_with_digit w then Some (literal w) else ys_vars st w)"
  using eval_text_show [of "Atom w" st] by simp

lemma word_ok_r: "word_ok ''r''" "\<not> starts_with_digit ''r''"
  by (simp_all add: word_ok_def ident_char_def starts_with_digit_def)

lemma eval_add_r:
  assumes "eval_text st a = Some u" and "eval_text st b = Some v" and "ys_vars st ''r'' = Some m"
  shows "eval_text st (add_r a b) = Some (addmod u v m)"
proof -
  obtain A B where "a = show_yul A" "yul_ok A" "eval_yul st A = Some u"
    "b = show_yul B" "yul_ok B" "eval_yul st B = Some v" using eval_textD assms(1,2) by blast
  then show ?thesis
    using eval_text_show [of "Call ''addmod'' [A, B, Atom ''r'']" st] assms(3) word_ok_r
    by (simp add: add_r_def word_ok_def ident_char_def builtin_def)
qed

lemma eval_mul_r:
  assumes "eval_text st a = Some u" and "eval_text st b = Some v" and "ys_vars st ''r'' = Some m"
  shows "eval_text st (mul_r a b) = Some (mulmod u v m)"
proof -
  obtain A B where "a = show_yul A" "yul_ok A" "eval_yul st A = Some u"
    "b = show_yul B" "yul_ok B" "eval_yul st B = Some v" using eval_textD assms(1,2) by blast
  then show ?thesis
    using eval_text_show [of "Call ''mulmod'' [A, B, Atom ''r'']" st] assms(3) word_ok_r
    by (simp add: mul_r_def word_ok_def ident_char_def builtin_def)
qed

lemma eval_neg_r:
  assumes "eval_text st a = Some u" and "ys_vars st ''r'' = Some m"
  shows "eval_text st (neg_r a) = Some (m - u)"
proof -
  obtain A where "a = show_yul A" "yul_ok A" "eval_yul st A = Some u"
    using eval_textD assms(1) by blast
  then show ?thesis
    using eval_text_show [of "Call ''sub'' [Atom ''r'', A]" st] assms(2) word_ok_r
    by (simp add: neg_r_def word_ok_def ident_char_def builtin_def)
qed

section \<open>Running printed lines\<close>

lemma strip_prefix_append [simp]: "strip_prefix p (p @ s) = Some s"
  by (simp add: strip_prefix_def)

lemma strip_prefixD: "strip_prefix p s = Some t \<Longrightarrow> s = p @ t"
  by (auto simp: strip_prefix_def split: if_splits) (metis append_take_drop_id)

lemma ident_split:
  assumes "word_ok x"
  shows "takeWhile ident_char (x @ CHR '' '' # t) = x"
    "dropWhile ident_char (x @ CHR '' '' # t) = CHR '' '' # t"
    "takeWhile ident_char x = x" "dropWhile ident_char x = []"
  using assms
  by (simp_all add: word_ok_def list_all_iff takeWhile_append dropWhile_append ident_char_def
      takeWhile_eq_all_conv)

lemma no_space:
  assumes "word_ok x"
  shows "dropWhile (\<lambda>c. c = CHR '' '') (x @ t) = x @ t"
  using assms by (cases x) (auto simp: word_ok_def ident_char_def)

lemma run_line_let:
  assumes "ident_ok x" and "ys_vars st x = None" and "eval_text st v = Some w"
  shows "run_line (fmt_let x v) (st, sc) = Some (st\<lparr>ys_vars := (ys_vars st)(x \<mapsto> w)\<rparr>, sc)"
proof -
  have "strip_prefix ''let '' (fmt_let x v) = Some (x @ '' := '' @ v)"
    using strip_prefix_append [of "''let ''" "x @ '' := '' @ v"] by (simp add: fmt_let_def)
  moreover have "run_let (x @ '' := '' @ v) st = Some (st\<lparr>ys_vars := (ys_vars st)(x \<mapsto> w)\<rparr>)"
    using assms strip_prefix_append [of "'' := ''" v]
    by (simp add: run_let_def ident_split ident_ok_def)
  ultimately show ?thesis by (simp add: run_line_def fmt_let_def)
qed

lemma run_line_decl:
  assumes "ident_ok x" and "ys_vars st x = None"
  shows "run_line (fmt_decl x) (st, sc) = Some (st\<lparr>ys_vars := (ys_vars st)(x \<mapsto> 0)\<rparr>, sc)"
proof -
  have "strip_prefix ''let '' (fmt_decl x) = Some x"
    using strip_prefix_append [of "''let ''" x] by (simp add: fmt_decl_def)
  with assms show ?thesis
    by (simp add: run_line_def fmt_decl_def run_let_def ident_split ident_ok_def)
qed

lemma run_line_set:
  assumes "ident_ok x" and "x \<noteq> ''let''" and "ys_vars st x = Some u" and "eval_text st v = Some w"
  shows "run_line (fmt_set x v) (st, sc) = Some (st\<lparr>ys_vars := (ys_vars st)(x \<mapsto> w)\<rparr>, sc)"
proof -
  have x: "word_ok x" using assms(1) by (simp add: ident_ok_def)
  have "strip_prefix ''let '' (fmt_set x v) = None"
  proof (rule ccontr)
    assume "strip_prefix ''let '' (fmt_set x v) \<noteq> None"
    then obtain t where "fmt_set x v = ''let '' @ t" using strip_prefixD by blast
    then have "takeWhile ident_char (fmt_set x v) = ''let''" by (simp add: ident_char_def)
    with assms(2) x show False by (simp add: fmt_set_def ident_split)
  qed
  moreover have "strip_prefix '' := '' (dropWhile ident_char (fmt_set x v)) = Some v"
    using x strip_prefix_append [of "'' := ''" v] by (simp add: fmt_set_def ident_split)
  moreover have "fmt_set x v \<noteq> ''{''" "fmt_set x v \<noteq> ''}''"
    using x by (auto simp: fmt_set_def word_ok_def Cons_eq_append_conv append_eq_Cons_conv)
  ultimately show ?thesis
    using assms(3,4) x by (simp add: run_line_def fmt_set_def no_space ident_split run_set_def)
qed

lemma run_line_mstore:
  assumes "eval_text st p = Some a" and "32 dvd unat a" and "eval_text st v = Some w"
  shows "run_line (fmt_mstore p v) (st, sc) =
    Some (st\<lparr>ys_memory := (ys_memory st)(unat a := w)\<rparr>, sc)"
proof -
  obtain P V where PV: "p = show_yul P" "yul_ok P" "eval_yul st P = Some a"
    "v = show_yul V" "yul_ok V" "eval_yul st V = Some w" using eval_textD assms(1,3) by blast
  then have "parse_expr (fmt_mstore p v) = Some (Call ''mstore'' [P, V])"
    by (subst parse_expr_iff) (simp add: fmt_mstore_def word_ok_def ident_char_def)
  then have "run_call (fmt_mstore p v) st = Some (st\<lparr>ys_memory := (ys_memory st)(unat a := w)\<rparr>)"
    using PV assms(2) by (simp add: run_call_def)
  then show ?thesis
    by (simp add: run_line_def fmt_mstore_def strip_prefix_def ident_char_def)
qed

lemma run_line_indent: "run_line (replicate n (CHR '' '') @ l) cfg = run_line l cfg"
proof -
  have "dropWhile (\<lambda>c. c = CHR '' '') (replicate n (CHR '' '') @ l) = dropWhile (\<lambda>c. c = CHR '' '') l"
    by (induction n) auto
  then show ?thesis by (simp add: run_line_def)
qed

lemma run_line_open: "run_line ''{'' (st, sc) = Some (st, ys_vars st # sc)"
  by (simp add: run_line_def)

lemma run_line_close: "run_line ''}'' (st, outer # sc) = Some (leave_scope outer st, sc)"
  by (simp add: run_line_def)

section \<open>Text that denotes a field element\<close>

text \<open>
  \<open>field_env\<close> says that the variable \<open>r\<close> holds the modulus; \<open>denotes st s x\<close> that the text \<open>s\<close>
  evaluates to a word at most the modulus that stands for the field element \<open>x\<close>.
\<close>

definition field_env :: "yul_state \<Rightarrow> bool" where
  "field_env st \<longleftrightarrow> ys_vars st ''r'' = Some (of_nat fr_modulus)"

definition denotes :: "yul_state \<Rightarrow> string \<Rightarrow> fr \<Rightarrow> bool" where
  "denotes st s x \<longleftrightarrow> (\<exists>w. eval_text st s = Some w \<and> reduced w \<and> felt w = x)"

lemma modulus_word: "unat (of_nat fr_modulus :: u256) = fr_modulus" "(of_nat fr_modulus :: u256) \<noteq> 0"
proof -
  show *: "unat (of_nat fr_modulus :: u256) = fr_modulus" by (simp add: unat_of_nat_le_modulus)
  show "(of_nat fr_modulus :: u256) \<noteq> 0" using * fr_modulus_bounds(1) by (metis less_irrefl unat_0)
qed

lemma addmod_felt: "reduced (addmod a b (of_nat fr_modulus))"
  "felt (addmod a b (of_nat fr_modulus)) = felt a + felt b"
  by (simp_all add: addmod_def modulus_word felt_simps) (simp add: felt_def fr_of_nat_add)

lemma mulmod_felt: "reduced (mulmod a b (of_nat fr_modulus))"
  "felt (mulmod a b (of_nat fr_modulus)) = felt a * felt b"
  by (simp_all add: mulmod_def modulus_word felt_simps) (simp add: felt_def fr_of_nat_mult)

lemma denotes_add:
  "field_env st \<Longrightarrow> denotes st a x \<Longrightarrow> denotes st b y \<Longrightarrow> denotes st (add_r a b) (x + y)"
  by (auto simp: denotes_def field_env_def eval_add_r addmod_felt)

lemma denotes_mul:
  "field_env st \<Longrightarrow> denotes st a x \<Longrightarrow> denotes st b y \<Longrightarrow> denotes st (mul_r a b) (x * y)"
  by (auto simp: denotes_def field_env_def eval_mul_r mulmod_felt)

lemma denotes_neg: "field_env st \<Longrightarrow> denotes st a x \<Longrightarrow> denotes st (neg_r a) (- x)"
  by (auto simp: denotes_def field_env_def eval_neg_r felt_simps)

lemma denotes_var:
  "ident_ok x \<Longrightarrow> ys_vars st x = Some w \<Longrightarrow> reduced w \<Longrightarrow> denotes st x (felt w)"
  by (auto simp: denotes_def ident_ok_def yul_simps)

lemmas denotes_intros = denotes_add denotes_mul denotes_neg

lemma denotes_unique: "denotes st s x \<Longrightarrow> denotes st s y \<Longrightarrow> x = y"
  by (auto simp: denotes_def)

end
