(* ===== verification/HaloUtil.thy ===== *)
theory HaloUtil
  imports Yul
begin

text \<open>
  The generator of Solidity verifiers, \<open>halo2-verifier/src/lib/codegen/util.rs\<close>: what the generator
  reads of a constraint system, the shape of a proof derived from it (\<open>ConstraintSystemMeta\<close>), the
  places of all commitments and evaluations in calldata and memory (\<open>Data\<close>), pointers, and the
  layout of generated code.

  A constraint system is data of the package \<open>halo2_proofs\<close>: the record \<open>constraint_system\<close> holds
  what its accessors return. The only failures of the generator are panics, so a function that may
  panic returns an option, with \<open>None\<close> for the panic. Lengths and offsets (\<open>usize\<close>) are naturals; a
  subtraction below zero panics.
\<close>

section \<open>Constraint systems\<close>

datatype any = AnyAdvice nat | AnyFixed | AnyInstance

datatype column = Column (column_index: nat) (column_type: any)

datatype 'f expression =
    Constant 'f
  | Selector
  | FixedQ nat int
  | AdviceQ nat int
  | InstanceQ nat int
  | ChallengeE nat
  | Negated "'f expression"
  | SumE "'f expression" "'f expression"
  | ProductE "'f expression" "'f expression"
  | Scaled "'f expression" 'f

record 'f constraint_system =
  cs_num_fixed_columns :: nat
  cs_num_advice_columns :: nat
  cs_num_instance_columns :: nat
  cs_permutation :: "column list"
  cs_degree :: nat
  cs_lookups :: "('f expression list \<times> 'f expression list) list"
  cs_advice_queries :: "(nat \<times> int) list"
  cs_fixed_queries :: "(nat \<times> int) list"
  cs_instance_queries :: "(nat \<times> int) list"
  cs_advice_column_phase :: "u8 list"
  cs_challenge_phase :: "u8 list"
  cs_blinding_factors :: nat
  cs_gates :: "'f expression list list"

datatype batch_open_scheme = Gwc19 | Bdfg21

record constraint_system_meta =
  cm_num_fixeds :: nat
  cm_permutation_columns :: "column list"
  cm_permutation_chunk_len :: nat
  cm_num_lookup_permuteds :: nat
  cm_num_permutation_zs :: nat
  cm_num_lookup_zs :: nat
  cm_num_quotients :: nat
  cm_advice_queries :: "(nat \<times> int) list"
  cm_fixed_queries :: "(nat \<times> int) list"
  cm_num_rotations :: nat
  cm_num_evals :: nat
  cm_num_user_advices :: "nat list"
  cm_num_user_challenges :: "nat list"
  cm_advice_indices :: "nat list"
  cm_challenge_indices :: "nat list"
  cm_rotation_last :: int

definition usize_sub :: "nat \<Rightarrow> nat \<Rightarrow> nat option" where
  "usize_sub a b = (if b \<le> a then Some (a - b) else None)"

text \<open>\<open>slice.chunks(k)\<close>, which panics for \<open>k = 0\<close>.\<close>

function chunks_of :: "nat \<Rightarrow> 'a list \<Rightarrow> 'a list list" where
  "chunks_of k xs = (if k = 0 \<or> xs = [] then [] else take k xs # chunks_of k (drop k xs))"
  by auto
termination by (relation "measure (\<lambda>(k, xs). length xs)") auto

declare chunks_of.simps [simp del]

definition chunks :: "nat \<Rightarrow> 'a list \<Rightarrow> 'a list list option" where
  "chunks k xs = (if k = 0 then None else Some (chunks_of k xs))"

text \<open>
  \<open>remapping\<close>: how many columns each phase has, and the position of each column when the columns
  are grouped by phase.
\<close>

fun count_phases :: "u8 list \<Rightarrow> nat list \<Rightarrow> nat list option" where
  "count_phases [] nums = Some nums"
| "count_phases (p # ps) nums =
     (if unat p < length nums then count_phases ps (nums[unat p := nums ! unat p + 1]) else None)"

definition phase_offsets :: "nat list \<Rightarrow> nat list" where
  "phase_offsets nums = foldl (\<lambda>offsets n. offsets @ [last offsets + n]) [0] nums"

fun assign_indices :: "u8 list \<Rightarrow> nat list \<Rightarrow> nat list option" where
  "assign_indices [] state = Some []"
| "assign_indices (p # ps) state =
     (if unat p < length state
      then map_option ((#) (state ! unat p))
        (assign_indices ps (state[unat p := state ! unat p + 1]))
      else None)"

definition remapping :: "nat \<Rightarrow> u8 list \<Rightarrow> (nat list \<times> nat list) option" where
  "remapping num_phase phase = do {
     nums \<leftarrow> count_phases phase (replicate num_phase 0);
     index \<leftarrow> assign_indices phase (phase_offsets (take (num_phase - 1) nums));
     Some (nums, index) }"

definition i32_of_usize :: "nat \<Rightarrow> int" where
  "i32_of_usize n = signed_take_bit 31 (int n)"

definition rotation_last_of :: "nat \<Rightarrow> int option" where
  "rotation_last_of blinding_factors = (let b = i32_of_usize blinding_factors
     in if b = 2 ^ 31 - 1 then None else Some (- (b + 1)))"

definition queried_rotations ::
  "(nat \<times> int) list \<Rightarrow> (nat \<times> int) list \<Rightarrow> nat \<Rightarrow> nat \<Rightarrow> int \<Rightarrow> int list" where
  "queried_rotations advice_queries fixed_queries num_permutation_zs num_lookup_zs rotation_last =
     map snd advice_queries
     @ map snd fixed_queries
     @ (if num_permutation_zs > 0 then [0, 1] else [])
     @ (if num_permutation_zs > 1 then [rotation_last] else [])
     @ (if num_lookup_zs > 0 then [-1, 0, 1] else [])"

definition meta_new :: "'f constraint_system \<Rightarrow> constraint_system_meta option" where
  "meta_new cs = do {
     permutation_chunk_len \<leftarrow> usize_sub (cs_degree cs) 2;
     permutation_chunks \<leftarrow> chunks permutation_chunk_len (cs_permutation cs);
     let num_permutation_zs = length permutation_chunks;
     let num_lookup_zs = length (cs_lookups cs);
     num_quotients \<leftarrow> usize_sub (cs_degree cs) 1;
     permutation_z_evals \<leftarrow> usize_sub (3 * num_permutation_zs) 1;
     let num_evals = length (cs_advice_queries cs) + length (cs_fixed_queries cs) + 1
       + length (cs_permutation cs) + permutation_z_evals + 5 * length (cs_lookups cs);
     let num_phase = foldr max (map unat (cs_advice_column_phase cs)) 0 + 1;
     (num_user_advices, advice_indices) \<leftarrow> remapping num_phase (cs_advice_column_phase cs);
     (num_user_challenges, challenge_indices) \<leftarrow> remapping num_phase (cs_challenge_phase cs);
     rotation_last \<leftarrow> rotation_last_of (cs_blinding_factors cs);
     let num_rotations = length (remdups (queried_rotations (cs_advice_queries cs)
       (cs_fixed_queries cs) num_permutation_zs num_lookup_zs rotation_last));
     Some \<lparr>
       cm_num_fixeds = cs_num_fixed_columns cs,
       cm_permutation_columns = cs_permutation cs,
       cm_permutation_chunk_len = permutation_chunk_len,
       cm_num_lookup_permuteds = 2 * length (cs_lookups cs),
       cm_num_permutation_zs = num_permutation_zs,
       cm_num_lookup_zs = num_lookup_zs,
       cm_num_quotients = num_quotients,
       cm_advice_queries = cs_advice_queries cs,
       cm_fixed_queries = cs_fixed_queries cs,
       cm_num_rotations = num_rotations,
       cm_num_evals = num_evals,
       cm_num_user_advices = num_user_advices,
       cm_num_user_challenges = num_user_challenges,
       cm_advice_indices = advice_indices,
       cm_challenge_indices = challenge_indices,
       cm_rotation_last = rotation_last \<rparr> }"

definition num_advices :: "constraint_system_meta \<Rightarrow> nat list" where
  "num_advices m = cm_num_user_advices m
     @ (if cm_num_lookup_permuteds m \<noteq> 0 then [cm_num_lookup_permuteds m] else [])
     @ [cm_num_permutation_zs m + cm_num_lookup_zs m + 1, cm_num_quotients m]"

text \<open>\<open>*nums.last_mut().unwrap() += k\<close>\<close>

definition add_to_last :: "nat \<Rightarrow> nat list \<Rightarrow> nat list option" where
  "add_to_last k nums = (if nums = [] then None else Some (butlast nums @ [last nums + k]))"

definition num_challenges :: "constraint_system_meta \<Rightarrow> nat list option" where
  "num_challenges m =
     (if cm_num_lookup_permuteds m = 0
      then map_option (\<lambda>nums. nums @ [1, 1]) (add_to_last 3 (cm_num_user_challenges m))
      else map_option (\<lambda>nums. nums @ [2, 1, 1]) (add_to_last 1 (cm_num_user_challenges m)))"

definition num_permutations :: "constraint_system_meta \<Rightarrow> nat" where
  "num_permutations m = length (cm_permutation_columns m)"

definition num_lookups :: "constraint_system_meta \<Rightarrow> nat" where
  "num_lookups m = cm_num_lookup_zs m"

definition batch_open_proof_len :: "constraint_system_meta \<Rightarrow> batch_open_scheme \<Rightarrow> nat" where
  "batch_open_proof_len m scheme =
     (case scheme of Bdfg21 \<Rightarrow> 2 | Gwc19 \<Rightarrow> cm_num_rotations m) * 0x40"

definition proof_len :: "constraint_system_meta \<Rightarrow> batch_open_scheme \<Rightarrow> nat" where
  "proof_len m scheme = sum_list (num_advices m) * 0x40 + cm_num_evals m * 0x20
     + batch_open_proof_len m scheme"

section \<open>Pointers\<close>

datatype location = Calldata | Memory

fun opcode :: "location \<Rightarrow> string" where
  "opcode Calldata = ''calldataload''"
| "opcode Memory = ''mload''"

datatype ptr_val = Integer nat | Identifier string

fun is_integer :: "ptr_val \<Rightarrow> bool" where
  "is_integer (Integer _) = True"
| "is_integer (Identifier _) = False"

fun as_usize :: "ptr_val \<Rightarrow> nat option" where
  "as_usize (Integer n) = Some n"
| "as_usize (Identifier _) = None"

fun show_val :: "ptr_val \<Rightarrow> string" where
  "show_val (Integer n) =
     (let hex = show_hex n in if length hex mod 2 = 1 then ''0x0'' @ hex else ''0x'' @ hex)"
| "show_val (Identifier ident) = ident"

definition val_add :: "ptr_val \<Rightarrow> nat \<Rightarrow> ptr_val option" where
  "val_add v rhs = do { n \<leftarrow> as_usize v; Some (Integer (n + rhs * 0x20)) }"

definition val_sub :: "ptr_val \<Rightarrow> nat \<Rightarrow> ptr_val option" where
  "val_sub v rhs = do { n \<leftarrow> as_usize v; d \<leftarrow> usize_sub n (rhs * 0x20); Some (Integer d) }"

datatype ptr = Ptr (ptr_loc: location) (ptr_value: ptr_val)

definition ptr_add :: "ptr \<Rightarrow> nat \<Rightarrow> ptr option" where
  "ptr_add p rhs = map_option (Ptr (ptr_loc p)) (val_add (ptr_value p) rhs)"

definition ptr_sub :: "ptr \<Rightarrow> nat \<Rightarrow> ptr option" where
  "ptr_sub p rhs = map_option (Ptr (ptr_loc p)) (val_sub (ptr_value p) rhs)"

definition show_ptr :: "ptr \<Rightarrow> string" where
  "show_ptr p = show_val (ptr_value p)"

datatype evm_word = EvmWord (word_ptr: ptr)

definition word_loc :: "evm_word \<Rightarrow> location" where
  "word_loc w = ptr_loc (word_ptr w)"

definition show_word :: "evm_word \<Rightarrow> string" where
  "show_word w = opcode (word_loc w) @ ''('' @ show_val (ptr_value (word_ptr w)) @ '')''"

text \<open>The first \<open>n\<close> elements of the unbounded iterators \<open>Word::range\<close> and \<open>EcPoint::range\<close>.\<close>

definition word_range :: "ptr \<Rightarrow> nat \<Rightarrow> evm_word list option" where
  "word_range p n = those (map (\<lambda>idx. map_option EvmWord (ptr_add p idx)) [0..<n])"

datatype ec_point = EcPoint (ec_x: evm_word) (ec_y: evm_word)

definition ec_from_ptr :: "ptr \<Rightarrow> ec_point option" where
  "ec_from_ptr p = do { q \<leftarrow> ptr_add p 1; Some (EcPoint (EvmWord p) (EvmWord q)) }"

definition ec_loc :: "ec_point \<Rightarrow> location" where
  "ec_loc e = ptr_loc (word_ptr (ec_x e))"

definition ec_range :: "ptr \<Rightarrow> nat \<Rightarrow> ec_point list option" where
  "ec_range p n = do {
     e \<leftarrow> ec_from_ptr p;
     those (map (\<lambda>idx. do { q \<leftarrow> ptr_add (word_ptr (ec_x e)) (2 * idx); ec_from_ptr q }) [0..<n]) }"

section \<open>The verifying key and the layout of the data\<close>

record halo2_verifying_key =
  vk_constants :: "(string \<times> u256) list"
  vk_fixed_comms :: "(u256 \<times> u256) list"
  vk_permutation_comms :: "(u256 \<times> u256) list"

definition vk_len :: "halo2_verifying_key \<Rightarrow> nat" where
  "vk_len vk = length (vk_constants vk) * 0x20
     + (length (vk_fixed_comms vk) + length (vk_permutation_comms vk)) * 0x40"

type_synonym word3 = "evm_word \<times> evm_word \<times> evm_word"
type_synonym word5 = "evm_word \<times> evm_word \<times> evm_word \<times> evm_word \<times> evm_word"

record data =
  da_challenge_mptr :: ptr
  da_theta_mptr :: ptr
  da_quotient_comm_cptr :: ptr
  da_w_cptr :: ptr
  da_fixed_comms :: "ec_point list"
  da_permutation_comms :: "column \<Rightarrow> ec_point option"
  da_advice_comms :: "ec_point list"
  da_lookup_permuted_comms :: "(ec_point \<times> ec_point) list"
  da_permutation_z_comms :: "ec_point list"
  da_lookup_z_comms :: "ec_point list"
  da_random_comm :: ec_point
  da_challenges :: "evm_word list"
  da_instance_eval :: evm_word
  da_advice_evals :: "nat \<times> int \<Rightarrow> evm_word option"
  da_fixed_evals :: "nat \<times> int \<Rightarrow> evm_word option"
  da_random_eval :: evm_word
  da_permutation_evals :: "column \<Rightarrow> evm_word option"
  da_permutation_z_evals :: "word3 list"
  da_lookup_evals :: "word5 list"
  da_computed_quotient_comm :: ec_point
  da_computed_quotient_eval :: evm_word

text \<open>\<open>tuples()\<close> of an iterator: full tuples only, a shorter rest is dropped.\<close>

fun pairs_of :: "'a list \<Rightarrow> ('a \<times> 'a) list" where
  "pairs_of (a # b # xs) = (a, b) # pairs_of xs"
| "pairs_of _ = []"

fun triples_of :: "'a list \<Rightarrow> ('a \<times> 'a \<times> 'a) list" where
  "triples_of (a # b # c # xs) = (a, b, c) # triples_of xs"
| "triples_of _ = []"

fun quintuples_of :: "'a list \<Rightarrow> ('a \<times> 'a \<times> 'a \<times> 'a \<times> 'a) list" where
  "quintuples_of (a # b # c # d # e # xs) = (a, b, c, d, e) # quintuples_of xs"
| "quintuples_of _ = []"

text \<open>Collecting pairs into a \<open>HashMap\<close>: of equal keys the one inserted last counts.\<close>

definition hash_map :: "('k \<times> 'v) list \<Rightarrow> 'k \<Rightarrow> 'v option" where
  "hash_map kvs = map_of (rev kvs)"

definition data_new ::
  "constraint_system_meta \<Rightarrow> halo2_verifying_key \<Rightarrow> ptr \<Rightarrow> ptr \<Rightarrow> data option" where
  "data_new m vk vk_mptr proof_cptr = do {
     fixed_comm_mptr \<leftarrow> ptr_add vk_mptr (length (vk_constants vk));
     permutation_comm_mptr \<leftarrow> ptr_add fixed_comm_mptr (2 * length (vk_fixed_comms vk));
     challenge_mptr \<leftarrow> ptr_add permutation_comm_mptr (2 * length (vk_permutation_comms vk));
     theta_mptr \<leftarrow> ptr_add challenge_mptr (length (cm_challenge_indices m));

     let advice_comm_start = proof_cptr;
     lookup_permuted_comm_start \<leftarrow> ptr_add advice_comm_start (2 * length (cm_advice_indices m));
     permutation_z_comm_start \<leftarrow> ptr_add lookup_permuted_comm_start (2 * cm_num_lookup_permuteds m);
     lookup_z_comm_start \<leftarrow> ptr_add permutation_z_comm_start (2 * cm_num_permutation_zs m);
     random_comm_start \<leftarrow> ptr_add lookup_z_comm_start (2 * cm_num_lookup_zs m);
     quotient_comm_start \<leftarrow> ptr_add random_comm_start 2;

     eval_cptr \<leftarrow> ptr_add quotient_comm_start (2 * cm_num_quotients m);
     let advice_eval_cptr = eval_cptr;
     fixed_eval_cptr \<leftarrow> ptr_add advice_eval_cptr (length (cm_advice_queries m));
     random_eval_cptr \<leftarrow> ptr_add fixed_eval_cptr (length (cm_fixed_queries m));
     permutation_eval_cptr \<leftarrow> ptr_add random_eval_cptr 1;
     permutation_z_eval_cptr \<leftarrow> ptr_add permutation_eval_cptr (num_permutations m);
     past_z_evals \<leftarrow> ptr_add permutation_z_eval_cptr (3 * cm_num_permutation_zs m);
     lookup_eval_cptr \<leftarrow> ptr_sub past_z_evals 1;
     w_cptr \<leftarrow> ptr_add lookup_eval_cptr (5 * num_lookups m);

     fixed_comms \<leftarrow> ec_range fixed_comm_mptr (cm_num_fixeds m);
     permutation_comms \<leftarrow> ec_range permutation_comm_mptr (length (cm_permutation_columns m));
     advice_comms \<leftarrow> those (map (\<lambda>idx. do { q \<leftarrow> ptr_add advice_comm_start (2 * idx); ec_from_ptr q })
       (cm_advice_indices m));
     lookup_permuted_comms \<leftarrow> ec_range lookup_permuted_comm_start (cm_num_lookup_permuteds m);
     permutation_z_comms \<leftarrow> ec_range permutation_z_comm_start (cm_num_permutation_zs m);
     lookup_z_comms \<leftarrow> ec_range lookup_z_comm_start (cm_num_lookup_zs m);
     random_comm \<leftarrow> ec_from_ptr random_comm_start;

     challenges \<leftarrow> those (map (\<lambda>idx. map_option EvmWord (ptr_add challenge_mptr idx))
       (cm_challenge_indices m));
     advice_evals \<leftarrow> word_range advice_eval_cptr (length (cm_advice_queries m));
     fixed_evals \<leftarrow> word_range fixed_eval_cptr (length (cm_fixed_queries m));
     permutation_evals \<leftarrow> word_range permutation_eval_cptr (length (cm_permutation_columns m));
     permutation_z_evals \<leftarrow> word_range permutation_z_eval_cptr (3 * cm_num_permutation_zs m);
     lookup_evals \<leftarrow> word_range lookup_eval_cptr (5 * cm_num_lookup_zs m);

     Some \<lparr>
       da_challenge_mptr = challenge_mptr,
       da_theta_mptr = theta_mptr,
       da_quotient_comm_cptr = quotient_comm_start,
       da_w_cptr = w_cptr,
       da_fixed_comms = fixed_comms,
       da_permutation_comms = hash_map (zip (cm_permutation_columns m) permutation_comms),
       da_advice_comms = advice_comms,
       da_lookup_permuted_comms = pairs_of lookup_permuted_comms,
       da_permutation_z_comms = permutation_z_comms,
       da_lookup_z_comms = lookup_z_comms,
       da_random_comm = random_comm,
       da_challenges = challenges,
       da_instance_eval = EvmWord (Ptr Memory (Identifier ''INSTANCE_EVAL_MPTR'')),
       da_advice_evals = hash_map (zip (cm_advice_queries m) advice_evals),
       da_fixed_evals = hash_map (zip (cm_fixed_queries m) fixed_evals),
       da_random_eval = EvmWord random_eval_cptr,
       da_permutation_evals = hash_map (zip (cm_permutation_columns m) permutation_evals),
       da_permutation_z_evals = triples_of permutation_z_evals,
       da_lookup_evals = quintuples_of lookup_evals,
       da_computed_quotient_comm = EcPoint (EvmWord (Ptr Memory (Identifier ''QUOTIENT_X_MPTR'')))
         (EvmWord (Ptr Memory (Identifier ''QUOTIENT_Y_MPTR''))),
       da_computed_quotient_eval = EvmWord (Ptr Memory (Identifier ''QUOTIENT_EVAL_MPTR'')) \<rparr> }"

section \<open>Layout of generated code\<close>

definition spaces :: "nat \<Rightarrow> string" where
  "spaces n = replicate n (CHR '' '')"

definition indent :: "nat \<Rightarrow> string list \<Rightarrow> string list" where
  "indent n lines = map (\<lambda>line. spaces (n * 4) @ line) lines"

definition code_block :: "nat \<Rightarrow> bool \<Rightarrow> string list \<Rightarrow> string list" where
  "code_block n packed lines = (let bracket_indent = spaces ((n - 1) * 4)
     in if length lines = 0 then [bracket_indent @ ''{}'']
        else if length lines = 1 \<and> packed then [bracket_indent @ ''{ '' @ lines ! 0 @ '' }'']
        else [bracket_indent @ ''{''] @ indent n lines @ [bracket_indent @ ''}''])"

definition for_loop :: "string list \<Rightarrow> string \<Rightarrow> string list \<Rightarrow> string list \<Rightarrow> string list" where
  "for_loop initialization condition advancement body =
     [''for''] @ code_block 2 True initialization @ indent 1 [condition]
     @ code_block 2 True advancement @ code_block 1 False body"

text \<open>
  Runs of words or points that lie next to each other, read backwards: each is the predecessor of
  the one before it.
\<close>

type_synonym 'a groups = "(location \<times> 'a list) list"

definition group_word :: "evm_word groups \<Rightarrow> evm_word \<Rightarrow> evm_word groups option" where
  "group_word word_groups word =
     (if word_groups = [] then Some [(word_loc word, [word])]
      else let last_group = last word_groups; last_word = last (snd last_group)
        in if fst last_group = word_loc word \<and> is_integer (ptr_value (word_ptr last_word)) then do {
             prev \<leftarrow> ptr_sub (word_ptr last_word) 1;
             Some (if prev = word_ptr word
               then butlast word_groups @ [(fst last_group, snd last_group @ [word])]
               else word_groups @ [(word_loc word, [word])]) }
           else Some (word_groups @ [(word_loc word, [word])]))"

fun try_foldl :: "('s \<Rightarrow> 'a \<Rightarrow> 's option) \<Rightarrow> 's \<Rightarrow> 'a list \<Rightarrow> 's option" where
  "try_foldl f s [] = Some s"
| "try_foldl f s (x # xs) = Option.bind (f s x) (\<lambda>s'. try_foldl f s' xs)"

definition group_backward_adjacent_words :: "evm_word list \<Rightarrow> evm_word groups option" where
  "group_backward_adjacent_words words = try_foldl group_word [] words"

definition group_ec_point :: "ec_point groups \<Rightarrow> ec_point \<Rightarrow> ec_point groups option" where
  "group_ec_point ec_point_groups ec_point =
     (if ec_point_groups = [] then Some [(ec_loc ec_point, [ec_point])]
      else let last_group = last ec_point_groups; last_ec_point = last (snd last_group)
        in if fst last_group = ec_loc ec_point
             \<and> is_integer (ptr_value (word_ptr (ec_x last_ec_point))) then do {
             prev \<leftarrow> ptr_sub (word_ptr (ec_x last_ec_point)) 2;
             Some (if prev = word_ptr (ec_x ec_point)
               then butlast ec_point_groups @ [(fst last_group, snd last_group @ [ec_point])]
               else ec_point_groups @ [(ec_loc ec_point, [ec_point])]) }
           else Some (ec_point_groups @ [(ec_loc ec_point, [ec_point])]))"

definition group_backward_adjacent_ec_points :: "ec_point list \<Rightarrow> ec_point groups option" where
  "group_backward_adjacent_ec_points points = try_foldl group_ec_point [] points"

text \<open>
  Points as words. The curve comes from another package: \<open>coordinates\<close> is \<open>None\<close> at infinity, and
  \<open>to_repr\<close> is the 64-byte representation of a coordinate in the quadratic extension.
\<close>

definition g1_to_u256s ::
  "'q field_api \<Rightarrow> ('p \<Rightarrow> ('q \<times> 'q) option) \<Rightarrow> 'p \<Rightarrow> (u256 \<times> u256) option" where
  "g1_to_u256s FQ coordinates ec_point = do {
     (x, y) \<leftarrow> coordinates ec_point;
     Some (field_to_u256 FQ x, field_to_u256 FQ y) }"

definition g2_to_u256s ::
  "('q2 \<Rightarrow> bytes) \<Rightarrow> ('p \<Rightarrow> ('q2 \<times> 'q2) option) \<Rightarrow> 'p \<Rightarrow> (u256 \<times> u256 \<times> u256 \<times> u256) option" where
  "g2_to_u256s to_repr coordinates ec_point = do {
     (px, py) \<leftarrow> coordinates ec_point;
     let x = to_repr px;
     let y = to_repr py;
     Some (from_le_bytes (drop 0x20 x), from_le_bytes (take 0x20 x),
       from_le_bytes (drop 0x20 y), from_le_bytes (take 0x20 y)) }"

section \<open>Columns by phase\<close>

definition occurrences :: "('a \<Rightarrow> bool) \<Rightarrow> 'a list \<Rightarrow> nat" where
  "occurrences P xs = length (filter P xs)"

lemma occurrences_simps [simp]:
  "occurrences P [] = 0" "occurrences P (x # xs) = (if P x then 1 else 0) + occurrences P xs"
  "occurrences P (xs @ ys) = occurrences P xs + occurrences P ys"
  by (simp_all add: occurrences_def)

lemma occurrences_split:
  assumes "\<And>x. x \<in> set xs \<Longrightarrow> R x \<longleftrightarrow> P x \<or> Q x" and "\<And>x. x \<in> set xs \<Longrightarrow> \<not> (P x \<and> Q x)"
  shows "occurrences P xs + occurrences Q xs = occurrences R xs"
  using assms by (induction xs) auto

lemma occurrences_mono: "(\<And>x. x \<in> set xs \<Longrightarrow> P x \<Longrightarrow> Q x) \<Longrightarrow> occurrences P xs \<le> occurrences Q xs"
  by (induction xs) auto

lemma occurrences_take_less:
  "i < length xs \<Longrightarrow> P (xs ! i) \<Longrightarrow> i < j \<Longrightarrow> occurrences P (take i xs) < occurrences P (take j xs)"
proof -
  assume i: "i < length xs" "P (xs ! i)" "i < j"
  then have "take j xs = take i xs @ xs ! i # take (j - Suc i) (drop (Suc i) xs)"
    by (metis Cons_nth_drop_Suc Suc_diff_Suc append_take_drop_id le_add_diff_inverse less_imp_le
        take_Suc_Cons take_add)
  with i show ?thesis by simp
qed

lemma count_phases_correct:
  assumes "\<forall>p\<in>set phase. unat p < length nums"
  shows "\<exists>nums'. count_phases phase nums = Some nums' \<and> length nums' = length nums
    \<and> (\<forall>k<length nums. nums' ! k = nums ! k + occurrences (\<lambda>p. unat p = k) phase)"
  using assms
proof (induction phase arbitrary: nums)
  case Nil
  then show ?case by simp
next
  case (Cons p phase)
  let ?n = "nums[unat p := nums ! unat p + 1]"
  have "\<forall>q\<in>set phase. unat q < length ?n" using Cons.prems by simp
  from Cons.IH [OF this] Cons.prems show ?case by (auto simp: nth_list_update)
qed

lemma phase_offsets_snoc: "phase_offsets (nums @ [n]) = phase_offsets nums @ [last (phase_offsets nums) + n]"
  by (simp add: phase_offsets_def)

lemma phase_offsets_correct:
  "length (phase_offsets nums) = Suc (length nums)
    \<and> (\<forall>k\<le>length nums. phase_offsets nums ! k = sum_list (take k nums))"
proof (induction nums rule: rev_induct)
  case Nil
  then show ?case by (simp add: phase_offsets_def)
next
  case (snoc n nums)
  then have "last (phase_offsets nums) = sum_list nums"
    by (metis Zero_not_Suc diff_Suc_1 last_conv_nth le_refl list.size(3) take_all_iff)
  with snoc show ?case by (auto simp: phase_offsets_snoc nth_append le_Suc_eq)
qed

lemma assign_indices_correct:
  assumes "\<forall>p\<in>set phase. unat p < length state"
  shows "\<exists>index. assign_indices phase state = Some index \<and> length index = length phase
    \<and> (\<forall>i<length phase. index ! i = state ! unat (phase ! i)
        + occurrences (\<lambda>p. p = phase ! i) (take i phase))"
  using assms
proof (induction phase arbitrary: state)
  case Nil
  then show ?case by simp
next
  case (Cons p phase)
  let ?s = "state[unat p := state ! unat p + 1]"
  have "\<forall>q\<in>set phase. unat q < length ?s" using Cons.prems by simp
  from Cons.IH [OF this] obtain index where *: "assign_indices phase ?s = Some index" "length index = length phase"
    "\<forall>i<length phase. index ! i = ?s ! unat (phase ! i) + occurrences (\<lambda>q. q = phase ! i) (take i phase)"
    by blast
  have "(state ! unat p # index) ! i = state ! unat ((p # phase) ! i)
      + occurrences (\<lambda>q. q = (p # phase) ! i) (take i (p # phase))" if "i < Suc (length phase)" for i
  proof (cases i)
    case 0
    then show ?thesis by simp
  next
    case (Suc k)
    with that * show ?thesis using Cons.prems
      by (auto simp: nth_list_update word_unat_eq_iff)
  qed
  with * Cons.prems show ?case by auto
qed

lemma sum_list_occurrences:
  assumes "length nums = n" "\<forall>k<n. nums ! k = occurrences (\<lambda>p. unat p = k) phase" "m \<le> n"
  shows "sum_list (take m nums) = occurrences (\<lambda>p. unat p < m) phase"
  using assms(3)
proof (induction m)
  case 0
  then show ?case by (simp add: occurrences_def)
next
  case (Suc m)
  then have "sum_list (take (Suc m) nums) =
    occurrences (\<lambda>p. unat p < m) phase + occurrences (\<lambda>p. unat p = m) phase"
    using assms(1,2) by (simp add: take_Suc_conv_app_nth)
  also have "\<dots> = occurrences (\<lambda>p. unat p < Suc m) phase" by (rule occurrences_split) auto
  finally show ?case .
qed

text \<open>The rank of column \<open>i\<close> among the columns ordered by phase, then by number.\<close>

definition phase_rank :: "u8 list \<Rightarrow> nat \<Rightarrow> nat" where
  "phase_rank phase i = occurrences (\<lambda>p. p < phase ! i) phase
     + occurrences (\<lambda>p. p = phase ! i) (take i phase)"

lemma remapping_ranks:
  assumes "0 < n" and "\<forall>p\<in>set phase. unat p < n"
  obtains nums where "remapping n phase = Some (nums, map (phase_rank phase) [0..<length phase])"
    "length nums = n" "\<forall>k<n. nums ! k = occurrences (\<lambda>p. unat p = k) phase"
proof -
  obtain nums where nums: "count_phases phase (replicate n 0) = Some nums" "length nums = n"
    "\<forall>k<n. nums ! k = occurrences (\<lambda>p. unat p = k) phase"
    using count_phases_correct [of phase "replicate n 0"] assms(2) by auto
  let ?off = "phase_offsets (take (n - 1) nums)"
  have off: "length ?off = n" "\<forall>k<n. ?off ! k = occurrences (\<lambda>p. unat p < k) phase"
  proof -
    have len: "length (take (n - 1) nums) = n - 1" using nums(2) by simp
    show "length ?off = n" using phase_offsets_correct [of "take (n - 1) nums"] len assms(1) by simp
    show "\<forall>k<n. ?off ! k = occurrences (\<lambda>p. unat p < k) phase"
    proof (intro allI impI)
      fix k
      assume "k < n"
      then have "?off ! k = sum_list (take k (take (n - 1) nums))"
        using phase_offsets_correct [of "take (n - 1) nums"] len nums(2) by simp
      moreover have "take k (take (n - 1) nums) = take k nums"
        using \<open>k < n\<close> by (cases n) (auto simp: min_def)
      ultimately have "?off ! k = sum_list (take k nums)" by simp
      also have "\<dots> = occurrences (\<lambda>p. unat p < k) phase"
        using \<open>k < n\<close> by (intro sum_list_occurrences [OF nums(2,3)]) simp
      finally show "?off ! k = occurrences (\<lambda>p. unat p < k) phase" .
    qed
  qed
  with assms(2) obtain index where index: "assign_indices phase ?off = Some index"
    "length index = length phase" "\<forall>i<length phase. index ! i = ?off ! unat (phase ! i)
        + occurrences (\<lambda>p. p = phase ! i) (take i phase)"
    using assign_indices_correct [of phase ?off] by auto
  have "index = map (phase_rank phase) [0..<length phase]"
    using index off(2) assms(2)
    by (intro nth_equalityI) (simp_all add: phase_rank_def word_less_nat_alt)
  with nums index show ?thesis by (intro that [of nums]) (simp_all add: remapping_def)
qed

lemma phase_rank_mono:
  assumes "i < length phase" and "j < length phase"
    and "phase ! i < phase ! j \<or> phase ! i = phase ! j \<and> i < j"
  shows "phase_rank phase i < phase_rank phase j"
  using assms(3)
proof
  assume less: "phase ! i < phase ! j"
  have "occurrences (\<lambda>p. p = phase ! i) (take i phase) < occurrences (\<lambda>p. p = phase ! i) phase"
    using occurrences_take_less [of i phase "\<lambda>p. p = phase ! i" "length phase"] assms(1) by simp
  moreover have "occurrences (\<lambda>p. p < phase ! i) phase + occurrences (\<lambda>p. p = phase ! i) phase
      = occurrences (\<lambda>p. p \<le> phase ! i) phase"
    by (rule occurrences_split) auto
  moreover have "\<dots> \<le> occurrences (\<lambda>p. p < phase ! j) phase"
    using less by (intro occurrences_mono) auto
  ultimately show ?thesis by (simp add: phase_rank_def)
next
  assume "phase ! i = phase ! j \<and> i < j"
  then show ?thesis
    using occurrences_take_less [of i phase "\<lambda>p. p = phase ! i" j] assms(1) by (simp add: phase_rank_def)
qed

lemma phase_rank_bound: "i < length phase \<Longrightarrow> phase_rank phase i < length phase"
proof -
  assume i: "i < length phase"
  have "occurrences (\<lambda>p. p = phase ! i) (take i phase) < occurrences (\<lambda>p. p = phase ! i) phase"
    using occurrences_take_less [of i phase "\<lambda>p. p = phase ! i" "length phase"] i by simp
  moreover have "occurrences (\<lambda>p. p < phase ! i) phase + occurrences (\<lambda>p. p = phase ! i) phase
      = occurrences (\<lambda>p. p \<le> phase ! i) phase"
    by (rule occurrences_split) auto
  moreover have "\<dots> \<le> length phase" by (simp add: occurrences_def)
  ultimately show ?thesis by (simp add: phase_rank_def)
qed

lemma phase_rank_less_iff:
  assumes "i < length phase" and "j < length phase"
  shows "phase_rank phase i < phase_rank phase j \<longleftrightarrow>
    phase ! i < phase ! j \<or> phase ! i = phase ! j \<and> i < j"
  using phase_rank_mono [OF assms] phase_rank_mono [OF assms(2,1)]
  by (metis less_irrefl less_linear not_less_iff_gr_or_eq)

lemma phase_ranks_permute:
  "distinct (map (phase_rank phase) [0..<length phase])
    \<and> set (map (phase_rank phase) [0..<length phase]) = {..<length phase}"
proof -
  have inj: "inj_on (phase_rank phase) {..<length phase}"
    by (rule inj_onI) (metis lessThan_iff less_irrefl phase_rank_less_iff linorder_less_linear)
  moreover have "phase_rank phase ` {..<length phase} = {..<length phase}"
    using inj by (intro card_subset_eq) (auto simp: phase_rank_bound card_image)
  ultimately show ?thesis by (simp add: distinct_map atLeast_upt flip: atLeast0LessThan)
qed

section \<open>Places as integers\<close>

definition word_at :: "location \<Rightarrow> nat \<Rightarrow> evm_word" where
  "word_at l b = EvmWord (Ptr l (Integer b))"

definition ec_at :: "location \<Rightarrow> nat \<Rightarrow> ec_point" where
  "ec_at l b = EcPoint (word_at l b) (word_at l (b + 32))"

lemma ptr_add_Integer [simp]: "ptr_add (Ptr l (Integer b)) n = Some (Ptr l (Integer (b + 32 * n)))"
  by (simp add: ptr_add_def val_add_def mult.commute)

lemma ptr_sub_Integer [simp]:
  "32 * n \<le> b \<Longrightarrow> ptr_sub (Ptr l (Integer b)) n = Some (Ptr l (Integer (b - 32 * n)))"
  by (simp add: ptr_sub_def val_sub_def usize_sub_def mult.commute)

lemma those_map_Some [simp]: "those (map (\<lambda>x. Some (f x)) xs) = Some (map f xs)"
  by (induction xs) auto

lemma word_range_Integer [simp]:
  "word_range (Ptr l (Integer b)) n = Some (map (\<lambda>i. word_at l (b + 32 * i)) [0..<n])"
  by (simp add: word_range_def word_at_def)

lemma ec_from_ptr_Integer [simp]: "ec_from_ptr (Ptr l (Integer b)) = Some (ec_at l b)"
  by (simp add: ec_from_ptr_def ec_at_def word_at_def)

lemma ec_range_Integer [simp]:
  "ec_range (Ptr l (Integer b)) n = Some (map (\<lambda>i. ec_at l (b + 64 * i)) [0..<n])"
  by (simp add: ec_range_def ec_at_def word_at_def)

lemma word_at_eq [simp]: "word_at l b = word_at l' b' \<longleftrightarrow> l = l' \<and> b = b'"
  by (simp add: word_at_def)

lemma ec_at_eq [simp]: "ec_at l b = ec_at l' b' \<longleftrightarrow> l = l' \<and> b = b'"
  by (auto simp: ec_at_def)

text \<open>The first evaluation: behind the points of the proof.\<close>

definition proof_points :: "constraint_system_meta \<Rightarrow> nat" where
  "proof_points m = length (cm_advice_indices m) + cm_num_lookup_permuteds m
     + cm_num_permutation_zs m + cm_num_lookup_zs m + 1 + cm_num_quotients m"

definition eval_start :: "constraint_system_meta \<Rightarrow> nat \<Rightarrow> nat" where
  "eval_start m p = p + 64 * proof_points m"

definition fixed_start :: "halo2_verifying_key \<Rightarrow> nat \<Rightarrow> nat" where
  "fixed_start vk v = v + 32 * length (vk_constants vk)"

definition z_eval_start :: "constraint_system_meta \<Rightarrow> nat \<Rightarrow> nat" where
  "z_eval_start m p = eval_start m p + 32 * (length (cm_advice_queries m)
     + length (cm_fixed_queries m) + 1 + length (cm_permutation_columns m))"

definition lookup_eval_start :: "constraint_system_meta \<Rightarrow> nat \<Rightarrow> nat" where
  "lookup_eval_start m p = z_eval_start m p + 32 * (3 * cm_num_permutation_zs m) - 32"

lemma data_new_Integer:
  "data_new m vk (Ptr Memory (Integer v)) (Ptr Calldata (Integer p)) = Some \<lparr>
     da_challenge_mptr = Ptr Memory (Integer (v + vk_len vk)),
     da_theta_mptr = Ptr Memory (Integer (v + vk_len vk + 32 * length (cm_challenge_indices m))),
     da_quotient_comm_cptr = Ptr Calldata (Integer (p + 64 * (proof_points m - cm_num_quotients m))),
     da_w_cptr = Ptr Calldata (Integer (lookup_eval_start m p + 32 * (5 * cm_num_lookup_zs m))),
     da_fixed_comms = map (\<lambda>i. ec_at Memory (fixed_start vk v + 64 * i)) [0..<cm_num_fixeds m],
     da_permutation_comms = hash_map (zip (cm_permutation_columns m)
       (map (\<lambda>i. ec_at Memory (fixed_start vk v + 64 * length (vk_fixed_comms vk) + 64 * i))
         [0..<length (cm_permutation_columns m)])),
     da_advice_comms = map (\<lambda>idx. ec_at Calldata (p + 64 * idx)) (cm_advice_indices m),
     da_lookup_permuted_comms = pairs_of (map (\<lambda>i. ec_at Calldata
       (p + 64 * length (cm_advice_indices m) + 64 * i)) [0..<cm_num_lookup_permuteds m]),
     da_permutation_z_comms = map (\<lambda>i. ec_at Calldata (p + 64 * (length (cm_advice_indices m)
       + cm_num_lookup_permuteds m) + 64 * i)) [0..<cm_num_permutation_zs m],
     da_lookup_z_comms = map (\<lambda>i. ec_at Calldata (p + 64 * (length (cm_advice_indices m)
       + cm_num_lookup_permuteds m + cm_num_permutation_zs m) + 64 * i)) [0..<cm_num_lookup_zs m],
     da_random_comm = ec_at Calldata (p + 64 * (length (cm_advice_indices m)
       + cm_num_lookup_permuteds m + cm_num_permutation_zs m + cm_num_lookup_zs m)),
     da_challenges = map (\<lambda>idx. word_at Memory (v + vk_len vk + 32 * idx)) (cm_challenge_indices m),
     da_instance_eval = EvmWord (Ptr Memory (Identifier ''INSTANCE_EVAL_MPTR'')),
     da_advice_evals = hash_map (zip (cm_advice_queries m)
       (map (\<lambda>i. word_at Calldata (eval_start m p + 32 * i)) [0..<length (cm_advice_queries m)])),
     da_fixed_evals = hash_map (zip (cm_fixed_queries m)
       (map (\<lambda>i. word_at Calldata (eval_start m p + 32 * length (cm_advice_queries m) + 32 * i))
         [0..<length (cm_fixed_queries m)])),
     da_random_eval = word_at Calldata (eval_start m p + 32 * (length (cm_advice_queries m)
       + length (cm_fixed_queries m))),
     da_permutation_evals = hash_map (zip (cm_permutation_columns m)
       (map (\<lambda>i. word_at Calldata (eval_start m p + 32 * (length (cm_advice_queries m)
         + length (cm_fixed_queries m) + 1) + 32 * i)) [0..<length (cm_permutation_columns m)])),
     da_permutation_z_evals = triples_of (map (\<lambda>i. word_at Calldata (z_eval_start m p + 32 * i))
       [0..<3 * cm_num_permutation_zs m]),
     da_lookup_evals = quintuples_of (map (\<lambda>i. word_at Calldata (lookup_eval_start m p + 32 * i))
       [0..<5 * cm_num_lookup_zs m]),
     da_computed_quotient_comm = EcPoint (EvmWord (Ptr Memory (Identifier ''QUOTIENT_X_MPTR'')))
       (EvmWord (Ptr Memory (Identifier ''QUOTIENT_Y_MPTR''))),
     da_computed_quotient_eval = EvmWord (Ptr Memory (Identifier ''QUOTIENT_EVAL_MPTR'')) \<rparr>"
  by (simp add: data_new_def Let_def num_lookups_def num_permutations_def vk_len_def fixed_start_def
      eval_start_def z_eval_start_def lookup_eval_start_def proof_points_def)
    (simp add: word_at_def algebra_simps)

section \<open>Groups of adjacent words and points\<close>

text \<open>
  Both grouping functions follow one scheme: \<open>adjacent x y\<close> decides whether \<open>y\<close> continues the group
  that ends in \<open>x\<close> (\<open>None\<close> when the subtraction panics).
\<close>

locale backward_groups =
  fixes loc :: "'a \<Rightarrow> location" and adjacent :: "'a \<Rightarrow> 'a \<Rightarrow> bool option"
    and step :: "'a groups \<Rightarrow> 'a \<Rightarrow> 'a groups option"
  assumes step_Nil: "step [] x = Some [(loc x, [x])]"
    and step_snoc: "loc (last ys) = l \<Longrightarrow> step (gs @ [(l, ys)]) x =
      map_option (\<lambda>b. if b then gs @ [(l, ys @ [x])] else gs @ [(l, ys), (loc x, [x])]) (adjacent (last ys) x)"
    and adjacent_loc: "adjacent x y = Some True \<Longrightarrow> loc x = loc y"
begin

definition group_ok :: "location \<times> 'a list \<Rightarrow> bool" where
  "group_ok g \<longleftrightarrow> snd g \<noteq> [] \<and> (\<forall>x\<in>set (snd g). loc x = fst g)
     \<and> successively (\<lambda>x y. adjacent x y = Some True) (snd g)"

definition groups_ok :: "'a groups \<Rightarrow> bool" where
  "groups_ok gs \<longleftrightarrow> (\<forall>g\<in>set gs. group_ok g)
     \<and> successively (\<lambda>g h. adjacent (last (snd g)) (hd (snd h)) = Some False) gs"

lemma step_ok:
  assumes "groups_ok gs" and "step gs x = Some gs'"
  shows "groups_ok gs' \<and> concat (map snd gs') = concat (map snd gs) @ [x]"
proof (cases gs rule: rev_cases)
  case Nil
  with assms(2) show ?thesis by (auto simp: step_Nil groups_ok_def group_ok_def)
next
  case (snoc hs g)
  obtain l ys where g: "g = (l, ys)" by (cases g)
  have ok: "ys \<noteq> []" "\<forall>y\<in>set ys. loc y = l" "successively (\<lambda>x y. adjacent x y = Some True) ys"
    using assms(1) by (auto simp: snoc g groups_ok_def group_ok_def)
  then have l: "loc (last ys) = l" by simp
  from assms(2) l obtain b where b: "adjacent (last ys) x = Some b"
    "gs' = (if b then hs @ [(l, ys @ [x])] else hs @ [(l, ys), (loc x, [x])])"
    by (auto simp: snoc g step_snoc)
  show ?thesis
  proof (cases b)
    case True
    with b adjacent_loc l have "loc x = l" by metis
    with True b ok assms(1) show ?thesis
      by (auto simp: snoc g groups_ok_def group_ok_def successively_append_iff)
  next
    case False
    with b ok assms(1) show ?thesis
      by (auto simp: snoc g groups_ok_def group_ok_def successively_append_iff)
  qed
qed

lemma groups_correct:
  assumes "try_foldl step [] xs = Some gs"
  shows "groups_ok gs \<and> concat (map snd gs) = xs"
proof -
  have "groups_ok gs' \<and> concat (map snd gs') = concat (map snd gs) @ xs"
    if "groups_ok gs" "try_foldl step gs xs = Some gs'" for gs gs'
    using that
  proof (induction xs arbitrary: gs)
    case Nil
    then show ?case by simp
  next
    case (Cons x xs)
    then obtain gs1 where "step gs x = Some gs1" "try_foldl step gs1 xs = Some gs'"
      by (auto simp: bind_eq_Some_conv)
    with Cons step_ok [OF Cons.prems(1)] show ?case by fastforce
  qed
  from this [of "[]"] assms show ?thesis by (simp add: groups_ok_def)
qed

end

definition adjacent_words :: "evm_word \<Rightarrow> evm_word \<Rightarrow> bool option" where
  "adjacent_words x y = (if word_loc x = word_loc y \<and> is_integer (ptr_value (word_ptr x))
     then map_option (\<lambda>p. p = word_ptr y) (ptr_sub (word_ptr x) 1) else Some False)"

definition adjacent_points :: "ec_point \<Rightarrow> ec_point \<Rightarrow> bool option" where
  "adjacent_points x y = (if ec_loc x = ec_loc y \<and> is_integer (ptr_value (word_ptr (ec_x x)))
     then map_option (\<lambda>p. p = word_ptr (ec_x y)) (ptr_sub (word_ptr (ec_x x)) 2) else Some False)"

interpretation word_groups: backward_groups word_loc adjacent_words group_word
  by unfold_locales
    (auto simp: group_word_def adjacent_words_def Let_def map_option_case split: option.splits if_splits)

interpretation point_groups: backward_groups ec_loc adjacent_points group_ec_point
  by unfold_locales
    (auto simp: group_ec_point_def adjacent_points_def Let_def map_option_case
      split: option.splits if_splits)

lemma adjacent_words_True:
  "adjacent_words x y = Some True \<longleftrightarrow> (\<exists>l b. x = word_at l (b + 32) \<and> y = word_at l b)"
proof -
  obtain l v where x: "x = EvmWord (Ptr l v)" by (metis evm_word.exhaust ptr.exhaust)
  obtain l' v' where y: "y = EvmWord (Ptr l' v')" by (metis evm_word.exhaust ptr.exhaust)
  show ?thesis
    by (cases v) (auto simp: x y adjacent_words_def word_loc_def ptr_sub_def val_sub_def
        usize_sub_def word_at_def nat_le_iff_add)
qed

lemma adjacent_points_ec_at:
  "adjacent_points (ec_at l b) (ec_at l' b') = Some True \<longleftrightarrow> l = l' \<and> b = b' + 64"
  by (auto simp: adjacent_points_def ec_at_def ec_loc_def word_at_def ptr_sub_def val_sub_def
      usize_sub_def)

text \<open>A descending run of places \<open>k\<close> bytes apart.\<close>

definition run_down :: "('l \<Rightarrow> nat \<Rightarrow> 'a) \<Rightarrow> nat \<Rightarrow> 'l \<Rightarrow> nat \<Rightarrow> nat \<Rightarrow> 'a list" where
  "run_down f k l b n = map (\<lambda>i. f l (b + k * (n - 1 - i))) [0..<n]"

lemma run_down_Suc: "0 < n \<Longrightarrow> run_down f k l b (Suc n) = f l (b + k * n) # run_down f k l b n"
  unfolding run_down_def
  by (simp add: upt_conv_Cons map_Suc_upt [symmetric] del: upt_Suc)

lemma hd_run_down: "0 < n \<Longrightarrow> hd (run_down f k l b n) = f l (b + k * (n - 1))"
  unfolding run_down_def by (simp add: upt_conv_Cons del: upt_Suc)

lemma length_run_down [simp]: "length (run_down f k l b n) = n"
  by (simp add: run_down_def)

lemma successively_run_down:
  assumes "successively (\<lambda>x y. \<exists>l b. x = f l (b + k) \<and> y = f l b) xs" and "2 \<le> length xs"
    and inj: "\<And>l b l' b'. f l b = f l' b' \<Longrightarrow> l = l' \<and> b = b'"
  shows "\<exists>l b. xs = run_down f k l b (length xs)"
  using assms(1,2)
proof (induction xs)
  case (Cons x xs)
  show ?case
  proof (cases "length xs < 2")
    case True
    with Cons.prems obtain y where xs: "xs = [y]" by (cases xs) (auto simp: length_Suc_conv)
    with Cons.prems obtain l b where "x = f l (b + k)" "y = f l b" by auto
    then show ?thesis by (intro exI [of _ l] exI [of _ b]) (simp add: xs run_down_def upt_rec)
  next
    case False
    then have "successively (\<lambda>x y. \<exists>l b. x = f l (b + k) \<and> y = f l b) xs"
      using Cons.prems(1) by (cases xs) auto
    with Cons.IH False obtain l b where xs: "xs = run_down f k l b (length xs)" by force
    moreover have pos: "0 < length xs" using False by auto
    ultimately have "hd xs = f l (b + k * (length xs - 1))" by (metis hd_run_down)
    moreover obtain l' b' where "x = f l' (b' + k)" "hd xs = f l' b'"
      using Cons.prems(1) False by (cases xs) auto
    ultimately have "x = f l (b + k * (length xs - 1) + k)" by (auto dest: inj)
    also have "b + k * (length xs - 1) + k = b + k * length xs" using pos by (cases "length xs") auto
    finally have "x # xs = run_down f k l b (Suc (length xs))" using pos xs by (simp add: run_down_Suc)
    then show ?thesis by (intro exI [of _ l] exI [of _ b]) simp
  qed
qed simp

text \<open>The places a generated loop \<open>for a down to (and without) z\<close> visits.\<close>

function loop_down :: "nat \<Rightarrow> nat \<Rightarrow> nat \<Rightarrow> nat list" where
  "loop_down a z k = (if k = 0 \<or> a \<le> z then [] else a # loop_down (a - k) z k)"
  by auto
termination by (relation "measure (\<lambda>(a, z, k). a)") auto

declare loop_down.simps [simp del]

lemma loop_down_run: "0 < k \<Longrightarrow> map (f l) (loop_down (z + k * n) z k) = run_down f k l (z + k) n"
proof (induction n)
  case 0
  then show ?case by (simp add: loop_down.simps run_down_def)
next
  case (Suc n)
  have "loop_down (z + k * Suc n) z k = (z + k * Suc n) # loop_down (z + k * n) z k"
    using Suc.prems by (subst loop_down.simps) simp
  with Suc show ?case
    by (cases n) (simp_all add: run_down_Suc add.assoc, simp add: loop_down.simps run_down_def)
qed

lemma group_words_run:
  assumes "group_backward_adjacent_words words = Some gs" and "(l, ws) \<in> set gs" and "2 \<le> length ws"
  shows "\<exists>b. ws = run_down word_at 32 l b (length ws)"
proof -
  have "word_groups.groups_ok gs"
    using assms(1) word_groups.groups_correct by (auto simp: group_backward_adjacent_words_def)
  then have ok: "\<forall>x\<in>set ws. word_loc x = l" "successively (\<lambda>x y. adjacent_words x y = Some True) ws"
    using assms(2) by (auto simp: word_groups.groups_ok_def word_groups.group_ok_def)
  then obtain l' b where ws: "ws = run_down word_at 32 l' b (length ws)"
    using successively_run_down [of word_at 32 ws] assms(3) by (auto simp: adjacent_words_True)
  moreover have "hd (run_down word_at 32 l' b (length ws)) = word_at l' (b + 32 * (length ws - 1))"
    using assms(3) by (intro hd_run_down) auto
  moreover have "hd ws \<in> set ws" using assms(3) by (cases ws) auto
  ultimately have "word_at l' (b + 32 * (length ws - 1)) \<in> set ws" by metis
  with ok(1) have "l' = l" by (auto simp: word_loc_def word_at_def)
  with ws show ?thesis by blast
qed

lemma group_points_run:
  assumes "group_backward_adjacent_ec_points points = Some gs" and "(l, ps) \<in> set gs"
    and "2 \<le> length ps" and points: "\<forall>p\<in>set points. \<exists>l b. p = ec_at l b"
  shows "\<exists>b. ps = run_down ec_at 64 l b (length ps)"
proof -
  have gs: "point_groups.groups_ok gs" "concat (map snd gs) = points"
    using assms(1) point_groups.groups_correct by (auto simp: group_backward_adjacent_ec_points_def)
  then have ok: "\<forall>x\<in>set ps. ec_loc x = l" "successively (\<lambda>x y. adjacent_points x y = Some True) ps"
    using assms(2) by (auto simp: point_groups.groups_ok_def point_groups.group_ok_def)
  have "set ps \<subseteq> set points" using gs(2) assms(2) by force
  with points have shape: "\<forall>p\<in>set ps. \<exists>l b. p = ec_at l b" by blast
  have "successively (\<lambda>x y. \<exists>l b. x = ec_at l (b + 64) \<and> y = ec_at l b) ps"
    using ok(2)
  proof (rule successively_mono)
    fix x y
    assume "x \<in> set ps" "y \<in> set ps" "adjacent_points x y = Some True"
    moreover from this obtain l1 b1 l2 b2 where "x = ec_at l1 b1" "y = ec_at l2 b2"
      using shape by blast
    ultimately have "x = ec_at l2 (b2 + 64) \<and> y = ec_at l2 b2" by (simp add: adjacent_points_ec_at)
    then show "\<exists>l b. x = ec_at l (b + 64) \<and> y = ec_at l b" by blast
  qed
  then obtain l' b where ps: "ps = run_down ec_at 64 l' b (length ps)"
    using successively_run_down [of ec_at 64 ps] assms(3) by auto
  moreover have "hd (run_down ec_at 64 l' b (length ps)) = ec_at l' (b + 64 * (length ps - 1))"
    using assms(3) by (intro hd_run_down) auto
  moreover have "hd ps \<in> set ps" using assms(3) by (cases ps) auto
  ultimately have "ec_at l' (b + 64 * (length ps - 1)) \<in> set ps" by metis
  with ok(1) have "l' = l" by (auto simp: ec_loc_def ec_at_def word_at_def)
  with ps show ?thesis by blast
qed

section \<open>Correctness of the layout\<close>

text \<open>
  The columns and the challenges are numbered by phase, and within a phase in the order of the
  circuit: \<open>remapping\<close> is a bijection onto the positions \<open>0 .. n - 1\<close> that sorts stably by phase, and
  it counts the columns of every phase. It panics only on a phase beyond the last one.
\<close>

theorem remapping_correct:
  assumes "0 < num_phase"
  shows "case remapping num_phase phase of
      None \<Rightarrow> \<exists>p\<in>set phase. num_phase \<le> unat p
    | Some (nums, index) \<Rightarrow>
        nums = map (\<lambda>k. length (filter (\<lambda>p. unat p = k) phase)) [0..<num_phase]
        \<and> length index = length phase \<and> distinct index \<and> set index = {..<length phase}
        \<and> (\<forall>i<length phase. \<forall>j<length phase. index ! i < index ! j \<longleftrightarrow>
            phase ! i < phase ! j \<or> phase ! i = phase ! j \<and> i < j)"
proof (cases "\<forall>p\<in>set phase. unat p < num_phase")
  case True
  from remapping_ranks [OF assms True] obtain nums where
    "remapping num_phase phase = Some (nums, map (phase_rank phase) [0..<length phase])"
    "length nums = num_phase" "\<forall>k<num_phase. nums ! k = occurrences (\<lambda>p. unat p = k) phase" .
  moreover from this have "nums = map (\<lambda>k. length (filter (\<lambda>p. unat p = k) phase)) [0..<num_phase]"
    by (intro nth_equalityI) (simp_all add: occurrences_def)
  ultimately show ?thesis
    using phase_ranks_permute [of phase] phase_rank_less_iff [of _ phase] by simp
next
  case False
  have "count_phases ps nums = None" if "\<not> (\<forall>p\<in>set ps. unat p < length nums)" for ps nums
    using that by (induction ps arbitrary: nums) auto
  from this [of phase "replicate num_phase 0"] False show ?thesis
    by (auto simp: remapping_def not_less)
qed

theorem remapping_correct_witness:
  "case remapping 2 [1, 0, 1, 0] of
      None \<Rightarrow> False
    | Some (nums, index) \<Rightarrow> nums = [2, 2] \<and> index = [2, 0, 3, 1] \<and> distinct index
        \<and> set index = {..<4}"
  using remapping_correct [of 2 "[1, 0, 1, 0]"]
  by (simp add: remapping_def phase_offsets_def lessThan_Suc numeral_eq_Suc)

text \<open>
  A group of adjacent words is read by the generated loop in exactly its order: the loop starts
  at the first word of the group and steps down to, and without, the end pointer the generator
  prints, and visits the words of the group one by one.
\<close>

theorem word_group_loop:
  assumes "group_backward_adjacent_words words = Some gs" and "(l, ws) \<in> set gs"
    and "2 \<le> length ws" and "ptr_sub (word_ptr (ws ! 0)) (length ws) = Some finish"
  shows "concat (map snd gs) = words
    \<and> (\<exists>a z. word_ptr (ws ! 0) = Ptr l (Integer a) \<and> finish = Ptr l (Integer z)
        \<and> map (\<lambda>cptr. EvmWord (Ptr l (Integer cptr))) (loop_down a z 0x20) = ws)"
proof
  show "concat (map snd gs) = words"
    using assms(1) word_groups.groups_correct by (auto simp: group_backward_adjacent_words_def)
  obtain b where ws: "ws = run_down word_at 32 l b (length ws)"
    using group_words_run [OF assms(1-3)] by blast
  have "hd (run_down word_at 32 l b (length ws)) = word_at l (b + 32 * (length ws - 1))"
    using assms(3) by (intro hd_run_down) auto
  with ws assms(3) have first: "ws ! 0 = word_at l (b + 32 * (length ws - 1))"
    by (metis hd_conv_nth list.size(3) not_numeral_le_zero)
  moreover obtain n where n: "length ws = Suc n" using assms(3) by (cases "length ws") auto
  ultimately have b: "32 \<le> b" "finish = Ptr l (Integer (b - 32))"
    using assms(4) by (auto simp: word_at_def ptr_sub_def val_sub_def usize_sub_def split: if_splits)
  have "map (word_at l) (loop_down (b - 32 + 32 * length ws) (b - 32) 32) = ws"
    using ws b(1) by (subst loop_down_run) simp_all
  moreover have "b - 32 + 32 * length ws = b + 32 * (length ws - 1)" using b(1) n by simp
  ultimately show "\<exists>a z. word_ptr (ws ! 0) = Ptr l (Integer a) \<and> finish = Ptr l (Integer z)
      \<and> map (\<lambda>cptr. EvmWord (Ptr l (Integer cptr))) (loop_down a z 0x20) = ws"
    using first b(2) by (auto simp: word_at_def cong: map_cong)
qed

theorem word_group_loop_witness:
  "map (\<lambda>cptr. EvmWord (Ptr Calldata (Integer cptr))) (loop_down 0xe4 0x84 0x20)
      = [word_at Calldata 0xe4, word_at Calldata 0xc4, word_at Calldata 0xa4]"
  using word_group_loop [of "[word_at Memory 0x40, word_at Calldata 0xe4, word_at Calldata 0xc4,
      word_at Calldata 0xa4]" "[(Memory, [word_at Memory 0x40]), (Calldata, [word_at Calldata 0xe4,
      word_at Calldata 0xc4, word_at Calldata 0xa4])]" Calldata "[word_at Calldata 0xe4,
      word_at Calldata 0xc4, word_at Calldata 0xa4]" "Ptr Calldata (Integer 0x84)"]
  by (auto simp: group_backward_adjacent_words_def group_word_def word_at_def word_loc_def)

end
