(* ===== verification/HaloEvaluator.thy ===== *)
theory HaloEvaluator
  imports HaloUtil
begin

text \<open>
  \<open>halo2-verifier/src/lib/codegen/evaluator.rs\<close>: the generator of the lines that evaluate the gate
  polynomials, the permutation argument and the lookup argument at the challenge point. Its two
  \<open>RefCell\<close>s, the counter of fresh variables and the cache from right-hand sides to variables, are an
  explicit state; a computation is a list of lines and the variable that holds its result.

  The lines are text, exactly as the code formats it; the theorems run that text.
\<close>

section \<open>Names and constants\<close>

text \<open>\<open>value.bit_len() < 64\<close> says that the value fits 63 bits.\<close>

definition u256_string :: "u256 \<Rightarrow> string" where
  "u256_string v = (if unat v < 2 ^ 63 then ''0x'' @ show_hex (unat (as_limbs v ! 0))
     else ''0x'' @ show_hex (unat v))"

definition column_eval_var :: "string \<Rightarrow> nat \<Rightarrow> int \<Rightarrow> string" where
  "column_eval_var pre index rotation =
     (if rotation < 0 then pre @ ''_'' @ show_dec index @ ''_prev_'' @ show_dec (nat (- rotation))
      else if rotation = 0 then pre @ ''_'' @ show_dec index
      else pre @ ''_'' @ show_dec index @ ''_next_'' @ show_dec (nat rotation))"

definition fixed_eval_var :: "nat \<Rightarrow> int \<Rightarrow> string" where
  "fixed_eval_var index rotation = column_eval_var ''f'' index rotation"

definition advice_eval_var :: "nat \<Rightarrow> int \<Rightarrow> string" where
  "advice_eval_var index rotation = column_eval_var ''a'' index rotation"

section \<open>Expressions\<close>

text \<open>\<open>evaluate\<close>, with one handler per kind of expression; the handlers share a state \<open>'s\<close>.\<close>

record ('s, 't) handlers =
  h_constant :: "u256 \<Rightarrow> 's \<Rightarrow> ('t \<times> 's) option"
  h_fixed :: "nat \<Rightarrow> int \<Rightarrow> 's \<Rightarrow> ('t \<times> 's) option"
  h_advice :: "nat \<Rightarrow> int \<Rightarrow> 's \<Rightarrow> ('t \<times> 's) option"
  h_instance :: "nat \<Rightarrow> int \<Rightarrow> 's \<Rightarrow> ('t \<times> 's) option"
  h_challenge :: "nat \<Rightarrow> 's \<Rightarrow> ('t \<times> 's) option"
  h_negated :: "'t \<Rightarrow> 's \<Rightarrow> ('t \<times> 's) option"
  h_sum :: "'t \<Rightarrow> 't \<Rightarrow> 's \<Rightarrow> ('t \<times> 's) option"
  h_product :: "'t \<Rightarrow> 't \<Rightarrow> 's \<Rightarrow> ('t \<times> 's) option"
  h_scaled :: "'t \<Rightarrow> u256 \<Rightarrow> 's \<Rightarrow> ('t \<times> 's) option"

fun evaluate ::
  "'f field_api \<Rightarrow> ('s, 't) handlers \<Rightarrow> 'f expression \<Rightarrow> 's \<Rightarrow> ('t \<times> 's) option" where
  "evaluate FF h (Constant scalar) s = h_constant h (field_to_u256 FF scalar) s"
| "evaluate FF h Selector s = None"
| "evaluate FF h (FixedQ index rotation) s = h_fixed h index rotation s"
| "evaluate FF h (AdviceQ index rotation) s = h_advice h index rotation s"
| "evaluate FF h (InstanceQ index rotation) s = h_instance h index rotation s"
| "evaluate FF h (ChallengeE index) s = h_challenge h index s"
| "evaluate FF h (Negated e) s = do { (t, s) \<leftarrow> evaluate FF h e s; h_negated h t s }"
| "evaluate FF h (SumE lhs rhs) s = do {
     (t, s) \<leftarrow> evaluate FF h lhs s; (u, s) \<leftarrow> evaluate FF h rhs s; h_sum h t u s }"
| "evaluate FF h (ProductE lhs rhs) s = do {
     (t, s) \<leftarrow> evaluate FF h lhs s; (u, s) \<leftarrow> evaluate FF h rhs s; h_product h t u s }"
| "evaluate FF h (Scaled e scalar) s = do {
     (t, s) \<leftarrow> evaluate FF h e s; h_scaled h t (field_to_u256 FF scalar) s }"

record evaluator =
  ev_var_counter :: nat
  ev_var_cache :: "string \<Rightarrow> string option"

type_synonym computation = "string list \<times> string"

definition evaluator_reset :: evaluator where
  "evaluator_reset = \<lparr>ev_var_counter = 0, ev_var_cache = Map.empty\<rparr>"

definition next_var :: "evaluator \<Rightarrow> string \<times> evaluator" where
  "next_var s = (''var'' @ show_dec (ev_var_counter s), s\<lparr>ev_var_counter := ev_var_counter s + 1\<rparr>)"

definition init_var :: "string \<Rightarrow> string option \<Rightarrow> evaluator \<Rightarrow> computation \<times> evaluator" where
  "init_var v var s = (case ev_var_cache s v of
      Some x \<Rightarrow> (([], x), s)
    | None \<Rightarrow> (let (x, s) = (case var of Some x \<Rightarrow> (x, s) | None \<Rightarrow> next_var s)
        in (([fmt_let x v], x), s\<lparr>ev_var_cache := (ev_var_cache s)(v \<mapsto> x)\<rparr>)))"

definition eval_column :: "data \<Rightarrow> any \<Rightarrow> nat \<Rightarrow> int \<Rightarrow> string option" where
  "eval_column d ty index rotation = map_option show_word
     (case ty of
        AnyAdvice _ \<Rightarrow> da_advice_evals d (index, rotation)
      | AnyFixed \<Rightarrow> da_fixed_evals d (index, rotation)
      | AnyInstance \<Rightarrow> Some (da_instance_eval d))"

text \<open>The handler of a binary operation: the lines of both sides, then the one of the operation.\<close>

definition extend_lines :: "string list \<Rightarrow> computation \<times> evaluator \<Rightarrow> computation \<times> evaluator" where
  "extend_lines acc r = (let ((ls, var), s) = r in ((acc @ ls, var), s))"

definition evaluator_handlers :: "data \<Rightarrow> (evaluator, computation) handlers" where
  "evaluator_handlers d = \<lparr>
     h_constant = (\<lambda>v s. Some (init_var (u256_string v) None s)),
     h_fixed = (\<lambda>index rotation s. do {
       v \<leftarrow> eval_column d AnyFixed index rotation;
       Some (init_var v (Some (fixed_eval_var index rotation)) s) }),
     h_advice = (\<lambda>index rotation s. do {
       v \<leftarrow> eval_column d (AnyAdvice 0) index rotation;
       Some (init_var v (Some (advice_eval_var index rotation)) s) }),
     h_instance = (\<lambda>_ _ s. Some (init_var (show_word (da_instance_eval d)) (Some ''i_eval'') s)),
     h_challenge = (\<lambda>index s.
       if index < length (da_challenges d)
       then Some (init_var (show_word (da_challenges d ! index)) (Some (''c_'' @ show_dec index)) s)
       else None),
     h_negated = (\<lambda>(acc, var) s. Some (extend_lines acc (init_var (neg_r var) None s))),
     h_sum = (\<lambda>(lhs_acc, lhs_var) (rhs_acc, rhs_var) s.
       Some (extend_lines (lhs_acc @ rhs_acc) (init_var (add_r lhs_var rhs_var) None s))),
     h_product = (\<lambda>(lhs_acc, lhs_var) (rhs_acc, rhs_var) s.
       Some (extend_lines (lhs_acc @ rhs_acc) (init_var (mul_r lhs_var rhs_var) None s))),
     h_scaled = (\<lambda>(acc, var) scalar s.
       Some (extend_lines acc (init_var (mul_r var (u256_string scalar)) None s))) \<rparr>"

definition evaluator_evaluate ::
  "'f field_api \<Rightarrow> data \<Rightarrow> 'f expression \<Rightarrow> evaluator \<Rightarrow> (computation \<times> evaluator) option" where
  "evaluator_evaluate FF d expression s = evaluate FF (evaluator_handlers d) expression s"

definition evaluate_and_reset ::
  "'f field_api \<Rightarrow> data \<Rightarrow> 'f expression \<Rightarrow> evaluator \<Rightarrow> (computation \<times> evaluator) option" where
  "evaluate_and_reset FF d expression s = do {
     (result, s) \<leftarrow> evaluator_evaluate FF d expression s;
     Some (result, evaluator_reset) }"

fun try_map_state :: "('a \<Rightarrow> 's \<Rightarrow> ('b \<times> 's) option) \<Rightarrow> 'a list \<Rightarrow> 's \<Rightarrow> ('b list \<times> 's) option" where
  "try_map_state f [] s = Some ([], s)"
| "try_map_state f (x # xs) s = do {
     (y, s) \<leftarrow> f x s; (ys, s) \<leftarrow> try_map_state f xs s; Some (y # ys, s) }"

section \<open>Gates, permutations and lookups\<close>

definition gate_computations ::
  "'f field_api \<Rightarrow> 'f constraint_system \<Rightarrow> data \<Rightarrow> evaluator \<Rightarrow> (computation list \<times> evaluator) option" where
  "gate_computations FF cs d s = try_map_state (evaluate_and_reset FF d) (concat (cs_gates cs)) s"

definition permutation_column_lhs :: "data \<Rightarrow> column \<Rightarrow> string option" where
  "permutation_column_lhs d column = do {
     perm_eval \<leftarrow> da_permutation_evals d column;
     ev \<leftarrow> eval_column d (column_type column) (column_index column) 0;
     let item = mul_r ''beta'' (show_word perm_eval);
     Some (fmt_set ''lhs'' (mul_r ''lhs'' (add_r (add_r ev item) ''gamma''))) }"

definition permutation_column_rhs ::
  "data \<Rightarrow> bool \<Rightarrow> column \<Rightarrow> string list option" where
  "permutation_column_rhs d is_last column = do {
     ev \<leftarrow> eval_column d (column_type column) (column_index column) 0;
     let item = add_r (add_r ev ''mload(0x00)'') ''gamma'';
     Some ([fmt_set ''rhs'' (mul_r ''rhs'' item)]
       @ (if is_last then [] else [fmt_mstore ''0x00'' (mul_r ''mload(0x00)'' ''delta'')])) }"

definition permutation_chunk ::
  "data \<Rightarrow> nat \<Rightarrow> nat \<Rightarrow> column list \<Rightarrow> word3 \<Rightarrow> string list option" where
  "permutation_chunk d last_chunk_idx chunk_idx columns evals = do {
     last_column_idx \<leftarrow> usize_sub (length columns) 1;
     lhs \<leftarrow> those (map (permutation_column_lhs d) columns);
     rhs \<leftarrow> those (map (\<lambda>(idx, column). permutation_column_rhs d
       (chunk_idx = last_chunk_idx \<and> idx = last_column_idx) column) (enumerate 0 columns));
     Some (
       [fmt_let ''gamma'' ''mload(GAMMA_MPTR)'',
        fmt_let ''beta'' ''mload(BETA_MPTR)'',
        fmt_let ''lhs'' (show_word (fst (snd evals))),
        fmt_let ''rhs'' (show_word (fst evals))]
       @ lhs
       @ (if chunk_idx = 0 then [fmt_mstore ''0x00'' (mul_r ''beta'' ''mload(X_MPTR)'')] else [])
       @ concat rhs
       @ (let item = add_r ''mload(L_LAST_MPTR)'' ''mload(L_BLIND_MPTR)'';
              item = neg_r (mul_r ''left_sub_right'' item)
          in [fmt_let ''left_sub_right'' (add_r ''lhs'' (neg_r ''rhs'')),
              fmt_let ''eval'' (add_r ''left_sub_right'' item)])) }"

definition permutation_first :: "word3 \<Rightarrow> string list" where
  "permutation_first evals = (case evals of (z, _, _) \<Rightarrow>
     [fmt_let ''l_0'' ''mload(L_0_MPTR)'',
      fmt_let ''eval'' (add_r ''l_0'' (neg_r (mul_r ''l_0'' (show_word z))))])"

definition permutation_last :: "word3 \<Rightarrow> string list" where
  "permutation_last evals = (case evals of (z, _, _) \<Rightarrow>
     (let item = add_r (mul_r ''perm_z_last'' ''perm_z_last'') (neg_r ''perm_z_last'')
      in [fmt_let ''perm_z_last'' (show_word z),
          fmt_let ''eval'' (mul_r ''mload(L_LAST_MPTR)'' item)]))"

definition permutation_link :: "word3 \<Rightarrow> word3 \<Rightarrow> string list" where
  "permutation_link evals_i evals_j = (case (evals_i, evals_j) of ((_, _, z_i_last), (z_j, _, _)) \<Rightarrow>
     (let item = add_r (show_word z_j) (neg_r (show_word z_i_last))
      in [fmt_let ''eval'' (mul_r ''mload(L_0_MPTR)'' item)]))"

definition permutation_computations ::
  "constraint_system_meta \<Rightarrow> data \<Rightarrow> computation list option" where
  "permutation_computations m d = do {
     last_chunk_idx \<leftarrow> usize_sub (cm_num_permutation_zs m) 1;
     let zs = da_permutation_z_evals d;
     columns \<leftarrow> chunks (cm_permutation_chunk_len m) (cm_permutation_columns m);
     chunk_lines \<leftarrow> those (map (\<lambda>(chunk_idx, columns, evals).
       permutation_chunk d last_chunk_idx chunk_idx columns evals) (enumerate 0 (zip columns zs)));
     Some (map (\<lambda>ls. (ls, ''eval''))
       ((if zs = [] then [] else [permutation_first (hd zs)])
        @ (if zs = [] then [] else [permutation_last (last zs)])
        @ map2 permutation_link zs (tl zs)
        @ chunk_lines)) }"

text \<open>The expressions of one side of a lookup share the cache; it is reset after each side.\<close>

definition evaluate_side ::
  "'f field_api \<Rightarrow> data \<Rightarrow> 'f expression list \<Rightarrow> evaluator \<Rightarrow>
     ((string list \<times> string list) \<times> evaluator) option" where
  "evaluate_side FF d expressions s = do {
     (results, s) \<leftarrow> try_map_state (evaluator_evaluate FF d) expressions s;
     Some ((concat (map fst results), map snd results), evaluator_reset) }"

text \<open>\<open>{x} := ...\<close> for the first variable, then one Horner step in theta for each other one.\<close>

definition fold_theta :: "string \<Rightarrow> string \<Rightarrow> string list \<Rightarrow> string list" where
  "fold_theta x var_0 rest_vars =
     [fmt_set x var_0] @ map (\<lambda>var. fmt_set x (add_r (mul_r x ''theta'') var)) rest_vars"

definition l_inactive :: string where
  "l_inactive = add_r ''mload(L_BLIND_MPTR)'' ''mload(L_LAST_MPTR)''"

definition l_active :: string where
  "l_active = add_r ''1'' (neg_r l_inactive)"

definition lookup_product ::
  "string list \<times> string list \<Rightarrow> string list \<times> string list \<Rightarrow> word5 \<Rightarrow> string list option" where
  "lookup_product input table evals = (case evals of (z, z_next, p_input, p_input_prev, p_table) \<Rightarrow>
     (case (snd input, snd table) of
        (input_0 # rest_inputs, table_0 # rest_tables) \<Rightarrow>
          (let lhs = add_r (show_word p_input) ''beta'';
               rhs = add_r (show_word p_table) ''gamma'';
               permuted = mul_r lhs rhs;
               inp = mul_r (add_r ''input'' ''beta'') (add_r ''table'' ''gamma'')
           in Some (
             [fmt_let ''theta'' ''mload(THETA_MPTR)'', fmt_decl ''input'']
             @ code_block 1 False (fst input @ fold_theta ''input'' input_0 rest_inputs)
             @ [fmt_decl ''table'']
             @ code_block 1 False (fst table @ fold_theta ''table'' table_0 rest_tables)
             @ [fmt_let ''beta'' ''mload(BETA_MPTR)'',
                fmt_let ''gamma'' ''mload(GAMMA_MPTR)'',
                fmt_let ''lhs'' (mul_r (show_word z_next) permuted),
                fmt_let ''rhs'' (mul_r (show_word z) inp)]
             @ [fmt_let ''eval'' (mul_r l_active (add_r ''lhs'' (neg_r ''rhs'')))]))
      | _ \<Rightarrow> None))"

definition lookup_lines ::
  "string list \<times> string list \<Rightarrow> string list \<times> string list \<Rightarrow> word5 \<Rightarrow> string list list option" where
  "lookup_lines input table evals = (case evals of (z, z_next, p_input, p_input_prev, p_table) \<Rightarrow> do {
     product \<leftarrow> lookup_product input table evals;
     let p_in = show_word p_input;
     let item = add_r p_in (neg_r (show_word p_table));
     let rhs = add_r p_in (neg_r (show_word p_input_prev));
     Some [
       [fmt_let ''l_0'' ''mload(L_0_MPTR)'',
        fmt_let ''eval'' (add_r ''l_0'' (mul_r ''l_0'' (neg_r (show_word z))))],
       [fmt_let ''l_last'' ''mload(L_LAST_MPTR)'',
        fmt_let ''eval'' (mul_r ''l_last''
          (add_r (mul_r (show_word z) (show_word z)) (neg_r (show_word z))))],
       product,
       [fmt_let ''eval'' (mul_r ''mload(L_0_MPTR)'' item)],
       [fmt_let ''eval'' (mul_r l_active (mul_r item rhs))]] })"

definition lookup_computations ::
  "'f field_api \<Rightarrow> 'f constraint_system \<Rightarrow> data \<Rightarrow> evaluator \<Rightarrow> (computation list \<times> evaluator) option" where
  "lookup_computations FF cs d s = do {
     (input_tables, s) \<leftarrow> try_map_state (\<lambda>(input_expressions, table_expressions) s. do {
         (inputs, s) \<leftarrow> evaluate_side FF d input_expressions s;
         (tables, s) \<leftarrow> evaluate_side FF d table_expressions s;
         Some ((inputs, tables), s) }) (cs_lookups cs) s;
     ls \<leftarrow> those (map (\<lambda>((inputs, tables), evals). lookup_lines inputs tables evals)
       (zip input_tables (da_lookup_evals d)));
     Some (map (\<lambda>l. (l, ''eval'')) (concat ls), s) }"

end
