(* ===== verification/HaloExpressions.thy ===== *)
theory HaloExpressions
  imports HaloEvaluator
begin

text \<open>
  Correctness of the generated evaluation of expressions: the lines emitted for an expression run
  without getting stuck, in every state in which the generated names are free, and leave in the
  returned variable the value of the expression, although equal right-hand sides are computed once.
\<close>

section \<open>Generated names\<close>

lemma dec_digits: "c \<in> set (show_dec n) \<Longrightarrow> (of_char c :: nat) \<in> {48..57}"
proof -
  have "\<forall>c\<in>set (show_base b n). (of_char c :: nat) \<in> {48..57}" if "b = 10" for b
    using that
  proof (induction b n rule: show_base.induct)
    case (1 b n)
    then show ?case by (subst show_base.simps) (auto simp: digit_char_def)
  qed
  then show "c \<in> set (show_dec n) \<Longrightarrow> (of_char c :: nat) \<in> {48..57}" by (simp add: show_dec_def)
qed

definition rotation_suffix :: "int \<Rightarrow> string" where
  "rotation_suffix rotation =
     (if rotation < 0 then ''_prev_'' @ show_dec (nat (- rotation))
      else if rotation = 0 then [] else ''_next_'' @ show_dec (nat rotation))"

lemma column_eval_var_suffix:
  "column_eval_var pre index rotation = pre @ ''_'' @ show_dec index @ rotation_suffix rotation"
  by (simp add: column_eval_var_def rotation_suffix_def)

lemma rotation_suffix_inj: "rotation_suffix r = rotation_suffix r' \<longleftrightarrow> r = r'"
  by (auto simp: rotation_suffix_def show_dec_inj split: if_splits)

lemma split_suffix:
  "takeWhile (\<lambda>c. c \<noteq> CHR ''_'') (show_dec n @ rotation_suffix r) = show_dec n"
  "dropWhile (\<lambda>c. c \<noteq> CHR ''_'') (show_dec n @ rotation_suffix r) = rotation_suffix r"
proof -
  have "\<forall>c\<in>set (show_dec n). c \<noteq> CHR ''_''" using dec_digits by fastforce
  moreover have "takeWhile (\<lambda>c. c \<noteq> CHR ''_'') (rotation_suffix r) = []"
    "dropWhile (\<lambda>c. c \<noteq> CHR ''_'') (rotation_suffix r) = rotation_suffix r"
    by (simp_all add: rotation_suffix_def)
  ultimately show "takeWhile (\<lambda>c. c \<noteq> CHR ''_'') (show_dec n @ rotation_suffix r) = show_dec n"
    "dropWhile (\<lambda>c. c \<noteq> CHR ''_'') (show_dec n @ rotation_suffix r) = rotation_suffix r"
    by (simp_all add: takeWhile_append dropWhile_append)
qed

lemma dec_suffix_inj:
  "show_dec i @ rotation_suffix r = show_dec i' @ rotation_suffix r' \<longleftrightarrow> i = i' \<and> r = r'"
  by (metis split_suffix show_dec_inj rotation_suffix_inj)

definition generated_name :: "string \<Rightarrow> bool" where
  "generated_name x \<longleftrightarrow> (\<exists>n. x = ''var'' @ show_dec n) \<or> (\<exists>i r. x = fixed_eval_var i r)
     \<or> (\<exists>i r. x = advice_eval_var i r) \<or> x = ''i_eval'' \<or> (\<exists>k. x = ''c_'' @ show_dec k)"

lemma list_all_ident_dec [yul_simps]: "list_all ident_char (show_dec n)"
  using word_ok_show(1) [of n] by (simp add: word_ok_def)

lemma generated_name_ok: "generated_name x \<Longrightarrow> ident_ok x"
  by (auto simp: generated_name_def fixed_eval_var_def advice_eval_var_def column_eval_var_suffix
      rotation_suffix_def ident_ok_def word_ok_def ident_char_def list_all_ident_dec
      starts_with_digit_def)

section \<open>Loads\<close>

definition load :: "yul_state \<Rightarrow> location \<Rightarrow> nat \<Rightarrow> u256 option" where
  "load st l a = (case l of Calldata \<Rightarrow> Some (ys_calldata st a)
     | Memory \<Rightarrow> if 32 dvd a then Some (ys_memory st a) else None)"

lemma read_base_zero: "read_base b (CHR ''0'' # s) = read_base b s"
  by (simp add: read_base_def digit_val_def)

lemma literal_hex: "literal (''0x'' @ show_hex n) = of_nat n" "literal (''0x0'' @ show_hex n) = of_nat n"
  by (simp_all add: literal_def read_base_zero) (simp_all add: show_hex_def read_show_base)

lemma eval_hex:
  "eval_text st (''0x'' @ show_hex n) = Some (of_nat n)"
  "eval_text st (''0x0'' @ show_hex n) = Some (of_nat n)"
proof -
  have hex: "list_all ident_char (show_hex n)" by (simp add: show_hex_def ident_char_show_base)
  then have "word_ok (''0x'' @ show_hex n)" "word_ok (''0x0'' @ show_hex n)"
    by (simp_all add: word_ok_def ident_char_def)
  then show "eval_text st (''0x'' @ show_hex n) = Some (of_nat n)"
    "eval_text st (''0x0'' @ show_hex n) = Some (of_nat n)"
    using literal_hex [of n] by (simp_all add: eval_atom starts_with_digit_def)
qed

lemma eval_show_Integer: "eval_text st (show_val (Integer n)) = Some (of_nat n)"
  using eval_hex [of st n] by (simp add: Let_def)

lemma eval_load:
  assumes "eval_text st a = Some w"
  shows "eval_text st (''calldataload('' @ a @ '')'') = Some (ys_calldata st (unat w))"
    and "32 dvd unat w \<Longrightarrow> eval_text st (''mload('' @ a @ '')'') = Some (ys_memory st (unat w))"
proof -
  obtain A where A: "a = show_yul A" "yul_ok A" "eval_yul st A = Some w"
    using eval_textD assms by blast
  then show "eval_text st (''calldataload('' @ a @ '')'') = Some (ys_calldata st (unat w))"
    using eval_text_show [of "Call ''calldataload'' [A]" st]
    by (simp add: word_ok_def ident_char_def builtin_def)
  show "eval_text st (''mload('' @ a @ '')'') = Some (ys_memory st (unat w))" if "32 dvd unat w"
    using A that eval_text_show [of "Call ''mload'' [A]" st]
    by (simp add: word_ok_def ident_char_def builtin_def)
qed

lemma eval_word_at:
  assumes "load st l a = Some w" and "a < 2 ^ LENGTH(256)"
  shows "eval_text st (show_word (word_at l a)) = Some w"
  using eval_load [OF eval_show_Integer [of st a]] assms unat_of_nat_lt [OF assms(2)]
  by (cases l) (simp_all add: load_def word_at_def show_word_def word_loc_def split: if_splits)

lemma eval_mload_var:
  assumes "ident_ok x" and "ys_vars st x = Some a" and "32 dvd unat a"
  shows "eval_text st (''mload('' @ x @ '')'') = Some (ys_memory st (unat a))"
  using assms eval_load(2) [of st x a] by (simp add: eval_atom ident_ok_def)

lemma eval_u256_string: "eval_text st (u256_string v) = Some v"
proof (cases "unat v < 2 ^ 63")
  case True
  have "as_limbs v ! 0 = of_nat (unat v mod 2 ^ 64)"
    using nat_limbs.simps(2) [of 3 "unat v"] by (simp add: as_limbs_def del: nat_limbs.simps)
  moreover have "unat (of_nat (unat v) :: u64) = unat v"
    using True by (intro unat_of_nat_lt) simp
  ultimately have "unat (as_limbs v ! 0) = unat v" using True by simp
  with True eval_hex(1) [of st "unat v"] show ?thesis by (simp add: u256_string_def)
next
  case False
  with eval_hex(1) [of st "unat v"] show ?thesis by (simp add: u256_string_def)
qed

section \<open>States that grow\<close>

definition extends :: "yul_state \<Rightarrow> yul_state \<Rightarrow> bool" where
  "extends st st' \<longleftrightarrow> ys_vars st \<subseteq>\<^sub>m ys_vars st' \<and> ys_memory st' = ys_memory st
     \<and> ys_calldata st' = ys_calldata st"

lemma extends_refl: "extends st st"
  by (simp add: extends_def)

lemma extends_trans: "extends st st' \<Longrightarrow> extends st' st'' \<Longrightarrow> extends st st''"
  by (auto simp: extends_def intro: map_le_trans)

lemma extends_eval_text:
  assumes "extends st st'" and "eval_text st s = Some v"
  shows "eval_text st' s = Some v"
proof -
  have "(\<forall>v. eval_yul st e = Some v \<longrightarrow> eval_yul st' e = Some v)"
    and "(\<forall>vs. eval_args st es = Some vs \<longrightarrow> eval_args st' es = Some vs)" for e es
  proof (induction e and es rule: show_yul_show_args.induct)
    case (1 w)
    then show ?case using assms(1) by (auto simp: extends_def map_le_def dom_def)
  next
    case (2 f es)
    with assms(1) show ?case by (auto simp: bind_eq_Some_conv extends_def)
  qed (auto simp: bind_eq_Some_conv)
  with assms(2) show ?thesis by (auto simp: eval_text_def bind_eq_Some_conv)
qed

lemma extends_denotes: "extends st st' \<Longrightarrow> denotes st s x \<Longrightarrow> denotes st' s x"
  using extends_eval_text by (auto simp: denotes_def)

lemma extends_field_env: "extends st st' \<Longrightarrow> field_env st \<Longrightarrow> field_env st'"
  by (auto simp: extends_def field_env_def map_le_def dom_def)

lemma extends_fresh: "ys_vars st x = None \<Longrightarrow> extends st (st\<lparr>ys_vars := (ys_vars st)(x \<mapsto> w)\<rparr>)"
  by (auto simp: extends_def map_le_def)

section \<open>What the expressions mean\<close>

record evals =
  evl_fixed :: "nat \<Rightarrow> int \<Rightarrow> fr"
  evl_advice :: "nat \<Rightarrow> int \<Rightarrow> fr"
  evl_instance :: fr
  evl_challenge :: "nat \<Rightarrow> fr"

fun expr_value :: "evals \<Rightarrow> fr expression \<Rightarrow> fr" where
  "expr_value E (Constant c) = c"
| "expr_value E Selector = 0"
| "expr_value E (FixedQ i r) = evl_fixed E i r"
| "expr_value E (AdviceQ i r) = evl_advice E i r"
| "expr_value E (InstanceQ i r) = evl_instance E"
| "expr_value E (ChallengeE k) = evl_challenge E k"
| "expr_value E (Negated e) = - expr_value E e"
| "expr_value E (SumE a b) = expr_value E a + expr_value E b"
| "expr_value E (ProductE a b) = expr_value E a * expr_value E b"
| "expr_value E (Scaled e c) = expr_value E e * c"

text \<open>The words the generator reads hold the evaluations of the columns and the challenges.\<close>

definition holds_evals :: "yul_state \<Rightarrow> data \<Rightarrow> evals \<Rightarrow> bool" where
  "holds_evals st d E \<longleftrightarrow>
     (\<forall>i r w. da_fixed_evals d (i, r) = Some w \<longrightarrow> denotes st (show_word w) (evl_fixed E i r))
     \<and> (\<forall>i r w. da_advice_evals d (i, r) = Some w \<longrightarrow> denotes st (show_word w) (evl_advice E i r))
     \<and> denotes st (show_word (da_instance_eval d)) (evl_instance E)
     \<and> (\<forall>k<length (da_challenges d). denotes st (show_word (da_challenges d ! k)) (evl_challenge E k))"

lemma extends_holds_evals: "extends st st' \<Longrightarrow> holds_evals st d E \<Longrightarrow> holds_evals st' d E"
  by (auto simp: holds_evals_def intro: extends_denotes)

text \<open>\<open>named d x v\<close>: the name \<open>x\<close> is the one the generator gives to the word with text \<open>v\<close>.\<close>

inductive named :: "data \<Rightarrow> string \<Rightarrow> string \<Rightarrow> bool" for d where
  "da_fixed_evals d (i, r) = Some w \<Longrightarrow> named d (fixed_eval_var i r) (show_word w)"
| "da_advice_evals d (i, r) = Some w \<Longrightarrow> named d (advice_eval_var i r) (show_word w)"
| "named d ''i_eval'' (show_word (da_instance_eval d))"
| "k < length (da_challenges d) \<Longrightarrow> named d (''c_'' @ show_dec k) (show_word (da_challenges d ! k))"

inductive_cases named_cases: "named d x v"

lemma named_generated: "named d x v \<Longrightarrow> generated_name x"
  by (auto simp: generated_name_def elim!: named_cases)

lemma named_unique: "named d x v \<Longrightarrow> named d x v' \<Longrightarrow> v = v'"
  by (auto simp: fixed_eval_var_def advice_eval_var_def column_eval_var_suffix dec_suffix_inj
      show_dec_inj elim!: named_cases)

lemma named_not_var [simp]: "\<not> named d (CHR ''v'' # CHR ''a'' # CHR ''r'' # show_dec n) v"
  by (auto simp: fixed_eval_var_def advice_eval_var_def column_eval_var_suffix elim!: named_cases)

section \<open>The cache is sound\<close>

definition free_names :: "yul_state \<Rightarrow> bool" where
  "free_names st \<longleftrightarrow> (\<forall>x. generated_name x \<longrightarrow> ys_vars st x = None)"

definition cache_inv :: "data \<Rightarrow> yul_state \<Rightarrow> yul_state \<Rightarrow> evaluator \<Rightarrow> bool" where
  "cache_inv d st0 st s \<longleftrightarrow> extends st0 st
     \<and> (\<forall>v x. ev_var_cache s v = Some x \<longrightarrow> generated_name x
          \<and> (\<exists>w. eval_text st v = Some w \<and> ys_vars st x = Some w))
     \<and> (\<forall>x. ys_vars st x \<noteq> None \<longrightarrow> ys_vars st0 x \<noteq> None \<or> (\<exists>v. ev_var_cache s v = Some x))
     \<and> (\<forall>v x. ev_var_cache s v = Some x \<longrightarrow>
          named d x v \<or> (\<exists>n<ev_var_counter s. x = ''var'' @ show_dec n))"

lemma cache_inv_reset: "cache_inv d st st evaluator_reset"
  by (simp add: cache_inv_def evaluator_reset_def extends_refl)

lemma cache_invD:
  assumes "cache_inv d st0 st s"
  shows "extends st0 st"
    and "ev_var_cache s v = Some x \<Longrightarrow> generated_name x"
    and "ev_var_cache s v = Some x \<Longrightarrow> \<exists>w. eval_text st v = Some w \<and> ys_vars st x = Some w"
    and "ys_vars st x = Some u \<Longrightarrow> ys_vars st0 x \<noteq> None \<or> (\<exists>v. ev_var_cache s v = Some x)"
    and "ev_var_cache s v = Some x \<Longrightarrow>
      named d x v \<or> (\<exists>n<ev_var_counter s. x = ''var'' @ show_dec n)"
  using assms unfolding cache_inv_def by blast+

lemma cache_inv_insert:
  assumes inv: "cache_inv d st0 st s" and x: "generated_name x" "ys_vars st x = None"
    and v: "eval_text st v = Some w" and miss: "ev_var_cache s v = None"
    and s': "ev_var_cache s' = (ev_var_cache s)(v \<mapsto> x)"
      "ev_var_counter s \<le> ev_var_counter s'"
    and origin: "named d x v \<or> (\<exists>n<ev_var_counter s'. x = ''var'' @ show_dec n)"
  shows "cache_inv d st0 (st\<lparr>ys_vars := (ys_vars st)(x \<mapsto> w)\<rparr>) s'"
proof -
  let ?st = "st\<lparr>ys_vars := (ys_vars st)(x \<mapsto> w)\<rparr>"
  have ext: "extends st ?st" using x(2) by (rule extends_fresh)
  show ?thesis unfolding cache_inv_def
  proof (intro conjI allI impI)
    show "extends st0 ?st" by (rule extends_trans [OF cache_invD(1) [OF inv] ext])
  next
    fix v' x'
    assume "ev_var_cache s' v' = Some x'"
    then have "v' = v \<and> x' = x \<or> ev_var_cache s v' = Some x'"
      by (cases "v' = v") (simp_all add: s'(1))
    then consider "v' = v" "x' = x" | "ev_var_cache s v' = Some x'" by blast
    then have *: "generated_name x' \<and> (\<exists>w. eval_text ?st v' = Some w \<and> ys_vars ?st x' = Some w)
      \<and> (named d x' v' \<or> (\<exists>n<ev_var_counter s'. x' = ''var'' @ show_dec n))"
    proof cases
      case 1
      with x v origin extends_eval_text [OF ext v] show ?thesis by auto
    next
      case 2
      from cache_invD(3) [OF inv 2] obtain u where u: "eval_text st v' = Some u" "ys_vars st x' = Some u"
        by blast
      moreover have "x' \<noteq> x" using u(2) x(2) by auto
      ultimately have "eval_text ?st v' = Some u" "ys_vars ?st x' = Some u"
        using extends_eval_text [OF ext] by auto
      moreover have "named d x' v' \<or> (\<exists>n<ev_var_counter s'. x' = ''var'' @ show_dec n)"
        using cache_invD(5) [OF inv 2] s'(2) less_le_trans by blast
      ultimately show ?thesis using cache_invD(2) [OF inv 2] by blast
    qed
    then show "generated_name x'" "\<exists>w. eval_text ?st v' = Some w \<and> ys_vars ?st x' = Some w"
      "named d x' v' \<or> (\<exists>n<ev_var_counter s'. x' = ''var'' @ show_dec n)" by blast+
  next
    fix x'
    assume "ys_vars ?st x' \<noteq> None"
    then consider "x' = x" | u where "ys_vars st x' = Some u" by (auto split: if_splits)
    then show "ys_vars st0 x' \<noteq> None \<or> (\<exists>v. ev_var_cache s' v = Some x')"
    proof cases
      case 1
      then show ?thesis by (auto simp: s')
    next
      case 2
      from cache_invD(4) [OF inv 2] show ?thesis
      proof
        assume "\<exists>v. ev_var_cache s v = Some x'"
        then obtain v' where "ev_var_cache s v' = Some x'" by blast
        moreover from this miss have "v' \<noteq> v" by auto
        ultimately show ?thesis by (auto simp: s')
      qed blast
    qed
  qed
qed

text \<open>One call of \<open>init_var\<close>, for a text that denotes a field element.\<close>

lemma init_var_sound:
  assumes inv: "cache_inv d st0 st s" and free: "free_names st0" and v: "denotes st v y"
    and origin: "\<And>x. var = Some x \<Longrightarrow> named d x v" and call: "init_var v var s = ((ls, x), s')"
  shows "\<exists>st'. run_lines ls (st, sc) = Some (st', sc) \<and> cache_inv d st0 st' s' \<and> extends st st'
    \<and> denotes st' x y \<and> generated_name x"
proof -
  from v obtain w where w: "eval_text st v = Some w" "reduced w" "felt w = y"
    by (auto simp: denotes_def)
  show ?thesis
  proof (cases "ev_var_cache s v")
    case (Some x')
    with call have "ls = []" "x = x'" "s' = s" by (auto simp: init_var_def)
    moreover have "generated_name x'" "ys_vars st x' = Some w"
      using cache_invD(2,3) [OF inv Some] w(1) by auto
    ultimately show ?thesis
      using inv w denotes_var [of x' st w] generated_name_ok
      by (auto intro: extends_refl)
  next
    case None
    from None call have ls: "ls = [fmt_let x v]"
      "ev_var_cache s' = (ev_var_cache s)(v \<mapsto> x)" "ev_var_counter s \<le> ev_var_counter s'"
      and x: "var = Some x \<or> x = ''var'' @ show_dec (ev_var_counter s) \<and> ev_var_counter s' = Suc (ev_var_counter s)"
      by (auto simp: init_var_def next_var_def Let_def split: option.splits)
    from x origin have gen: "generated_name x"
      by (auto simp: named_generated) (auto simp: generated_name_def)
    have fresh: "ys_vars st x = None"
    proof (rule ccontr)
      assume "ys_vars st x \<noteq> None"
      then obtain t where "ys_vars st x = Some t" by auto
      moreover have "ys_vars st0 x = None" using free gen by (simp add: free_names_def)
      ultimately obtain u where u: "ev_var_cache s u = Some x" using cache_invD(4) [OF inv] by blast
      from cache_invD(5) [OF inv u] x origin have "u = v"
        by (auto simp: show_dec_inj dest: named_unique)
      with u None show False by simp
    qed
    have "cache_inv d st0 (st\<lparr>ys_vars := (ys_vars st)(x \<mapsto> w)\<rparr>) s'"
      using x origin by (intro cache_inv_insert [OF inv gen fresh w(1) _ ls(2,3)]) (use None in auto)
    moreover have "run_lines ls (st, sc) = Some (st\<lparr>ys_vars := (ys_vars st)(x \<mapsto> w)\<rparr>, sc)"
      using run_line_let [OF generated_name_ok [OF gen] fresh w(1)] by (simp add: ls(1))
    moreover have "denotes (st\<lparr>ys_vars := (ys_vars st)(x \<mapsto> w)\<rparr>) x y"
      using denotes_var [OF generated_name_ok [OF gen], of "st\<lparr>ys_vars := (ys_vars st)(x \<mapsto> w)\<rparr>" w] w
      by simp
    ultimately show ?thesis using extends_fresh [OF fresh] gen by blast
  qed
qed

section \<open>Expressions are evaluated correctly\<close>

text \<open>
  \<open>computed d st0 st s sc (ls, x) s' y\<close>: from a state that agrees with the cache, the lines run, and
  the variable \<open>x\<close> then denotes \<open>y\<close>; the new state agrees with the new cache.
\<close>

definition computed ::
  "data \<Rightarrow> yul_state \<Rightarrow> yul_state \<Rightarrow> scopes \<Rightarrow> computation \<Rightarrow> evaluator \<Rightarrow> fr \<Rightarrow> bool" where
  "computed d st0 st sc r s' y \<longleftrightarrow> (\<exists>st'. run_lines (fst r) (st, sc) = Some (st', sc)
     \<and> cache_inv d st0 st' s' \<and> extends st st' \<and> denotes st' (snd r) y
     \<and> generated_name (snd r))"

lemma computed_init_var:
  assumes "cache_inv d st0 st s" and "free_names st0" and "denotes st v y"
    and "\<And>x. var = Some x \<Longrightarrow> named d x v" and "init_var v var s = (r, s')"
  shows "computed d st0 st sc r s' y"
  using init_var_sound [OF assms(1-4), where ls = "fst r" and x = "snd r" and s' = s'] assms(5)
  by (simp add: computed_def)

lemma computed_then:
  assumes "computed d st0 st sc (ls, x) s1 y"
    and "\<And>st'. run_lines ls (st, sc) = Some (st', sc) \<Longrightarrow> cache_inv d st0 st' s1 \<Longrightarrow> extends st st' \<Longrightarrow>
      denotes st' x y \<Longrightarrow> computed d st0 st' sc (ls', x') s2 z"
  shows "computed d st0 st sc (ls @ ls', x') s2 z"
proof -
  from assms(1) obtain st' where st': "run_lines ls (st, sc) = Some (st', sc)"
    "cache_inv d st0 st' s1" "extends st st'" "denotes st' x y" by (auto simp: computed_def)
  from assms(2) [OF this] obtain st'' where "run_lines ls' (st', sc) = Some (st'', sc)"
    "cache_inv d st0 st'' s2" "extends st' st''" "denotes st'' x' z" "generated_name x'"
    by (auto simp: computed_def)
  with st' show ?thesis by (auto simp: computed_def run_lines_append intro: extends_trans)
qed

lemma extend_lines_eq: "extend_lines acc (r, s) = ((acc @ fst r, snd r), s)"
  by (simp add: extend_lines_def split: prod.splits)

text \<open>An operation on computed values: its own line after theirs.\<close>

lemma computed_op:
  assumes "computed d st0 st sc (ls, x) s1 y" and "free_names st0"
    and "\<And>st'. extends st st' \<Longrightarrow> denotes st' x y \<Longrightarrow> denotes st' v z"
    and "extend_lines ls (init_var v None s1) = (r, s')"
  shows "computed d st0 st sc r s' z"
proof -
  obtain r1 where r1: "init_var v None s1 = (r1, s')" "r = (ls @ fst r1, snd r1)"
    using assms(4) by (cases "init_var v None s1") (auto simp: extend_lines_eq)
  have "computed d st0 st sc (ls @ fst r1, snd r1) s' z"
  proof (rule computed_then [OF assms(1)])
    fix st'
    assume st': "cache_inv d st0 st' s1" "extends st st'" "denotes st' x y"
    show "computed d st0 st' sc (fst r1, snd r1) s' z"
      using computed_init_var [OF st'(1) assms(2) assms(3) [OF st'(2,3)] _ r1(1)] by simp
  qed
  with r1(2) show ?thesis by simp
qed

lemma computed_pair:
  assumes "computed d st0 st sc (ls, x) s1 y"
    and "\<And>st'. cache_inv d st0 st' s1 \<Longrightarrow> extends st st' \<Longrightarrow> computed d st0 st' sc (ls', x') s2 z"
    and "free_names st0"
    and "\<And>st'. extends st st' \<Longrightarrow> denotes st' x y \<Longrightarrow> denotes st' x' z \<Longrightarrow> denotes st' v u"
    and "extend_lines (ls @ ls') (init_var v None s2) = (r, s')"
  shows "computed d st0 st sc r s' u"
proof -
  obtain r1 where r1: "init_var v None s2 = (r1, s')" "r = (ls @ ls' @ fst r1, snd r1)"
    using assms(5) by (cases "init_var v None s2") (auto simp: extend_lines_eq)
  have "computed d st0 st sc (ls @ ls' @ fst r1, snd r1) s' u"
  proof (rule computed_then [OF assms(1)])
    fix st1
    assume st1: "cache_inv d st0 st1 s1" "extends st st1" "denotes st1 x y"
    show "computed d st0 st1 sc (ls' @ fst r1, snd r1) s' u"
    proof (rule computed_then [OF assms(2) [OF st1(1,2)]])
      fix st2
      assume st2: "cache_inv d st0 st2 s2" "extends st1 st2" "denotes st2 x' z"
      have "denotes st2 v u"
        using assms(4) st1 st2 by (metis extends_trans extends_denotes)
      from computed_init_var [OF st2(1) assms(3) this _ r1(1)]
      show "computed d st0 st2 sc (fst r1, snd r1) s' u" by simp
    qed
  qed
  with r1(2) show ?thesis by simp
qed

lemma computed_query:
  assumes "cache_inv d st0 st s" and "free_names st0" and "denotes st0 v y" and "named d x v"
    and "init_var v (Some x) s = (r, s')"
  shows "computed d st0 st sc r s' y"
  using computed_init_var [OF assms(1,2) extends_denotes [OF cache_invD(1) [OF assms(1)] assms(3)] _ assms(5)]
    assms(4) by simp

lemma field_env_later:
  "cache_inv d st0 st s \<Longrightarrow> field_env st0 \<Longrightarrow> extends st st' \<Longrightarrow> field_env st'"
  using cache_invD(1) extends_field_env by blast

lemma denotes_constant: "denotes st (u256_string (field_to_u256 Fr c)) c"
  by (auto simp: denotes_def eval_u256_string felt_simps)

lemmas handler_simps = evaluator_handlers_def eval_column_def bind_eq_Some_conv

lemma evaluate_computed:
  assumes env: "field_env st0" "free_names st0" "holds_evals st0 d E"
  shows "cache_inv d st0 st s \<Longrightarrow> evaluate Fr (evaluator_handlers d) e s = Some (r, s') \<Longrightarrow>
    computed d st0 st sc r s' (expr_value E e)"
proof (induction e arbitrary: st s r s')
  case (Constant c)
  then show ?case
    using env(2) denotes_constant by (auto simp: handler_simps intro: computed_init_var)
next
  case (FixedQ i q)
  then obtain w where w: "da_fixed_evals d (i, q) = Some w"
    "init_var (show_word w) (Some (fixed_eval_var i q)) s = (r, s')" by (auto simp: handler_simps)
  with env(3) have "denotes st0 (show_word w) (evl_fixed E i q)" by (simp add: holds_evals_def)
  from computed_query [OF FixedQ.prems(1) env(2) this named.intros(1) [OF w(1)] w(2)]
  show ?case by simp
next
  case (AdviceQ i q)
  then obtain w where w: "da_advice_evals d (i, q) = Some w"
    "init_var (show_word w) (Some (advice_eval_var i q)) s = (r, s')" by (auto simp: handler_simps)
  with env(3) have "denotes st0 (show_word w) (evl_advice E i q)" by (simp add: holds_evals_def)
  from computed_query [OF AdviceQ.prems(1) env(2) this named.intros(2) [OF w(1)] w(2)]
  show ?case by simp
next
  case (InstanceQ i q)
  then show ?case using env(2,3)
    by (auto simp: handler_simps holds_evals_def intro: computed_query named.intros(3))
next
  case (ChallengeE k)
  then show ?case using env(2,3) named.intros(4) [of k d]
    by (auto simp: handler_simps holds_evals_def split: if_splits intro: computed_query)
next
  case (Negated e)
  then obtain ls x s1 where e: "evaluate Fr (evaluator_handlers d) e s = Some ((ls, x), s1)"
    "extend_lines ls (init_var (neg_r x) None s1) = (r, s')" by (auto simp: handler_simps)
  show ?case
    by (rule computed_op [OF Negated.IH [OF Negated.prems(1) e(1)] env(2) _ e(2)])
      (simp add: denotes_neg field_env_later [OF Negated.prems(1) env(1)])
next
  case (SumE a b)
  then obtain ls x s1 ls' x' s2 where ab: "evaluate Fr (evaluator_handlers d) a s = Some ((ls, x), s1)"
    "evaluate Fr (evaluator_handlers d) b s1 = Some ((ls', x'), s2)"
    "extend_lines (ls @ ls') (init_var (add_r x x') None s2) = (r, s')" by (auto simp: handler_simps)
  show ?case
    by (rule computed_pair [OF SumE.IH(1) [OF SumE.prems(1) ab(1)] SumE.IH(2) [OF _ ab(2)] env(2) _ ab(3)])
      (simp_all add: denotes_add field_env_later [OF SumE.prems(1) env(1)])
next
  case (ProductE a b)
  then obtain ls x s1 ls' x' s2 where ab: "evaluate Fr (evaluator_handlers d) a s = Some ((ls, x), s1)"
    "evaluate Fr (evaluator_handlers d) b s1 = Some ((ls', x'), s2)"
    "extend_lines (ls @ ls') (init_var (mul_r x x') None s2) = (r, s')" by (auto simp: handler_simps)
  show ?case
    by (rule computed_pair [OF ProductE.IH(1) [OF ProductE.prems(1) ab(1)] ProductE.IH(2) [OF _ ab(2)]
        env(2) _ ab(3)])
      (simp_all add: denotes_mul field_env_later [OF ProductE.prems(1) env(1)])
next
  case (Scaled e c)
  then obtain ls x s1 where e: "evaluate Fr (evaluator_handlers d) e s = Some ((ls, x), s1)"
    "extend_lines ls (init_var (mul_r x (u256_string (field_to_u256 Fr c))) None s1) = (r, s')"
    by (auto simp: handler_simps)
  show ?case
    by (rule computed_op [OF Scaled.IH [OF Scaled.prems(1) e(1)] env(2) _ e(2)])
      (simp add: denotes_mul denotes_constant field_env_later [OF Scaled.prems(1) env(1)])
qed simp

text \<open>When the generator can evaluate an expression at all.\<close>

fun evaluable :: "data \<Rightarrow> 'f expression \<Rightarrow> bool" where
  "evaluable d (Constant c) = True"
| "evaluable d Selector = False"
| "evaluable d (FixedQ i r) = (da_fixed_evals d (i, r) \<noteq> None)"
| "evaluable d (AdviceQ i r) = (da_advice_evals d (i, r) \<noteq> None)"
| "evaluable d (InstanceQ i r) = True"
| "evaluable d (ChallengeE k) = (k < length (da_challenges d))"
| "evaluable d (Negated e) = evaluable d e"
| "evaluable d (SumE a b) = (evaluable d a \<and> evaluable d b)"
| "evaluable d (ProductE a b) = (evaluable d a \<and> evaluable d b)"
| "evaluable d (Scaled e c) = evaluable d e"

lemma evaluate_None:
  "evaluate FF (evaluator_handlers d) e s = None \<longleftrightarrow> \<not> evaluable d e"
proof (induction e arbitrary: s)
  case (FixedQ i r)
  then show ?case by (cases "da_fixed_evals d (i, r)") (auto simp: evaluator_handlers_def eval_column_def)
next
  case (AdviceQ i r)
  then show ?case by (cases "da_advice_evals d (i, r)") (auto simp: evaluator_handlers_def eval_column_def)
qed (auto simp: evaluator_handlers_def bind_eq_None_conv split: prod.splits) 

lemma try_map_reset:
  assumes "\<And>x. x \<in> set xs \<Longrightarrow> f x s0 = map_option (\<lambda>y. (y, s0)) (g x)"
  shows "try_map_state f xs s0 = map_option (\<lambda>ys. (ys, s0)) (those (map g xs))"
  using assms
proof (induction xs)
  case Nil
  then show ?case by simp
next
  case (Cons x xs)
  then show ?case by (cases "g x"; cases "those (map g xs)") auto
qed

lemma those_Some_iff: "those xs = Some ys \<longleftrightarrow> xs = map Some ys"
  by (induction xs arbitrary: ys) (auto split: option.splits simp: Cons_eq_map_conv)

lemma those_None_iff: "those xs = None \<longleftrightarrow> None \<in> set xs"
  by (induction xs) (auto split: option.splits)

text \<open>The lines run from \<open>st\<close> and leave the value \<open>y\<close> in the variable.\<close>

definition yields :: "yul_state \<Rightarrow> computation \<Rightarrow> fr \<Rightarrow> bool" where
  "yields st c y \<longleftrightarrow> (\<forall>sc. \<exists>st'. run_lines (fst c) (st, sc) = Some (st', sc) \<and> extends st st'
     \<and> denotes st' (snd c) y)"

lemma evaluate_yields:
  assumes "field_env st" "free_names st" "holds_evals st d E"
    and "evaluator_evaluate Fr d e evaluator_reset = Some (c, s)"
  shows "yields st c (expr_value E e)"
  using evaluate_computed [OF assms(1-3) cache_inv_reset] assms(4)
  by (fastforce simp: yields_def computed_def evaluator_evaluate_def)

section \<open>A small circuit\<close>

definition sample_circuit :: "fr constraint_system" where
  "sample_circuit = \<lparr>
     cs_num_fixed_columns = 1, cs_num_advice_columns = 2, cs_num_instance_columns = 1,
     cs_permutation = [Column 0 (AnyAdvice 0), Column 1 (AnyAdvice 0)],
     cs_degree = 3,
     cs_lookups = [([AdviceQ 0 0, AdviceQ 1 0], [FixedQ 0 0, InstanceQ 0 0])],
     cs_advice_queries = [(0, 0), (1, 0), (0, 1)],
     cs_fixed_queries = [(0, 0)],
     cs_instance_queries = [(0, 0)],
     cs_advice_column_phase = [0, 0],
     cs_challenge_phase = [],
     cs_blinding_factors = 5,
     cs_gates = [[ProductE (FixedQ 0 0)
       (SumE (ProductE (AdviceQ 0 0) (AdviceQ 1 0)) (Negated (AdviceQ 0 1)))]] \<rparr>"

definition sample_meta :: constraint_system_meta where
  "sample_meta = the (meta_new sample_circuit)"

definition sample_vk :: halo2_verifying_key where
  "sample_vk = \<lparr>vk_constants = replicate 21 (''k'', 0), vk_fixed_comms = [(1, 2)],
     vk_permutation_comms = [(1, 2), (1, 2)]\<rparr>"

definition sample_data :: data where
  "sample_data = the (data_new sample_meta sample_vk (Ptr Memory (Integer 0x400))
     (Ptr Calldata (Integer 0x84)))"

lemma sample_meta_eq: "meta_new sample_circuit = Some sample_meta" "sample_meta = \<lparr>
     cm_num_fixeds = 1, cm_permutation_columns = [Column 0 (AnyAdvice 0), Column 1 (AnyAdvice 0)],
     cm_permutation_chunk_len = 1, cm_num_lookup_permuteds = 2, cm_num_permutation_zs = 2,
     cm_num_lookup_zs = 1, cm_num_quotients = 2, cm_advice_queries = [(0, 0), (1, 0), (0, 1)],
     cm_fixed_queries = [(0, 0)], cm_num_rotations = 4, cm_num_evals = 17,
     cm_num_user_advices = [2], cm_num_user_challenges = [0], cm_advice_indices = [0, 1],
     cm_challenge_indices = [], cm_rotation_last = -6 \<rparr>"
  by (simp_all add: sample_meta_def sample_circuit_def meta_new_def usize_sub_def chunks_def
      chunks_of.simps remapping_def phase_offsets_def rotation_last_of_def i32_of_usize_def
      queried_rotations_def signed_take_bit_eq_if_positive)

lemma sample_data_eq:
  "data_new sample_meta sample_vk (Ptr Memory (Integer 0x400)) (Ptr Calldata (Integer 0x84)) = Some sample_data"
  by (simp add: sample_data_def data_new_Integer)

lemma sample_data_evals:
  "da_advice_evals sample_data = [(0, 0) \<mapsto> word_at Calldata 0x304, (1, 0) \<mapsto> word_at Calldata 0x324,
     (0, 1) \<mapsto> word_at Calldata 0x344]"
  "da_fixed_evals sample_data = [(0, 0) \<mapsto> word_at Calldata 0x364]"
  "da_instance_eval sample_data = EvmWord (Ptr Memory (Identifier ''INSTANCE_EVAL_MPTR''))"
  "da_challenges sample_data = []"
  unfolding sample_data_def data_new_Integer
  by (simp_all add: sample_meta_eq(2) eval_start_def proof_points_def hash_map_def upt_rec fun_upd_twist)


text \<open>A state in which every word is \<open>1\<close> and only \<open>r\<close> and the memory pointers are declared.\<close>

definition sample_state :: yul_state where
  "sample_state = \<lparr>
     ys_vars = [''r'' \<mapsto> of_nat fr_modulus, ''INSTANCE_EVAL_MPTR'' \<mapsto> 0, ''BETA_MPTR'' \<mapsto> 0,
       ''GAMMA_MPTR'' \<mapsto> 0, ''THETA_MPTR'' \<mapsto> 0, ''X_MPTR'' \<mapsto> 0, ''L_0_MPTR'' \<mapsto> 0,
       ''L_LAST_MPTR'' \<mapsto> 0, ''L_BLIND_MPTR'' \<mapsto> 0, ''delta'' \<mapsto> 1, ''OMEGA_MPTR'' \<mapsto> 0,
       ''OMEGA_INV_MPTR'' \<mapsto> 0],
     ys_memory = (\<lambda>_. 1), ys_calldata = (\<lambda>_. 1) \<rparr>"

lemma denotes_calldata:
  "a < 2 ^ LENGTH(256) \<Longrightarrow> reduced (ys_calldata st a) \<Longrightarrow>
    denotes st (show_word (word_at Calldata a)) (felt (ys_calldata st a))"
  using eval_word_at [of st Calldata a] by (auto simp: denotes_def load_def)

lemma denotes_mload:
  assumes "ident_ok x" and "ys_vars st x = Some a" and "32 dvd unat a"
    and "reduced (ys_memory st (unat a))"
  shows "denotes st (''mload('' @ x @ '')'') (felt (ys_memory st (unat a)))"
  using eval_mload_var [OF assms(1-3)] assms(4) by (auto simp: denotes_def)

definition sample_evals :: evals where
  "sample_evals = \<lparr>evl_fixed = \<lambda>_ _. 1, evl_advice = \<lambda>_ _. 1, evl_instance = 1,
     evl_challenge = \<lambda>_. 1\<rparr>"

lemma sample_env: "field_env sample_state" "free_names sample_state"
  "holds_evals sample_state sample_data sample_evals"
proof -
  show "field_env sample_state" by (simp add: field_env_def sample_state_def)
  show "free_names sample_state"
    by (auto simp: free_names_def sample_state_def generated_name_def fixed_eval_var_def
        advice_eval_var_def column_eval_var_suffix)
  have "denotes sample_state (show_word (word_at Calldata a)) 1" if "a < 2 ^ 64" for a
    using denotes_calldata [of a sample_state] that by (simp add: sample_state_def felt_simps)
  moreover have "denotes sample_state ''mload(INSTANCE_EVAL_MPTR)'' 1"
    using denotes_mload [of "''INSTANCE_EVAL_MPTR''" sample_state 0]
    by (simp add: sample_state_def felt_simps ident_ok_def word_ok_def ident_char_def starts_with_digit_def)
  ultimately show "holds_evals sample_state sample_data sample_evals"
    by (auto simp: holds_evals_def sample_data_evals sample_evals_def show_word_def word_loc_def)
qed

section \<open>Gates\<close>

lemma gate_computations_each:
  "case gate_computations FF cs d evaluator_reset of
      None \<Rightarrow> \<exists>e\<in>set (concat (cs_gates cs)). evaluator_evaluate FF d e evaluator_reset = None
    | Some (computations, s) \<Rightarrow> s = evaluator_reset
        \<and> list_all2 (\<lambda>c e. \<exists>s. evaluator_evaluate FF d e evaluator_reset = Some (c, s))
            computations (concat (cs_gates cs))"
proof -
  let ?g = "\<lambda>e. map_option fst (evaluator_evaluate FF d e evaluator_reset)"
  have step: "evaluate_and_reset FF d e evaluator_reset = map_option (\<lambda>c. (c, evaluator_reset)) (?g e)" for e
    by (cases "evaluator_evaluate FF d e evaluator_reset") (auto simp: evaluate_and_reset_def)
  have gates: "gate_computations FF cs d evaluator_reset =
      map_option (\<lambda>cs. (cs, evaluator_reset)) (those (map ?g (concat (cs_gates cs))))"
    unfolding gate_computations_def by (rule try_map_reset) (rule step)
  show ?thesis
  proof (cases "those (map ?g (concat (cs_gates cs)))")
    case None
    then obtain e where "e \<in> set (concat (cs_gates cs))" "?g e = None"
      by (auto simp: those_None_iff)
    with None show ?thesis by (auto simp: gates)
  next
    case (Some computations)
    then have *: "map ?g (concat (cs_gates cs)) = map Some computations" by (simp add: those_Some_iff)
    have "list_all2 (\<lambda>c e. ?g e = Some c) computations (concat (cs_gates cs))"
      using * by (auto simp: list_all2_conv_all_nth list_eq_iff_nth_eq)
    then have "list_all2 (\<lambda>c e. \<exists>s. evaluator_evaluate FF d e evaluator_reset = Some (c, s))
        computations (concat (cs_gates cs))"
      by (rule list_all2_mono) auto
    with Some show ?thesis by (simp add: gates)
  qed
qed

text \<open>
  C7. The lines emitted for a gate polynomial compute its value: run in a state that holds the
  evaluations and in which the generated names are free, none of them gets stuck (every variable
  is declared once, before it is used), and the returned variable holds the value of the polynomial
  at the evaluations. The generator panics exactly when a polynomial contains a selector or a query
  without an evaluation.
\<close>

theorem gate_computations_correct:
  assumes "field_env st" and "free_names st" and "holds_evals st d E"
  shows "case gate_computations Fr cs d evaluator_reset of
      None \<Rightarrow> \<exists>e\<in>set (concat (cs_gates cs)). \<not> evaluable d e
    | Some (computations, s) \<Rightarrow> s = evaluator_reset
        \<and> list_all2 (\<lambda>c e. evaluable d e \<and> yields st c (expr_value E e))
            computations (concat (cs_gates cs))"
proof (cases "gate_computations Fr cs d evaluator_reset")
  case None
  with gate_computations_each [where FF = Fr and cs = cs and d = d] show ?thesis
    by (auto simp: evaluator_evaluate_def evaluate_None simp del: set_concat)
next
  case (Some r)
  have "evaluable d e \<and> yields st c (expr_value E e)"
    if "\<exists>s. evaluator_evaluate Fr d e evaluator_reset = Some (c, s)" for c e
    using that evaluate_yields [OF assms] evaluate_None [of Fr d e evaluator_reset]
    by (auto simp: evaluator_evaluate_def)
  with Some gate_computations_each [where FF = Fr and cs = cs and d = d] show ?thesis
    by (auto elim: list_all2_mono)
qed

theorem gate_computations_correct_witness:
  "\<exists>c. gate_computations Fr sample_circuit sample_data evaluator_reset = Some ([c], evaluator_reset)
    \<and> yields sample_state c 0"
  using gate_computations_correct [OF sample_env, of sample_circuit]
  by (auto simp: sample_circuit_def sample_data_evals sample_evals_def list_all2_Cons2
      split: option.splits)

lemma sample_gate_lines:
  "map_option fst (gate_computations Fr sample_circuit sample_data evaluator_reset) = Some [([
     ''let f_0 := calldataload(0x0364)'',
     ''let a_0 := calldataload(0x0304)'',
     ''let a_1 := calldataload(0x0324)'',
     ''let var0 := mulmod(a_0, a_1, r)'',
     ''let a_0_next_1 := calldataload(0x0344)'',
     ''let var1 := sub(r, a_0_next_1)'',
     ''let var2 := addmod(var0, var1, r)'',
     ''let var3 := mulmod(f_0, var2, r)''], ''var3'')]"
  by (simp add: gate_computations_def evaluate_and_reset_def evaluator_evaluate_def sample_circuit_def evaluator_handlers_def
      eval_column_def sample_data_evals init_var_def next_var_def evaluator_reset_def extend_lines_def
      show_word_def word_at_def word_loc_def show_hex_def show_dec_def show_base.simps digit_char_def
      fixed_eval_var_def advice_eval_var_def column_eval_var_def fmt_let_def mul_r_def add_r_def neg_r_def char_of_def bit_0)

end
