(* ===== verification/HaloArguments.thy ===== *)
theory HaloArguments
  imports HaloExpressions
begin

text \<open>
  Correctness of the generated permutation and lookup arguments. Their lines keep the running power
  of delta in the first word of memory, across the blocks of the chunks; everything else they read
  is left alone. \<open>denotes_any\<close> is what the lines rely on: a text denotes a value whatever the first
  word of memory holds.
\<close>

section \<open>States that differ in the first word of memory\<close>

definition set_scratch :: "u256 \<Rightarrow> yul_state \<Rightarrow> yul_state" where
  "set_scratch w st = st\<lparr>ys_memory := (ys_memory st)(0 := w)\<rparr>"

definition later :: "yul_state \<Rightarrow> yul_state \<Rightarrow> bool" where
  "later st st' \<longleftrightarrow> extends (set_scratch (ys_memory st' 0) st) st'"

definition denotes_any :: "yul_state \<Rightarrow> string \<Rightarrow> fr \<Rightarrow> bool" where
  "denotes_any st s x \<longleftrightarrow> (\<forall>w. denotes (set_scratch w st) s x)"

lemma set_scratch_sel [simp]:
  "ys_vars (set_scratch w st) = ys_vars st" "ys_calldata (set_scratch w st) = ys_calldata st"
  "ys_memory (set_scratch w st) a = (if a = 0 then w else ys_memory st a)"
  by (simp_all add: set_scratch_def)

lemma set_scratch_twice [simp]: "set_scratch v (set_scratch w st) = set_scratch v st"
  by (simp add: set_scratch_def)

lemma set_scratch_same [simp]: "set_scratch (ys_memory st 0) st = st"
  by (simp add: set_scratch_def)

lemma extends_set_scratch: "extends st st' \<Longrightarrow> extends (set_scratch w st) (set_scratch w st')"
  by (simp add: extends_def set_scratch_def)

lemma extends_later: "extends st st' \<Longrightarrow> later st st'"
  by (auto simp: later_def extends_def set_scratch_def fun_eq_iff)

lemma later_refl: "later st st"
  by (simp add: later_def extends_refl)

lemma later_trans: "later st st' \<Longrightarrow> later st' st'' \<Longrightarrow> later st st''"
  using extends_set_scratch [of "set_scratch (ys_memory st' 0) st" st' "ys_memory st'' 0"]
  by (auto simp: later_def intro: extends_trans)

lemma later_set_scratch: "later st (set_scratch w st)"
  by (simp add: later_def extends_refl)

lemma later_denotes: "denotes_any st s x \<Longrightarrow> later st st' \<Longrightarrow> denotes st' s x"
  by (auto simp: denotes_any_def later_def intro: extends_denotes)

lemma later_denotes_any: "denotes_any st s x \<Longrightarrow> later st st' \<Longrightarrow> denotes_any st' s x"
  unfolding denotes_any_def [of st']
  by (blast intro: later_denotes later_trans later_set_scratch)

lemma later_field_env: "later st st' \<Longrightarrow> field_env st \<Longrightarrow> field_env st'"
  by (auto simp: later_def extends_def field_env_def map_le_def dom_def)

lemma later_vars: "later st st' \<Longrightarrow> ys_vars st x = Some w \<Longrightarrow> ys_vars st' x = Some w"
  by (auto simp: later_def extends_def map_le_def dom_def)

lemma denotes_any_calldata:
  "a < 2 ^ LENGTH(256) \<Longrightarrow> reduced (ys_calldata st a) \<Longrightarrow>
    denotes_any st (show_word (word_at Calldata a)) (felt (ys_calldata st a))"
  using denotes_calldata [of a "set_scratch w st" for w] by (simp add: denotes_any_def)

lemma denotes_any_mload:
  assumes "ident_ok x" and "ys_vars st x = Some a" and "32 dvd unat a" and "unat a \<noteq> 0"
    and "reduced (ys_memory st (unat a))"
  shows "denotes_any st (''mload('' @ x @ '')'') (felt (ys_memory st (unat a)))"
  using denotes_mload [of x "set_scratch w st" a for w] assms by (simp add: denotes_any_def)

section \<open>Changing variables\<close>

definition holds_var :: "yul_state \<Rightarrow> string \<Rightarrow> fr \<Rightarrow> bool" where
  "holds_var st x y \<longleftrightarrow> (\<exists>w. ys_vars st x = Some w \<and> reduced w \<and> felt w = y)"

lemma holds_var_denotes: "holds_var st x y \<Longrightarrow> ident_ok x \<Longrightarrow> denotes st x y"
  using denotes_var by (auto simp: holds_var_def)

text \<open>Everything is as before, except for the variables in \<open>X\<close>.\<close>

definition same_but :: "string set \<Rightarrow> yul_state \<Rightarrow> yul_state \<Rightarrow> bool" where
  "same_but X st st' \<longleftrightarrow> ys_memory st' = ys_memory st \<and> ys_calldata st' = ys_calldata st
     \<and> (\<forall>x. x \<notin> X \<longrightarrow> ys_vars st' x = ys_vars st x)"

lemma same_but_refl: "same_but X st st"
  by (simp add: same_but_def)

lemma same_but_trans: "same_but X st st' \<Longrightarrow> same_but X st' st'' \<Longrightarrow> same_but X st st''"
  by (simp add: same_but_def)

lemma same_but_mono: "same_but X st st' \<Longrightarrow> X \<subseteq> Y \<Longrightarrow> same_but Y st st'"
  by (auto simp: same_but_def)

lemma same_but_holds_var: "same_but X st st' \<Longrightarrow> x \<notin> X \<Longrightarrow> holds_var st' x y = holds_var st x y"
  by (simp add: same_but_def holds_var_def)

lemma same_but_var: "same_but X st st' \<Longrightarrow> x \<notin> X \<Longrightarrow> ys_vars st' x = ys_vars st x"
  by (simp add: same_but_def)

lemma same_but_later:
  assumes "later st0 st" and "same_but X st st'" and "\<forall>x\<in>X. ys_vars st0 x = None"
  shows "later st0 st'"
proof -
  have "ys_vars st0 \<subseteq>\<^sub>m ys_vars st'"
    unfolding map_le_def
  proof
    fix x
    assume x: "x \<in> dom (ys_vars st0)"
    then obtain w where w: "ys_vars st0 x = Some w" by blast
    moreover have "x \<notin> X" using assms(3) w by auto
    ultimately show "ys_vars st0 x = ys_vars st' x"
      using assms(2) later_vars [OF assms(1) w] by (simp add: same_but_def)
  qed
  with assms show ?thesis by (auto simp: later_def extends_def same_but_def)
qed

lemma run_let_var:
  assumes "ident_ok x" and "ys_vars st x = None" and "denotes st v y"
  shows "\<exists>st'. run_line (fmt_let x v) (st, sc) = Some (st', sc) \<and> holds_var st' x y
    \<and> same_but {x} st st'"
  using assms by (auto simp: denotes_def run_line_let holds_var_def same_but_def)

lemma run_set_var:
  assumes "ident_ok x" and "x \<noteq> ''let''" and "ys_vars st x \<noteq> None" and "denotes st v y"
  shows "\<exists>st'. run_line (fmt_set x v) (st, sc) = Some (st', sc) \<and> holds_var st' x y
    \<and> same_but {x} st st'"
  using assms by (auto simp: denotes_def run_line_set holds_var_def same_but_def)

lemma eval_scratch: "eval_text st ''mload(0x00)'' = Some (ys_memory st 0)"
proof -
  have "show_yul (Call ''mload'' [Atom ''0x00'']) = ''mload(0x00)''" by simp
  moreover have "yul_ok (Call ''mload'' [Atom ''0x00''])" by (simp add: word_ok_def ident_char_def)
  moreover have "eval_yul st (Call ''mload'' [Atom ''0x00'']) = Some (ys_memory st 0)"
    by (simp add: builtin_def starts_with_digit_def literal_def read_base_def digit_val_def)
  ultimately show ?thesis by (metis eval_text_show)
qed

lemma eval_zero: "eval_text st ''0x00'' = Some 0"
  by (simp add: eval_atom word_ok_def ident_char_def starts_with_digit_def literal_def
      read_base_def digit_val_def)

lemma run_scratch:
  assumes "denotes st v y"
  shows "\<exists>w. run_line (fmt_mstore ''0x00'' v) (st, sc) = Some (set_scratch w st, sc)
    \<and> reduced w \<and> felt w = y"
proof -
  from assms obtain w where "eval_text st v = Some w" "reduced w" "felt w = y"
    by (auto simp: denotes_def)
  then show ?thesis
    using run_line_mstore [OF eval_zero, where v = v and w = w] by (auto simp: set_scratch_def)
qed

lemma denotes_scratch: "reduced w \<Longrightarrow> denotes (set_scratch w st) ''mload(0x00)'' (felt w)"
  by (simp add: denotes_def eval_scratch)

text \<open>Everything but the variables in \<open>X\<close> and the first word of memory is as before.\<close>

definition frame :: "string set \<Rightarrow> yul_state \<Rightarrow> yul_state \<Rightarrow> bool" where
  "frame X st st' \<longleftrightarrow> (\<exists>w. same_but X (set_scratch w st) st')"

lemma frame_same_but: "same_but Y st st' \<Longrightarrow> Y \<subseteq> X \<Longrightarrow> frame X st st'"
  unfolding frame_def by (rule exI [of _ "ys_memory st 0"]) (auto intro: same_but_mono)

lemma frame_refl: "frame X st st"
  using frame_same_but [OF same_but_refl [of "{}"]] by blast

lemma frame_set_scratch: "frame X st (set_scratch w st)"
  unfolding frame_def by (blast intro: same_but_refl)

lemma frame_same_but_scratch: "same_but Y (set_scratch w st) st' \<Longrightarrow> Y \<subseteq> X \<Longrightarrow> frame X st st'"
  unfolding frame_def by (blast intro: same_but_mono)

lemma frame_trans: "frame X st st' \<Longrightarrow> frame X st' st'' \<Longrightarrow> frame X st st''"
  unfolding frame_def same_but_def set_scratch_def by auto

lemma frame_var: "frame X st st' \<Longrightarrow> x \<notin> X \<Longrightarrow> ys_vars st' x = ys_vars st x"
  by (auto simp: frame_def same_but_def)

lemma frame_later:
  assumes "later st0 st" and "frame X st st'" and "\<forall>x\<in>X. ys_vars st0 x = None"
  shows "later st0 st'"
proof -
  from assms(2) obtain w where "same_but X (set_scratch w st) st'" by (auto simp: frame_def)
  then show ?thesis
    using same_but_later [OF later_trans [OF assms(1) later_set_scratch]] assms(3) by blast
qed

section \<open>A logic for lines\<close>

text \<open>
  What is known in a block is a map from texts to values: the texts are the variables \<open>X\<close> of the
  block and the scratch word. \<open>knows X st0 st1 st env\<close> says that \<open>st\<close> was reached from \<open>st1\<close>, that
  everything the block takes from the base state \<open>st0\<close> is still there, and that \<open>env\<close> is true.
\<close>

definition scratch :: string where
  "scratch = ''mload(0x00)''"

type_synonym known = "string \<Rightarrow> fr option"

definition knows :: "string set \<Rightarrow> yul_state \<Rightarrow> yul_state \<Rightarrow> yul_state \<Rightarrow> known \<Rightarrow> bool" where
  "knows X st0 st1 st env \<longleftrightarrow> field_env st \<and> later st0 st \<and> frame X st1 st
     \<and> (\<forall>s y. env s = Some y \<longrightarrow>
          (if s = scratch then denotes st s y else s \<in> X \<and> holds_var st s y))
     \<and> (\<forall>x\<in>X. env x = None \<longrightarrow> ys_vars st x = None)"

text \<open>The names of a block: identifiers, not declared in the base state.\<close>

definition block_names :: "string set \<Rightarrow> yul_state \<Rightarrow> bool" where
  "block_names X st0 \<longleftrightarrow> (\<forall>x\<in>X. ident_ok x \<and> x \<noteq> ''let'' \<and> x \<noteq> ''r'' \<and> ys_vars st0 x = None)"

definition den :: "string set \<Rightarrow> yul_state \<Rightarrow> known \<Rightarrow> string \<Rightarrow> fr \<Rightarrow> bool" where
  "den X st0 env s y \<longleftrightarrow> (\<forall>st1 st. knows X st0 st1 st env \<longrightarrow> denotes st s y)"

definition runs :: "string set \<Rightarrow> yul_state \<Rightarrow> known \<Rightarrow> string list \<Rightarrow> known \<Rightarrow> bool" where
  "runs X st0 env ls env' \<longleftrightarrow> block_names X st0 \<longrightarrow> (\<forall>st1 st sc. knows X st0 st1 st env \<longrightarrow>
     (\<exists>st'. run_lines ls (st, sc) = Some (st', sc) \<and> knows X st0 st1 st' env'))"

lemma scratch_not_ident: "ident_ok x \<Longrightarrow> x \<noteq> scratch"
  by (auto simp: scratch_def ident_ok_def word_ok_def ident_char_def)

lemma block_namesD:
  "block_names X st0 \<Longrightarrow> x \<in> X \<Longrightarrow> ident_ok x \<and> x \<noteq> ''let'' \<and> x \<noteq> ''r'' \<and> ys_vars st0 x = None"
  by (simp add: block_names_def)

lemma knowsD:
  assumes "knows X st0 st1 st env"
  shows "field_env st" "later st0 st" "frame X st1 st"
    and "env s = Some y \<Longrightarrow> s \<noteq> scratch \<Longrightarrow> s \<in> X \<and> holds_var st s y"
    and "env scratch = Some y \<Longrightarrow> denotes st scratch y"
    and "x \<in> X \<Longrightarrow> env x = None \<Longrightarrow> ys_vars st x = None"
  using assms unfolding knows_def by (auto split: if_splits)

lemma den_add: "den X st0 env a x \<Longrightarrow> den X st0 env b y \<Longrightarrow> den X st0 env (add_r a b) (x + y)"
  by (auto simp: den_def intro: denotes_add dest: knowsD(1))

lemma den_mul: "den X st0 env a x \<Longrightarrow> den X st0 env b y \<Longrightarrow> den X st0 env (mul_r a b) (x * y)"
  by (auto simp: den_def intro: denotes_mul dest: knowsD(1))

lemma den_neg: "den X st0 env a x \<Longrightarrow> den X st0 env (neg_r a) (- x)"
  by (auto simp: den_def intro: denotes_neg dest: knowsD(1))

lemma den_base: "denotes_any st0 s y \<Longrightarrow> den X st0 env s y"
  by (auto simp: den_def intro: later_denotes dest: knowsD(2))

lemma den_var: "env x = Some y \<Longrightarrow> ident_ok x \<Longrightarrow> den X st0 env x y"
  by (auto simp: den_def intro!: holds_var_denotes dest: knowsD(4) scratch_not_ident)

lemma den_scratch: "env scratch = Some y \<Longrightarrow> den X st0 env scratch y"
  by (auto simp: den_def dest: knowsD(5))

lemma runs_Nil: "runs X st0 env [] env"
  by (simp add: runs_def)

lemma runs_append:
  assumes "runs X st0 env ls env1" and "runs X st0 env1 ls' env2"
  shows "runs X st0 env (ls @ ls') env2"
  unfolding runs_def
proof (intro impI allI)
  fix st1 st sc
  assume *: "block_names X st0" "knows X st0 st1 st env"
  with assms(1) obtain st' where "run_lines ls (st, sc) = Some (st', sc)" "knows X st0 st1 st' env1"
    unfolding runs_def by blast
  moreover from this assms(2) * obtain st'' where
    "run_lines ls' (st', sc) = Some (st'', sc)" "knows X st0 st1 st'' env2"
    unfolding runs_def by blast
  ultimately show "\<exists>st'. run_lines (ls @ ls') (st, sc) = Some (st', sc) \<and> knows X st0 st1 st' env2"
    by (simp add: run_lines_append)
qed

lemma knows_assign:
  assumes names: "block_names X st0" and st: "knows X st0 st1 st env" and "x \<in> X"
    and st': "same_but {x} st st'" "holds_var st' x y"
  shows "knows X st0 st1 st' (env(x \<mapsto> y))"
proof -
  have x: "ident_ok x" "x \<noteq> ''r''" "ys_vars st0 x = None" "x \<noteq> scratch"
    using block_namesD [OF names \<open>x \<in> X\<close>] scratch_not_ident by auto
  show ?thesis unfolding knows_def
  proof (intro conjI allI ballI impI)
    show "field_env st'" using knowsD(1) [OF st] st'(1) x(2) by (simp add: field_env_def same_but_def)
    show "later st0 st'" using same_but_later [OF knowsD(2) [OF st] st'(1)] x(3) by simp
    show "frame X st1 st'"
      using frame_trans [OF knowsD(3) [OF st] frame_same_but [OF st'(1)]] \<open>x \<in> X\<close> by simp
  next
    fix s z
    assume s: "(env(x \<mapsto> y)) s = Some z"
    show "if s = scratch then denotes st' s z else s \<in> X \<and> holds_var st' s z"
    proof (cases "s = x")
      case True
      with s x(4) st'(2) \<open>x \<in> X\<close> show ?thesis by simp
    next
      case False
      have "denotes st scratch u \<longleftrightarrow> denotes st' scratch u" for u
        using st'(1) by (simp add: denotes_def scratch_def eval_scratch same_but_def)
      with False s knowsD(4,5) [OF st] st'(1) show ?thesis by (auto simp: same_but_holds_var)
    qed
  next
    fix x'
    assume "x' \<in> X" "(env(x \<mapsto> y)) x' = None"
    then show "ys_vars st' x' = None"
      using knowsD(6) [OF st] st'(1) by (auto simp: same_but_def split: if_splits)
  qed
qed

lemma runs_let:
  assumes "x \<in> X" and "env x = None" and "den X st0 env v y" and "runs X st0 (env(x \<mapsto> y)) ls env'"
  shows "runs X st0 env (fmt_let x v # ls) env'"
  unfolding runs_def
proof (intro impI allI)
  fix st1 st sc
  assume names: "block_names X st0" and st: "knows X st0 st1 st env"
  obtain st' where "run_line (fmt_let x v) (st, sc) = Some (st', sc)" "holds_var st' x y"
    "same_but {x} st st'"
    using run_let_var [of x st v y sc] block_namesD [OF names assms(1)] knowsD(6) [OF st assms(1,2)]
      assms(3) st by (auto simp: den_def)
  with knows_assign [OF names st assms(1)] assms(4) names
  show "\<exists>st'. run_lines (fmt_let x v # ls) (st, sc) = Some (st', sc) \<and> knows X st0 st1 st' env'"
    by (auto simp: runs_def)
qed

lemma runs_decl:
  assumes "x \<in> X" and "env x = None" and "runs X st0 (env(x \<mapsto> 0)) ls env'"
  shows "runs X st0 env (fmt_decl x # ls) env'"
  unfolding runs_def
proof (intro impI allI)
  fix st1 st sc
  assume names: "block_names X st0" and st: "knows X st0 st1 st env"
  let ?st = "st\<lparr>ys_vars := (ys_vars st)(x \<mapsto> 0)\<rparr>"
  have "run_line (fmt_decl x) (st, sc) = Some (?st, sc)"
    using run_line_decl block_namesD [OF names assms(1)] knowsD(6) [OF st assms(1,2)] by blast
  moreover have "same_but {x} st ?st" "holds_var ?st x 0"
    by (simp_all add: same_but_def holds_var_def felt_simps)
  ultimately show "\<exists>st'. run_lines (fmt_decl x # ls) (st, sc) = Some (st', sc) \<and> knows X st0 st1 st' env'"
    using knows_assign [OF names st assms(1)] assms(3) names by (auto simp: runs_def)
qed

lemma runs_set:
  assumes "x \<in> X" and "env x = Some u" and "den X st0 env v y" and "runs X st0 (env(x \<mapsto> y)) ls env'"
  shows "runs X st0 env (fmt_set x v # ls) env'"
  unfolding runs_def
proof (intro impI allI)
  fix st1 st sc
  assume names: "block_names X st0" and st: "knows X st0 st1 st env"
  have x: "ident_ok x" "x \<noteq> ''let''" using block_namesD [OF names assms(1)] by auto
  then have "ys_vars st x \<noteq> None"
    using knowsD(4) [OF st assms(2)] scratch_not_ident by (auto simp: holds_var_def)
  with x obtain st' where "run_line (fmt_set x v) (st, sc) = Some (st', sc)" "holds_var st' x y"
    "same_but {x} st st'"
    using run_set_var [of x st v y sc] assms(3) st by (auto simp: den_def)
  with knows_assign [OF names st assms(1)] assms(4) names
  show "\<exists>st'. run_lines (fmt_set x v # ls) (st, sc) = Some (st', sc) \<and> knows X st0 st1 st' env'"
    by (auto simp: runs_def)
qed

lemma runs_scratch:
  assumes "den X st0 env v y" and "runs X st0 (env(scratch \<mapsto> y)) ls env'"
  shows "runs X st0 env (fmt_mstore ''0x00'' v # ls) env'"
  unfolding runs_def
proof (intro impI allI)
  fix st1 st sc
  assume names: "block_names X st0" and st: "knows X st0 st1 st env"
  obtain w where w: "run_line (fmt_mstore ''0x00'' v) (st, sc) = Some (set_scratch w st, sc)"
    "reduced w" "felt w = y"
    using run_scratch [of st v y sc] assms(1) st by (auto simp: den_def)
  have "scratch \<notin> X" using block_namesD [OF names] scratch_not_ident by blast
  moreover have "denotes (set_scratch w st) scratch y"
    using denotes_scratch [OF w(2)] w(3) by (simp add: scratch_def)
  moreover have "later st0 (set_scratch w st)"
    using later_trans [OF knowsD(2) [OF st] later_set_scratch] .
  moreover have "frame X st1 (set_scratch w st)"
    using frame_trans [OF knowsD(3) [OF st] frame_set_scratch] .
  ultimately have "knows X st0 st1 (set_scratch w st) (env(scratch \<mapsto> y))"
    using knowsD(1,4,6) [OF st]
    by (simp add: knows_def field_env_def holds_var_def)
  with w(1) assms(2) names
  show "\<exists>st'. run_lines (fmt_mstore ''0x00'' v # ls) (st, sc) = Some (st', sc)
      \<and> knows X st0 st1 st' env'"
    by (auto simp: runs_def)
qed

lemmas den_intros = den_add den_mul den_neg

section \<open>The permutation argument\<close>

text \<open>The values the argument is about, and the texts that denote them.\<close>

record argument_values =
  av_beta :: fr
  av_gamma :: fr
  av_theta :: fr
  av_x :: fr
  av_delta :: fr
  av_l_0 :: fr
  av_l_last :: fr
  av_l_blind :: fr

definition holds_values :: "yul_state \<Rightarrow> argument_values \<Rightarrow> bool" where
  "holds_values st A \<longleftrightarrow> denotes_any st ''mload(BETA_MPTR)'' (av_beta A)
     \<and> denotes_any st ''mload(GAMMA_MPTR)'' (av_gamma A)
     \<and> denotes_any st ''mload(THETA_MPTR)'' (av_theta A)
     \<and> denotes_any st ''mload(X_MPTR)'' (av_x A)
     \<and> denotes_any st ''delta'' (av_delta A)
     \<and> denotes_any st ''mload(L_0_MPTR)'' (av_l_0 A)
     \<and> denotes_any st ''mload(L_LAST_MPTR)'' (av_l_last A)
     \<and> denotes_any st ''mload(L_BLIND_MPTR)'' (av_l_blind A)"

definition holds_columns :: "yul_state \<Rightarrow> data \<Rightarrow> (column \<Rightarrow> fr) \<Rightarrow> (column \<Rightarrow> fr) \<Rightarrow> bool" where
  "holds_columns st d colv permv \<longleftrightarrow>
     (\<forall>c t. eval_column d (column_type c) (column_index c) 0 = Some t \<longrightarrow> denotes_any st t (colv c))
     \<and> (\<forall>c w. da_permutation_evals d c = Some w \<longrightarrow> denotes_any st (show_word w) (permv c))"

lemma holds_valuesD:
  assumes "holds_values st0 A" and "later st0 st"
  shows "denotes st ''mload(BETA_MPTR)'' (av_beta A)" "denotes st ''mload(GAMMA_MPTR)'' (av_gamma A)"
    "denotes st ''mload(THETA_MPTR)'' (av_theta A)" "denotes st ''mload(X_MPTR)'' (av_x A)"
    "denotes st ''delta'' (av_delta A)" "denotes st ''mload(L_0_MPTR)'' (av_l_0 A)"
    "denotes st ''mload(L_LAST_MPTR)'' (av_l_last A)" "denotes st ''mload(L_BLIND_MPTR)'' (av_l_blind A)"
  using assms later_denotes unfolding holds_values_def by blast+

lemma ident_ok_names [simp]:
  "ident_ok ''gamma''" "ident_ok ''beta''" "ident_ok ''theta''" "ident_ok ''lhs''" "ident_ok ''rhs''"
  "ident_ok ''eval''" "ident_ok ''left_sub_right''" "ident_ok ''l_0''" "ident_ok ''l_last''"
  "ident_ok ''perm_z_last''" "ident_ok ''input''" "ident_ok ''table''" "ident_ok ''delta''"
  "ident_ok ''quotient_eval_numer''" "ident_ok ''y''"
  by (simp_all add: ident_ok_def word_ok_def ident_char_def starts_with_digit_def)

lemma column_lhs_Some:
  "permutation_column_lhs d c = Some l \<longleftrightarrow> (\<exists>w t. da_permutation_evals d c = Some w
    \<and> eval_column d (column_type c) (column_index c) 0 = Some t
    \<and> l = fmt_set ''lhs'' (mul_r ''lhs'' (add_r (add_r t (mul_r ''beta'' (show_word w))) ''gamma'')))"
  by (auto simp: permutation_column_lhs_def bind_eq_Some_conv)

lemma column_rhs_Some:
  "permutation_column_rhs d b c = Some ls \<longleftrightarrow>
    (\<exists>t. eval_column d (column_type c) (column_index c) 0 = Some t
    \<and> ls = fmt_set ''rhs'' (mul_r ''rhs'' (add_r (add_r t ''mload(0x00)'') ''gamma''))
      # (if b then [] else [fmt_mstore ''0x00'' (mul_r ''mload(0x00)'' ''delta'')]))"
  by (auto simp: permutation_column_rhs_def bind_eq_Some_conv)

lemma those_Cons_Some:
  "those (x # xs) = Some ys \<longleftrightarrow> (\<exists>z zs. x = Some z \<and> those xs = Some zs \<and> ys = z # zs)"
  by (auto split: option.splits)

text \<open>The right-hand side: each column is multiplied by the next power of delta.\<close>

fun rhs_product :: "fr \<Rightarrow> fr \<Rightarrow> fr \<Rightarrow> fr list \<Rightarrow> fr" where
  "rhs_product delta g m [] = 1"
| "rhs_product delta g m (v # vs) = (v + m + g) * rhs_product delta g (m * delta) vs"

section \<open>Correctness of the permutation lines\<close>

lemma runs_lhs:
  assumes "holds_columns st0 d colv permv" and "''lhs'' \<in> X"
    and "those (map (permutation_column_lhs d) columns) = Some ls"
    and "env ''beta'' = Some b" and "env ''gamma'' = Some g" and "env ''lhs'' = Some y"
  shows "runs X st0 env ls (env(''lhs'' \<mapsto> y * (\<Prod>c\<leftarrow>columns. colv c + b * permv c + g)))"
  using assms(3-6)
proof (induction columns arbitrary: ls env y)
  case Nil
  then have "env(''lhs'' \<mapsto> y * (\<Prod>c\<leftarrow>[]. colv c + b * permv c + g)) = env" by auto
  with runs_Nil [of X st0 env] Nil(1) show ?case by simp
next
  case (Cons c columns)
  then obtain w t ls' where c: "da_permutation_evals d c = Some w"
    "eval_column d (column_type c) (column_index c) 0 = Some t"
    "those (map (permutation_column_lhs d) columns) = Some ls'"
    and ls: "ls = fmt_set ''lhs'' (mul_r ''lhs''
      (add_r (add_r t (mul_r ''beta'' (show_word w))) ''gamma'')) # ls'"
    unfolding list.map those_Cons_Some column_lhs_Some by blast
  have "denotes_any st0 t (colv c)" "denotes_any st0 (show_word w) (permv c)"
    using assms(1) c(1,2) by (auto simp: holds_columns_def)
  then have "den X st0 env (mul_r ''lhs'' (add_r (add_r t (mul_r ''beta'' (show_word w))) ''gamma''))
      (y * (colv c + b * permv c + g))"
    using Cons.prems(2-4) by (intro den_intros) (auto intro: den_var den_base)
  moreover have "runs X st0 (env(''lhs'' \<mapsto> y * (colv c + b * permv c + g))) ls'
      (env(''lhs'' \<mapsto> y * (colv c + b * permv c + g),
        ''lhs'' \<mapsto> y * (colv c + b * permv c + g) * (\<Prod>c\<leftarrow>columns. colv c + b * permv c + g)))"
    using Cons.prems(2,3) by (intro Cons.IH [OF c(3)]) simp_all
  ultimately have "runs X st0 env ls (env(''lhs'' \<mapsto> y * (colv c + b * permv c + g),
        ''lhs'' \<mapsto> y * (colv c + b * permv c + g) * (\<Prod>c\<leftarrow>columns. colv c + b * permv c + g)))"
    unfolding ls
    by (rule runs_set [where env = env and x = "''lhs''", OF assms(2) Cons.prems(4)])
  then show ?case by (simp only: fun_upd_upd mult.assoc list.map prod_list.Cons)
qed

lemma runs_rhs:
  assumes "holds_columns st0 d colv permv" and "holds_values st0 A" and "''rhs'' \<in> X"
    and "those (map (\<lambda>(idx, c). permutation_column_rhs d (final \<and> idx = n + length columns - 1) c)
      (enumerate n columns)) = Some ls"
    and "env ''gamma'' = Some g" and "env ''rhs'' = Some y" and "env scratch = Some m"
  shows "runs X st0 env (concat ls) (env(''rhs'' \<mapsto> y * rhs_product (av_delta A) g m (map colv columns),
    scratch \<mapsto> m * av_delta A ^ (if final then length columns - 1 else length columns)))"
  using assms(4-7)
proof (induction columns arbitrary: n ls env y m)
  case Nil
  then have "env(''rhs'' \<mapsto> y * rhs_product (av_delta A) g m (map colv []),
      scratch \<mapsto> m * av_delta A ^ (if final then length [] - 1 else length [])) = env"
    by (auto simp: scratch_def)
  moreover have "concat ls = []" using Nil(1) by auto
  ultimately show ?case using runs_Nil [of X st0 env] by metis
next
  case (Cons c columns)
  let ?last = "final \<and> columns = []"
  let ?store = "fmt_mstore ''0x00'' (mul_r scratch ''delta'')"
  let ?set = "\<lambda>t. fmt_set ''rhs'' (mul_r ''rhs'' (add_r (add_r t scratch) ''gamma''))"
  let ?env = "env(''rhs'' \<mapsto> y * (colv c + m + g))"
  from Cons.prems(1) obtain t ls' where t: "eval_column d (column_type c) (column_index c) 0 = Some t"
    and ls': "those (map (\<lambda>(idx, c). permutation_column_rhs d (final \<and> idx = Suc n + length columns - 1) c)
      (enumerate (Suc n) columns)) = Some ls'"
    and ls: "ls = (?set t # (if ?last then [] else [?store])) # ls'"
    unfolding enumerate_simps list.map those_Cons_Some prod.case column_rhs_Some
    by (auto simp: scratch_def)
  have "denotes_any st0 t (colv c)" using assms(1) t by (auto simp: holds_columns_def)
  then have set_den: "den X st0 env (mul_r ''rhs'' (add_r (add_r t scratch) ''gamma''))
      (y * (colv c + m + g))"
    using Cons.prems(2-4) by (intro den_intros) (auto intro: den_var den_base den_scratch)
  have ne: "scratch \<noteq> ''rhs''" "scratch \<noteq> ''gamma''" by (simp_all add: scratch_def)
  show ?case
  proof (cases ?last)
    case True
    have "concat ls = [?set t]" using True ls ls' by simp
    moreover have "runs X st0 env [?set t] ?env"
      using runs_set [where env = env and x = "''rhs''", OF assms(3) Cons.prems(3) set_den runs_Nil] .
    moreover have "?env = env(''rhs'' \<mapsto> y * rhs_product (av_delta A) g m (map colv (c # columns)),
        scratch \<mapsto> m * av_delta A ^ (if final then length (c # columns) - 1 else length (c # columns)))"
      using True ne Cons.prems(4) by (auto simp: fun_eq_iff)
    ultimately show ?thesis by metis
  next
    case False
    have "den X st0 ?env (mul_r scratch ''delta'') (m * av_delta A)"
      using assms(2) Cons.prems(4) ne by (intro den_intros den_scratch den_base) (auto simp: holds_values_def)
    moreover have "runs X st0 (?env(scratch \<mapsto> m * av_delta A)) (concat ls')
        (?env(scratch \<mapsto> m * av_delta A,
          ''rhs'' \<mapsto> y * (colv c + m + g) * rhs_product (av_delta A) g (m * av_delta A) (map colv columns),
          scratch \<mapsto> m * av_delta A * av_delta A ^ (if final then length columns - 1 else length columns)))"
      using Cons.prems(2) ne by (intro Cons.IH [OF ls']) simp_all
    moreover have "concat ls = ?set t # ?store # concat ls'" using False ls by auto
    moreover have "?env(scratch \<mapsto> m * av_delta A,
          ''rhs'' \<mapsto> y * (colv c + m + g) * rhs_product (av_delta A) g (m * av_delta A) (map colv columns),
          scratch \<mapsto> m * av_delta A * av_delta A ^ (if final then length columns - 1 else length columns))
      = env(''rhs'' \<mapsto> y * rhs_product (av_delta A) g m (map colv (c # columns)),
          scratch \<mapsto> m * av_delta A ^ (if final then length (c # columns) - 1 else length (c # columns)))"
      using False ne by (cases columns) (auto simp: fun_eq_iff mult.assoc)
    ultimately show ?thesis
      using runs_set [where env = env and x = "''rhs''", OF assms(3) Cons.prems(3) set_den runs_scratch] by metis
  qed
qed

definition chunk_names :: "string set" where
  "chunk_names = {''gamma'', ''beta'', ''lhs'', ''rhs'', ''left_sub_right'', ''eval''}"

definition chunk_value ::
  "argument_values \<Rightarrow> (column \<Rightarrow> fr) \<Rightarrow> (column \<Rightarrow> fr) \<Rightarrow> fr \<Rightarrow> fr \<Rightarrow> fr \<Rightarrow> column list \<Rightarrow> fr" where
  "chunk_value A colv permv z z_next m columns =
     (let lhs = z_next * (\<Prod>c\<leftarrow>columns. colv c + av_beta A * permv c + av_gamma A);
          rhs = z * rhs_product (av_delta A) (av_gamma A) m (map colv columns)
      in (lhs - rhs) * (1 - (av_l_last A + av_l_blind A)))"

lemma permutation_chunk_Some:
  assumes "permutation_chunk d lci ci columns evals = Some ls"
  obtains lhs rhs where "those (map (permutation_column_lhs d) columns) = Some lhs"
    and "those (map (\<lambda>(idx, c). permutation_column_rhs d
        (ci = lci \<and> idx = 0 + length columns - 1) c) (enumerate 0 columns)) = Some rhs"
    and "ls = [fmt_let ''gamma'' ''mload(GAMMA_MPTR)'', fmt_let ''beta'' ''mload(BETA_MPTR)'',
        fmt_let ''lhs'' (show_word (fst (snd evals))), fmt_let ''rhs'' (show_word (fst evals))]
        @ lhs @ (if ci = 0 then [fmt_mstore ''0x00'' (mul_r ''beta'' ''mload(X_MPTR)'')] else [])
        @ concat rhs
        @ [fmt_let ''left_sub_right'' (add_r ''lhs'' (neg_r ''rhs'')),
           fmt_let ''eval'' (add_r ''left_sub_right'' (neg_r (mul_r ''left_sub_right''
             (add_r ''mload(L_LAST_MPTR)'' ''mload(L_BLIND_MPTR)''))))]"
  using assms by (auto simp: permutation_chunk_def usize_sub_def Let_def bind_eq_Some_conv
      split: if_splits)

lemma holds_values_den:
  assumes "holds_values st0 A"
  shows "den X st0 env ''mload(BETA_MPTR)'' (av_beta A)" "den X st0 env ''mload(GAMMA_MPTR)'' (av_gamma A)"
    "den X st0 env ''mload(THETA_MPTR)'' (av_theta A)" "den X st0 env ''mload(X_MPTR)'' (av_x A)"
    "den X st0 env ''delta'' (av_delta A)" "den X st0 env ''mload(L_0_MPTR)'' (av_l_0 A)"
    "den X st0 env ''mload(L_LAST_MPTR)'' (av_l_last A)"
    "den X st0 env ''mload(L_BLIND_MPTR)'' (av_l_blind A)"
  using assms by (simp_all add: holds_values_def den_base)

lemma runs_chunk:
  assumes A: "holds_values st0 A" and cols: "holds_columns st0 d colv permv"
    and z: "denotes_any st0 (show_word (fst evals)) vz" "denotes_any st0 (show_word (fst (snd evals))) vn"
    and m: "if ci = 0 then m = av_beta A * av_x A else env scratch = Some m"
    and fresh: "\<And>x. x \<in> chunk_names \<Longrightarrow> env x = None"
    and chunk: "permutation_chunk d lci ci columns evals = Some ls"
  shows "\<exists>env'. runs chunk_names st0 env ls env'
    \<and> env' ''eval'' = Some (chunk_value A colv permv vz vn m columns)
    \<and> env' scratch = Some (m * av_delta A ^ (if ci = lci then length columns - 1 else length columns))"
proof -
  from chunk obtain lhs rhs where lhs: "those (map (permutation_column_lhs d) columns) = Some lhs"
    and rhs: "those (map (\<lambda>(idx, c). permutation_column_rhs d
        (ci = lci \<and> idx = 0 + length columns - 1) c) (enumerate 0 columns)) = Some rhs"
    and ls: "ls = [fmt_let ''gamma'' ''mload(GAMMA_MPTR)'', fmt_let ''beta'' ''mload(BETA_MPTR)'',
        fmt_let ''lhs'' (show_word (fst (snd evals))), fmt_let ''rhs'' (show_word (fst evals))]
        @ lhs @ (if ci = 0 then [fmt_mstore ''0x00'' (mul_r ''beta'' ''mload(X_MPTR)'')] else [])
        @ concat rhs
        @ [fmt_let ''left_sub_right'' (add_r ''lhs'' (neg_r ''rhs'')),
           fmt_let ''eval'' (add_r ''left_sub_right'' (neg_r (mul_r ''left_sub_right''
             (add_r ''mload(L_LAST_MPTR)'' ''mload(L_BLIND_MPTR)''))))]"
    by (rule permutation_chunk_Some)
  have ne: "scratch \<noteq> ''gamma''" "scratch \<noteq> ''beta''" "scratch \<noteq> ''lhs''" "scratch \<noteq> ''rhs''"
    "scratch \<noteq> ''left_sub_right''" "scratch \<noteq> ''eval''"
    by (simp_all add: scratch_def)
  let ?L = "vn * (\<Prod>c\<leftarrow>columns. colv c + av_beta A * permv c + av_gamma A)"
  let ?R = "vz * rhs_product (av_delta A) (av_gamma A) m (map colv columns)"
  let ?D = "?L + - ?R"
  let ?e1 = "env(''gamma'' \<mapsto> av_gamma A, ''beta'' \<mapsto> av_beta A, ''lhs'' \<mapsto> vn, ''rhs'' \<mapsto> vz)"
  let ?e2 = "?e1(''lhs'' \<mapsto> ?L)"
  let ?e3 = "?e2(scratch \<mapsto> m)"
  let ?e4 = "?e3(''rhs'' \<mapsto> ?R,
    scratch \<mapsto> m * av_delta A ^ (if ci = lci then length columns - 1 else length columns))"
  let ?e5 = "?e4(''left_sub_right'' \<mapsto> ?D,
    ''eval'' \<mapsto> ?D + - (?D * (av_l_last A + av_l_blind A)))"
  have 1: "runs chunk_names st0 env [fmt_let ''gamma'' ''mload(GAMMA_MPTR)'',
      fmt_let ''beta'' ''mload(BETA_MPTR)'', fmt_let ''lhs'' (show_word (fst (snd evals))),
      fmt_let ''rhs'' (show_word (fst evals))] ?e1"
    by (rule runs_let [OF _ _ holds_values_den(2) [OF A] runs_let [OF _ _ holds_values_den(1) [OF A]
        runs_let [OF _ _ den_base [OF z(2)] runs_let [OF _ _ den_base [OF z(1)] runs_Nil]]]])
      (simp_all add: fresh chunk_names_def)
  have 2: "runs chunk_names st0 ?e1 lhs ?e2"
    by (rule runs_lhs [OF cols _ lhs]) (simp_all add: chunk_names_def)
  have 3: "runs chunk_names st0 ?e2
      (if ci = 0 then [fmt_mstore ''0x00'' (mul_r ''beta'' ''mload(X_MPTR)'')] else []) ?e3"
  proof (cases "ci = 0")
    case True
    then have "m = av_beta A * av_x A" using m by simp
    moreover have "den chunk_names st0 ?e2 (mul_r ''beta'' ''mload(X_MPTR)'') (av_beta A * av_x A)"
      by (intro den_intros den_var holds_values_den A) simp_all
    ultimately have "den chunk_names st0 ?e2 (mul_r ''beta'' ''mload(X_MPTR)'') m" by simp
    from runs_scratch [OF this runs_Nil] have
      "runs chunk_names st0 ?e2 [fmt_mstore ''0x00'' (mul_r ''beta'' ''mload(X_MPTR)'')] ?e3" .
    with True show ?thesis by (simp only: if_P if_True simp_thms)
  next
    case False
    then have "?e3 = ?e2" using m ne by (auto simp: fun_eq_iff)
    with runs_Nil [of chunk_names st0 ?e2] have "runs chunk_names st0 ?e2 [] ?e3" by simp
    with False show ?thesis by (simp only: if_False simp_thms)
  qed
  have 4: "runs chunk_names st0 ?e3 (concat rhs) ?e4"
    by (rule runs_rhs [OF cols A _ rhs]) (use ne in \<open>simp_all add: chunk_names_def\<close>)
  have 5: "runs chunk_names st0 ?e4 [fmt_let ''left_sub_right'' (add_r ''lhs'' (neg_r ''rhs'')),
      fmt_let ''eval'' (add_r ''left_sub_right'' (neg_r (mul_r ''left_sub_right''
        (add_r ''mload(L_LAST_MPTR)'' ''mload(L_BLIND_MPTR)''))))] ?e5"
    by (rule runs_let [OF _ _ _ runs_let [OF _ _ _ runs_Nil]]; (intro den_intros den_var holds_values_den A)?)
      (use ne in \<open>simp_all add: fresh chunk_names_def\<close>)
  have "runs chunk_names st0 env ls ?e5"
    unfolding ls by (rule runs_append [OF 1 runs_append [OF 2 runs_append [OF 3 runs_append [OF 4 5]]]])
  moreover have "?D + - (?D * (av_l_last A + av_l_blind A)) = chunk_value A colv permv vz vn m columns"
    by (simp add: chunk_value_def Let_def algebra_simps)
  then have "?e5 ''eval'' = Some (chunk_value A colv permv vz vn m columns)" by (simp only: fun_upd_same)
  moreover have "?e5 scratch
      = Some (m * av_delta A ^ (if ci = lci then length columns - 1 else length columns))"
    using ne by simp
  ultimately show ?thesis by blast
qed

section \<open>Computations as blocks\<close>

text \<open>
  The computations run one after another, each in a block of its own, in states in which only the
  accumulator \<open>quotient_eval_numer\<close> has been added to the base state. \<open>block_computes st0 m c v m'\<close>:
  with scratch word \<open>m\<close> (if known), the lines of \<open>c\<close> run, its variable denotes \<open>v\<close>, and the scratch
  word is then \<open>m'\<close> (if known).
\<close>

definition numer :: string where
  "numer = ''quotient_eval_numer''"

definition holds_scratch :: "yul_state \<Rightarrow> fr option \<Rightarrow> bool" where
  "holds_scratch st m \<longleftrightarrow> (\<forall>y. m = Some y \<longrightarrow> denotes st scratch y)"

definition between_blocks :: "yul_state \<Rightarrow> yul_state \<Rightarrow> bool" where
  "between_blocks st0 st \<longleftrightarrow> field_env st \<and> later st0 st
     \<and> (\<exists>w. ys_vars st = (ys_vars st0)(numer \<mapsto> w))"

definition block_computes ::
  "yul_state \<Rightarrow> fr option \<Rightarrow> computation \<Rightarrow> fr \<Rightarrow> fr option \<Rightarrow> bool" where
  "block_computes st0 m c v m' \<longleftrightarrow> (\<forall>st sc. between_blocks st0 st \<longrightarrow> holds_scratch st m \<longrightarrow>
     (\<exists>st'. run_lines (fst c) (st, sc) = Some (st', sc) \<and> later st st' \<and> denotes st' (snd c) v
        \<and> holds_scratch st' m'))"

inductive computes_list ::
  "yul_state \<Rightarrow> fr option \<Rightarrow> computation list \<Rightarrow> fr list \<Rightarrow> fr option \<Rightarrow> bool" for st0 where
  Nil: "computes_list st0 m [] [] None"
| Cons: "block_computes st0 m c v m' \<Longrightarrow> computes_list st0 m' cs vs m'' \<Longrightarrow>
    computes_list st0 m (c # cs) (v # vs) m''"

lemma holds_scratch_None [simp]: "holds_scratch st None"
  by (simp add: holds_scratch_def)

lemma block_computes_weaken:
  "block_computes st0 None c v m' \<Longrightarrow> block_computes st0 m c v None"
  by (fastforce simp: block_computes_def)

lemma computes_append:
  "computes_list st0 m cs vs m' \<Longrightarrow> computes_list st0 None cs' vs' m'' \<Longrightarrow>
    computes_list st0 m (cs @ cs') (vs @ vs') m''"
proof (induction rule: computes_list.induct)
  case (Nil m)
  then show ?case
  proof (cases rule: computes_list.cases)
    case (Cons c v m' cs vs)
    then have "block_computes st0 m c v m'" by (auto simp: block_computes_def)
    with Cons show ?thesis by (auto intro: computes_list.intros)
  qed (auto intro: computes_list.intros)
qed (auto intro: computes_list.intros)

lemma runs_block:
  assumes "runs X st0 env ls env'" and "block_names X st0" and "numer \<notin> X"
    and "env = (case m of None \<Rightarrow> Map.empty | Some y \<Rightarrow> [scratch \<mapsto> y])"
    and "env' x = Some v" and "x \<in> X"
  shows "block_computes st0 m (ls, x) v (env' scratch)"
  unfolding block_computes_def fst_conv snd_conv
proof (intro allI impI)
  fix st sc
  assume st: "between_blocks st0 st" "holds_scratch st m"
  have no_scratch: "scratch \<notin> X" using block_namesD [OF assms(2)] scratch_not_ident by blast
  have fresh: "\<forall>x\<in>X. ys_vars st x = None"
    using st(1) assms(3) block_namesD [OF assms(2)] by (auto simp: between_blocks_def)
  have "knows X st0 st st env"
    using st fresh no_scratch unfolding knows_def assms(4)
    by (auto simp: between_blocks_def holds_scratch_def frame_refl
        split: option.splits if_splits)
  with assms(1,2) obtain st' where st': "run_lines ls (st, sc) = Some (st', sc)" "knows X st0 st st' env'"
    unfolding runs_def by blast
  have "later st st'" using frame_later [OF later_refl knowsD(3) [OF st'(2)] fresh] .
  moreover have "denotes st' x v"
    using knowsD(4) [OF st'(2) assms(5)] block_namesD [OF assms(2,6)] scratch_not_ident
    by (auto intro: holds_var_denotes)
  moreover have "holds_scratch st' (env' scratch)"
    using knowsD(5) [OF st'(2)] by (simp add: holds_scratch_def)
  ultimately show "\<exists>st'. run_lines ls (st, sc) = Some (st', sc) \<and> later st st' \<and> denotes st' x v
      \<and> holds_scratch st' (env' scratch)" using st'(1) by blast
qed

text \<open>The names the generated blocks declare; none may be declared around them.\<close>

definition local_names :: "string set" where
  "local_names = {''gamma'', ''beta'', ''lhs'', ''rhs'', ''left_sub_right'', ''eval'', ''l_0'',
     ''l_last'', ''perm_z_last'', ''theta'', ''input'', ''table''}"

definition fresh_locals :: "yul_state \<Rightarrow> bool" where
  "fresh_locals st \<longleftrightarrow> (\<forall>x\<in>local_names. ys_vars st x = None)"

lemma local_block_names: "fresh_locals st0 \<Longrightarrow> X \<subseteq> local_names \<Longrightarrow> block_names X st0"
  unfolding block_names_def fresh_locals_def
  by (rule ballI, drule (1) subsetD) (auto simp: local_names_def)

lemma numer_not_local: "X \<subseteq> local_names \<Longrightarrow> numer \<notin> X"
  by (auto simp: local_names_def numer_def)

section \<open>All permutation polynomials\<close>

type_synonym fr3 = "fr \<times> fr \<times> fr"

definition holds3 :: "yul_state \<Rightarrow> word3 \<Rightarrow> fr3 \<Rightarrow> bool" where
  "holds3 st w v \<longleftrightarrow> denotes_any st (show_word (fst w)) (fst v)
     \<and> denotes_any st (show_word (fst (snd w))) (fst (snd v))
     \<and> denotes_any st (show_word (snd (snd w))) (snd (snd v))"

fun chunk_values ::
  "argument_values \<Rightarrow> (column \<Rightarrow> fr) \<Rightarrow> (column \<Rightarrow> fr) \<Rightarrow> fr \<Rightarrow> column list list \<Rightarrow> fr3 list \<Rightarrow> fr list" where
  "chunk_values A colv permv m (columns # groups) (z # zs) =
     chunk_value A colv permv (fst z) (fst (snd z)) m columns
     # chunk_values A colv permv (m * av_delta A ^ length columns) groups zs"
| "chunk_values A colv permv m _ _ = []"

definition permutation_values ::
  "argument_values \<Rightarrow> (column \<Rightarrow> fr) \<Rightarrow> (column \<Rightarrow> fr) \<Rightarrow> column list list \<Rightarrow> fr3 list \<Rightarrow> fr list" where
  "permutation_values A colv permv groups zs =
     (if zs = [] then [] else
       [av_l_0 A * (1 - fst (hd zs)), av_l_last A * (fst (last zs) * fst (last zs) - fst (last zs))])
     @ map2 (\<lambda>z_i z_j. av_l_0 A * (fst z_j - snd (snd z_i))) zs (tl zs)
     @ chunk_values A colv permv (av_beta A * av_x A) groups zs"

lemma permutation_first_computes:
  assumes "fresh_locals st0" and "holds_values st0 A" and "holds3 st0 evals v"
  shows "block_computes st0 None (permutation_first evals, ''eval'') (av_l_0 A * (1 - fst v)) None"
proof -
  let ?X = "{''l_0'', ''eval''}"
  have X: "?X \<subseteq> local_names" by (simp add: local_names_def)
  let ?e = "[''l_0'' \<mapsto> av_l_0 A, ''eval'' \<mapsto> av_l_0 A + - (av_l_0 A * fst v)]"
  have "runs ?X st0 Map.empty (permutation_first evals) ?e"
    unfolding permutation_first_def case_prod_beta
    by (rule runs_let [OF _ _ holds_values_den(6) [OF assms(2)] runs_let [OF _ _ _ runs_Nil]];
        (intro den_intros den_var den_base)?)
      (use assms(3) in \<open>simp_all add: holds3_def\<close>)
  from runs_block [OF this local_block_names [OF assms(1) X] numer_not_local [OF X], of None "''eval''"]
  show ?thesis by (auto simp: algebra_simps scratch_def)
qed

lemma permutation_last_computes:
  assumes "fresh_locals st0" and "holds_values st0 A" and "holds3 st0 evals v"
  shows "block_computes st0 None (permutation_last evals, ''eval'')
    (av_l_last A * (fst v * fst v - fst v)) None"
proof -
  let ?X = "{''perm_z_last'', ''eval''}"
  have X: "?X \<subseteq> local_names" by (simp add: local_names_def)
  let ?e = "[''perm_z_last'' \<mapsto> fst v, ''eval'' \<mapsto> av_l_last A * (fst v * fst v + - fst v)]"
  have z: "denotes_any st0 (show_word (fst evals)) (fst v)" using assms(3) by (simp add: holds3_def)
  have "runs ?X st0 Map.empty (permutation_last evals) ?e"
    unfolding permutation_last_def case_prod_beta Let_def
    by (rule runs_let [OF _ _ den_base [OF z] runs_let [OF _ _ _ runs_Nil]];
        (intro den_intros den_var holds_values_den assms)?) simp_all
  from runs_block [OF this local_block_names [OF assms(1) X] numer_not_local [OF X], of None "''eval''"]
  show ?thesis by (auto simp: algebra_simps scratch_def)
qed

lemma permutation_link_computes:
  assumes "fresh_locals st0" and "holds_values st0 A" and "holds3 st0 wi vi" and "holds3 st0 wj vj"
  shows "block_computes st0 None (permutation_link wi wj, ''eval'')
    (av_l_0 A * (fst vj - snd (snd vi))) None"
proof -
  let ?X = "{''eval''}"
  have X: "?X \<subseteq> local_names" by (simp add: local_names_def)
  have z: "denotes_any st0 (show_word (fst wj)) (fst vj)"
    "denotes_any st0 (show_word (snd (snd wi))) (snd (snd vi))"
    using assms(3,4) by (simp_all add: holds3_def)
  have "runs ?X st0 Map.empty (permutation_link wi wj)
      [''eval'' \<mapsto> av_l_0 A * (fst vj + - snd (snd vi))]"
    unfolding permutation_link_def case_prod_beta Let_def fst_conv snd_conv
    by (rule runs_let [OF _ _ _ runs_Nil]; (intro den_intros holds_values_den den_base assms z)?) simp_all
  from runs_block [OF this local_block_names [OF assms(1) X] numer_not_local [OF X], of None "''eval''"]
  show ?thesis by (auto simp: algebra_simps scratch_def)
qed

lemma chunk_computes:
  assumes "fresh_locals st0" and "holds_values st0 A" and "holds_columns st0 d colv permv"
    and "holds3 st0 evals v" and "permutation_chunk d lci ci columns evals = Some ls"
    and "if ci = 0 then m = av_beta A * av_x A else mo = Some m"
  shows "block_computes st0 mo (ls, ''eval'') (chunk_value A colv permv (fst v) (fst (snd v)) m columns)
    (Some (m * av_delta A ^ (if ci = lci then length columns - 1 else length columns)))"
proof -
  let ?env = "case mo of None \<Rightarrow> Map.empty | Some y \<Rightarrow> [scratch \<mapsto> y]"
  have X: "chunk_names \<subseteq> local_names" by (simp add: chunk_names_def local_names_def)
  have names: "block_names chunk_names st0" by (rule local_block_names [OF assms(1) X])
  have fresh: "?env x = None" if "x \<in> chunk_names" for x
    using block_namesD [OF names that] scratch_not_ident by (auto split: option.splits)
  have m: "if ci = 0 then m = av_beta A * av_x A else ?env scratch = Some m"
    using assms(6) by auto
  have z: "denotes_any st0 (show_word (fst evals)) (fst v)"
    "denotes_any st0 (show_word (fst (snd evals))) (fst (snd v))"
    using assms(4) by (simp_all add: holds3_def)
  obtain env' where env': "runs chunk_names st0 ?env ls env'"
    "env' ''eval'' = Some (chunk_value A colv permv (fst v) (fst (snd v)) m columns)"
    "env' scratch = Some (m * av_delta A ^ (if ci = lci then length columns - 1 else length columns))"
    using runs_chunk [where env = ?env, OF assms(2,3) z m fresh assms(5)] by blast
  from runs_block [OF env'(1) names numer_not_local [OF X] refl env'(2)] env'(3)
  show ?thesis by (simp add: chunk_names_def)
qed

lemma chunks_compute:
  assumes "fresh_locals st0" and "holds_values st0 A" and "holds_columns st0 d colv permv"
    and "those (map (\<lambda>(ci, columns, evals). permutation_chunk d lci ci columns evals)
      (enumerate n (zip groups ws))) = Some ls"
    and "list_all2 (holds3 st0) ws vs" and "n + length ws \<le> Suc lci"
    and "if n = 0 then m = av_beta A * av_x A else mo = Some m"
  shows "\<exists>m'. computes_list st0 mo (map (\<lambda>l. (l, ''eval'')) ls) (chunk_values A colv permv m groups vs) m'"
  using assms(4-7)
proof (induction groups arbitrary: n ws vs ls m mo)
  case Nil
  then show ?case by (auto intro: computes_list.intros)
next
  case (Cons columns groups)
  show ?case
  proof (cases ws)
    case Nil
    with Cons.prems show ?thesis by (auto intro: computes_list.intros)
  next
    case (Cons w ws')
    with Cons.prems(2) obtain v vs' where vs: "vs = v # vs'" "holds3 st0 w v" "list_all2 (holds3 st0) ws' vs'"
      by (auto simp: list_all2_Cons1)
    from Cons.prems(1) obtain l ls' where l: "permutation_chunk d lci n columns w = Some l"
      and ls': "those (map (\<lambda>(ci, columns, evals). permutation_chunk d lci ci columns evals)
        (enumerate (Suc n) (zip groups ws'))) = Some ls'" and ls: "ls = l # ls'"
      unfolding Cons zip_Cons_Cons enumerate_simps list.map those_Cons_Some prod.case by blast
    let ?m = "m * av_delta A ^ (if n = lci then length columns - 1 else length columns)"
    have block: "block_computes st0 mo (l, ''eval'')
        (chunk_value A colv permv (fst v) (fst (snd v)) m columns) (Some ?m)"
      by (rule chunk_computes [OF assms(1-3) vs(2) l Cons.prems(4)])
    have "\<exists>m'. computes_list st0 (Some ?m) (map (\<lambda>l. (l, ''eval'')) ls')
        (chunk_values A colv permv (m * av_delta A ^ length columns) groups vs') m'"
    proof (cases "n = lci")
      case True
      with Cons.prems(3) Cons have "ws' = []" by simp
      with ls' vs(3) show ?thesis by (cases groups) (auto intro: computes_list.intros)
    next
      case False
      with Cons.prems(3) Cons show ?thesis
        by (intro Cons.IH [OF ls' vs(3)]) simp_all
    qed
    with block ls vs(1) show ?thesis by (auto intro: computes_list.intros)
  qed
qed

lemma computes_map2:
  assumes "list_all2 (\<lambda>c v. block_computes st0 None c v None) cs vs"
  shows "computes_list st0 None cs vs None"
  using assms by (induction rule: list_all2_induct) (auto intro: computes_list.intros)

lemma permutation_computations_compute:
  assumes "fresh_locals st0" and "holds_values st0 A" and "holds_columns st0 d colv permv"
    and "list_all2 (holds3 st0) (da_permutation_z_evals d) zs"
    and "length (da_permutation_z_evals d) \<le> cm_num_permutation_zs m"
    and "permutation_computations m d = Some cs"
  shows "\<exists>m'. computes_list st0 None cs (permutation_values A colv permv
    (chunks_of (cm_permutation_chunk_len m) (cm_permutation_columns m)) zs) m'"
proof -
  let ?ws = "da_permutation_z_evals d"
  let ?groups = "chunks_of (cm_permutation_chunk_len m) (cm_permutation_columns m)"
  from assms(6) obtain lci ls where lci: "usize_sub (cm_num_permutation_zs m) 1 = Some lci"
    and ls: "those (map (\<lambda>(ci, columns, evals). permutation_chunk d lci ci columns evals)
      (enumerate 0 (zip ?groups ?ws))) = Some ls"
    and cs: "cs = map (\<lambda>l. (l, ''eval'')) ((if ?ws = [] then [] else [permutation_first (hd ?ws)])
        @ (if ?ws = [] then [] else [permutation_last (last ?ws)])
        @ map2 permutation_link ?ws (tl ?ws) @ ls)"
    by (auto simp: permutation_computations_def chunks_def bind_eq_Some_conv Let_def split: if_splits)
  have Suc_lci: "0 + length ?ws \<le> Suc lci"
    using lci assms(5) by (auto simp: usize_sub_def split: if_splits)
  obtain m' where chunk_part: "computes_list st0 None (map (\<lambda>l. (l, ''eval'')) ls)
      (chunk_values A colv permv (av_beta A * av_x A) ?groups zs) m'"
    using chunks_compute [OF assms(1-3) ls assms(4) Suc_lci] by fastforce
  have "list_all2 (\<lambda>c v. block_computes st0 None c v None)
      (map (\<lambda>l. (l, ''eval'')) (map2 permutation_link ?ws (tl ?ws)))
      (map2 (\<lambda>z_i z_j. av_l_0 A * (fst z_j - snd (snd z_i))) zs (tl zs))"
    using assms(4) by (auto simp: list_all2_conv_all_nth nth_tl
        intro!: permutation_link_computes [OF assms(1,2)])
  then have links: "computes_list st0 None
      (map (\<lambda>l. (l, ''eval'')) (map2 permutation_link ?ws (tl ?ws)))
      (map2 (\<lambda>z_i z_j. av_l_0 A * (fst z_j - snd (snd z_i))) zs (tl zs)) None"
    by (rule computes_map2)
  have ends: "computes_list st0 None
      (map (\<lambda>l. (l, ''eval'')) ((if ?ws = [] then [] else [permutation_first (hd ?ws)])
        @ (if ?ws = [] then [] else [permutation_last (last ?ws)])))
      (if zs = [] then [] else
       [av_l_0 A * (1 - fst (hd zs)), av_l_last A * (fst (last zs) * fst (last zs) - fst (last zs))]) None"
  proof (cases "?ws = []")
    case True
    with assms(4) show ?thesis by (simp add: computes_list.Nil)
  next
    case False
    then have "zs \<noteq> []" using assms(4) by auto
    moreover from this False have "holds3 st0 (hd ?ws) (hd zs)" "holds3 st0 (last ?ws) (last zs)"
      using assms(4) by (simp_all add: list_all2_conv_all_nth hd_conv_nth last_conv_nth)
    ultimately show ?thesis
      using False permutation_first_computes [OF assms(1,2), of "hd ?ws" "hd zs"]
        permutation_last_computes [OF assms(1,2), of "last ?ws" "last zs"]
      by (auto intro: computes_list.intros)
  qed
  have "cs = map (\<lambda>l. (l, ''eval'')) ((if ?ws = [] then [] else [permutation_first (hd ?ws)])
        @ (if ?ws = [] then [] else [permutation_last (last ?ws)]))
      @ map (\<lambda>l. (l, ''eval'')) (map2 permutation_link ?ws (tl ?ws)) @ map (\<lambda>l. (l, ''eval'')) ls"
    unfolding cs by simp
  then show ?thesis
    using computes_append [OF ends computes_append [OF links chunk_part]]
    unfolding permutation_values_def by metis
qed

section \<open>The lookup argument\<close>

text \<open>What the generated code folds with theta.\<close>

fun theta_fold :: "fr \<Rightarrow> fr list \<Rightarrow> fr" where
  "theta_fold theta [] = 0"
| "theta_fold theta (v # vs) = foldl (\<lambda>acc v. acc * theta + v) v vs"

type_synonym fr5 = "fr \<times> fr \<times> fr \<times> fr \<times> fr"

definition holds5 :: "yul_state \<Rightarrow> word5 \<Rightarrow> fr5 \<Rightarrow> bool" where
  "holds5 st w v \<longleftrightarrow> (case (w, v) of ((z, z_next, p_in, p_prev, p_tab), (vz, vn, vi, vp, vt)) \<Rightarrow>
     denotes_any st (show_word z) vz \<and> denotes_any st (show_word z_next) vn
     \<and> denotes_any st (show_word p_in) vi \<and> denotes_any st (show_word p_prev) vp
     \<and> denotes_any st (show_word p_tab) vt)"

definition lookup_values :: "argument_values \<Rightarrow> fr list \<Rightarrow> fr list \<Rightarrow> fr5 \<Rightarrow> fr list" where
  "lookup_values A inputs tables v = (case v of (z, z_next, p_input, p_input_prev, p_table) \<Rightarrow>
     (let active = 1 - (av_l_last A + av_l_blind A);
          input = theta_fold (av_theta A) inputs;
          table = theta_fold (av_theta A) tables
      in [av_l_0 A * (1 - z),
          av_l_last A * (z * z - z),
          active * (z_next * ((p_input + av_beta A) * (p_table + av_gamma A))
            - z * ((input + av_beta A) * (table + av_gamma A))),
          av_l_0 A * (p_input - p_table),
          active * ((p_input - p_table) * (p_input - p_input_prev))]))"

text \<open>The expressions of a side, with the cache they share.\<close>

lemma side_computed:
  assumes env: "field_env st0" "free_names st0" "holds_evals st0 d E"
    and "cache_inv d st0 st s"
    and "try_map_state (evaluator_evaluate Fr d) es s = Some (results, s')"
  shows "\<exists>st'. run_lines (concat (map fst results)) (st, sc) = Some (st', sc)
    \<and> cache_inv d st0 st' s' \<and> extends st st'
    \<and> list_all2 (\<lambda>x e. denotes st' x (expr_value E e) \<and> generated_name x) (map snd results) es"
  using assms(4,5)
proof (induction es arbitrary: st s results)
  case Nil
  then show ?case by (auto intro: extends_refl)
next
  case (Cons e es)
  then obtain r s1 rs where r: "evaluator_evaluate Fr d e s = Some (r, s1)"
    "try_map_state (evaluator_evaluate Fr d) es s1 = Some (rs, s')" "results = r # rs"
    by (auto simp: bind_eq_Some_conv)
  obtain st1 where st1: "run_lines (fst r) (st, sc) = Some (st1, sc)" "cache_inv d st0 st1 s1"
    "extends st st1" "denotes st1 (snd r) (expr_value E e)" "generated_name (snd r)"
    using evaluate_computed [OF env Cons.prems(1) r(1) [unfolded evaluator_evaluate_def]]
    by (auto simp: computed_def)
  obtain st2 where st2: "run_lines (concat (map fst rs)) (st1, sc) = Some (st2, sc)"
    "cache_inv d st0 st2 s'" "extends st1 st2"
    "list_all2 (\<lambda>x e. denotes st2 x (expr_value E e) \<and> generated_name x) (map snd rs) es"
    using Cons.IH [OF st1(2) r(2)] by blast
  have "denotes st2 (snd r) (expr_value E e)" by (rule extends_denotes [OF st2(3) st1(4)])
  with st1 st2 r(3) extends_trans [OF st1(3) st2(3)] show ?case
    by (auto simp: run_lines_append)
qed

lemma denotes_holds_var: "ident_ok x \<Longrightarrow> denotes st x y \<longleftrightarrow> holds_var st x y"
  by (auto simp: denotes_def holds_var_def ident_ok_def eval_atom)

lemma rest_theta_computed:
  assumes "field_env st" and "holds_var st ''theta'' t" and "holds_var st x y"
    and x: "ident_ok x" "x \<noteq> ''let''" "x \<noteq> ''r''" "x \<noteq> ''theta''"
    and "list_all2 (\<lambda>v u. holds_var st v u \<and> ident_ok v \<and> v \<noteq> x) vars vs"
  shows "\<exists>st'. run_lines (map (\<lambda>var. fmt_set x (add_r (mul_r x ''theta'') var)) vars) (st, sc)
      = Some (st', sc) \<and> same_but {x} st st' \<and> holds_var st' x (foldl (\<lambda>acc v. acc * t + v) y vs)"
  using assms(1-3,8)
proof (induction vars arbitrary: st y vs)
  case Nil
  then show ?case by (auto simp: same_but_refl)
next
  case (Cons v vars)
  then obtain u us where vs: "vs = u # us" "holds_var st v u" "ident_ok v" "v \<noteq> x"
    "list_all2 (\<lambda>v u. holds_var st v u \<and> ident_ok v \<and> v \<noteq> x) vars us"
    by (auto simp: list_all2_Cons1)
  have "denotes st (add_r (mul_r x ''theta'') v) (y * t + u)"
    using Cons.prems(1-3) vs(2,3) x(1) by (intro denotes_intros holds_var_denotes) simp_all
  then obtain st1 where st1: "run_line (fmt_set x (add_r (mul_r x ''theta'') v)) (st, sc) = Some (st1, sc)"
    "holds_var st1 x (y * t + u)" "same_but {x} st st1"
    using run_set_var [OF x(1,2)] Cons.prems(3) by (fastforce simp: holds_var_def)
  have "field_env st1" using Cons.prems(1) st1(3) x(3) by (simp add: field_env_def same_but_def)
  moreover have "holds_var st1 ''theta'' t"
    using Cons.prems(2) st1(3) x(4) by (simp add: same_but_holds_var)
  moreover have "list_all2 (\<lambda>v u. holds_var st1 v u \<and> ident_ok v \<and> v \<noteq> x) vars us"
    using vs(5) by (rule list_all2_mono) (use st1(3) in \<open>auto simp: same_but_holds_var\<close>)
  ultimately obtain st' where
    "run_lines (map (\<lambda>var. fmt_set x (add_r (mul_r x ''theta'') var)) vars) (st1, sc) = Some (st', sc)"
    "same_but {x} st1 st'" "holds_var st' x (foldl (\<lambda>acc v. acc * t + v) (y * t + u) us)"
    using Cons.IH [of st1 "y * t + u" us] st1(2) by blast
  with st1 vs(1) show ?case by (auto intro: same_but_trans)
qed

lemma run_lines_indent: "run_lines (indent n ls) cfg = run_lines ls cfg"
proof -
  have "run_lines (indent n ls) = run_lines ls"
  proof (induction ls)
    case Nil
    then show ?case by (simp add: indent_def)
  next
    case (Cons l ls)
    then have "run_lines (map (\<lambda>l. replicate (n * 4) CHR '' '' @ l) ls) = run_lines ls"
      by (simp only: indent_def spaces_def)
    then show ?case by (intro ext) (simp add: indent_def spaces_def run_line_indent)
  qed
  then show ?thesis by simp
qed

lemma run_code_block:
  assumes "ls \<noteq> []" and "run_lines ls (st, ys_vars st # sc) = Some (st', ys_vars st # sc)"
  shows "run_lines (code_block 1 False ls) (st, sc) = Some (leave_scope (ys_vars st) st', sc)"
  using assms by (simp add: code_block_def spaces_def run_lines_append run_lines_indent
      run_line_open run_line_close)

definition holds_evals_any :: "yul_state \<Rightarrow> data \<Rightarrow> evals \<Rightarrow> bool" where
  "holds_evals_any st d E \<longleftrightarrow> (\<forall>w. holds_evals (set_scratch w st) d E)"

lemma later_holds_evals: "holds_evals_any st0 d E \<Longrightarrow> later st0 st \<Longrightarrow> holds_evals st d E"
  unfolding holds_evals_any_def later_def by (blast intro: extends_holds_evals)

definition generated_names :: "string set" where
  "generated_names = {x. generated_name x}"

lemma generated_not_local: "generated_name x \<Longrightarrow> x \<notin> local_names" "generated_name x \<Longrightarrow> x \<noteq> numer"
  "generated_name x \<Longrightarrow> x \<noteq> ''let''" "generated_name x \<Longrightarrow> x \<noteq> ''r''"
  by (auto simp: generated_name_def local_names_def numer_def fixed_eval_var_def advice_eval_var_def
      column_eval_var_suffix)

lemma generated_block_names:
  assumes "fresh_locals st0" and "free_names st0" and "X \<subseteq> local_names"
  shows "block_names (X \<union> generated_names) st0" "numer \<notin> X \<union> generated_names"
proof -
  have "block_names X st0" by (rule local_block_names [OF assms(1,3)])
  moreover have "ident_ok x \<and> x \<noteq> ''let'' \<and> x \<noteq> ''r'' \<and> ys_vars st0 x = None"
    if "generated_name x" for x
    using generated_not_local(3,4) [OF that] generated_name_ok [OF that] assms(2) that
    by (simp add: free_names_def)
  ultimately show "block_names (X \<union> generated_names) st0"
    by (auto simp: block_names_def generated_names_def)
  show "numer \<notin> X \<union> generated_names"
    using numer_not_local [OF assms(3)] generated_not_local(2) by (auto simp: generated_names_def)
qed

lemma evaluate_side_Some:
  assumes "evaluate_side FF d es s = Some (side, s')"
  obtains results s'' where "try_map_state (evaluator_evaluate FF d) es s = Some (results, s'')"
    "side = (concat (map fst results), map snd results)" "s' = evaluator_reset"
  using assms by (auto simp: evaluate_side_def bind_eq_Some_conv)

text \<open>The inner block of one side: its effect is to fold the values of the side into \<open>x\<close>.\<close>

lemma runs_side_block:
  assumes names: "X \<subseteq> local_names" "x \<in> X" "x \<noteq> ''theta''"
    and data: "holds_evals_any st0 d E"
    and side: "evaluate_side Fr d es evaluator_reset = Some ((ls, v # vars), s')"
    and env: "env x = Some u" "env ''theta'' = Some t" "\<And>x. generated_name x \<Longrightarrow> env x = None"
  shows "runs (X \<union> generated_names) st0 env (code_block 1 False (ls @ fold_theta x v vars))
    (env(x \<mapsto> theta_fold t (map (expr_value E) es)))"
  unfolding runs_def
proof (intro impI allI)
  fix st1 st sc
  assume block: "block_names (X \<union> generated_names) st0"
    and st: "knows (X \<union> generated_names) st0 st1 st env"
  let ?sc = "ys_vars st # sc"
  have x: "ident_ok x" "x \<noteq> ''let''" "x \<noteq> ''r''" "x \<noteq> scratch"
    using block_namesD [OF block, of x] names(2) scratch_not_ident by auto
  have "''theta'' \<noteq> scratch" by (simp add: scratch_def)
  then have here: "field_env st" "holds_var st x u" "holds_var st ''theta'' t"
    using knowsD(1) [OF st] knowsD(4) [OF st env(1) x(4)] knowsD(4) [OF st env(2)] by auto
  have free: "free_names st"
    using knowsD(6) [OF st] env(3) by (simp add: free_names_def generated_names_def)
  have evals: "holds_evals st d E" by (rule later_holds_evals [OF data knowsD(2) [OF st]])
  from side obtain results s'' where results:
    "try_map_state (evaluator_evaluate Fr d) es evaluator_reset = Some (results, s'')"
    "ls = concat (map fst results)" "map snd results = v # vars"
    by (auto elim: evaluate_side_Some)
  obtain st2 where st2: "run_lines ls (st, ?sc) = Some (st2, ?sc)" "extends st st2"
    "list_all2 (\<lambda>x e. denotes st2 x (expr_value E e) \<and> generated_name x) (v # vars) es"
    using side_computed [OF here(1) free evals cache_inv_reset results(1), of ?sc] results(2,3) by auto
  from st2(3) obtain e es' where es: "es = e # es'" "denotes st2 v (expr_value E e)"
    "list_all2 (\<lambda>x e. denotes st2 x (expr_value E e) \<and> generated_name x) vars es'"
    by (auto simp: list_all2_Cons1)
  have kept: "ys_vars st2 z = Some w" if "ys_vars st z = Some w" for z w
    using later_vars [OF extends_later [OF st2(2)] that] .
  obtain st3 where st3: "run_line (fmt_set x v) (st2, ?sc) = Some (st3, ?sc)"
    "holds_var st3 x (expr_value E e)" "same_but {x} st2 st3"
    using run_set_var [OF x(1,2) _ es(2), of ?sc] here(2) kept by (force simp: holds_var_def)
  have gen: "ident_ok g \<and> g \<noteq> x" if "generated_name g" for g
    using generated_name_ok [OF that] generated_not_local(1) [OF that] names by blast
  have "list_all2 (\<lambda>v u. holds_var st3 v u \<and> ident_ok v \<and> v \<noteq> x) vars (map (expr_value E) es')"
    unfolding list_all2_map2 using es(3)
    by (rule list_all2_mono) (use gen st3(3) in \<open>auto simp: same_but_holds_var denotes_holds_var\<close>)
  moreover have "field_env st3" "holds_var st3 ''theta'' t"
    using here(1,3) kept st3(3) x(3) names(3)
    by (auto simp: field_env_def holds_var_def same_but_def)
  ultimately obtain st4 where st4:
    "run_lines (map (\<lambda>var. fmt_set x (add_r (mul_r x ''theta'') var)) vars) (st3, ?sc) = Some (st4, ?sc)"
    "same_but {x} st3 st4" "holds_var st4 x (theta_fold t (map (expr_value E) es))"
    using rest_theta_computed [of st3 t x "expr_value E e" vars "map (expr_value E) es'" ?sc]
      st3(2) x(1-3) names(3) es(1) by auto
  have "run_lines (ls @ fold_theta x v vars) (st, ?sc) = Some (st4, ?sc)"
    using st2(1) st3(1) st4(1) by (simp add: run_lines_append fold_theta_def)
  then have run: "run_lines (code_block 1 False (ls @ fold_theta x v vars)) (st, sc)
      = Some (leave_scope (ys_vars st) st4, sc)"
    by (intro run_code_block) (simp_all add: fold_theta_def)
  have "same_but {x} st (leave_scope (ys_vars st) st4)"
    using kept st2(2) st3(3) st4(2)
    by (auto simp: same_but_def leave_scope_def extends_def split: option.splits)
  moreover have "holds_var (leave_scope (ys_vars st) st4) x (theta_fold t (map (expr_value E) es))"
    using st4(3) here(2) by (auto simp: holds_var_def leave_scope_def)
  ultimately show "\<exists>st'. run_lines (code_block 1 False (ls @ fold_theta x v vars)) (st, sc) = Some (st', sc)
      \<and> knows (X \<union> generated_names) st0 st1 st' (env(x \<mapsto> theta_fold t (map (expr_value E) es)))"
    using knows_assign [OF block st] names(2) run by blast
qed

lemma den_one: "den X st0 env ''1'' 1"
proof -
  have "eval_text st ''1'' = Some 1" for st
    by (simp add: eval_atom word_ok_def ident_char_def starts_with_digit_def literal_def
        read_base_def digit_val_def)
  then show ?thesis by (simp add: den_def denotes_def felt_simps)
qed

lemma den_active:
  assumes "holds_values st0 A"
  shows "den X st0 env l_active (1 - (av_l_last A + av_l_blind A))"
proof -
  have "den X st0 env l_active (1 + - (av_l_blind A + av_l_last A))"
    unfolding l_active_def l_inactive_def
    by (intro den_intros den_one holds_values_den [OF assms])
  moreover have "1 + - (av_l_blind A + av_l_last A) = 1 - (av_l_last A + av_l_blind A)"
    by (simp add: algebra_simps)
  ultimately show ?thesis by metis
qed

text \<open>A block that only declares: one line \<open>let eval := v\<close>, or two.\<close>

lemma eval_block:
  assumes "fresh_locals st0" and "den {''eval''} st0 Map.empty v y"
  shows "block_computes st0 None ([fmt_let ''eval'' v], ''eval'') y None"
proof -
  have X: "{''eval''} \<subseteq> local_names" by (simp add: local_names_def)
  have "runs {''eval''} st0 Map.empty [fmt_let ''eval'' v] [''eval'' \<mapsto> y]"
    by (rule runs_let [OF _ _ assms(2) runs_Nil]) simp_all
  from runs_block [OF this local_block_names [OF assms(1) X] numer_not_local [OF X], of None "''eval''"]
  show ?thesis by (simp add: scratch_def)
qed

lemma eval_block2:
  assumes "fresh_locals st0" and "x \<in> local_names" "x \<noteq> ''eval''"
    and "den {x, ''eval''} st0 Map.empty u z" and "den {x, ''eval''} st0 [x \<mapsto> z] v y"
  shows "block_computes st0 None ([fmt_let x u, fmt_let ''eval'' v], ''eval'') y None"
proof -
  have X: "{x, ''eval''} \<subseteq> local_names" using assms(2) by (simp add: local_names_def)
  have names: "block_names {x, ''eval''} st0" by (rule local_block_names [OF assms(1) X])
  have "runs {x, ''eval''} st0 Map.empty [fmt_let x u, fmt_let ''eval'' v] [x \<mapsto> z, ''eval'' \<mapsto> y]"
    by (rule runs_let [OF _ _ assms(4) runs_let [OF _ _ assms(5) runs_Nil]])
      (use assms(3) in simp_all)
  from runs_block [OF this names numer_not_local [OF X], of None "''eval''"]
  show ?thesis by (intro block_computes_weaken) simp
qed

lemma lookup_product_computes:
  assumes st0: "fresh_locals st0" "free_names st0" "holds_values st0 A" "holds_evals_any st0 d E"
    and "holds5 st0 evals (z, z_next, p_input, p_input_prev, p_table)"
    and inputs: "evaluate_side Fr d ies evaluator_reset = Some (input, s1)"
    and tables: "evaluate_side Fr d tes evaluator_reset = Some (table, s2)"
    and product: "lookup_product input table evals = Some ls"
  shows "block_computes st0 None (ls, ''eval'') ((1 - (av_l_last A + av_l_blind A))
    * (z_next * ((p_input + av_beta A) * (p_table + av_gamma A))
      - z * ((theta_fold (av_theta A) (map (expr_value E) ies) + av_beta A)
        * (theta_fold (av_theta A) (map (expr_value E) tes) + av_gamma A)))) None"
proof -
  obtain wz wn wi wp wt where w: "evals = (wz, wn, wi, wp, wt)" by (cases evals)
  then have den5: "denotes_any st0 (show_word wz) z" "denotes_any st0 (show_word wn) z_next"
    "denotes_any st0 (show_word wi) p_input" "denotes_any st0 (show_word wt) p_table"
    using assms(5) by (simp_all add: holds5_def)
  let ?X = "local_names \<union> generated_names"
  let ?i = "theta_fold (av_theta A) (map (expr_value E) ies)"
  let ?t = "theta_fold (av_theta A) (map (expr_value E) tes)"
  from product w obtain il iv ivs tl tv tvs where sides: "input = (il, iv # ivs)" "table = (tl, tv # tvs)"
    and ls: "ls = [fmt_let ''theta'' ''mload(THETA_MPTR)'', fmt_decl ''input'']
      @ code_block 1 False (il @ fold_theta ''input'' iv ivs) @ [fmt_decl ''table'']
      @ code_block 1 False (tl @ fold_theta ''table'' tv tvs)
      @ [fmt_let ''beta'' ''mload(BETA_MPTR)'', fmt_let ''gamma'' ''mload(GAMMA_MPTR)'',
         fmt_let ''lhs'' (mul_r (show_word wn) (mul_r (add_r (show_word wi) ''beta'')
           (add_r (show_word wt) ''gamma''))),
         fmt_let ''rhs'' (mul_r (show_word wz) (mul_r (add_r ''input'' ''beta'') (add_r ''table'' ''gamma'')))]
      @ [fmt_let ''eval'' (mul_r l_active (add_r ''lhs'' (neg_r ''rhs'')))]"
    by (cases input; cases table) (auto simp: lookup_product_def Let_def split: list.splits)
  let ?L = "z_next * ((p_input + av_beta A) * (p_table + av_gamma A))"
  let ?R = "z * ((?i + av_beta A) * (?t + av_gamma A))"
  let ?v = "(1 - (av_l_last A + av_l_blind A)) * (?L + - ?R)"
  let ?e1 = "[''theta'' \<mapsto> av_theta A, ''input'' \<mapsto> 0]"
  let ?e2 = "?e1(''input'' \<mapsto> ?i)"
  let ?e3 = "?e2(''table'' \<mapsto> 0)"
  let ?e4 = "?e3(''table'' \<mapsto> ?t)"
  let ?e5 = "?e4(''beta'' \<mapsto> av_beta A, ''gamma'' \<mapsto> av_gamma A, ''lhs'' \<mapsto> ?L, ''rhs'' \<mapsto> ?R)"
  let ?e6 = "?e5(''eval'' \<mapsto> ?v)"
  have gen: "generated_name g \<Longrightarrow> g \<noteq> ''theta'' \<and> g \<noteq> ''input'' \<and> g \<noteq> ''table''" for g
    using generated_not_local(1) [of g] by (auto simp: local_names_def)
  have 1: "runs ?X st0 Map.empty [fmt_let ''theta'' ''mload(THETA_MPTR)'', fmt_decl ''input''] ?e1"
    by (rule runs_let [OF _ _ holds_values_den(3) [OF st0(3)] runs_decl [OF _ _ runs_Nil]])
      (simp_all add: local_names_def)
  have 2: "runs ?X st0 ?e1 (code_block 1 False (il @ fold_theta ''input'' iv ivs)) ?e2"
    using inputs gen unfolding sides
    by (intro runs_side_block [OF order.refl _ _ st0(4)]) (simp_all add: local_names_def)
  have 3: "runs ?X st0 ?e2 [fmt_decl ''table''] ?e3"
    by (rule runs_decl [OF _ _ runs_Nil]) (simp_all add: local_names_def)
  have 4: "runs ?X st0 ?e3 (code_block 1 False (tl @ fold_theta ''table'' tv tvs)) ?e4"
    using tables gen unfolding sides
    by (intro runs_side_block [OF order.refl _ _ st0(4)]) (simp_all add: local_names_def)
  have 5: "runs ?X st0 ?e4 [fmt_let ''beta'' ''mload(BETA_MPTR)'', fmt_let ''gamma'' ''mload(GAMMA_MPTR)'',
      fmt_let ''lhs'' (mul_r (show_word wn) (mul_r (add_r (show_word wi) ''beta'')
        (add_r (show_word wt) ''gamma''))),
      fmt_let ''rhs'' (mul_r (show_word wz) (mul_r (add_r ''input'' ''beta'') (add_r ''table'' ''gamma'')))] ?e5"
    by (rule runs_let [OF _ _ holds_values_den(1) [OF st0(3)] runs_let [OF _ _ holds_values_den(2) [OF st0(3)]
        runs_let [OF _ _ _ runs_let [OF _ _ _ runs_Nil]]]]; (intro den_intros den_var den_base [OF den5(1)]
        den_base [OF den5(2)] den_base [OF den5(3)] den_base [OF den5(4)])?)
      (simp_all add: local_names_def)
  have 6: "runs ?X st0 ?e5 [fmt_let ''eval'' (mul_r l_active (add_r ''lhs'' (neg_r ''rhs'')))] ?e6"
    by (rule runs_let [OF _ _ _ runs_Nil]; (intro den_mul den_add den_neg den_var den_active st0)?)
      (simp_all add: local_names_def)
  have run: "runs ?X st0 Map.empty ls ?e6"
    unfolding ls by (rule runs_append [OF 1 runs_append [OF 2 runs_append [OF 3 runs_append [OF 4
        runs_append [OF 5 6]]]]])
  have "block_computes st0 None (ls, ''eval'') ?v (?e6 scratch)"
    by (rule runs_block [OF run generated_block_names [OF st0(1,2) order.refl]])
      (simp_all add: local_names_def)
  then have "block_computes st0 None (ls, ''eval'') ?v None" by (rule block_computes_weaken)
  then show ?thesis by (simp only: add_uminus_conv_diff)
qed

lemma lookup_lines_compute:
  assumes st0: "fresh_locals st0" "free_names st0" "holds_values st0 A" "holds_evals_any st0 d E"
    and v: "holds5 st0 evals v"
    and inputs: "evaluate_side Fr d ies evaluator_reset = Some (input, s1)"
    and tables: "evaluate_side Fr d tes evaluator_reset = Some (table, s2)"
    and ls: "lookup_lines input table evals = Some ls"
  shows "list_all2 (\<lambda>c v. block_computes st0 None c v None) (map (\<lambda>l. (l, ''eval'')) ls)
    (lookup_values A (map (expr_value E) ies) (map (expr_value E) tes) v)"
proof -
  obtain wz wn wi wp wt where w: "evals = (wz, wn, wi, wp, wt)" by (cases evals)
  obtain z z_next p_input p_prev p_table where vs: "v = (z, z_next, p_input, p_prev, p_table)"
    by (cases v)
  have d5: "denotes_any st0 (show_word wz) z" "denotes_any st0 (show_word wi) p_input"
    "denotes_any st0 (show_word wp) p_prev" "denotes_any st0 (show_word wt) p_table"
    using v by (simp_all add: holds5_def w vs)
  note den5 = d5 [THEN den_base]
  note A = holds_values_den [OF st0(3)]
  obtain product where product: "lookup_product input table evals = Some product"
    and ls': "ls = [
       [fmt_let ''l_0'' ''mload(L_0_MPTR)'',
        fmt_let ''eval'' (add_r ''l_0'' (mul_r ''l_0'' (neg_r (show_word wz))))],
       [fmt_let ''l_last'' ''mload(L_LAST_MPTR)'',
        fmt_let ''eval'' (mul_r ''l_last'' (add_r (mul_r (show_word wz) (show_word wz)) (neg_r (show_word wz))))],
       product,
       [fmt_let ''eval'' (mul_r ''mload(L_0_MPTR)'' (add_r (show_word wi) (neg_r (show_word wt))))],
       [fmt_let ''eval'' (mul_r l_active (mul_r (add_r (show_word wi) (neg_r (show_word wt)))
         (add_r (show_word wi) (neg_r (show_word wp)))))]]"
    using ls by (auto simp: lookup_lines_def w bind_eq_Some_conv Let_def)
  have "block_computes st0 None ([fmt_let ''l_0'' ''mload(L_0_MPTR)'',
      fmt_let ''eval'' (add_r ''l_0'' (mul_r ''l_0'' (neg_r (show_word wz))))], ''eval'')
      (av_l_0 A + av_l_0 A * - z) None"
    by (rule eval_block2 [OF st0(1) _ _ A(6)]; (intro den_intros den_var den5)?)
      (simp_all add: local_names_def)
  moreover have "block_computes st0 None ([fmt_let ''l_last'' ''mload(L_LAST_MPTR)'',
      fmt_let ''eval'' (mul_r ''l_last'' (add_r (mul_r (show_word wz) (show_word wz))
        (neg_r (show_word wz))))], ''eval'') (av_l_last A * (z * z + - z)) None"
    by (rule eval_block2 [OF st0(1) _ _ A(7)]; (intro den_mul den_add den_neg den5 den_var)?)
      (simp_all add: local_names_def)
  moreover have "block_computes st0 None (product, ''eval'') ((1 - (av_l_last A + av_l_blind A))
    * (z_next * ((p_input + av_beta A) * (p_table + av_gamma A))
      - z * ((theta_fold (av_theta A) (map (expr_value E) ies) + av_beta A)
        * (theta_fold (av_theta A) (map (expr_value E) tes) + av_gamma A)))) None"
    by (rule lookup_product_computes [OF st0 v [unfolded vs] inputs tables product])
  moreover have "block_computes st0 None ([fmt_let ''eval'' (mul_r ''mload(L_0_MPTR)''
      (add_r (show_word wi) (neg_r (show_word wt))))], ''eval'') (av_l_0 A * (p_input + - p_table)) None"
    by (intro eval_block [OF st0(1)] den_intros den5 A)
  moreover have "block_computes st0 None ([fmt_let ''eval'' (mul_r l_active (mul_r
      (add_r (show_word wi) (neg_r (show_word wt))) (add_r (show_word wi) (neg_r (show_word wp)))))], ''eval'')
      ((1 - (av_l_last A + av_l_blind A)) * ((p_input + - p_table) * (p_input + - p_prev))) None"
    by (intro eval_block [OF st0(1)] den_mul den_active [OF st0(3)] den_add den_neg den5)
  moreover have "av_l_0 A + av_l_0 A * - z = av_l_0 A * (1 - z)" by (simp add: algebra_simps)
  ultimately show ?thesis
    by (simp only: ls' lookup_values_def vs prod.case Let_def list.map list_all2_Cons list_all2_Nil
        add_uminus_conv_diff simp_thms)
qed

definition all_lookup_values ::
  "argument_values \<Rightarrow> evals \<Rightarrow> (fr expression list \<times> fr expression list) list \<Rightarrow> fr5 list \<Rightarrow> fr list" where
  "all_lookup_values A E lookups vs =
     concat (map2 (\<lambda>(ies, tes) v. lookup_values A (map (expr_value E) ies) (map (expr_value E) tes) v)
       lookups vs)"

lemma lookup_computations_compute:
  assumes st0: "fresh_locals st0" "free_names st0" "holds_values st0 A" "holds_evals_any st0 d E"
    and v: "list_all2 (holds5 st0) (da_lookup_evals d) vs"
    and cs: "lookup_computations Fr cs d evaluator_reset = Some (computations, s)"
  shows "list_all2 (\<lambda>c v. block_computes st0 None c v None) computations
    (all_lookup_values A E (cs_lookups cs) vs)"
proof -
  let ?g = "\<lambda>(ies, tes). do { (inputs, s1) \<leftarrow> evaluate_side Fr d ies evaluator_reset;
    (tables, s2) \<leftarrow> evaluate_side Fr d tes evaluator_reset; Some (inputs, tables) }"
  have side: "evaluate_side Fr d es s = Some (r, s') \<Longrightarrow> s' = evaluator_reset" for es s r s'
    by (auto simp: evaluate_side_def bind_eq_Some_conv)
  let ?f = "\<lambda>(ies, tes) s. do { (inputs, s) \<leftarrow> evaluate_side Fr d ies s;
      (tables, s) \<leftarrow> evaluate_side Fr d tes s; Some ((inputs, tables), s) }"
  have step: "?f l evaluator_reset
      = map_option (\<lambda>y. (y, evaluator_reset)) (?g l)" for l
    by (cases l; cases "evaluate_side Fr d (fst l) evaluator_reset";
        cases "evaluate_side Fr d (snd l) evaluator_reset") (fastforce dest: side)+
  obtain sides where sides: "those (map ?g (cs_lookups cs)) = Some sides"
    and ls: "\<exists>ls. those (map (\<lambda>((inputs, tables), evals). lookup_lines inputs tables evals)
      (zip sides (da_lookup_evals d))) = Some ls \<and> computations = map (\<lambda>l. (l, ''eval'')) (concat ls)"
    using cs try_map_reset [where f = ?f and g = ?g and xs = "cs_lookups cs", OF step]
    unfolding lookup_computations_def by (auto simp: bind_eq_Some_conv)
  then obtain ls where ls: "those (map (\<lambda>((inputs, tables), evals). lookup_lines inputs tables evals)
      (zip sides (da_lookup_evals d))) = Some ls" "computations = map (\<lambda>l. (l, ''eval'')) (concat ls)"
    by blast
  have "list_all2 (\<lambda>c v. block_computes st0 None c v None) (map (\<lambda>l. (l, ''eval'')) (concat ls))
      (all_lookup_values A E lookups vs)"
    if "those (map ?g lookups) = Some sides"
      "those (map (\<lambda>((inputs, tables), evals). lookup_lines inputs tables evals) (zip sides ws)) = Some ls"
      "list_all2 (holds5 st0) ws vs" for lookups sides ws ls vs
    using that
  proof (induction lookups arbitrary: sides ws ls vs)
    case Nil
    then show ?case by (simp add: all_lookup_values_def)
  next
    case (Cons l lookups)
    then obtain side sides' where l: "?g l = Some side" "those (map ?g lookups) = Some sides'"
      "sides = side # sides'"
      unfolding list.map those_Cons_Some by blast
    show ?case
    proof (cases ws)
      case Nil
      with Cons.prems(2,3) show ?thesis by (cases l) (simp add: all_lookup_values_def)
    next
      case (Cons w ws')
      with Cons.prems(3) obtain v vs' where vs: "vs = v # vs'" "holds5 st0 w v"
        "list_all2 (holds5 st0) ws' vs'" by (auto simp: list_all2_Cons1)
      from Cons.prems(2) obtain b bs where b: "lookup_lines (fst side) (snd side) w = Some b"
        "those (map (\<lambda>((inputs, tables), evals). lookup_lines inputs tables evals) (zip sides' ws')) = Some bs"
        "ls = b # bs"
        unfolding l(3) Cons zip_Cons_Cons list.map those_Cons_Some by (cases side) auto
      obtain ies tes where lp: "l = (ies, tes)" by (cases l)
      from l(1) obtain s1 s2 where "evaluate_side Fr d ies evaluator_reset = Some (fst side, s1)"
        "evaluate_side Fr d tes evaluator_reset = Some (snd side, s2)"
        by (auto simp: lp bind_eq_Some_conv)
      from lookup_lines_compute [OF st0 vs(2) this b(1)] Cons.IH [OF l(2) b(2) vs(3)]
      show ?thesis by (simp add: b(3) vs(1) lp all_lookup_values_def list_all2_appendI)
    qed
  qed
  from this [OF sides ls(1) v] ls(2) show ?thesis by simp
qed

lemma gate_block:
  assumes "free_names st0" and "holds_evals_any st0 d E"
    and "evaluator_evaluate Fr d e evaluator_reset = Some (c, s)"
  shows "block_computes st0 None c (expr_value E e) None"
  unfolding block_computes_def
proof (intro allI impI)
  fix st sc
  assume "between_blocks st0 st"
  then obtain w where st: "field_env st" "later st0 st" "ys_vars st = (ys_vars st0)(numer \<mapsto> w)"
    by (auto simp: between_blocks_def)
  have "free_names st"
    using assms(1) st(3) generated_not_local(2) by (auto simp: free_names_def)
  from evaluate_yields [OF st(1) this later_holds_evals [OF assms(2) st(2)] assms(3)]
  show "\<exists>st'. run_lines (fst c) (st, sc) = Some (st', sc) \<and> later st st'
      \<and> denotes st' (snd c) (expr_value E e) \<and> holds_scratch st' None"
    by (auto simp: yields_def intro: extends_later)
qed

end
