(* ===== verification/HaloPcs.thy ===== *)
theory HaloPcs
  imports HaloExpressions "HOL-Library.Multiset"
begin

text \<open>
  \<open>halo2-verifier/src/lib/codegen/pcs.rs\<close> and the grouping of queries of its two schemes
  (\<open>rotation_sets\<close> of \<open>pcs/bdfg21.rs\<close> and \<open>pcs/gwc19.rs\<close>): which commitment is opened at which
  rotation, and in which word of calldata the claimed evaluation is.

  A \<open>BTreeSet\<close> is its sorted list, a \<open>BTreeMap\<close> the list of its entries sorted by key. An index out
  of range and a missing key panic.
\<close>

section \<open>Queries\<close>

datatype query = Query (q_comm: ec_point) (q_rot: int) (q_eval: evm_word)

definition at_index :: "'a list \<Rightarrow> nat \<Rightarrow> 'a option" where
  "at_index xs i = (if i < length xs then Some (xs ! i) else None)"

definition lookup_queries :: "((ec_point \<times> ec_point) \<times> ec_point) \<times> word5 \<Rightarrow> query list" where
  "lookup_queries l = (case l of (((permuted_0, permuted_1), z_comm), (e0, e1, e2, e3, e4)) \<Rightarrow>
     [Query z_comm 0 e0, Query permuted_0 0 e2, Query permuted_1 0 e4,
      Query permuted_0 (-1) e3, Query z_comm 1 e1])"

definition queries :: "constraint_system_meta \<Rightarrow> data \<Rightarrow> query list option" where
  "queries m d = do {
     advice \<leftarrow> those (map (\<lambda>q. do {
       comm \<leftarrow> at_index (da_advice_comms d) (fst q);
       ev \<leftarrow> da_advice_evals d q;
       Some (Query comm (snd q) ev) }) (cm_advice_queries m));
     let zs = zip (da_permutation_z_comms d) (da_permutation_z_evals d);
     fixed \<leftarrow> those (map (\<lambda>q. do {
       comm \<leftarrow> at_index (da_fixed_comms d) (fst q);
       ev \<leftarrow> da_fixed_evals d q;
       Some (Query comm (snd q) ev) }) (cm_fixed_queries m));
     permutation \<leftarrow> those (map (\<lambda>column. do {
       comm \<leftarrow> da_permutation_comms d column;
       ev \<leftarrow> da_permutation_evals d column;
       Some (Query comm 0 ev) }) (cm_permutation_columns m));
     Some (advice
       @ concat (map (\<lambda>(comm, e0, e1, e2). [Query comm 0 e0, Query comm 1 e1]) zs)
       @ map (\<lambda>(comm, e0, e1, e2). Query comm (cm_rotation_last m) e2) (drop 1 (rev zs))
       @ concat (map lookup_queries (zip (zip (da_lookup_permuted_comms d) (da_lookup_z_comms d))
           (da_lookup_evals d)))
       @ fixed @ permutation
       @ [Query (da_computed_quotient_comm d) 0 (da_computed_quotient_eval d),
          Query (da_random_comm d) 0 (da_random_eval d)]) }"

section \<open>Rotation sets of the BDFG21 scheme\<close>

fun btree_insert :: "int \<Rightarrow> 'v \<Rightarrow> (int \<times> 'v) list \<Rightarrow> (int \<times> 'v) list" where
  "btree_insert k v [] = [(k, v)]"
| "btree_insert k v ((k', v') # kvs) =
     (if k < k' then (k, v) # (k', v') # kvs
      else if k = k' then (k, v) # kvs else (k', v') # btree_insert k v kvs)"

record rotation_set =
  rs_rots :: "int list"
  rs_diffs :: "int list"
  rs_comms :: "ec_point list"
  rs_evals :: "evm_word list list"

type_synonym comm_queries = "(ec_point \<times> (int \<times> evm_word) list) list"

text \<open>Inserting a query at the position of its commitment; a repeated rotation is an assertion failure.\<close>

fun add_comm_query :: "query \<Rightarrow> comm_queries \<Rightarrow> comm_queries option" where
  "add_comm_query query [] = Some [(q_comm query, [(q_rot query, q_eval query)])]"
| "add_comm_query query ((comm, qs) # rest) =
     (if comm = q_comm query
      then if q_rot query \<in> fst ` set qs then None
        else Some ((comm, btree_insert (q_rot query) (q_eval query) qs) # rest)
      else map_option ((#) (comm, qs)) (add_comm_query query rest))"

fun add_rotation_set ::
  "int list \<Rightarrow> rotation_set list \<Rightarrow> ec_point \<times> (int \<times> evm_word) list \<Rightarrow> rotation_set list" where
  "add_rotation_set superset [] (comm, qs) =
     [\<lparr>rs_rots = map fst qs, rs_diffs = filter (\<lambda>rot. rot \<notin> fst ` set qs) superset,
       rs_comms = [comm], rs_evals = [map snd qs]\<rparr>]"
| "add_rotation_set superset (s # sets) (comm, qs) =
     (if rs_rots s = map fst qs
      then (if comm \<in> set (rs_comms s) then s
        else s\<lparr>rs_comms := rs_comms s @ [comm], rs_evals := rs_evals s @ [map snd qs]\<rparr>) # sets
      else s # add_rotation_set superset sets (comm, qs))"

definition rotation_superset :: "query list \<Rightarrow> int list" where
  "rotation_superset qs = foldl (\<lambda>superset query. insort_insert (q_rot query) superset) [] qs"

definition bdfg21_rotation_sets :: "query list \<Rightarrow> (int list \<times> rotation_set list) option" where
  "bdfg21_rotation_sets qs = do {
     let superset = rotation_superset qs;
     comm_queries \<leftarrow> try_foldl (\<lambda>cqs query. add_comm_query query cqs) [] qs;
     Some (superset, foldl (add_rotation_set superset) [] comm_queries) }"

section \<open>Rotation sets of the GWC19 scheme\<close>

record gwc_rotation_set =
  gs_rot :: int
  gs_comms :: "ec_point list"
  gs_evals :: "evm_word list"

fun add_gwc_query :: "gwc_rotation_set list \<Rightarrow> query \<Rightarrow> gwc_rotation_set list" where
  "add_gwc_query [] query =
     [\<lparr>gs_rot = q_rot query, gs_comms = [q_comm query], gs_evals = [q_eval query]\<rparr>]"
| "add_gwc_query (s # sets) query =
     (if gs_rot s = q_rot query
      then s\<lparr>gs_comms := gs_comms s @ [q_comm query], gs_evals := gs_evals s @ [q_eval query]\<rparr> # sets
      else s # add_gwc_query sets query)"

definition gwc19_rotation_sets :: "query list \<Rightarrow> gwc_rotation_set list" where
  "gwc19_rotation_sets qs = foldl add_gwc_query [] qs"

section \<open>Working memory\<close>

definition num_coeffs :: "rotation_set list \<Rightarrow> nat" where
  "num_coeffs sets = sum_list (map (\<lambda>s. length (rs_rots s)) sets)"

definition bdfg21_static_working_memory_size ::
  "constraint_system_meta \<Rightarrow> data \<Rightarrow> nat option" where
  "bdfg21_static_working_memory_size m d = do {
     qs \<leftarrow> queries m d;
     (superset, sets) \<leftarrow> bdfg21_rotation_sets qs;
     Some (2 * (1 + num_coeffs sets) + 6 + 2 * length superset + 1 + 3 * length sets) }"

definition gwc19_static_working_memory_size :: "constraint_system_meta \<Rightarrow> data \<Rightarrow> nat option" where
  "gwc19_static_working_memory_size m d = Some (0x100 + cm_num_rotations m * 0x40)"

definition pcs_static_working_memory_size ::
  "batch_open_scheme \<Rightarrow> constraint_system_meta \<Rightarrow> data \<Rightarrow> nat option" where
  "pcs_static_working_memory_size scheme m d = (case scheme of
      Bdfg21 \<Rightarrow> bdfg21_static_working_memory_size m d
    | Gwc19 \<Rightarrow> gwc19_static_working_memory_size m d)"

section \<open>Correctness of the BDFG21 rotation sets\<close>

lemma keys_btree_insert: "fst ` set (btree_insert k v kvs) = insert k (fst ` set kvs)"
  by (induction k v kvs rule: btree_insert.induct) auto

lemma set_btree_insert: "k \<notin> fst ` set kvs \<Longrightarrow> set (btree_insert k v kvs) = insert (k, v) (set kvs)"
  by (induction k v kvs rule: btree_insert.induct) auto

lemma sorted_btree_insert:
  "sorted_wrt (<) (map fst kvs) \<Longrightarrow> sorted_wrt (<) (map fst (btree_insert k v kvs))"
proof (induction k v kvs rule: btree_insert.induct)
  case (2 k v k' v' kvs)
  have "fst ` set (btree_insert k v kvs) = insert k (fst ` set kvs)" by (rule keys_btree_insert)
  with 2 show ?case by auto
qed simp

type_synonym entry = "ec_point \<times> int \<times> evm_word"

definition query_entry :: "query \<Rightarrow> entry" where
  "query_entry q = (q_comm q, q_rot q, q_eval q)"

definition comm_entries :: "comm_queries \<Rightarrow> entry set" where
  "comm_entries cqs = (\<Union>(c, qs)\<in>set cqs. Pair c ` set qs)"

lemma comm_entries_simps [simp]:
  "comm_entries [] = {}" "comm_entries ((c, qs) # cqs) = Pair c ` set qs \<union> comm_entries cqs"
  by (simp_all add: comm_entries_def)

definition comm_queries_ok :: "comm_queries \<Rightarrow> bool" where
  "comm_queries_ok cqs \<longleftrightarrow> distinct (map fst cqs) \<and> (\<forall>(c, qs)\<in>set cqs. qs \<noteq> [] \<and> sorted_wrt (<) (map fst qs))"

lemma comm_entries_fst: "(c, r, e) \<in> comm_entries cqs \<Longrightarrow> c \<in> fst ` set cqs"
  by (force simp: comm_entries_def)

lemma add_comm_query_correct:
  assumes "comm_queries_ok cqs"
  shows "case add_comm_query q cqs of
      None \<Rightarrow> \<exists>e. (q_comm q, q_rot q, e) \<in> comm_entries cqs
    | Some cqs' \<Rightarrow> (\<forall>e. (q_comm q, q_rot q, e) \<notin> comm_entries cqs) \<and> comm_queries_ok cqs'
        \<and> comm_entries cqs' = insert (query_entry q) (comm_entries cqs)
        \<and> fst ` set cqs' = insert (q_comm q) (fst ` set cqs)"
  using assms
proof (induction q cqs rule: add_comm_query.induct)
  case (1 q)
  then show ?case by (simp add: comm_queries_ok_def query_entry_def)
next
  case (2 q c qs cqs)
  have rest: "comm_queries_ok cqs" "c \<notin> fst ` set cqs" "qs \<noteq> []" "sorted_wrt (<) (map fst qs)"
    using 2(2) by (auto simp: comm_queries_ok_def)
  show ?case
  proof (cases "c = q_comm q")
    case True
    have no: "(c, r, e) \<notin> comm_entries cqs" for r e using rest(2) comm_entries_fst by blast
    show ?thesis
    proof (cases "q_rot q \<in> fst ` set qs")
      case True
      with \<open>c = q_comm q\<close> show ?thesis by (force simp: image_iff)
    next
      case False
      then have "set (btree_insert (q_rot q) (q_eval q) qs) = insert (q_rot q, q_eval q) (set qs)"
        by (rule set_btree_insert)
      moreover have "comm_queries_ok ((c, btree_insert (q_rot q) (q_eval q) qs) # cqs)"
        using 2(2) sorted_btree_insert [OF rest(4)] calculation by (auto simp: comm_queries_ok_def)
      moreover have "(c, q_rot q, e) \<notin> Pair c ` set qs" for e using False by force
      ultimately show ?thesis using \<open>c = q_comm q\<close> False no by (auto simp: query_entry_def)
    qed
  next
    case False
    with 2(1) [OF False rest(1)] rest show ?thesis
      using 2(2) by (auto simp: comm_queries_ok_def split: option.splits)
  qed
qed

lemma try_foldl_snoc:
  "try_foldl f s (xs @ [x]) = Option.bind (try_foldl f s xs) (\<lambda>s'. f s' x)"
  by (induction xs arbitrary: s) (auto split: Option.bind_split)

lemma comm_queries_correct:
  "case try_foldl (\<lambda>cqs q. add_comm_query q cqs) [] qs of
      None \<Rightarrow> \<not> distinct (map (\<lambda>q. (q_comm q, q_rot q)) qs)
    | Some cqs \<Rightarrow> distinct (map (\<lambda>q. (q_comm q, q_rot q)) qs) \<and> comm_queries_ok cqs
        \<and> comm_entries cqs = query_entry ` set qs \<and> fst ` set cqs = q_comm ` set qs"
proof (induction qs rule: rev_induct)
  case Nil
  then show ?case by (simp add: comm_queries_ok_def)
next
  case (snoc q qs)
  show ?case
  proof (cases "try_foldl (\<lambda>cqs q. add_comm_query q cqs) [] qs")
    case None
    with snoc show ?thesis by (simp add: try_foldl_snoc)
  next
    case (Some cqs)
    with snoc have cqs: "distinct (map (\<lambda>q. (q_comm q, q_rot q)) qs)" "comm_queries_ok cqs"
      "comm_entries cqs = query_entry ` set qs" "fst ` set cqs = q_comm ` set qs" by auto
    have mem: "(\<exists>e. (q_comm q, q_rot q, e) \<in> comm_entries cqs)
        \<longleftrightarrow> (q_comm q, q_rot q) \<in> (\<lambda>q. (q_comm q, q_rot q)) ` set qs"
      unfolding cqs(3) by (auto simp: query_entry_def image_iff)
    from add_comm_query_correct [OF cqs(2), of q] Some cqs mem show ?thesis
      by (cases "add_comm_query q cqs") (auto simp: try_foldl_snoc)
  qed
qed

definition set_entries :: "rotation_set \<Rightarrow> entry set" where
  "set_entries s = (\<Union>(c, evs)\<in>set (zip (rs_comms s) (rs_evals s)). Pair c ` set (zip (rs_rots s) evs))"

definition rotation_set_ok :: "int list \<Rightarrow> rotation_set \<Rightarrow> bool" where
  "rotation_set_ok superset s \<longleftrightarrow> rs_rots s \<noteq> [] \<and> sorted_wrt (<) (rs_rots s)
     \<and> rs_diffs s = filter (\<lambda>rot. rot \<notin> set (rs_rots s)) superset
     \<and> length (rs_evals s) = length (rs_comms s) \<and> rs_comms s \<noteq> []
     \<and> (\<forall>evs\<in>set (rs_evals s). length evs = length (rs_rots s))"

definition rotation_sets_ok :: "int list \<Rightarrow> rotation_set list \<Rightarrow> bool" where
  "rotation_sets_ok superset sets \<longleftrightarrow> (\<forall>s\<in>set sets. rotation_set_ok superset s)
     \<and> distinct (map rs_rots sets) \<and> distinct (concat (map rs_comms sets))"

lemma add_rotation_set_rots:
  "rs_rots ` set (add_rotation_set superset sets (c, qs)) = insert (map fst qs) (rs_rots ` set sets)"
  by (induction superset sets "(c, qs)" rule: add_rotation_set.induct) auto

lemma add_rotation_set_correct:
  assumes "rotation_sets_ok superset sets" and "c \<notin> set (concat (map rs_comms sets))"
    and "qs \<noteq> []" and "sorted_wrt (<) (map fst qs)"
  shows "rotation_sets_ok superset (add_rotation_set superset sets (c, qs))
    \<and> set (concat (map rs_comms (add_rotation_set superset sets (c, qs))))
      = insert c (set (concat (map rs_comms sets)))
    \<and> (\<Union>s\<in>set (add_rotation_set superset sets (c, qs)). set_entries s)
      = Pair c ` set qs \<union> (\<Union>s\<in>set sets. set_entries s)"
  using assms
proof (induction superset sets "(c, qs)" rule: add_rotation_set.induct)
  case 1
  then show ?case
    by (auto simp: rotation_sets_ok_def rotation_set_ok_def set_entries_def zip_map_fst_snd)
next
  case (2 superset s sets)
  show ?case
  proof (cases "rs_rots s = map fst qs")
    case True
    let ?s = "s\<lparr>rs_comms := rs_comms s @ [c], rs_evals := rs_evals s @ [map snd qs]\<rparr>"
    have len: "length (rs_evals s) = length (rs_comms s)"
      using 2(2) by (simp add: rotation_sets_ok_def rotation_set_ok_def)
    have "set_entries ?s = Pair c ` set qs \<union> set_entries s"
      using True len by (auto simp: set_entries_def zip_map_fst_snd)
    with True 2(2-) show ?thesis
      by (auto simp: rotation_sets_ok_def rotation_set_ok_def)
  next
    case False
    have "rotation_sets_ok superset sets" "c \<notin> set (concat (map rs_comms sets))"
      using 2(2,3) by (auto simp: rotation_sets_ok_def)
    from 2(1) [OF False this 2(4,5)] False 2(2,3) add_rotation_set_rots [of superset sets c qs]
    show ?thesis by (auto simp: rotation_sets_ok_def)
  qed
qed


lemma rotation_superset_correct:
  "sorted (rotation_superset qs) \<and> distinct (rotation_superset qs)
    \<and> set (rotation_superset qs) = q_rot ` set qs"
proof (induction qs rule: rev_induct)
  case Nil
  then show ?case by (simp add: rotation_superset_def)
next
  case (snoc q qs)
  then show ?case
    by (auto simp: rotation_superset_def sorted_insort_insert distinct_insort_insert set_insort_insert)
qed

lemma rotation_sets_of_comms:
  assumes "comm_queries_ok cqs" and "rotation_sets_ok superset sets"
    and "set (concat (map rs_comms sets)) \<inter> fst ` set cqs = {}"
  shows "rotation_sets_ok superset (foldl (add_rotation_set superset) sets cqs)
    \<and> (\<Union>s\<in>set (foldl (add_rotation_set superset) sets cqs). set_entries s)
      = comm_entries cqs \<union> (\<Union>s\<in>set sets. set_entries s)"
  using assms
proof (induction cqs arbitrary: sets)
  case Nil
  then show ?case by simp
next
  case (Cons cq cqs)
  obtain c qs where cq: "cq = (c, qs)" by (cases cq)
  have *: "c \<notin> set (concat (map rs_comms sets))" "qs \<noteq> []" "sorted_wrt (<) (map fst qs)"
    "comm_queries_ok cqs" "c \<notin> fst ` set cqs"
    using Cons.prems by (auto simp: cq comm_queries_ok_def)
  note step = add_rotation_set_correct [OF Cons.prems(2) *(1-3)]
  have "set (concat (map rs_comms (add_rotation_set superset sets (c, qs)))) \<inter> fst ` set cqs = {}"
    using step Cons.prems(3) *(5) by (auto simp: cq)
  with Cons.IH [OF *(4), of "add_rotation_set superset sets (c, qs)"] step show ?case
    by (auto simp: cq)
qed

text \<open>
  C8. The BDFG21 grouping of queries panics exactly when a commitment is queried twice at one
  rotation. Otherwise the superset is the sorted list of all rotations; the sets have pairwise
  different rotations, no commitment is in two of them or twice in one, the difference of each is
  the rest of the superset, each commitment has one evaluation for every rotation of its set; and
  the sets hold exactly the given queries.
\<close>

theorem bdfg21_rotation_sets_correct:
  "case bdfg21_rotation_sets qs of
      None \<Rightarrow> \<not> distinct (map (\<lambda>q. (q_comm q, q_rot q)) qs)
    | Some (superset, sets) \<Rightarrow> distinct (map (\<lambda>q. (q_comm q, q_rot q)) qs)
        \<and> sorted superset \<and> distinct superset \<and> set superset = q_rot ` set qs
        \<and> rotation_sets_ok superset sets
        \<and> (\<Union>s\<in>set sets. set_entries s) = query_entry ` set qs"
proof (cases "try_foldl (\<lambda>cqs q. add_comm_query q cqs) [] qs")
  case None
  with comm_queries_correct [of qs] show ?thesis by (simp add: bdfg21_rotation_sets_def)
next
  case (Some cqs)
  with comm_queries_correct [of qs] have cqs: "distinct (map (\<lambda>q. (q_comm q, q_rot q)) qs)"
    "comm_queries_ok cqs" "comm_entries cqs = query_entry ` set qs" by simp_all
  have "rotation_sets_ok superset []" for superset by (simp add: rotation_sets_ok_def)
  from rotation_sets_of_comms [OF cqs(2) this] cqs rotation_superset_correct [of qs] Some
  show ?thesis by (simp add: bdfg21_rotation_sets_def Let_def)
qed

section \<open>Rotations of the GWC19 scheme\<close>

lemma add_gwc_query_rots:
  "distinct (map gs_rot sets) \<Longrightarrow> distinct (map gs_rot (add_gwc_query sets q))
    \<and> set (map gs_rot (add_gwc_query sets q)) = insert (q_rot q) (set (map gs_rot sets))"
  by (induction sets q rule: add_gwc_query.induct) auto

definition gwc_queries :: "gwc_rotation_set \<Rightarrow> (ec_point \<times> evm_word) list" where
  "gwc_queries s = zip (gs_comms s) (gs_evals s)"

definition gwc_set_ok :: "query list \<Rightarrow> gwc_rotation_set \<Rightarrow> bool" where
  "gwc_set_ok qs s \<longleftrightarrow> gs_comms s = map q_comm (filter (\<lambda>q. q_rot q = gs_rot s) qs)
     \<and> gs_evals s = map q_eval (filter (\<lambda>q. q_rot q = gs_rot s) qs)"

lemma add_gwc_query_ok:
  assumes "list_all (gwc_set_ok qs) sets" and "distinct (map gs_rot sets)"
    and "q_rot q \<in> q_rot ` set qs \<longrightarrow> q_rot q \<in> set (map gs_rot sets)"
  shows "list_all (gwc_set_ok (qs @ [q])) (add_gwc_query sets q)"
  using assms
proof (induction sets q rule: add_gwc_query.induct)
  case (1 q)
  then have "q_rot q \<notin> q_rot ` set qs" by simp
  then have "\<forall>p\<in>set qs. q_rot p \<noteq> q_rot q" by (metis image_eqI)
  then have "filter (\<lambda>p. q_rot p = q_rot q) qs = []" by (simp add: filter_empty_conv)
  then show ?case by (simp add: gwc_set_ok_def)
next
  case (2 s sets q)
  show ?case
  proof (cases "gs_rot s = q_rot q")
    case True
    then have "q_rot q \<notin> gs_rot ` set sets" using 2(3) by simp
    then have "\<forall>t\<in>set sets. gs_rot t \<noteq> q_rot q" by (metis image_eqI)
    with True 2(2) show ?thesis by (auto simp: gwc_set_ok_def list_all_iff)
  next
    case False
    with 2 show ?thesis by (auto simp: gwc_set_ok_def)
  qed
qed

lemma gwc_snoc: "gwc19_rotation_sets (qs @ [q]) = add_gwc_query (gwc19_rotation_sets qs) q"
  by (simp add: gwc19_rotation_sets_def)

lemma gwc19_rotation_sets_ok:
  "distinct (map gs_rot (gwc19_rotation_sets qs))
    \<and> set (map gs_rot (gwc19_rotation_sets qs)) = q_rot ` set qs
    \<and> list_all (gwc_set_ok qs) (gwc19_rotation_sets qs)"
proof (induction qs rule: rev_induct)
  case Nil
  then show ?case by (simp add: gwc19_rotation_sets_def)
next
  case (snoc q qs)
  with add_gwc_query_rots [of "gwc19_rotation_sets qs" q] add_gwc_query_ok [of qs "gwc19_rotation_sets qs" q]
  show ?case by (simp add: gwc_snoc)
qed

lemma length_gwc19_rotation_sets: "length (gwc19_rotation_sets qs) = card (q_rot ` set qs)"
  using gwc19_rotation_sets_ok [of qs] by (metis distinct_card length_map)

section \<open>The evaluations the queries read\<close>

lemma hash_map_zip:
  assumes "distinct ks" and "length ws = length ks" and "i < length ks"
  shows "hash_map (zip ks ws) (ks ! i) = Some (ws ! i)"
proof -
  have "distinct (map fst (rev (zip ks ws)))" using assms by (simp flip: rev_map)
  moreover have "(ks ! i, ws ! i) \<in> set (rev (zip ks ws))" using assms by (auto simp: set_zip)
  ultimately show ?thesis by (simp add: hash_map_def)
qed

definition column_query ::
  "('k \<Rightarrow> ec_point option) \<Rightarrow> ('k \<Rightarrow> int) \<Rightarrow> ('k \<Rightarrow> evm_word option) \<Rightarrow> 'k \<Rightarrow> query option" where
  "column_query comm rot ev k = do { c \<leftarrow> comm k; e \<leftarrow> ev k; Some (Query c (rot k) e) }"

lemma column_queries:
  assumes "those (map (column_query comm rot ev) ks) = Some qs"
  shows "map q_rot qs = map rot ks" and "map (Some \<circ> q_eval) qs = map ev ks"
proof -
  from assms have *: "map (column_query comm rot ev) ks = map Some qs" by (simp add: those_Some_iff)
  then have len: "length qs = length ks" by (metis length_map)
  have at: "column_query comm rot ev (ks ! i) = Some (qs ! i)" if "i < length ks" for i
    using * that len by (metis nth_map)
  then have **: "rot (ks ! i) = q_rot (qs ! i) \<and> ev (ks ! i) = Some (q_eval (qs ! i))" if "i < length ks" for i
    using at [OF that] by (auto simp: column_query_def bind_eq_Some_conv dest: sym)
  show "map q_rot qs = map rot ks" using len ** by (intro nth_equalityI) auto
  show "map (Some \<circ> q_eval) qs = map ev ks" using len ** by (intro nth_equalityI) auto
qed

lemma map_Some_eq: "map (Some \<circ> f) xs = map Some ys \<longleftrightarrow> map f xs = ys"
  by (metis inj_map_eq_map inj_Some map_map)

lemma column_queries_zip:
  assumes "those (map (column_query comm rot (hash_map (zip ks ws))) ks) = Some qs"
    and "distinct ks" and "length ws = length ks"
  shows "map q_eval qs = ws"
proof -
  have "map (hash_map (zip ks ws)) ks = map Some ws"
    using assms(2,3) by (intro nth_equalityI) (simp_all add: hash_map_zip)
  with column_queries(2) [OF assms(1)] show ?thesis by (simp add: map_Some_eq)
qed

lemma triples_of_upt: "triples_of (map w [0..<3 * n]) = map (\<lambda>i. (w (3 * i), w (3 * i + 1), w (3 * i + 2))) [0..<n]"
proof -
  have "triples_of (map w [3 * k..<3 * (k + n)]) = map (\<lambda>i. (w (3 * i), w (3 * i + 1), w (3 * i + 2))) [k..<k + n]" for k
  proof (induction n arbitrary: k)
    case (Suc n)
    have "[3 * k..<3 * (k + Suc n)] = 3 * k # (3 * k + 1) # (3 * k + 2) # [3 * Suc k..<3 * (Suc k + n)]"
      by (simp add: upt_conv_Cons numeral_eq_Suc)
    moreover have "[k..<k + Suc n] = k # [Suc k..<Suc k + n]" by (simp add: upt_conv_Cons del: upt_Suc)
    ultimately show ?case using Suc [of "Suc k"] by (simp del: upt_Suc)
  qed simp
  from this [of 0] show ?thesis by simp
qed

lemma quintuples_of_upt: "quintuples_of (map w [0..<5 * n]) =
    map (\<lambda>i. (w (5 * i), w (5 * i + 1), w (5 * i + 2), w (5 * i + 3), w (5 * i + 4))) [0..<n]"
proof -
  have "quintuples_of (map w [5 * k..<5 * (k + n)]) =
      map (\<lambda>i. (w (5 * i), w (5 * i + 1), w (5 * i + 2), w (5 * i + 3), w (5 * i + 4))) [k..<k + n]" for k
  proof (induction n arbitrary: k)
    case (Suc n)
    have "[5 * k..<5 * (k + Suc n)] = 5 * k # (5 * k + 1) # (5 * k + 2) # (5 * k + 3) # (5 * k + 4)
        # [5 * Suc k..<5 * (Suc k + n)]"
      by (simp add: upt_conv_Cons numeral_eq_Suc)
    moreover have "[k..<k + Suc n] = k # [Suc k..<Suc k + n]" by (simp add: upt_conv_Cons del: upt_Suc)
    ultimately show ?case using Suc [of "Suc k"] by (simp del: upt_Suc)
  qed simp
  from this [of 0] show ?thesis by simp
qed

lemma pairs_of_upt: "pairs_of (map w [0..<2 * n]) = map (\<lambda>i. (w (2 * i), w (2 * i + 1))) [0..<n]"
proof -
  have "pairs_of (map w [2 * k..<2 * (k + n)]) = map (\<lambda>i. (w (2 * i), w (2 * i + 1))) [k..<k + n]" for k
  proof (induction n arbitrary: k)
    case (Suc n)
    have "[2 * k..<2 * (k + Suc n)] = 2 * k # (2 * k + 1) # [2 * Suc k..<2 * (Suc k + n)]"
      by (simp add: upt_conv_Cons)
    moreover have "[k..<k + Suc n] = k # [Suc k..<Suc k + n]" by (simp add: upt_conv_Cons del: upt_Suc)
    ultimately show ?case using Suc [of "Suc k"] by (simp del: upt_Suc)
  qed simp
  from this [of 0] show ?thesis by simp
qed

lemma zip_map_same: "zip (map f xs) (map g xs) = map (\<lambda>x. (f x, g x)) xs"
  by (induction xs) auto

lemma mset_z_evals:
  "mset (concat (map (\<lambda>i. [w (3 * i), w (3 * i + 1)]) [0..<Suc k])) + mset (map (\<lambda>i. w (3 * i + 2)) [0..<k])
    = mset (map w [0..<3 * k + 2])"
proof (induction k)
  case (Suc k)
  have "[0..<3 * Suc k + 2] = [0..<3 * k + 2] @ [3 * k + 2, 3 + 3 * k, 4 + 3 * k]"
    by (simp add: numeral_eq_Suc)
  with Suc show ?case by (simp del: mset_upt mset_map upt_Suc add: upt_Suc_append)
qed simp

lemma mset_lookup_evals:
  "mset (concat (map (\<lambda>i. [w (5 * i), w (5 * i + 2), w (5 * i + 4), w (5 * i + 3), w (5 * i + 1)]) [0..<n]))
    = mset (map w [0..<5 * n])"
proof (induction n)
  case (Suc n)
  have "[0..<5 * Suc n] = [0..<5 * n] @ [5 * n, 5 * n + 1, 5 * n + 2, 5 * n + 3, 5 * n + 4]"
    by (simp add: numeral_eq_Suc)
  with Suc show ?case by (simp del: mset_upt mset_map upt_Suc add: upt_Suc_append)
qed simp

section \<open>The proof is laid out without gaps\<close>

lemma le_foldr_max: "x \<in> set xs \<Longrightarrow> f x \<le> foldr max (map f xs) (0 :: nat)"
  by (induction xs) (auto simp: max_def)

lemma meta_new_shape:
  assumes "meta_new cs = Some m"
  shows "cm_num_lookup_permuteds m = 2 * cm_num_lookup_zs m" and "0 < cm_num_permutation_zs m"
    and "cm_num_evals m = length (cm_advice_queries m) + length (cm_fixed_queries m) + 1
      + length (cm_permutation_columns m) + (3 * cm_num_permutation_zs m - 1) + 5 * cm_num_lookup_zs m"
    and "cm_num_rotations m = card (set (queried_rotations (cm_advice_queries m) (cm_fixed_queries m)
      (cm_num_permutation_zs m) (cm_num_lookup_zs m) (cm_rotation_last m)))"
    and "length (cm_advice_indices m) = sum_list (cm_num_user_advices m)"
    and "cm_advice_queries m = cs_advice_queries cs" and "cm_fixed_queries m = cs_fixed_queries cs"
    and "cm_permutation_columns m = cs_permutation cs"
proof -
  let ?phase = "cs_advice_column_phase cs"
  define n where "n = foldr max (map unat ?phase) 0 + 1"
  from assms obtain nums index where r: "remapping n ?phase = Some (nums, index)"
    "cm_num_user_advices m = nums" "cm_advice_indices m = index"
    by (auto simp: meta_new_def Let_def n_def bind_eq_Some_conv)
  have "\<forall>p\<in>set ?phase. unat p < n"
    unfolding n_def by (simp add: less_Suc_eq_le le_foldr_max)
  then obtain nums' where n': "remapping n ?phase = Some (nums', map (phase_rank ?phase) [0..<length ?phase])"
    "length nums' = n" "\<forall>k<n. nums' ! k = occurrences (\<lambda>p. unat p = k) ?phase"
    using remapping_ranks [of n ?phase] n_def by auto
  have "sum_list nums' = occurrences (\<lambda>p. unat p < n) ?phase"
    using sum_list_occurrences [OF n'(2,3), of n] n'(2) by simp
  also have "\<dots> = length ?phase" using \<open>\<forall>p\<in>set ?phase. unat p < n\<close> by (simp add: occurrences_def)
  finally show "length (cm_advice_indices m) = sum_list (cm_num_user_advices m)"
    using r n'(1) by (metis length_map length_upt minus_nat.diff_0 option.inject prod.inject)
qed (use assms in \<open>auto simp: meta_new_def Let_def usize_sub_def length_remdups_card_conv
    bind_eq_Some_conv split: if_splits prod.splits\<close>)

lemma eval_start_points:
  "meta_new cs = Some m \<Longrightarrow> proof_points m = sum_list (num_advices m)"
  by (simp add: meta_new_shape proof_points_def num_advices_def)

lemma lookup_eval_start_evals:
  assumes "meta_new cs = Some m"
  shows "lookup_eval_start m p + 32 * (5 * cm_num_lookup_zs m) = eval_start m p + 32 * cm_num_evals m"
  using meta_new_shape [OF assms] by (simp add: lookup_eval_start_def z_eval_start_def)

lemma those_column_queries:
  "those (map (\<lambda>q. do { comm \<leftarrow> f q; ev \<leftarrow> g q; Some (Query comm (r q) ev) }) ks)
    = those (map (column_query f r g) ks)"
  by (simp add: column_query_def [abs_def])

lemma queries_parts:
  assumes m: "meta_new cs = Some m"
    and d: "data_new m vk (Ptr Memory (Integer v)) (Ptr Calldata (Integer p)) = Some d"
    and "queries m d = Some qs"
  obtains advice zs lasts lookups fixed permutation where
    "qs = advice @ zs @ lasts @ lookups @ fixed @ permutation
      @ [Query (da_computed_quotient_comm d) 0 (da_computed_quotient_eval d),
         Query (da_random_comm d) 0 (da_random_eval d)]"
    "those (map (column_query (\<lambda>q. at_index (da_advice_comms d) (fst q)) snd (da_advice_evals d))
      (cm_advice_queries m)) = Some advice"
    "those (map (column_query (\<lambda>q. at_index (da_fixed_comms d) (fst q)) snd (da_fixed_evals d))
      (cm_fixed_queries m)) = Some fixed"
    "those (map (column_query (da_permutation_comms d) (\<lambda>_. 0) (da_permutation_evals d))
      (cm_permutation_columns m)) = Some permutation"
    "map (\<lambda>q. (q_rot q, q_eval q)) zs = concat (map (\<lambda>i. [(0, word_at Calldata (z_eval_start m p + 32 * (3 * i))),
      (1, word_at Calldata (z_eval_start m p + 32 * (3 * i + 1)))]) [0..<cm_num_permutation_zs m])"
    "map (\<lambda>q. (q_rot q, q_eval q)) lasts = rev (map (\<lambda>i. (cm_rotation_last m,
      word_at Calldata (z_eval_start m p + 32 * (3 * i + 2)))) [0..<cm_num_permutation_zs m - 1])"
    "map (\<lambda>q. (q_rot q, q_eval q)) lookups = concat (map (\<lambda>i. let w = \<lambda>k. word_at Calldata
        (lookup_eval_start m p + 32 * (5 * i + k)) in
      [(0, w 0), (0, w 2), (0, w 4), (-1, w 3), (1, w 1)]) [0..<cm_num_lookup_zs m])"
proof -
  have zs: "da_permutation_z_evals d = map (\<lambda>i. (word_at Calldata (z_eval_start m p + 32 * (3 * i)),
      word_at Calldata (z_eval_start m p + 32 * (3 * i + 1)),
      word_at Calldata (z_eval_start m p + 32 * (3 * i + 2)))) [0..<cm_num_permutation_zs m]"
    and zc: "\<exists>f. da_permutation_z_comms d = map f [0..<cm_num_permutation_zs m]"
    using d by (auto simp: data_new_Integer triples_of_upt)
  have ls: "da_lookup_evals d = map (\<lambda>i. let w = \<lambda>k. word_at Calldata (lookup_eval_start m p + 32 * (5 * i + k))
      in (w 0, w 1, w 2, w 3, w 4)) [0..<cm_num_lookup_zs m]"
    and lc: "\<exists>f. da_lookup_permuted_comms d = map f [0..<cm_num_lookup_zs m]"
      "\<exists>f. da_lookup_z_comms d = map f [0..<cm_num_lookup_zs m]"
    using d by (auto simp: data_new_Integer quintuples_of_upt pairs_of_upt meta_new_shape [OF m] Let_def)
  from assms(3) obtain advice fixed permutation where parts:
    "those (map (column_query (\<lambda>q. at_index (da_advice_comms d) (fst q)) snd (da_advice_evals d))
      (cm_advice_queries m)) = Some advice"
    "those (map (column_query (\<lambda>q. at_index (da_fixed_comms d) (fst q)) snd (da_fixed_evals d))
      (cm_fixed_queries m)) = Some fixed"
    "those (map (column_query (da_permutation_comms d) (\<lambda>_. 0) (da_permutation_evals d))
      (cm_permutation_columns m)) = Some permutation"
    "qs = advice
       @ concat (map (\<lambda>(comm, e0, e1, e2). [Query comm 0 e0, Query comm 1 e1])
           (zip (da_permutation_z_comms d) (da_permutation_z_evals d)))
       @ map (\<lambda>(comm, e0, e1, e2). Query comm (cm_rotation_last m) e2)
           (drop 1 (rev (zip (da_permutation_z_comms d) (da_permutation_z_evals d))))
       @ concat (map lookup_queries (zip (zip (da_lookup_permuted_comms d) (da_lookup_z_comms d))
           (da_lookup_evals d)))
       @ fixed @ permutation
       @ [Query (da_computed_quotient_comm d) 0 (da_computed_quotient_eval d),
          Query (da_random_comm d) 0 (da_random_eval d)]"
    unfolding queries_def those_column_queries Let_def by (auto simp: bind_eq_Some_conv)
  obtain f where f: "da_permutation_z_comms d = map f [0..<cm_num_permutation_zs m]" using zc by blast
  obtain g h where gh: "da_lookup_permuted_comms d = map g [0..<cm_num_lookup_zs m]"
    "da_lookup_z_comms d = map h [0..<cm_num_lookup_zs m]" using lc by blast
  have "[0..<cm_num_permutation_zs m] = [0..<cm_num_permutation_zs m - 1] @ [cm_num_permutation_zs m - 1]"
    using meta_new_shape(2) [OF m] by (cases "cm_num_permutation_zs m") simp_all
  then have drop_last: "drop 1 (rev (map k [0..<cm_num_permutation_zs m])) =
      rev (map k [0..<cm_num_permutation_zs m - 1])" for k :: "nat \<Rightarrow> ec_point \<times> word3" by simp
  show ?thesis
    by (rule that [OF parts(4,1-3)])
      (simp_all only: zs f ls gh zip_map_same drop_last,
        simp_all add: map_concat o_def rev_map lookup_queries_def Let_def split_def)
qed

text \<open>The offsets \<open>0, 1, .., n - 1\<close> of consecutive words, in consecutive ranges.\<close>

lemma words_append:
  "map (\<lambda>i. word_at l (a + 32 * i)) [0..<m + n] =
    map (\<lambda>i. word_at l (a + 32 * i)) [0..<m] @ map (\<lambda>i. word_at l (a + 32 * m + 32 * i)) [0..<n]"
  by (rule nth_equalityI) (auto simp: nth_append)

lemma queries_evals:
  assumes m: "meta_new cs = Some m"
    and d: "data_new m vk (Ptr Memory (Integer v)) (Ptr Calldata (Integer p)) = Some d"
    and qs: "queries m d = Some qs"
    and keys: "distinct (cs_advice_queries cs)" "distinct (cs_fixed_queries cs)" "distinct (cs_permutation cs)"
  shows "mset (map q_eval qs) = mset (map (\<lambda>i. word_at Calldata (eval_start m p + 32 * i)) [0..<cm_num_evals m])
    + {#da_computed_quotient_eval d#}"
proof -
  obtain advice zs lasts lookups fixed permutation where parts:
    "qs = advice @ zs @ lasts @ lookups @ fixed @ permutation
      @ [Query (da_computed_quotient_comm d) 0 (da_computed_quotient_eval d),
         Query (da_random_comm d) 0 (da_random_eval d)]"
    "those (map (column_query (\<lambda>q. at_index (da_advice_comms d) (fst q)) snd (da_advice_evals d))
      (cm_advice_queries m)) = Some advice"
    "those (map (column_query (\<lambda>q. at_index (da_fixed_comms d) (fst q)) snd (da_fixed_evals d))
      (cm_fixed_queries m)) = Some fixed"
    "those (map (column_query (da_permutation_comms d) (\<lambda>_. 0) (da_permutation_evals d))
      (cm_permutation_columns m)) = Some permutation"
    "map (\<lambda>q. (q_rot q, q_eval q)) zs = concat (map (\<lambda>i. [(0, word_at Calldata (z_eval_start m p + 32 * (3 * i))),
      (1, word_at Calldata (z_eval_start m p + 32 * (3 * i + 1)))]) [0..<cm_num_permutation_zs m])"
    "map (\<lambda>q. (q_rot q, q_eval q)) lasts = rev (map (\<lambda>i. (cm_rotation_last m,
      word_at Calldata (z_eval_start m p + 32 * (3 * i + 2)))) [0..<cm_num_permutation_zs m - 1])"
    "map (\<lambda>q. (q_rot q, q_eval q)) lookups = concat (map (\<lambda>i. let w = \<lambda>k. word_at Calldata
        (lookup_eval_start m p + 32 * (5 * i + k)) in
      [(0, w 0), (0, w 2), (0, w 4), (-1, w 3), (1, w 1)]) [0..<cm_num_lookup_zs m])"
    using queries_parts [OF m d qs] .
  note shape = meta_new_shape [OF m]
  let ?w = "\<lambda>a n. map (\<lambda>i. word_at Calldata (a + 32 * i)) [0..<n]"
  let ?na = "length (cm_advice_queries m)" and ?nf = "length (cm_fixed_queries m)"
    and ?np = "length (cm_permutation_columns m)" and ?e = "eval_start m p"
  have advice: "map q_eval advice = ?w ?e ?na"
    using parts(2) keys(1) d by (intro column_queries_zip) (auto simp: data_new_Integer shape)
  have fixed: "map q_eval fixed = ?w (?e + 32 * ?na) ?nf"
    using parts(3) keys(2) d by (intro column_queries_zip) (auto simp: data_new_Integer shape)
  have permutation: "map q_eval permutation = ?w (?e + 32 * (?na + ?nf + 1)) ?np"
    using parts(4) keys(3) d by (intro column_queries_zip) (auto simp: data_new_Integer shape)
  have snds: "map q_eval xs = map snd (map (\<lambda>q. (q_rot q, q_eval q)) xs)" for xs by simp
  obtain k where k: "cm_num_permutation_zs m = Suc k" using shape(2) by (cases "cm_num_permutation_zs m") auto
  have zs: "mset (map q_eval zs) + mset (map q_eval lasts) = mset (?w (z_eval_start m p) (3 * k + 2))"
    using mset_z_evals [of "\<lambda>i. word_at Calldata (z_eval_start m p + 32 * i)" k]
    unfolding snds [of zs] snds [of lasts] parts k
    by (simp add: map_concat o_def del: upt_Suc mset_map flip: rev_map)
  have lookups: "mset (map q_eval lookups) = mset (?w (lookup_eval_start m p) (5 * cm_num_lookup_zs m))"
    using mset_lookup_evals [of "\<lambda>i. word_at Calldata (lookup_eval_start m p + 32 * i)" "cm_num_lookup_zs m"]
    unfolding snds [of lookups] parts by (simp add: map_concat o_def Let_def ac_simps del: upt_Suc mset_map)
  have random: "[da_random_eval d] = ?w (?e + 32 * (?na + ?nf)) 1"
    using d by (auto simp: data_new_Integer)
  have starts: "z_eval_start m p = ?e + 32 * (?na + ?nf + 1 + ?np)"
    "lookup_eval_start m p = ?e + 32 * (?na + ?nf + 1 + ?np + (3 * k + 2))"
    by (simp_all add: z_eval_start_def lookup_eval_start_def k)
  have "cm_num_evals m = ?na + (?nf + (1 + (?np + ((3 * k + 2) + 5 * cm_num_lookup_zs m))))"
    using shape(3) k by simp
  then have "?w ?e (cm_num_evals m) = ?w ?e ?na @ ?w (?e + 32 * ?na) ?nf @ ?w (?e + 32 * (?na + ?nf)) 1
      @ ?w (?e + 32 * (?na + ?nf + 1)) ?np @ ?w (z_eval_start m p) (3 * k + 2)
      @ ?w (lookup_eval_start m p) (5 * cm_num_lookup_zs m)"
    unfolding starts by (simp only: words_append) (simp add: algebra_simps)
  then show ?thesis
    unfolding parts(1) using advice fixed permutation zs lookups
    by (simp only: map_append mset_append list.map query.sel random [symmetric])
      (simp add: ac_simps)
qed

lemma queries_rots:
  assumes m: "meta_new cs = Some m"
    and d: "data_new m vk (Ptr Memory (Integer v)) (Ptr Calldata (Integer p)) = Some d"
    and qs: "queries m d = Some qs"
  shows "q_rot ` set qs = set (queried_rotations (cm_advice_queries m) (cm_fixed_queries m)
    (cm_num_permutation_zs m) (cm_num_lookup_zs m) (cm_rotation_last m))"
proof -
  obtain advice zs lasts lookups fixed permutation where parts:
    "qs = advice @ zs @ lasts @ lookups @ fixed @ permutation
      @ [Query (da_computed_quotient_comm d) 0 (da_computed_quotient_eval d),
         Query (da_random_comm d) 0 (da_random_eval d)]"
    "those (map (column_query (\<lambda>q. at_index (da_advice_comms d) (fst q)) snd (da_advice_evals d))
      (cm_advice_queries m)) = Some advice"
    "those (map (column_query (\<lambda>q. at_index (da_fixed_comms d) (fst q)) snd (da_fixed_evals d))
      (cm_fixed_queries m)) = Some fixed"
    "those (map (column_query (da_permutation_comms d) (\<lambda>_. 0) (da_permutation_evals d))
      (cm_permutation_columns m)) = Some permutation"
    "map (\<lambda>q. (q_rot q, q_eval q)) zs = concat (map (\<lambda>i. [(0, word_at Calldata (z_eval_start m p + 32 * (3 * i))),
      (1, word_at Calldata (z_eval_start m p + 32 * (3 * i + 1)))]) [0..<cm_num_permutation_zs m])"
    "map (\<lambda>q. (q_rot q, q_eval q)) lasts = rev (map (\<lambda>i. (cm_rotation_last m,
      word_at Calldata (z_eval_start m p + 32 * (3 * i + 2)))) [0..<cm_num_permutation_zs m - 1])"
    "map (\<lambda>q. (q_rot q, q_eval q)) lookups = concat (map (\<lambda>i. let w = \<lambda>k. word_at Calldata
        (lookup_eval_start m p + 32 * (5 * i + k)) in
      [(0, w 0), (0, w 2), (0, w 4), (-1, w 3), (1, w 1)]) [0..<cm_num_lookup_zs m])"
    using queries_parts [OF m d qs] .
  have rots: "q_rot ` set xs = fst ` set (map (\<lambda>q. (q_rot q, q_eval q)) xs)" for xs
    by (simp add: image_image)
  have advice: "q_rot ` set advice = snd ` set (cm_advice_queries m)"
    using column_queries(1) [OF parts(2)] by (metis set_map)
  have fixed: "q_rot ` set fixed = snd ` set (cm_fixed_queries m)"
    using column_queries(1) [OF parts(3)] by (metis set_map)
  have permutation: "q_rot ` set permutation \<subseteq> {0}"
    using column_queries(1) [OF parts(4)] by (metis (mono_tags) image_constant_conv image_subset_iff insertCI set_map subset_insertI2 subset_singleton_iff)
  have zs: "q_rot ` set zs = {0, 1}"
    using meta_new_shape(2) [OF m] unfolding rots [of zs] parts by (auto simp: image_iff)
  have lasts: "q_rot ` set lasts = (if 1 < cm_num_permutation_zs m then {cm_rotation_last m} else {})"
    unfolding rots [of lasts] parts by (simp add: image_image image_constant_conv lessThan_empty_iff)
  have lookups: "q_rot ` set lookups = (if 0 < cm_num_lookup_zs m then {-1, 0, 1} else {})"
    unfolding rots [of lookups] parts by (auto simp: image_iff Let_def)
  have "q_rot ` set qs = q_rot ` set advice \<union> q_rot ` set zs \<union> q_rot ` set lasts \<union> q_rot ` set lookups
      \<union> q_rot ` set fixed \<union> q_rot ` set permutation \<union> {0}"
    unfolding parts(1) by (simp only: set_append image_Un list.set image_insert image_empty query.sel) blast
  also have "\<dots> = snd ` set (cm_advice_queries m) \<union> snd ` set (cm_fixed_queries m) \<union> {0, 1}
      \<union> (if 1 < cm_num_permutation_zs m then {cm_rotation_last m} else {})
      \<union> (if 0 < cm_num_lookup_zs m then {-1, 0, 1} else {})"
    unfolding advice fixed zs lasts lookups using permutation by blast
  also have "\<dots> = set (queried_rotations (cm_advice_queries m) (cm_fixed_queries m)
      (cm_num_permutation_zs m) (cm_num_lookup_zs m) (cm_rotation_last m))"
    using meta_new_shape(2) [OF m] by (auto simp: queried_rotations_def)
  finally show ?thesis .
qed

text \<open>
  C6. The proof is laid out without gaps or overlaps: the opening points start right behind the
  evaluations, which start right behind the committed points, and the length the verifier demands
  ends with the opening points. The queries read every evaluation of the proof, each exactly once,
  and beside them only the quotient evaluation computed by the verifier; the third evaluation of the
  last permutation polynomial, which does not exist, is not among them.
\<close>

theorem proof_layout_complete:
  assumes "meta_new cs = Some m"
    and "data_new m vk (Ptr Memory (Integer v)) (Ptr Calldata (Integer p)) = Some d"
    and "queries m d = Some qs"
    and "distinct (cs_advice_queries cs)" and "distinct (cs_fixed_queries cs)"
    and "distinct (cs_permutation cs)"
  shows "\<exists>evals w. evals = p + 0x40 * sum_list (num_advices m) \<and> w = evals + 0x20 * cm_num_evals m
    \<and> da_w_cptr d = Ptr Calldata (Integer w)
    \<and> p + proof_len m scheme = w + batch_open_proof_len m scheme
    \<and> mset (map q_eval qs) = mset (map (\<lambda>i. word_at Calldata (evals + 0x20 * i)) [0..<cm_num_evals m])
        + {#EvmWord (Ptr Memory (Identifier ''QUOTIENT_EVAL_MPTR''))#}"
  using queries_evals [OF assms] eval_start_points [OF assms(1)] lookup_eval_start_evals [OF assms(1), of p]
    assms(2)
  by (auto simp: data_new_Integer eval_start_def proof_len_def)

lemma sample_queries:
  obtains qs where "queries sample_meta sample_data = Some qs"
proof -
  have "\<exists>qs. queries sample_meta sample_data = Some qs"
    unfolding queries_def sample_data_def data_new_Integer
    by (simp add: sample_meta_eq(2) hash_map_def at_index_def upt_rec fixed_start_def eval_start_def proof_points_def)
  with that show ?thesis by blast
qed

theorem proof_layout_complete_witness:
  "\<exists>qs. queries sample_meta sample_data = Some qs
    \<and> (\<exists>evals w. evals = 0x84 + 0x40 * 10 \<and> w = evals + 0x20 * 17
      \<and> da_w_cptr sample_data = Ptr Calldata (Integer w)
      \<and> 0x84 + proof_len sample_meta Bdfg21 = w + 0x80
      \<and> mset (map q_eval qs) = mset (map (\<lambda>i. word_at Calldata (evals + 0x20 * i)) [0..<17])
          + {#EvmWord (Ptr Memory (Identifier ''QUOTIENT_EVAL_MPTR''))#})"
proof -
  obtain qs where "queries sample_meta sample_data = Some qs" by (rule sample_queries)
  moreover from proof_layout_complete [OF sample_meta_eq(1) sample_data_eq this, of Bdfg21]
  show ?thesis using calculation
    by (simp add: sample_circuit_def sample_meta_eq(2) num_advices_def batch_open_proof_len_def)
qed

text \<open>
  The GWC19 grouping has one set for each rotation that is queried, with the commitments and
  evaluations of the queries at this rotation in their order, and the constraint system's count of
  rotations, on which the length of the proof rests, is the number of these sets.
\<close>

theorem gwc19_rotation_sets_correct:
  assumes "meta_new cs = Some m"
    and "data_new m vk (Ptr Memory (Integer v)) (Ptr Calldata (Integer p)) = Some d"
    and "queries m d = Some qs"
  shows "cm_num_rotations m = length (gwc19_rotation_sets qs)
    \<and> distinct (map gs_rot (gwc19_rotation_sets qs))
    \<and> gs_rot ` set (gwc19_rotation_sets qs) = q_rot ` set qs
    \<and> (\<forall>s\<in>set (gwc19_rotation_sets qs).
        gs_comms s = map q_comm (filter (\<lambda>q. q_rot q = gs_rot s) qs)
        \<and> gs_evals s = map q_eval (filter (\<lambda>q. q_rot q = gs_rot s) qs))"
  using gwc19_rotation_sets_ok [of qs] length_gwc19_rotation_sets [of qs] meta_new_shape(4) [OF assms(1)]
    queries_rots [OF assms]
  by (simp add: list_all_iff gwc_set_ok_def)

theorem gwc19_rotation_sets_correct_witness:
  "\<exists>qs. queries sample_meta sample_data = Some qs \<and> length (gwc19_rotation_sets qs) = 4"
proof -
  obtain qs where "queries sample_meta sample_data = Some qs" by (rule sample_queries)
  with gwc19_rotation_sets_correct [OF sample_meta_eq(1) sample_data_eq this] show ?thesis
    by (simp add: sample_meta_eq(2))
qed

end
