(* ===== verification/HaloBdfg.thy ===== *)
theory HaloBdfg
  imports HaloPcs
begin

text \<open>
  The code of the BDFG21 (SHPLONK) scheme, \<open>halo2-verifier/src/lib/codegen/pcs/bdfg21.rs\<close>: the
  record \<open>bdfg21_locals\<close> holds the local variables of \<open>computations\<close>, that is the layout of the
  scratch memory, and one definition each prints a block of the generated code.

  A \<open>BTreeMap\<close> is the list of its entries sorted by key; an index that is not in it panics.
\<close>

section \<open>The layout of the scratch memory\<close>

record bdfg21_locals =
  bl_superset :: "int list"
  bl_sets :: "rotation_set list"
  bl_min_rot :: int
  bl_max_rot :: int
  bl_w :: ec_point
  bl_w_prime :: ec_point
  bl_diff_0 :: evm_word
  bl_coeffs :: "evm_word list list"
  bl_first_batch_invert_end :: ptr
  bl_second_batch_invert_end :: ptr
  bl_free_mptr :: ptr
  bl_point_vars :: "(int \<times> string) list"
  bl_points :: "(int \<times> evm_word) list"
  bl_mu_minus_points :: "(int \<times> evm_word) list"
  bl_vanishing_0 :: evm_word
  bl_diffs :: "evm_word list"
  bl_r_evals :: "evm_word list"
  bl_sums :: "evm_word list"

definition first_of :: "'a list \<Rightarrow> 'a option" where
  "first_of xs = (if xs = [] then None else Some (hd xs))"

definition last_of :: "'a list \<Rightarrow> 'a option" where
  "last_of xs = (if xs = [] then None else Some (last xs))"

fun coeff_words :: "ptr \<Rightarrow> rotation_set list \<Rightarrow> evm_word list list option" where
  "coeff_words state [] = Some []"
| "coeff_words state (s # sets) = do {
     ptrs \<leftarrow> word_range state (length (rs_rots s));
     state' \<leftarrow> ptr_add state (length (rs_rots s));
     rest \<leftarrow> coeff_words state' sets;
     Some (ptrs # rest) }"

definition bdfg21_locals_of :: "constraint_system_meta \<Rightarrow> data \<Rightarrow> bdfg21_locals option" where
  "bdfg21_locals_of m d = do {
     qs \<leftarrow> queries m d;
     (superset, sets) \<leftarrow> bdfg21_rotation_sets qs;
     min_rot \<leftarrow> first_of superset;
     max_rot \<leftarrow> last_of superset;

     w \<leftarrow> ec_from_ptr (da_w_cptr d);
     w_prime_cptr \<leftarrow> ptr_add (da_w_cptr d) 2;
     w_prime \<leftarrow> ec_from_ptr w_prime_cptr;

     let diff_0 = EvmWord (Ptr Memory (Integer 0x00));
     coeff_mptr \<leftarrow> ptr_add (word_ptr diff_0) 1;
     coeffs \<leftarrow> coeff_words coeff_mptr sets;

     first_batch_invert_end \<leftarrow> ptr_add coeff_mptr (num_coeffs sets);
     second_batch_invert_end \<leftarrow> ptr_add (word_ptr diff_0) (length sets);
     free_mptr \<leftarrow> ptr_add (word_ptr diff_0) (2 * (1 + num_coeffs sets) + 6);

     let point_mptr = free_mptr;
     mu_minus_point_mptr \<leftarrow> ptr_add point_mptr (length superset);
     vanishing_0_mptr \<leftarrow> ptr_add mu_minus_point_mptr (length superset);
     diff_mptr \<leftarrow> ptr_add vanishing_0_mptr 1;
     r_eval_mptr \<leftarrow> ptr_add diff_mptr (length sets);
     sum_mptr \<leftarrow> ptr_add r_eval_mptr (length sets);

     points \<leftarrow> word_range point_mptr (length superset);
     mu_minus_points \<leftarrow> word_range mu_minus_point_mptr (length superset);
     diffs \<leftarrow> word_range diff_mptr (length sets);
     r_evals \<leftarrow> word_range r_eval_mptr (length sets);
     sums \<leftarrow> word_range sum_mptr (length sets);

     Some \<lparr>
       bl_superset = superset,
       bl_sets = sets,
       bl_min_rot = min_rot,
       bl_max_rot = max_rot,
       bl_w = w,
       bl_w_prime = w_prime,
       bl_diff_0 = diff_0,
       bl_coeffs = coeffs,
       bl_first_batch_invert_end = first_batch_invert_end,
       bl_second_batch_invert_end = second_batch_invert_end,
       bl_free_mptr = free_mptr,
       bl_point_vars = zip superset (map (\<lambda>idx. ''point_'' @ show_dec idx) [0..<length superset]),
       bl_points = zip superset points,
       bl_mu_minus_points = zip superset mu_minus_points,
       bl_vanishing_0 = EvmWord vanishing_0_mptr,
       bl_diffs = diffs,
       bl_r_evals = r_evals,
       bl_sums = sums \<rparr> }"

section \<open>Points\<close>

definition opt_lines :: "'a option \<Rightarrow> ('a \<Rightarrow> string list) \<Rightarrow> string list" where
  "opt_lines v f = (case v of None \<Rightarrow> [] | Some x \<Rightarrow> f x)"

text \<open>The powers of \<open>omega\<close> between \<open>x\<close> and the furthest rotation, in each direction.\<close>

definition power_lines :: "string \<Rightarrow> (int \<Rightarrow> ptr option) \<Rightarrow> int \<Rightarrow> int list \<Rightarrow> string list" where
  "power_lines generator point furthest rots = concat (map (\<lambda>rot.
     opt_lines (point rot) (\<lambda>p. [''mstore('' @ show_ptr p @ '', x_pow_of_omega)''])
     @ (if rot \<noteq> furthest
        then [''x_pow_of_omega := mulmod(x_pow_of_omega, '' @ generator @ '', r)''] else [])) rots)"

definition point_computations :: "int \<Rightarrow> int \<Rightarrow> (int \<Rightarrow> ptr option) \<Rightarrow> string list option" where
  "point_computations min_rot max_rot point = do {
     point_0 \<leftarrow> point 0;
     Some ([
         ''let x := mload(X_MPTR)'',
         ''let omega := mload(OMEGA_MPTR)'',
         ''let omega_inv := mload(OMEGA_INV_MPTR)'',
         ''let x_pow_of_omega := mulmod(x, omega, r)'']
       @ power_lines ''omega'' point max_rot [1..max_rot]
       @ [''mstore('' @ show_ptr point_0 @ '', x)'',
          ''x_pow_of_omega := mulmod(x, omega_inv, r)'']
       @ power_lines ''omega_inv'' point min_rot (rev [min_rot..-1])) }"

definition bdfg21_point_computations :: "bdfg21_locals \<Rightarrow> string list option" where
  "bdfg21_point_computations l =
     point_computations (bl_min_rot l) (bl_max_rot l) (map_option word_ptr \<circ> map_of (bl_points l))"

section \<open>Vanishing polynomials\<close>

definition product_lines :: "string \<Rightarrow> evm_word list \<Rightarrow> string list" where
  "product_lines var factors =
     map (\<lambda>factor. var @ '' := mulmod('' @ var @ '', '' @ show_word factor @ '', r)'') factors"

definition diff_lines ::
  "bdfg21_locals \<Rightarrow> nat \<times> rotation_set \<times> evm_word \<Rightarrow> string list option" where
  "diff_lines l args = (case args of (set_idx, s, diff) \<Rightarrow> do {
     factors \<leftarrow> those (map (map_of (bl_mu_minus_points l)) (rs_diffs s));
     Some ([if factors = [] then ''diff := 1'' else ''diff := '' @ show_word (hd factors)]
       @ product_lines ''diff'' (drop 1 factors)
       @ [''mstore('' @ show_ptr (word_ptr diff) @ '', diff)'']
       @ (if set_idx = 0 then [''mstore('' @ show_ptr (word_ptr (bl_diff_0 l)) @ '', diff)''] else [])) })"

definition vanishing_computations :: "bdfg21_locals \<Rightarrow> string list option" where
  "vanishing_computations l = do {
     first_point \<leftarrow> first_of (bl_mu_minus_points l);
     let mptr = word_ptr (snd first_point);
     mptr_end \<leftarrow> ptr_add mptr (length (bl_mu_minus_points l));
     set_0 \<leftarrow> at_index (bl_sets l) 0;
     first_rot \<leftarrow> first_of (rs_rots set_0);
     factors \<leftarrow> those (map (map_of (bl_mu_minus_points l)) (rs_rots set_0));
     first_factor \<leftarrow> first_of factors;
     diffs \<leftarrow> those (map (diff_lines l) (zip [0..<length (bl_sets l)] (zip (bl_sets l) (bl_diffs l))));
     Some ([''let mu := mload(MU_MPTR)'']
       @ for_loop
           [''let mptr := '' @ show_ptr mptr,
            ''let mptr_end := '' @ show_ptr mptr_end,
            ''let point_mptr := '' @ show_ptr (bl_free_mptr l)]
           ''lt(mptr, mptr_end)''
           [''mptr := add(mptr, 0x20)'',
            ''point_mptr := add(point_mptr, 0x20)'']
           [''mstore(mptr, addmod(mu, sub(r, mload(point_mptr)), r))'']
       @ [''let s'']
       @ [''s := '' @ show_word first_factor]
       @ product_lines ''s'' (drop 1 factors)
       @ [''mstore('' @ show_ptr (word_ptr (bl_vanishing_0 l)) @ '', s)'']
       @ [''let diff'']
       @ concat diffs) }"

section \<open>Lagrange coefficients\<close>

text \<open>For each point, itself paired with every other point of the set.\<close>

definition coeff_points :: "string list \<Rightarrow> (string \<times> string) list list" where
  "coeff_points vars = map (\<lambda>i. map (\<lambda>j. (vars ! i, vars ! j))
     (filter (\<lambda>j. i \<noteq> j) [0..<length vars])) [0..<length vars]"

definition difference :: "string \<times> string \<Rightarrow> string" where
  "difference pair = (case pair of (point_i, point_j) \<Rightarrow> add_r point_i (neg_r point_j))"

definition coeff_lines :: "evm_word \<Rightarrow> (string \<times> string) list \<Rightarrow> evm_word \<Rightarrow> string list" where
  "coeff_lines mu_minus_point pairs coeff =
     [if pairs = [] then ''coeff := 1'' else ''coeff := '' @ difference (hd pairs)]
     @ map (\<lambda>pair. ''coeff := mulmod(coeff, '' @ difference pair @ '', r)'') (drop 1 pairs)
     @ [''coeff := mulmod(coeff, '' @ show_word mu_minus_point @ '', r)'',
        ''mstore('' @ show_ptr (word_ptr coeff) @ '', coeff)'']"

definition coeff_computations ::
  "bdfg21_locals \<Rightarrow> rotation_set \<times> evm_word list \<Rightarrow> string list option" where
  "coeff_computations l args = (case args of (s, coeffs) \<Rightarrow> do {
     vars \<leftarrow> those (map (map_of (bl_point_vars l)) (rs_rots s));
     points \<leftarrow> those (map (map_of (bl_points l)) (rs_rots s));
     mu_minus_points \<leftarrow> those (map (map_of (bl_mu_minus_points l)) (rs_rots s));
     Some (map (\<lambda>(var, point). ''let '' @ var @ '' := '' @ show_word point) (zip vars points)
       @ [''let coeff'']
       @ concat (map (\<lambda>(mu_minus_point, pairs, coeff). coeff_lines mu_minus_point pairs coeff)
           (zip mu_minus_points (zip (coeff_points vars) coeffs)))) })"

definition normalized_coeff_computations :: "bdfg21_locals \<Rightarrow> string list option" where
  "normalized_coeff_computations l = do {
     first_diff \<leftarrow> at_index (bl_diffs l) 0;
     mptr \<leftarrow> ptr_add (word_ptr first_diff) 1;
     mptr_end \<leftarrow> ptr_add (word_ptr first_diff) (length (bl_sets l));
     Some ([
         ''success := batch_invert(success, 0, '' @ show_ptr (bl_first_batch_invert_end l) @ '', r)'',
         ''let diff_0_inv := '' @ show_word (bl_diff_0 l),
         ''mstore('' @ show_ptr (word_ptr first_diff) @ '', diff_0_inv)'']
       @ for_loop
           [''let mptr := '' @ show_ptr mptr,
            ''let mptr_end := '' @ show_ptr mptr_end]
           ''lt(mptr, mptr_end)''
           [''mptr := add(mptr, 0x20)'']
           [''mstore(mptr, mulmod(mload(mptr), diff_0_inv, r))'']) }"

section \<open>Evaluations\<close>

definition single_rot_group :: "location \<times> evm_word list \<Rightarrow> string list option" where
  "single_rot_group grp = (case grp of (loc, evals) \<Rightarrow>
     if length evals < 3 then
       Some (concat (map (\<lambda>ev. [
         ''r_eval := mulmod(r_eval, zeta, r)'',
         ''r_eval := addmod(r_eval, mulmod(coeff, '' @ show_word ev @ '', r), r)'']) evals))
     else if loc \<noteq> Calldata then None
     else do {
       cptr_end \<leftarrow> ptr_sub (word_ptr (evals ! 0)) (length evals);
       Some (for_loop
         [''let cptr := '' @ show_ptr (word_ptr (evals ! 0)),
          ''let cptr_end := '' @ show_ptr cptr_end]
         ''lt(cptr_end, cptr)''
         [''cptr := sub(cptr, 0x20)'']
         [''r_eval := addmod(mulmod(r_eval, zeta, r), mulmod(coeff, calldataload(cptr), r), r)'']) })"

definition single_rot_lines :: "rotation_set \<Rightarrow> string list option" where
  "single_rot_lines s = do {
     evals \<leftarrow> those (map (\<lambda>evals. at_index evals 0) (rs_evals s));
     eval_groups \<leftarrow> group_backward_adjacent_words (drop 1 (rev evals));
     groups \<leftarrow> those (map single_rot_group eval_groups);
     Some (opt_lines (last_of evals) (\<lambda>ev. [''r_eval := mulmod(coeff, '' @ show_word ev @ '', r)''])
       @ concat groups) }"

definition multi_rot_lines :: "rotation_set \<Rightarrow> evm_word list \<Rightarrow> string list" where
  "multi_rot_lines s coeffs = concat (map (\<lambda>(idx, evals).
     map (\<lambda>(ev, coeff). ''r_eval := addmod(r_eval, mulmod('' @ show_word coeff @ '', ''
         @ show_word ev @ '', r), r)'') (zip evals coeffs)
     @ (if idx \<noteq> 0 then [''r_eval := mulmod(r_eval, zeta, r)''] else []))
     (rev (zip [0..<length (rs_evals s)] (rs_evals s))))"

definition r_evals_computations ::
  "nat \<times> rotation_set \<times> evm_word list \<times> evm_word \<times> evm_word \<Rightarrow> string list option" where
  "r_evals_computations args = (case args of (set_idx, s, coeffs, set_coeff, r_eval) \<Rightarrow>
     let is_single_rot_set = length (rs_rots s) = 1
     in do {
       declaration \<leftarrow> (if is_single_rot_set then do {
           coeff \<leftarrow> at_index coeffs 0;
           Some [''let coeff := '' @ show_word coeff] }
         else Some []);
       evaluation \<leftarrow> (if is_single_rot_set then single_rot_lines s else Some (multi_rot_lines s coeffs));
       Some (declaration
         @ [''let zeta := mload(ZETA_MPTR)'', ''let r_eval'']
         @ evaluation
         @ (if set_idx \<noteq> 0 then [''r_eval := mulmod(r_eval, '' @ show_word set_coeff @ '', r)''] else [])
         @ [''mstore('' @ show_ptr (word_ptr r_eval) @ '', r_eval)'']) })"

definition coeff_sums_computation :: "evm_word list \<times> evm_word \<Rightarrow> string list option" where
  "coeff_sums_computation args = (case args of (coeffs, sum_word) \<Rightarrow> do {
     coeff_0 \<leftarrow> first_of coeffs;
     Some ([''let sum := '' @ show_word coeff_0]
       @ map (\<lambda>coeff. ''sum := addmod(sum, '' @ show_word coeff @ '', r)'') (drop 1 coeffs)
       @ [''mstore('' @ show_ptr (word_ptr sum_word) @ '', sum)'']) })"

definition r_eval_computations :: "bdfg21_locals \<Rightarrow> string list option" where
  "r_eval_computations l = do {
     first_sum \<leftarrow> at_index (bl_sums l) 0;
     last_sum_inv_mptr \<leftarrow> ptr_sub (bl_second_batch_invert_end l) 1;
     last_r_eval \<leftarrow> last_of (bl_r_evals l);
     sum_inv_mptr \<leftarrow> ptr_sub (bl_second_batch_invert_end l) 2;
     second_last \<leftarrow> usize_sub (length (bl_r_evals l)) 2;
     r_eval \<leftarrow> at_index (bl_r_evals l) second_last;
     Some (for_loop
         [''let mptr := 0x00'',
          ''let mptr_end := '' @ show_ptr (bl_second_batch_invert_end l),
          ''let sum_mptr := '' @ show_ptr (word_ptr first_sum)]
         ''lt(mptr, mptr_end)''
         [''mptr := add(mptr, 0x20)'', ''sum_mptr := add(sum_mptr, 0x20)'']
         [''mstore(mptr, mload(sum_mptr))'']
       @ [''success := batch_invert(success, 0, '' @ show_ptr (bl_second_batch_invert_end l) @ '', r)'',
          ''let r_eval := mulmod(mload('' @ show_ptr last_sum_inv_mptr @ ''), ''
            @ show_word last_r_eval @ '', r)'']
       @ for_loop
         [''let sum_inv_mptr := '' @ show_ptr sum_inv_mptr,
          ''let sum_inv_mptr_end := '' @ show_ptr (bl_second_batch_invert_end l),
          ''let r_eval_mptr := '' @ show_ptr (word_ptr r_eval)]
         ''lt(sum_inv_mptr, sum_inv_mptr_end)''
         [''sum_inv_mptr := sub(sum_inv_mptr, 0x20)'',
          ''r_eval_mptr := sub(r_eval_mptr, 0x20)'']
         [''r_eval := mulmod(r_eval, mload(NU_MPTR), r)'',
          ''r_eval := addmod(r_eval, mulmod(mload(sum_inv_mptr), mload(r_eval_mptr), r), r)'']
       @ [''mstore(G1_SCALAR_MPTR, sub(r, r_eval))'']) }"

section \<open>Pairing input\<close>

text \<open>The commitments of a set, accumulated with powers of \<open>factor\<close>.\<close>

definition ec_group_lines ::
  "string \<Rightarrow> string \<Rightarrow> string \<Rightarrow> location \<times> ec_point list \<Rightarrow> string list option" where
  "ec_group_lines ec_mul ec_add factor grp = (case grp of (loc, comms) \<Rightarrow>
     if length comms < 3 then
       Some (concat (map (\<lambda>comm. [
         ''success := '' @ ec_mul @ ''(success, '' @ factor @ '')'',
         ''success := '' @ ec_add @ ''(success, '' @ show_word (ec_x comm) @ '', ''
           @ show_word (ec_y comm) @ '')'']) comms))
     else do {
       let ptr = word_ptr (ec_x (hd comms));
       ptr_end \<leftarrow> ptr_sub ptr (2 * length comms);
       let x = EvmWord (Ptr loc (Identifier ''ptr''));
       let y = EvmWord (Ptr loc (Identifier ''add(ptr, 0x20)''));
       Some (for_loop
         [''let ptr := '' @ show_ptr ptr,
          ''let ptr_end := '' @ show_ptr ptr_end]
         ''lt(ptr_end, ptr)''
         [''ptr := sub(ptr, 0x40)'']
         [''success := '' @ ec_mul @ ''(success, '' @ factor @ '')'',
          ''success := '' @ ec_add @ ''(success, '' @ show_word x @ '', '' @ show_word y @ '')'']) })"

definition comm_lines ::
  "bool \<Rightarrow> string \<Rightarrow> ec_point list \<Rightarrow> string list option" where
  "comm_lines into_acc factor comms = do {
     let suffix = (if into_acc then ''acc'' else ''tmp'');
     acc_x \<leftarrow> ptr_add (Ptr Memory (Integer 0x00)) (if into_acc then 0 else 4);
     acc_y \<leftarrow> ptr_add acc_x 1;
     comm_groups \<leftarrow> group_backward_adjacent_ec_points (drop 1 (rev comms));
     groups \<leftarrow> those (map (ec_group_lines (''ec_mul_'' @ suffix) (''ec_add_'' @ suffix) factor) comm_groups);
     Some (opt_lines (last_of comms) (\<lambda>comm. [
         ''mstore('' @ show_ptr acc_x @ '', '' @ show_word (ec_x comm) @ '')'',
         ''mstore('' @ show_ptr acc_y @ '', '' @ show_word (ec_y comm) @ '')''])
       @ concat groups) }"

definition bdfg21_set_lines ::
  "bdfg21_locals \<Rightarrow> nat \<times> rotation_set \<times> evm_word \<Rightarrow> string list option" where
  "bdfg21_set_lines l args = (case args of (set_idx, s, set_coeff) \<Rightarrow>
     let is_first_set = set_idx = 0; is_last_set = set_idx = length (bl_sets l) - 1
     in do {
       comms \<leftarrow> comm_lines is_first_set ''zeta'' (rs_comms s);
       Some (comms @ (if \<not> is_first_set then
         [''success := ec_mul_tmp(success, mulmod(nu, '' @ show_word set_coeff @ '', r))'',
          ''success := ec_add_acc(success, mload(0x80), mload(0xa0))'']
         @ (if \<not> is_last_set then [''nu := mulmod(nu, mload(NU_MPTR), r)''] else []) else [])) })"

definition pairing_input_computations :: "bdfg21_locals \<Rightarrow> string list option" where
  "pairing_input_computations l = do {
     sets \<leftarrow> those (map (bdfg21_set_lines l) (zip [0..<length (bl_sets l)] (zip (bl_sets l) (bl_diffs l))));
     Some ([''let zeta := mload(ZETA_MPTR)'', ''let nu := mload(NU_MPTR)'']
       @ concat sets
       @ [''mstore(0x80, mload(G1_X_MPTR))'',
          ''mstore(0xa0, mload(G1_Y_MPTR))'',
          ''success := ec_mul_tmp(success, mload(G1_SCALAR_MPTR))'',
          ''success := ec_add_acc(success, mload(0x80), mload(0xa0))'',
          ''mstore(0x80, '' @ show_word (ec_x (bl_w l)) @ '')'',
          ''mstore(0xa0, '' @ show_word (ec_y (bl_w l)) @ '')'',
          ''success := ec_mul_tmp(success, sub(r, '' @ show_word (bl_vanishing_0 l) @ ''))'',
          ''success := ec_add_acc(success, mload(0x80), mload(0xa0))'',
          ''mstore(0x80, '' @ show_word (ec_x (bl_w_prime l)) @ '')'',
          ''mstore(0xa0, '' @ show_word (ec_y (bl_w_prime l)) @ '')'',
          ''success := ec_mul_tmp(success, mload(MU_MPTR))'',
          ''success := ec_add_acc(success, mload(0x80), mload(0xa0))'',
          ''mstore(PAIRING_LHS_X_MPTR, mload(0x00))'',
          ''mstore(PAIRING_LHS_Y_MPTR, mload(0x20))'',
          ''mstore(PAIRING_RHS_X_MPTR, '' @ show_word (ec_x (bl_w_prime l)) @ '')'',
          ''mstore(PAIRING_RHS_Y_MPTR, '' @ show_word (ec_y (bl_w_prime l)) @ '')'']) }"

section \<open>All computations\<close>

definition bdfg21_computations :: "constraint_system_meta \<Rightarrow> data \<Rightarrow> string list list option" where
  "bdfg21_computations m d = do {
     l \<leftarrow> bdfg21_locals_of m d;
     points \<leftarrow> bdfg21_point_computations l;
     vanishing \<leftarrow> vanishing_computations l;
     coeffs \<leftarrow> those (map (coeff_computations l) (zip (bl_sets l) (bl_coeffs l)));
     normalized_coeffs \<leftarrow> normalized_coeff_computations l;
     r_evals \<leftarrow> those (map r_evals_computations (zip [0..<length (bl_sets l)]
       (zip (bl_sets l) (zip (bl_coeffs l) (zip (bl_diffs l) (bl_r_evals l))))));
     coeff_sums \<leftarrow> those (map coeff_sums_computation (zip (bl_coeffs l) (bl_sums l)));
     r_eval \<leftarrow> r_eval_computations l;
     pairing_input \<leftarrow> pairing_input_computations l;
     Some ([points, vanishing] @ coeffs @ [normalized_coeffs] @ r_evals @ coeff_sums
       @ [r_eval, pairing_input]) }"

end
