(* ===== verification/HaloGwc.thy ===== *)
theory HaloGwc
  imports HaloBdfg
begin

text \<open>
  The code of the GWC19 scheme, \<open>halo2-verifier/src/lib/codegen/pcs/gwc19.rs\<close>, and the choice
  between the two schemes, \<open>pcs.rs\<close>. One definition prints each of the five blocks.
\<close>

section \<open>GWC19\<close>

definition min_max_rot :: "int list \<Rightarrow> int \<times> int" where
  "min_max_rot rots = (if rots = [] then (0, 0)
     else (foldr min (tl rots) (hd rots), foldr max (tl rots) (hd rots)))"

definition gwc19_eval_group :: "string \<Rightarrow> location \<times> evm_word list \<Rightarrow> string list option" where
  "gwc19_eval_group eval_acc grp = (case grp of (loc, evals) \<Rightarrow>
     if length evals < 3 then
       Some (map (\<lambda>ev. eval_acc @ '' := addmod(mulmod('' @ eval_acc @ '', nu, r), '' @ show_word ev
         @ '', r)'') evals)
     else if loc \<noteq> Calldata then None
     else do {
       cptr_end \<leftarrow> ptr_sub (word_ptr (evals ! 0)) (length evals);
       Some (for_loop
         [''let cptr := '' @ show_ptr (word_ptr (evals ! 0)),
          ''let cptr_end := '' @ show_ptr cptr_end]
         ''lt(cptr_end, cptr)''
         [''cptr := sub(cptr, 0x20)'']
         [eval_acc @ '' := addmod(mulmod('' @ eval_acc @ '', nu, r), calldataload(cptr), r)'']) })"

definition gwc19_eval_set :: "nat \<Rightarrow> nat \<times> gwc_rotation_set \<Rightarrow> string list option" where
  "gwc19_eval_set num_sets args = (case args of (set_idx, s) \<Rightarrow>
     let is_last_set = set_idx = num_sets - 1;
         eval_acc = ''eval_'' @ (if is_last_set then ''acc'' else ''tmp'')
     in do {
       eval_groups \<leftarrow> group_backward_adjacent_words (drop 1 (rev (gs_evals s)));
       groups \<leftarrow> those (map (gwc19_eval_group eval_acc) eval_groups);
       Some (opt_lines (last_of (gs_evals s)) (\<lambda>ev. [eval_acc @ '' := '' @ show_word ev])
         @ concat groups
         @ (if \<not> is_last_set then
             [''eval_acc := mulmod(eval_acc, mu, r)'',
              ''eval_acc := addmod(eval_acc, eval_tmp, r)''] else [])) })"

definition gwc19_eval_computations :: "gwc_rotation_set list \<Rightarrow> string list option" where
  "gwc19_eval_computations sets = do {
     blocks \<leftarrow> those (map (gwc19_eval_set (length sets)) (rev (zip [0..<length sets] sets)));
     Some ([''let nu := mload(NU_MPTR)'',
         ''let mu := mload(MU_MPTR)'',
         ''let eval_acc'',
         ''let eval_tmp'']
       @ concat blocks
       @ [''mstore(G1_SCALAR_MPTR, sub(r, eval_acc))'']) }"

definition gwc19_point_computations ::
  "gwc_rotation_set list \<Rightarrow> (int \<times> ec_point) list \<Rightarrow> string list option" where
  "gwc19_point_computations sets point_ws = (case min_max_rot (map gs_rot sets) of (min_rot, max_rot) \<Rightarrow>
     point_computations min_rot max_rot (map_option (word_ptr \<circ> ec_x) \<circ> map_of point_ws))"

definition point_w_computations :: "data \<Rightarrow> ptr \<Rightarrow> nat \<Rightarrow> string list option" where
  "point_w_computations d point_w_mptr num_sets = do {
     mptr_end \<leftarrow> ptr_add point_w_mptr (2 * num_sets);
     Some (for_loop
       [''let cptr := '' @ show_ptr (da_w_cptr d),
        ''let mptr := '' @ show_ptr point_w_mptr,
        ''let mptr_end := '' @ show_ptr mptr_end]
       ''lt(mptr, mptr_end)''
       [''mptr := add(mptr, 0x40)'', ''cptr := add(cptr, 0x40)'']
       [''mstore(0x00, calldataload(cptr))'',
        ''mstore(0x20, calldataload(add(cptr, 0x20)))'',
        ''success := ec_mul_acc(success, mload(mptr))'',
        ''mstore(mptr, mload(0x00))'',
        ''mstore(add(mptr, 0x20), mload(0x20))'']) }"

definition gwc19_set_lines ::
  "nat \<Rightarrow> (int \<times> ec_point) list \<Rightarrow> nat \<times> gwc_rotation_set \<Rightarrow> string list option" where
  "gwc19_set_lines num_sets point_ws args = (case args of (set_idx, s) \<Rightarrow>
     let is_last_set = set_idx = num_sets - 1;
         ec_add = ''ec_add_'' @ (if is_last_set then ''acc'' else ''tmp'')
     in do {
       point_w \<leftarrow> map_of point_ws (gs_rot s);
       comms \<leftarrow> comm_lines is_last_set ''nu'' (gs_comms s);
       Some (comms
         @ [''success := '' @ ec_add @ ''(success, '' @ show_word (ec_x point_w) @ '', ''
             @ show_word (ec_y point_w) @ '')'']
         @ (if \<not> is_last_set then
             [''success := ec_mul_acc(success, mu)'',
              ''success := ec_add_acc(success, mload(0x80), mload(0xa0))''] else [])) })"

definition pairing_lhs_computations ::
  "gwc_rotation_set list \<Rightarrow> (int \<times> ec_point) list \<Rightarrow> string list option" where
  "pairing_lhs_computations sets point_ws = do {
     blocks \<leftarrow> those (map (gwc19_set_lines (length sets) point_ws) (rev (zip [0..<length sets] sets)));
     Some ([''let nu := mload(NU_MPTR)'', ''let mu := mload(MU_MPTR)'']
       @ concat blocks
       @ [''mstore(0x80, mload(G1_X_MPTR))'',
          ''mstore(0xa0, mload(G1_Y_MPTR))'',
          ''success := ec_mul_tmp(success, mload(G1_SCALAR_MPTR))'',
          ''success := ec_add_acc(success, mload(0x80), mload(0xa0))'',
          ''mstore(PAIRING_LHS_X_MPTR, mload(0x00))'',
          ''mstore(PAIRING_LHS_Y_MPTR, mload(0x20))'']) }"

definition pairing_rhs_computations :: "ec_point list \<Rightarrow> string list option" where
  "pairing_rhs_computations ws = do {
     last_w \<leftarrow> last_of ws;
     loop \<leftarrow> (if length ws < 2 then Some [] else do {
       let w_second_last = ws ! (length ws - 2);
       cptr_end \<leftarrow> ptr_sub (word_ptr (ec_x (ws ! 0))) 1;
       Some (for_loop
         [''let cptr := '' @ show_ptr (word_ptr (ec_x w_second_last)),
          ''let cptr_end := '' @ show_ptr cptr_end]
         ''lt(cptr_end, cptr)''
         [''cptr := sub(cptr, 0x40)'']
         [''success := ec_mul_acc(success, mu)'',
          ''success := ec_add_acc(success, calldataload(cptr), calldataload(add(cptr, 0x20)))'']) });
     Some ([''let mu := mload(MU_MPTR)'',
         ''mstore(0x00, '' @ show_word (ec_x last_w) @ '')'',
         ''mstore(0x20, '' @ show_word (ec_y last_w) @ '')'']
       @ loop
       @ [''mstore(PAIRING_RHS_X_MPTR, mload(0x00))'',
          ''mstore(PAIRING_RHS_Y_MPTR, mload(0x20))'']) }"

definition gwc19_computations :: "constraint_system_meta \<Rightarrow> data \<Rightarrow> string list list option" where
  "gwc19_computations m d = do {
     qs \<leftarrow> queries m d;
     let sets = gwc19_rotation_sets qs;
     ws \<leftarrow> ec_range (da_w_cptr d) (length sets);
     let point_w_mptr = Ptr Memory (Integer 0x100);
     points \<leftarrow> ec_range point_w_mptr (length sets);
     let point_ws = zip (map gs_rot sets) points;
     evals \<leftarrow> gwc19_eval_computations sets;
     point_lines \<leftarrow> gwc19_point_computations sets point_ws;
     point_w_lines \<leftarrow> point_w_computations d point_w_mptr (length sets);
     pairing_lhs \<leftarrow> pairing_lhs_computations sets point_ws;
     pairing_rhs \<leftarrow> pairing_rhs_computations ws;
     Some [evals, point_lines, point_w_lines, pairing_lhs, pairing_rhs] }"

section \<open>The scheme\<close>

definition pcs_computations ::
  "batch_open_scheme \<Rightarrow> constraint_system_meta \<Rightarrow> data \<Rightarrow> string list list option" where
  "pcs_computations scheme m d = (case scheme of
      Bdfg21 \<Rightarrow> bdfg21_computations m d
    | Gwc19 \<Rightarrow> gwc19_computations m d)"

end
