(* ===== verification/HaloGenerator.thy ===== *)
theory HaloGenerator
  imports HaloArguments HaloGwc
begin

text \<open>
  The generator itself, \<open>halo2-verifier/src/lib/codegen.rs\<close>, with the structures handed to the
  templates (\<open>template.rs\<close>) and \<open>verifier_contract.rs\<close>.

  The verifying key, its evaluation domain and the trusted setup are data of \<open>halo2_proofs\<close>: the
  records hold what their accessors return. The curve points come with \<open>coordinates\<close> (\<open>None\<close> at
  infinity), and \<open>invert\<close> is the inverse of the scalar field. Askama turns the templates into code
  at build time: \<open>render_into\<close> is a parameter.
\<close>

section \<open>The generator\<close>

record acc_encoding =
  ae_offset :: nat
  ae_num_limbs :: nat
  ae_num_limb_bits :: nat

definition acc_encoding_new :: "nat \<Rightarrow> nat \<Rightarrow> nat \<Rightarrow> acc_encoding" where
  "acc_encoding_new offset num_limbs num_limb_bits =
     \<lparr>ae_offset = offset, ae_num_limbs = num_limbs, ae_num_limb_bits = num_limb_bits\<rparr>"

record evaluation_domain =
  ed_k :: nat
  ed_omega :: fr
  ed_omega_inv :: fr

record 'p verifying_key =
  vkey_cs :: "fr constraint_system"
  vkey_domain :: evaluation_domain
  vkey_transcript_repr :: fr
  vkey_fixed_commitments :: "'p list"
  vkey_permutation_commitments :: "'p list"

record ('p, 'p2) kzg_params =
  kp_g :: "'p list"
  kp_g2 :: 'p2
  kp_s_g2 :: 'p2

text \<open>The operations of the curve and the field that the generator uses.\<close>

record ('p, 'p2, 'q, 'q2) curve_api =
  ca_base :: "'q field_api"
  ca_to_repr2 :: "'q2 \<Rightarrow> bytes"
  ca_coordinates :: "'p \<Rightarrow> ('q \<times> 'q) option"
  ca_coordinates2 :: "'p2 \<Rightarrow> ('q2 \<times> 'q2) option"
  ca_neg2 :: "'p2 \<Rightarrow> 'p2"
  ca_invert :: "fr \<Rightarrow> fr option"

record ('p, 'p2) solidity_generator =
  sg_params :: "('p, 'p2) kzg_params"
  sg_vk :: "'p verifying_key"
  sg_scheme :: batch_open_scheme
  sg_num_instances :: nat
  sg_acc_encoding :: "acc_encoding option"
  sg_meta :: constraint_system_meta

definition solidity_generator_new ::
  "('p, 'p2) kzg_params \<Rightarrow> 'p verifying_key \<Rightarrow> batch_open_scheme \<Rightarrow> nat \<Rightarrow>
     ('p, 'p2) solidity_generator option" where
  "solidity_generator_new params vk scheme num_instances = (let cs = vkey_cs vk
     in if cs_num_advice_columns cs = 0 then None
        else if \<not> cs_num_instance_columns cs \<le> 1 then None
        else if list_ex (\<lambda>(column, rotation). rotation \<noteq> 0) (cs_instance_queries cs) then None
        else map_option (\<lambda>m. \<lparr>
          sg_params = params, sg_vk = vk, sg_scheme = scheme, sg_num_instances = num_instances,
          sg_acc_encoding = None, sg_meta = m \<rparr>) (meta_new cs))"

definition set_acc_encoding ::
  "acc_encoding option \<Rightarrow> ('p, 'p2) solidity_generator \<Rightarrow> ('p, 'p2) solidity_generator" where
  "set_acc_encoding encoding g = g\<lparr>sg_acc_encoding := encoding\<rparr>"

section \<open>The verifying key\<close>

definition num_neg_lagranges :: "constraint_system_meta \<Rightarrow> nat" where
  "num_neg_lagranges m = nat \<bar>cm_rotation_last m\<bar>"

definition vk_constants_of ::
  "('p, 'p2, 'q, 'q2) curve_api \<Rightarrow> ('p, 'p2) solidity_generator \<Rightarrow> (string \<times> u256) list option" where
  "vk_constants_of api g = do {
     let domain = vkey_domain (sg_vk g);
     let omega_inv_to_l = ed_omega_inv domain ^ num_neg_lagranges (sg_meta g);
     n \<leftarrow> (if ed_k domain < 64 then Some (2 ^ ed_k domain) else None);
     n_inv \<leftarrow> ca_invert api (fr_of_nat n);
     g1 \<leftarrow> at_index (kp_g (sg_params g)) 0;
     (g1_x, g1_y) \<leftarrow> g1_to_u256s (ca_base api) (ca_coordinates api) g1;
     (g2_x_1, g2_x_2, g2_y_1, g2_y_2) \<leftarrow>
       g2_to_u256s (ca_to_repr2 api) (ca_coordinates2 api) (kp_g2 (sg_params g));
     (neg_s_g2_x_1, neg_s_g2_x_2, neg_s_g2_y_1, neg_s_g2_y_2) \<leftarrow>
       g2_to_u256s (ca_to_repr2 api) (ca_coordinates2 api) (ca_neg2 api (kp_s_g2 (sg_params g)));
     let acc = (\<lambda>sel. case sg_acc_encoding g of None \<Rightarrow> 0 | Some e \<Rightarrow> of_nat (sel e));
     Some [
       (''vk_digest'', field_to_u256 Fr (vkey_transcript_repr (sg_vk g))),
       (''num_instances'', of_nat (sg_num_instances g)),
       (''k'', of_nat (ed_k domain)),
       (''n_inv'', field_to_u256 Fr n_inv),
       (''omega'', field_to_u256 Fr (ed_omega domain)),
       (''omega_inv'', field_to_u256 Fr (ed_omega_inv domain)),
       (''omega_inv_to_l'', field_to_u256 Fr omega_inv_to_l),
       (''has_accumulator'', if sg_acc_encoding g \<noteq> None then 1 else 0),
       (''acc_offset'', acc ae_offset),
       (''num_acc_limbs'', acc ae_num_limbs),
       (''num_acc_limb_bits'', acc ae_num_limb_bits),
       (''g1_x'', g1_x),
       (''g1_y'', g1_y),
       (''g2_x_1'', g2_x_1),
       (''g2_x_2'', g2_x_2),
       (''g2_y_1'', g2_y_1),
       (''g2_y_2'', g2_y_2),
       (''neg_s_g2_x_1'', neg_s_g2_x_1),
       (''neg_s_g2_x_2'', neg_s_g2_x_2),
       (''neg_s_g2_y_1'', neg_s_g2_y_1),
       (''neg_s_g2_y_2'', neg_s_g2_y_2)] }"

definition comm_words ::
  "('p, 'p2, 'q, 'q2) curve_api \<Rightarrow> 'p list \<Rightarrow> (u256 \<times> u256) list option" where
  "comm_words api points = do {
     words \<leftarrow> those (map (g1_to_u256s (ca_base api) (ca_coordinates api)) points);
     Some (pairs_of (concat (map (\<lambda>(x, y). [x, y]) words))) }"

definition generate_vk ::
  "('p, 'p2, 'q, 'q2) curve_api \<Rightarrow> ('p, 'p2) solidity_generator \<Rightarrow> halo2_verifying_key option" where
  "generate_vk api g = do {
     constants \<leftarrow> vk_constants_of api g;
     fixed_comms \<leftarrow> comm_words api (vkey_fixed_commitments (sg_vk g));
     permutation_comms \<leftarrow> comm_words api (vkey_permutation_commitments (sg_vk g));
     Some \<lparr>vk_constants = constants, vk_fixed_comms = fixed_comms,
       vk_permutation_comms = permutation_comms\<rparr> }"

section \<open>The verifier\<close>

record halo2_verifier =
  hv_scheme :: batch_open_scheme
  hv_embedded_vk :: "halo2_verifying_key option"
  hv_vk_len :: nat
  hv_proof_len :: nat
  hv_vk_mptr :: ptr
  hv_challenge_mptr :: ptr
  hv_theta_mptr :: ptr
  hv_proof_cptr :: ptr
  hv_quotient_comm_cptr :: ptr
  hv_num_neg_lagranges :: nat
  hv_num_advices :: "nat list"
  hv_num_challenges :: "nat list"
  hv_num_rotations :: nat
  hv_num_evals :: nat
  hv_num_quotients :: nat
  hv_quotient_eval_numer_computations :: "string list list"
  hv_pcs_computations :: "string list list"

definition max_of :: "nat list \<Rightarrow> nat" where
  "max_of ns = foldr max ns 0"

definition static_working_memory_size ::
  "('p, 'p2) solidity_generator \<Rightarrow> halo2_verifying_key \<Rightarrow> ptr \<Rightarrow> nat option" where
  "static_working_memory_size g vk proof_cptr = do {
     mock \<leftarrow> data_new (sg_meta g) vk (Ptr Memory (Integer 0x100000)) proof_cptr;
     pcs_computation \<leftarrow> pcs_static_working_memory_size (sg_scheme g) (sg_meta g) mock;
     Some (max_of [
       max_of (map (\<lambda>n. n * 2 + 1) (num_advices (sg_meta g)) @ [cm_num_evals (sg_meta g) + 1])
         - vk_len vk div 0x20,
       pcs_computation,
       12] * 0x20) }"

text \<open>
  The first computation sets the numerator of the quotient, each other one multiplies it by \<open>y\<close> and
  adds its value.
\<close>

definition numer_lines :: "computation list \<Rightarrow> string list list" where
  "numer_lines computations = map (\<lambda>(idx, ls, var).
     ls @ [if idx = 0 then ''quotient_eval_numer := '' @ var
       else ''quotient_eval_numer := '' @ add_r (mul_r ''quotient_eval_numer'' ''y'') var])
     (zip [0..<length computations] computations)"

definition quotient_eval_numer_computations ::
  "fr constraint_system \<Rightarrow> constraint_system_meta \<Rightarrow> data \<Rightarrow> string list list option" where
  "quotient_eval_numer_computations cs m d = do {
     (gates, s) \<leftarrow> gate_computations Fr cs d evaluator_reset;
     permutations \<leftarrow> permutation_computations m d;
     (lookups, s) \<leftarrow> lookup_computations Fr cs d s;
     Some (numer_lines (gates @ permutations @ lookups)) }"

definition generate_verifier ::
  "('p, 'p2, 'q, 'q2) curve_api \<Rightarrow> ('p, 'p2) solidity_generator \<Rightarrow> bool \<Rightarrow> halo2_verifier option" where
  "generate_verifier api g separate = do {
     let proof_cptr = Ptr Calldata (Integer (if separate then 0x84 else 0x64));
     vk \<leftarrow> generate_vk api g;
     size \<leftarrow> static_working_memory_size g vk proof_cptr;
     let vk_mptr = Ptr Memory (Integer size);
     d \<leftarrow> data_new (sg_meta g) vk vk_mptr proof_cptr;
     quotient_eval_numer \<leftarrow> quotient_eval_numer_computations (vkey_cs (sg_vk g)) (sg_meta g) d;
     pcs \<leftarrow> pcs_computations (sg_scheme g) (sg_meta g) d;
     challenges \<leftarrow> num_challenges (sg_meta g);
     Some \<lparr>
       hv_scheme = sg_scheme g,
       hv_embedded_vk = (if separate then None else Some vk),
       hv_vk_len = vk_len vk,
       hv_proof_len = proof_len (sg_meta g) (sg_scheme g),
       hv_vk_mptr = vk_mptr,
       hv_challenge_mptr = da_challenge_mptr d,
       hv_theta_mptr = da_theta_mptr d,
       hv_proof_cptr = proof_cptr,
       hv_quotient_comm_cptr = da_quotient_comm_cptr d,
       hv_num_neg_lagranges = num_neg_lagranges (sg_meta g),
       hv_num_advices = num_advices (sg_meta g),
       hv_num_challenges = challenges,
       hv_num_rotations = cm_num_rotations (sg_meta g),
       hv_num_evals = cm_num_evals (sg_meta g),
       hv_num_quotients = cm_num_quotients (sg_meta g),
       hv_quotient_eval_numer_computations = quotient_eval_numer,
       hv_pcs_computations = pcs \<rparr> }"

section \<open>Rendering\<close>

text \<open>The filters of the templates.\<close>

definition hex_filter :: "nat \<Rightarrow> string" where
  "hex_filter n = (let s = show_hex n in if length s mod 2 = 1 then ''0x0'' @ s else ''0x'' @ s)"

definition hex_padded :: "nat \<Rightarrow> nat \<Rightarrow> string" where
  "hex_padded n pad = (let digits = show_hex n;
       s = ''0x'' @ replicate (pad - length digits) (CHR ''0'') @ digits
     in if s = ''0x0'' then ''0x'' @ replicate pad (CHR ''0'') else s)"

datatype askama_error = Fmt | OtherError

datatype fmt_error = FmtError

text \<open>
  \<open>render_into\<close> appends to the writer, a string; an error other than one of the writer is unreachable.
  The outer option is a panic.
\<close>

definition render_template ::
  "('t \<Rightarrow> string \<Rightarrow> (string, askama_error) result) \<Rightarrow> 't \<Rightarrow> string \<Rightarrow> (string, fmt_error) result option" where
  "render_template render_into t writer = (case render_into t writer of
      Ok s \<Rightarrow> Some (Ok s)
    | Err Fmt \<Rightarrow> Some (Err FmtError)
    | Err OtherError \<Rightarrow> None)"

type_synonym 't renderer = "'t \<Rightarrow> string \<Rightarrow> (string, askama_error) result"

definition render_into ::
  "halo2_verifier renderer \<Rightarrow> ('p, 'p2, 'q, 'q2) curve_api \<Rightarrow> ('p, 'p2) solidity_generator \<Rightarrow>
     string \<Rightarrow> (string, fmt_error) result option" where
  "render_into verifier_template api g verifier_writer = do {
     v \<leftarrow> generate_verifier api g False;
     render_template verifier_template v verifier_writer }"

definition render_string ::
  "halo2_verifier renderer \<Rightarrow> ('p, 'p2, 'q, 'q2) curve_api \<Rightarrow> ('p, 'p2) solidity_generator \<Rightarrow>
     (string, fmt_error) result option" where
  "render_string verifier_template api g = render_into verifier_template api g []"

definition render_separately_into ::
  "halo2_verifier renderer \<Rightarrow> halo2_verifying_key renderer \<Rightarrow> ('p, 'p2, 'q, 'q2) curve_api \<Rightarrow>
     ('p, 'p2) solidity_generator \<Rightarrow> string \<times> string \<Rightarrow> (string \<times> string, fmt_error) result option" where
  "render_separately_into verifier_template vk_template api g writers = do {
     v \<leftarrow> generate_verifier api g True;
     verifier_output \<leftarrow> render_template verifier_template v (fst writers);
     (case verifier_output of
        Err e \<Rightarrow> Some (Err e)
      | Ok verifier_text \<Rightarrow> do {
          vk \<leftarrow> generate_vk api g;
          vk_output \<leftarrow> render_template vk_template vk (snd writers);
          Some (and_then vk_output (\<lambda>vk_text. Ok (verifier_text, vk_text))) }) }"

definition render_separately ::
  "halo2_verifier renderer \<Rightarrow> halo2_verifying_key renderer \<Rightarrow> ('p, 'p2, 'q, 'q2) curve_api \<Rightarrow>
     ('p, 'p2) solidity_generator \<Rightarrow> (string \<times> string, fmt_error) result option" where
  "render_separately verifier_template vk_template api g =
     render_separately_into verifier_template vk_template api g ([], [])"

section \<open>Calling the verifier\<close>

text \<open>\<open>abi_encode\<close> is the encoding of a call of \<open>verifyProof\<close> by \<open>alloy\<close>.\<close>

definition encode_calldata :: "(bytes \<Rightarrow> u256 list \<Rightarrow> bytes) \<Rightarrow> bytes \<Rightarrow> fr list \<Rightarrow> bytes" where
  "encode_calldata abi_encode proof_bytes instances =
     abi_encode proof_bytes (map (field_to_u256 Fr) instances)"

end
