(* ===== verification/PowersOfTau.thy ===== *)
theory PowersOfTau
  imports TypeConversions
begin

text \<open>
  The crate \<open>powers-of-tau\<close>: reading the universal setup from a ceremony file. A file is a byte string
  read through a position; the pairing engine (base field, its quadratic extension, points from coordinates)
  and the format of already converted files belong to other packages and are parameters. Coordinates are
  stored in Montgomery form, and the reader divides by the Montgomery constant of the field.
\<close>

section \<open>Files\<close>

definition HEADER_SIZE_OFFSET :: u64 where
  "HEADER_SIZE_OFFSET = 16"

definition HEADER_OFFSET :: u64 where
  "HEADER_OFFSET = HEADER_SIZE_OFFSET + 8"

datatype ptau_format = Raw | PerpetualPowersOfTau

text \<open>\<open>k\<close> is printed by \<open>show\<close>; the parent directories are the environment's or the crate's resources.\<close>

definition get_ptau_file_path ::
  "(u32 \<Rightarrow> string) \<Rightarrow> string option \<Rightarrow> string \<Rightarrow> u32 \<Rightarrow> ptau_format \<Rightarrow> string" where
  "get_ptau_file_path show_u32 resources_dir manifest_dir k format =
     (let name = (case format of
            Raw \<Rightarrow> ''ppot_0080_'' @ show_u32 k @ ''_raw''
          | PerpetualPowersOfTau \<Rightarrow> ''ppot_0080_'' @ show_u32 k @ ''.ptau'')
      in case resources_dir of
           Some dir \<Rightarrow> dir @ ''/'' @ name
         | None \<Rightarrow> manifest_dir @ ''/../../resources/'' @ name)"

record reader =
  rd_file :: bytes
  rd_pos :: nat

text \<open>The operating system refuses offsets of 63 bits and more; reading past the end is an error.\<close>

definition seek_start :: "u64 \<Rightarrow> reader \<Rightarrow> (reader, string) result" where
  "seek_start offset r =
     (if unat offset < 2 ^ 63 then Ok (r\<lparr> rd_pos := unat offset \<rparr>) else Err ''Invalid argument'')"

definition read_exact :: "nat \<Rightarrow> reader \<Rightarrow> (bytes \<times> reader, string) result" where
  "read_exact n r =
     (if rd_pos r + n \<le> length (rd_file r)
      then Ok (take n (drop (rd_pos r) (rd_file r)), r\<lparr> rd_pos := rd_pos r + n \<rparr>)
      else Err ''failed to fill whole buffer'')"

definition read_u64 :: "reader \<Rightarrow> (u64 \<times> reader, string) result" where
  "read_u64 r = and_then (read_exact 8 r) (\<lambda>(bs, r). Ok (from_le_bytes bs, r))"

definition read_u32 :: "reader \<Rightarrow> (u32 \<times> reader, string) result" where
  "read_u32 r = and_then (read_exact 4 r) (\<lambda>(bs, r). Ok (from_le_bytes bs, r))"

abbreviation unwrap_err :: string where
  "unwrap_err \<equiv> ''called Result::unwrap() on an Err value''"

abbreviation unwrap_none :: string where
  "unwrap_none \<equiv> ''called Option::unwrap() on a None value''"

abbreviation add_overflow :: string where
  "add_overflow \<equiv> ''attempt to add with overflow''"

definition read_header_size :: "reader \<Rightarrow> (u64 \<times> reader, string) result" where
  "read_header_size r =
     and_then (expect_ok (seek_start HEADER_SIZE_OFFSET r) unwrap_err) (\<lambda>r.
     expect_ok (read_u64 r) unwrap_err)"

definition read_k :: "reader \<Rightarrow> (u32 \<times> reader, string) result" where
  "read_k r =
     and_then (read_header_size r) (\<lambda>(header_size, r).
     and_then (expect (checked_add HEADER_OFFSET header_size) add_overflow) (\<lambda>end_of_header.
     and_then (expect (checked_sub end_of_header 8) ''attempt to subtract with overflow'') (\<lambda>k_offset.
     and_then (seek_start k_offset r) read_u32)))"

section \<open>The pairing engine\<close>

record 'b base_field =
  bf_repr_size :: nat
  bf_to_repr :: "'b \<Rightarrow> bytes"
  bf_from_repr :: "bytes \<Rightarrow> 'b option"
  bf_one :: 'b
  bf_neg :: "'b \<Rightarrow> 'b"
  bf_mul :: "'b \<Rightarrow> 'b \<Rightarrow> 'b"
  bf_invert :: "'b \<Rightarrow> 'b option"

record ('b, 'q, 'g1, 'g2, 'srs) engine =
  en_base :: "'b base_field"
  en_ext_repr_size :: nat
  en_ext_from_repr :: "bytes \<Rightarrow> 'q option"
  en_g1_from_xy :: "'b \<Rightarrow> 'b \<Rightarrow> 'g1 option"
  en_g2_from_xy :: "'q \<Rightarrow> 'q \<Rightarrow> 'g2 option"
  en_from_parts :: "u32 \<Rightarrow> 'g1 list \<Rightarrow> 'g2 \<Rightarrow> 'g2 \<Rightarrow> 'srs"
  en_read_raw :: "bytes \<Rightarrow> ('srs, string) result"

definition field_repr_size :: "'b base_field \<Rightarrow> nat" where
  "field_repr_size F = bf_repr_size F"

text \<open>The little-endian bytes of a number without leading zeros, as \<open>BigUint\<close> prints them.\<close>

function big_to_bytes_le :: "nat \<Rightarrow> bytes" where
  "big_to_bytes_le n =
     (if n < 256 then [of_nat n] else of_nat (n mod 256) # big_to_bytes_le (n div 256))"
  by pat_completeness auto
termination
  by (relation "measure id") auto

declare big_to_bytes_le.simps [simp del]

definition montgomery_r :: "'b base_field \<Rightarrow> ('b, string) result" where
  "montgomery_r F =
     (let modulus = le_nat (bf_to_repr F (bf_neg F (bf_one F))) + 1;
          r_value = 2 ^ (8 * bf_repr_size F) mod modulus;
          r_bytes = big_to_bytes_le r_value
      in if length r_bytes \<noteq> bf_repr_size F
         then Panic ''source slice length does not match destination slice length''
         else expect (bf_from_repr F r_bytes) unwrap_none)"

definition montgomery_r_inverse :: "'b base_field \<Rightarrow> ('b, string) result" where
  "montgomery_r_inverse F = and_then (montgomery_r F) (\<lambda>r. expect (bf_invert F r) unwrap_none)"

section \<open>Offsets\<close>

definition shl_one :: "u32 \<Rightarrow> (nat, string) result" where
  "shl_one k = (if unat k < 64 then Ok (2 ^ unat k) else Panic ''attempt to shift left with overflow'')"

text \<open>The result of an operation on \<open>usize\<close>, if it fits.\<close>

definition usize_op :: "nat \<Rightarrow> (nat, string) result" where
  "usize_op n = (if n < 2 ^ 64 then Ok n else Panic ''attempt to multiply with overflow'')"

definition g1_offset :: "reader \<Rightarrow> (u64 \<times> reader, string) result" where
  "g1_offset r =
     and_then (read_header_size r) (\<lambda>(header_size, r).
     and_then (expect (checked_add HEADER_OFFSET header_size) add_overflow) (\<lambda>end_of_header.
     and_then (expect (checked_add end_of_header 12) add_overflow) (\<lambda>offset. Ok (offset, r))))"

definition g2_offset :: "'b base_field \<Rightarrow> reader \<Rightarrow> (u64 \<times> reader, string) result" where
  "g2_offset F r =
     and_then (g1_offset r) (\<lambda>(start, r).
     and_then (usize_op (2 * field_repr_size F)) (\<lambda>point_size.
     and_then (read_k r) (\<lambda>(k, r).
     and_then (shl_one k) (\<lambda>n.
     and_then (usize_op (2 * n)) (\<lambda>n2.
     and_then (usize_op (point_size * (n2 - 1))) (\<lambda>size_g1.
     and_then (expect (checked_add start (of_nat size_g1)) add_overflow) (\<lambda>end_of_g1.
     and_then (expect (checked_add end_of_g1 12) add_overflow) (\<lambda>offset. Ok (offset, r)))))))))"

section \<open>Points\<close>

fun read_reprs :: "nat \<Rightarrow> nat \<Rightarrow> reader \<Rightarrow> (bytes list \<times> reader, string) result" where
  "read_reprs width 0 r = Ok ([], r)"
| "read_reprs width (Suc n) r =
     and_then (read_exact width r) (\<lambda>(bs, r).
     and_then (read_reprs width n r) (\<lambda>(rest, r). Ok (bs # rest, r)))"

definition g1_coordinate :: "'b base_field \<Rightarrow> 'b \<Rightarrow> bytes \<Rightarrow> ('b, string) result" where
  "g1_coordinate F r_inverse bs =
     and_then (expect (bf_from_repr F bs) unwrap_none) (\<lambda>x. Ok (bf_mul F x r_inverse))"

text \<open>
  \<open>parallelize\<close> hands out disjoint parts of the vector, and the body at index \<open>i\<close> only writes element
  \<open>i\<close>: the outcome is that of computing the elements one by one.
\<close>

definition read_g1 ::
  "('b, 'q, 'g1, 'g2, 'srs) engine \<Rightarrow> nat \<Rightarrow> reader \<Rightarrow> ('g1 list \<times> reader, string) result" where
  "read_g1 E n r =
     and_then (g1_offset r) (\<lambda>(offset, r).
     and_then (expect_ok (seek_start offset r) unwrap_err) (\<lambda>r.
     and_then (read_reprs (bf_repr_size (en_base E)) (2 * n) r) (\<lambda>(binary_representations, r).
     and_then (montgomery_r_inverse (en_base E)) (\<lambda>r_inverse.
     and_then (try_map (\<lambda>i.
         and_then (g1_coordinate (en_base E) r_inverse (binary_representations ! (2 * i))) (\<lambda>x.
         and_then (g1_coordinate (en_base E) r_inverse (binary_representations ! (2 * i + 1))) (\<lambda>y.
         expect (en_g1_from_xy E x y) unwrap_none))) [0 ..< n])
       (\<lambda>points. Ok (points, r))))))"

text \<open>The two halves of a coordinate over the extension, each divided by the Montgomery constant.\<close>

definition g2_coordinate ::
  "('b, 'q, 'g1, 'g2, 'srs) engine \<Rightarrow> 'b \<Rightarrow> bytes \<Rightarrow> ('q, string) result" where
  "g2_coordinate E r_inverse bs =
     (let F = en_base E; g1_base_size = field_repr_size F
      in if length bs \<noteq> 2 * g1_base_size
         then Panic ''source slice length does not match destination slice length''
         else
           and_then (g1_coordinate F r_inverse (take g1_base_size bs)) (\<lambda>c0.
           and_then (g1_coordinate F r_inverse (drop g1_base_size bs)) (\<lambda>c1.
           expect (en_ext_from_repr E (bf_to_repr F c0 @ bf_to_repr F c1)) unwrap_none)))"

definition read_g2 ::
  "('b, 'q, 'g1, 'g2, 'srs) engine \<Rightarrow> nat \<Rightarrow> reader \<Rightarrow> ('g2 list \<times> reader, string) result" where
  "read_g2 E n r =
     and_then (g2_offset (en_base E) r) (\<lambda>(offset, r).
     and_then (seek_start offset r) (\<lambda>r.
     and_then (read_reprs (en_ext_repr_size E) (2 * n) r) (\<lambda>(binary_representations, r).
     and_then (montgomery_r_inverse (en_base E)) (\<lambda>r_inverse.
     and_then (try_map (\<lambda>i.
         and_then (g2_coordinate E r_inverse (binary_representations ! (2 * i))) (\<lambda>x.
         and_then (g2_coordinate E r_inverse (binary_representations ! (2 * i + 1))) (\<lambda>y.
         expect (en_g2_from_xy E x y) unwrap_none))) [0 ..< n])
       (\<lambda>points. Ok (points, r))))))"

definition read_ptau ::
  "('b, 'q, 'g1, 'g2, 'srs) engine \<Rightarrow> bytes option \<Rightarrow> ptau_format \<Rightarrow> ('srs, string) result" where
  "read_ptau E contents format =
     and_then (ok_or contents ''No such file or directory'') (\<lambda>contents.
       case format of
         Raw \<Rightarrow> en_read_raw E contents
       | PerpetualPowersOfTau \<Rightarrow>
           and_then (read_k \<lparr> rd_file = contents, rd_pos = 0 \<rparr>) (\<lambda>(k, r).
           and_then (shl_one k) (\<lambda>n.
           and_then (read_g1 E n r) (\<lambda>(g, r).
           and_then (read_g2 E 2 r) (\<lambda>(g2s, r).
           case g2s of
             [g2, s_g2] \<Rightarrow> Ok (en_from_parts E k g g2 s_g2)
           | _ \<Rightarrow> Panic unwrap_err)))))"

section \<open>What the engine documents\<close>

text \<open>
  A prime field with canonical little-endian representations: \<open>val\<close> reads an element as a number below
  the modulus \<open>p\<close>. Inversion succeeds on units.
\<close>

definition field_laws :: "'b base_field \<Rightarrow> nat \<Rightarrow> ('b \<Rightarrow> nat) \<Rightarrow> bool" where
  "field_laws F p val \<longleftrightarrow>
     1 < p \<and> p \<le> 256 ^ bf_repr_size F \<and>
     (\<forall>x. val x < p) \<and> (\<forall>x y. val x = val y \<longrightarrow> x = y) \<and> (\<forall>n < p. \<exists>x. val x = n) \<and>
     (\<forall>x. bf_to_repr F x = nat_le (bf_repr_size F) (val x)) \<and>
     (\<forall>bs x. length bs = bf_repr_size F \<longrightarrow> (bf_from_repr F bs = Some x \<longleftrightarrow> le_nat bs = val x)) \<and>
     val (bf_one F) = 1 \<and> (\<forall>x. val (bf_neg F x) = (p - val x) mod p) \<and>
     (\<forall>x y. val (bf_mul F x y) = val x * val y mod p) \<and>
     (\<forall>x. coprime (val x) p \<longrightarrow> (\<exists>y. bf_invert F x = Some y \<and> val x * val y mod p = 1))"

text \<open>The Montgomery constant has as many bytes as the modulus, and is a unit.\<close>

definition montgomery_field :: "'b base_field \<Rightarrow> nat \<Rightarrow> bool" where
  "montgomery_field F p \<longleftrightarrow> odd p \<and> 0 < bf_repr_size F \<and>
     256 ^ (bf_repr_size F - 1) \<le> 2 ^ (8 * bf_repr_size F) mod p"

text \<open>The base field of BN254 is one.\<close>

definition bn254_base_modulus :: nat where
  "bn254_base_modulus = 0x30644e72e131a029b85045b68181585d97816a916871ca8d3c208c16d87cfd47"

lemma bn254_montgomery: "bf_repr_size F = 32 \<Longrightarrow> montgomery_field F bn254_base_modulus"
  by (simp add: montgomery_field_def bn254_base_modulus_def)

lemma big_to_bytes_le_value: "le_nat (big_to_bytes_le n) = n"
proof (induction n rule: big_to_bytes_le.induct)
  case (1 n)
  have "unat (of_nat (n mod 256) :: u8) = n mod 256" by (rule unat_of_nat_lt) simp
  with 1 show ?case by (subst big_to_bytes_le.simps) (simp add: unat_of_nat_lt)
qed

lemma big_to_bytes_le_length:
  "0 < k \<Longrightarrow> 256 ^ (k - 1) \<le> n \<Longrightarrow> n < 256 ^ k \<Longrightarrow> length (big_to_bytes_le n) = k"
proof (induction n arbitrary: k rule: big_to_bytes_le.induct)
  case (1 n)
  show ?case
  proof (cases "n < 256")
    case True
    have "k = 1"
    proof (rule ccontr)
      assume "k \<noteq> 1"
      then have "256 ^ 1 \<le> (256 :: nat) ^ (k - 1)" using 1 by (intro power_increasing) auto
      with 1 True show False by simp
    qed
    with True show ?thesis by (subst big_to_bytes_le.simps) simp
  next
    case False
    obtain j where k: "k = Suc (Suc j)"
      using 1(2,4) False by (cases k; cases "k - 1") auto
    have "256 ^ j * 256 \<le> n" "n < 256 ^ Suc j * 256" using 1(3,4) k by (simp_all add: mult.commute)
    then have "256 ^ j \<le> n div 256" "n div 256 < 256 ^ Suc j"
      by (simp_all add: less_eq_div_iff_mult_less_eq div_less_iff_less_mult)
    then have "length (big_to_bytes_le (n div 256)) = Suc j" using 1(1) [OF False, of "Suc j"] by simp
    with False k show ?thesis by (subst big_to_bytes_le.simps) simp
  qed
qed

lemma montgomery_r_inverse_Ok:
  assumes laws: "field_laws F p val" and mont: "montgomery_field F p"
  shows "\<exists>r_inverse. montgomery_r_inverse F = Ok r_inverse \<and>
    2 ^ (8 * bf_repr_size F) mod p * val r_inverse mod p = 1"
proof -
  let ?R = "2 ^ (8 * bf_repr_size F) mod p"
  note L = laws [unfolded field_laws_def]
  have "le_nat (bf_to_repr F (bf_neg F (bf_one F))) = p - 1"
  proof -
    have "val (bf_neg F (bf_one F)) = p - 1" using L by simp
    moreover have "p - 1 < 256 ^ bf_repr_size F" using L by linarith
    ultimately show ?thesis using L by (simp add: bytes_simps)
  qed
  then have modulus: "le_nat (bf_to_repr F (bf_neg F (bf_one F))) + 1 = p" using L by simp
  have bound: "?R < p" using L by simp
  then have "?R < 256 ^ bf_repr_size F" using L by linarith
  then have len: "length (big_to_bytes_le ?R) = bf_repr_size F"
    using mont by (intro big_to_bytes_le_length) (simp_all add: montgomery_field_def)
  obtain r where r: "val r = ?R" using L bound by blast
  then have from_repr: "bf_from_repr F (big_to_bytes_le ?R) = Some r"
    using L len by (simp add: big_to_bytes_le_value)
  have "coprime (2 ^ (8 * bf_repr_size F)) p"
    using mont by (simp add: montgomery_field_def)
  moreover have "p \<noteq> 0" using bound by simp
  ultimately have "coprime (val r) p" using r by (simp add: coprime_mod_left_iff)
  then obtain y where "bf_invert F r = Some y" "val r * val y mod p = 1" using L by blast
  with modulus len from_repr r show ?thesis
    by (simp add: montgomery_r_inverse_def montgomery_r_def)
qed

text \<open>A coordinate in Montgomery form, and what the reader makes of it.\<close>

definition mont_bytes :: "'b base_field \<Rightarrow> nat \<Rightarrow> ('b \<Rightarrow> nat) \<Rightarrow> 'b \<Rightarrow> bytes" where
  "mont_bytes F p val x = nat_le (bf_repr_size F) (val x * 2 ^ (8 * bf_repr_size F) mod p)"

lemma length_mont_bytes [simp]: "length (mont_bytes F p val x) = bf_repr_size F"
  by (simp add: mont_bytes_def)

lemma g1_coordinate_mont:
  assumes laws: "field_laws F p val" and inv: "2 ^ (8 * bf_repr_size F) mod p * val ri mod p = 1"
  shows "g1_coordinate F ri (mont_bytes F p val x) = Ok x"
proof -
  note L = laws [unfolded field_laws_def]
  let ?R = "2 ^ (8 * bf_repr_size F)"
  let ?m = "val x * ?R mod p"
  have "?m < p" using L by simp
  then have m: "?m < 256 ^ bf_repr_size F" using L by linarith
  from \<open>?m < p\<close> L obtain z where z: "val z = ?m" by blast
  from L have "length bs = bf_repr_size F \<Longrightarrow> bf_from_repr F bs = Some z \<longleftrightarrow> le_nat bs = val z" for bs by blast
  with m z have from_repr: "bf_from_repr F (mont_bytes F p val x) = Some z"
    by (simp add: mont_bytes_def bytes_simps)
  have "val (bf_mul F z ri) = ?m * val ri mod p" using L z by simp
  also have "\<dots> = val x * (?R mod p * val ri mod p) mod p"
    by (simp add: mod_mult_left_eq mod_mult_right_eq mult.assoc mult.left_commute)
  also have "\<dots> = val x" using L inv by simp
  finally have "bf_mul F z ri = x" using L by blast
  with from_repr show ?thesis by (simp add: g1_coordinate_def)
qed

section \<open>Reading what lies at an offset\<close>

lemma read_exact_at:
  assumes "f = pre @ bs @ post" and "pos = length pre"
  shows "read_exact (length bs) \<lparr> rd_file = f, rd_pos = pos \<rparr> =
    Ok (bs, \<lparr> rd_file = f, rd_pos = pos + length bs \<rparr>)"
  using assms by (simp add: read_exact_def)

lemma read_reprs_at:
  assumes "f = pre @ concat bss @ post" and "pos = length pre" and "\<forall>bs \<in> set bss. length bs = width"
  shows "read_reprs width (length bss) \<lparr> rd_file = f, rd_pos = pos \<rparr> =
    Ok (bss, \<lparr> rd_file = f, rd_pos = pos + width * length bss \<rparr>)"
  using assms
proof (induction bss arbitrary: pre pos)
  case (Cons bs bss)
  have head: "read_exact width \<lparr> rd_file = f, rd_pos = pos \<rparr> = Ok (bs, \<lparr> rd_file = f, rd_pos = pos + width \<rparr>)"
    using Cons.prems read_exact_at [of f pre bs "concat bss @ post" pos] by simp
  have "read_reprs width (length bss) \<lparr> rd_file = f, rd_pos = pos + width \<rparr> =
      Ok (bss, \<lparr> rd_file = f, rd_pos = pos + width + width * length bss \<rparr>)"
    using Cons.prems by (intro Cons.IH [of "pre @ bs"]) auto
  with head show ?case by (simp add: algebra_simps)
qed simp

definition pairs_flat :: "('a \<Rightarrow> 'b) \<Rightarrow> ('a \<times> 'a) list \<Rightarrow> 'b list" where
  "pairs_flat h xs = concat (map (\<lambda>(x, y). [h x, h y]) xs)"

lemma pairs_flat_simps [simp]:
  "pairs_flat h [] = []" "pairs_flat h ((x, y) # xs) = h x # h y # pairs_flat h xs"
  by (simp_all add: pairs_flat_def)

lemma length_pairs_flat [simp]: "length (pairs_flat h xs) = 2 * length xs"
  by (induction xs) auto

lemma set_pairs_flat: "set (pairs_flat h xs) \<subseteq> range h"
  by (induction xs) auto

lemma pairs_flat_nth:
  "i < length xs \<Longrightarrow> pairs_flat h xs ! (2 * i) = h (fst (xs ! i))"
  "i < length xs \<Longrightarrow> pairs_flat h xs ! (2 * i + 1) = h (snd (xs ! i))"
proof (induction xs arbitrary: i)
  case (Cons xy xs)
  { case 1 with Cons.IH(1) [of "i - 1"] show ?case by (cases xy; cases i) auto }
  { case 2 with Cons.IH(2) [of "i - 1"] show ?case by (cases xy; cases i) auto }
qed simp_all

lemma pairs_flat_append: "pairs_flat h (xs @ ys) = pairs_flat h xs @ pairs_flat h ys"
  by (simp add: pairs_flat_def)

section \<open>The format\<close>

text \<open>
  A ceremony file: magic and version with the section's id, the size of the header, the header (which ends
  with the power and one more number), the section of the powers of tau over the first group, the section
  over the second group, and further sections.
\<close>

record 'b ceremony =
  cy_magic :: bytes
  cy_header :: bytes
  cy_k :: u32
  cy_ceremony_power :: bytes
  cy_g1_section :: bytes
  cy_g1 :: "('b \<times> 'b) list"
  cy_g2_section :: bytes
  cy_g2 :: "(('b \<times> 'b) \<times> ('b \<times> 'b)) list"
  cy_rest :: bytes

definition g1_part :: "'b base_field \<Rightarrow> nat \<Rightarrow> ('b \<Rightarrow> nat) \<Rightarrow> ('b \<times> 'b) list \<Rightarrow> bytes" where
  "g1_part F p val ps = concat (pairs_flat (mont_bytes F p val) ps)"

definition ext_bytes :: "'b base_field \<Rightarrow> nat \<Rightarrow> ('b \<Rightarrow> nat) \<Rightarrow> 'b \<times> 'b \<Rightarrow> bytes" where
  "ext_bytes F p val c = mont_bytes F p val (fst c) @ mont_bytes F p val (snd c)"

definition g2_part :: "'b base_field \<Rightarrow> nat \<Rightarrow> ('b \<Rightarrow> nat) \<Rightarrow> (('b \<times> 'b) \<times> ('b \<times> 'b)) list \<Rightarrow> bytes" where
  "g2_part F p val ps = concat (pairs_flat (ext_bytes F p val) ps)"

definition header_len :: "'b ceremony \<Rightarrow> nat" where
  "header_len c = length (cy_header c) + 8"

definition ptau_bytes :: "'b base_field \<Rightarrow> nat \<Rightarrow> ('b \<Rightarrow> nat) \<Rightarrow> 'b ceremony \<Rightarrow> bytes" where
  "ptau_bytes F p val c =
     cy_magic c @ nat_le 8 (header_len c) @ cy_header c @ nat_le 4 (unat (cy_k c)) @ cy_ceremony_power c @
     cy_g1_section c @ g1_part F p val (cy_g1 c) @ cy_g2_section c @ g2_part F p val (cy_g2 c) @ cy_rest c"

definition ceremony_ok :: "'b base_field \<Rightarrow> nat \<Rightarrow> ('b \<Rightarrow> nat) \<Rightarrow> 'b ceremony \<Rightarrow> bool" where
  "ceremony_ok F p val c \<longleftrightarrow>
     length (cy_magic c) = 16 \<and> length (cy_ceremony_power c) = 4 \<and> length (cy_g1_section c) = 12 \<and>
     length (cy_g2_section c) = 12 \<and> length (cy_g1 c) = 2 * 2 ^ unat (cy_k c) - 1 \<and> length (cy_g2 c) = 2 ^ unat (cy_k c) \<and>
     0 < cy_k c \<and> length (ptau_bytes F p val c) < 2 ^ 63"

lemma length_g1_part: "length (g1_part F p val ps) = 2 * bf_repr_size F * length ps"
  by (induction ps) (auto simp: g1_part_def algebra_simps)

lemma length_g2_part: "length (g2_part F p val ps) = 4 * bf_repr_size F * length ps"
  by (induction ps) (auto simp: g2_part_def ext_bytes_def algebra_simps)

lemma length_ptau_bytes:
  assumes "ceremony_ok F p val c"
  shows "length (ptau_bytes F p val c) = 24 + header_len c + 12 + 2 * bf_repr_size F * (2 * 2 ^ unat (cy_k c) - 1) +
    12 + 4 * bf_repr_size F * 2 ^ unat (cy_k c) + length (cy_rest c)"
  using assms by (simp add: ceremony_ok_def ptau_bytes_def length_g1_part length_g2_part header_len_def)

lemma repr_size_pos: "field_laws F p val \<Longrightarrow> 0 < bf_repr_size F"
  by (cases "bf_repr_size F") (auto simp: field_laws_def)

lemma ceremony_bounds:
  assumes "ceremony_ok F p val c"
  shows "header_len c < 2 ^ 63"
    and "24 + header_len c + 12 + 2 * bf_repr_size F * (2 * 2 ^ unat (cy_k c) - 1) + 12 < 2 ^ 63"
    and "0 < bf_repr_size F \<Longrightarrow> unat (cy_k c) < 62"
proof -
  note len = length_ptau_bytes [OF assms]
  have total: "length (ptau_bytes F p val c) < 2 ^ 63" using assms by (simp add: ceremony_ok_def)
  with len show "24 + header_len c + 12 + 2 * bf_repr_size F * (2 * 2 ^ unat (cy_k c) - 1) + 12 < 2 ^ 63"
    by linarith
  have "header_len c < 2 ^ 63" using len total by linarith
  show "unat (cy_k c) < 62" if "0 < bf_repr_size F"
  proof -
    have "4 * 2 ^ unat (cy_k c) \<le> 4 * bf_repr_size F * 2 ^ unat (cy_k c)" using that by simp
    then have "4 * 2 ^ unat (cy_k c) < (2 :: nat) ^ 63" using len total by linarith
    then have "(2 :: nat) ^ (unat (cy_k c) + 2) < 2 ^ 63" by (simp add: power_add)
    then have "unat (cy_k c) + 2 < 63" by (rule power_less_imp_less_exp [rotated]) simp
    then show ?thesis by simp
  qed
  show "header_len c < 2 ^ 63" by fact
qed

lemma checked_add_Some:
  fixes a b :: "'a::len word"
  assumes "unat a + unat b < 2 ^ LENGTH('a)"
  shows "\<exists>c. checked_add a b = Some c \<and> unat c = unat a + unat b"
  using assms by (simp add: checked_add_def unat_add_lt)

lemma read_header_size_ptau:
  assumes "ceremony_ok F p val c"
  shows "read_header_size \<lparr> rd_file = ptau_bytes F p val c, rd_pos = pos \<rparr> =
    Ok (of_nat (header_len c), \<lparr> rd_file = ptau_bytes F p val c, rd_pos = 24 \<rparr>)"
proof -
  let ?f = "ptau_bytes F p val c"
  have "read_exact (length (nat_le 8 (header_len c))) \<lparr> rd_file = ?f, rd_pos = 16 \<rparr> =
      Ok (nat_le 8 (header_len c), \<lparr> rd_file = ?f, rd_pos = 16 + length (nat_le 8 (header_len c)) \<rparr>)"
    using assms by (intro read_exact_at [where pre = "cy_magic c"]) (simp_all add: ptau_bytes_def ceremony_ok_def)
  moreover have "header_len c < 256 ^ 8" using ceremony_bounds(1) [OF assms] by simp
  ultimately show ?thesis
    by (simp add: read_header_size_def seek_start_def HEADER_SIZE_OFFSET_def read_u64_def from_le_bytes_def
        bytes_simps)
qed

lemma unat_header_len: "ceremony_ok F p val c \<Longrightarrow> unat (of_nat (header_len c) :: u64) = header_len c"
  using ceremony_bounds(1) [of F p val c] by (intro unat_of_nat_lt) simp

lemma unat_HEADER_OFFSET [simp]: "unat HEADER_OFFSET = 24"
  by (simp add: HEADER_OFFSET_def HEADER_SIZE_OFFSET_def)

lemma end_of_header_ptau:
  assumes "ceremony_ok F p val c"
  shows "\<exists>e. checked_add HEADER_OFFSET (of_nat (header_len c)) = Some e \<and> unat e = 24 + header_len c"
  using checked_add_Some [of HEADER_OFFSET "of_nat (header_len c) :: u64"] ceremony_bounds(1) [OF assms]
  by (simp add: unat_header_len [OF assms])

lemma read_k_ptau:
  assumes "ceremony_ok F p val c"
  shows "\<exists>pos'. read_k \<lparr> rd_file = ptau_bytes F p val c, rd_pos = pos \<rparr> =
    Ok (cy_k c, \<lparr> rd_file = ptau_bytes F p val c, rd_pos = pos' \<rparr>)"
proof -
  let ?f = "ptau_bytes F p val c"
  obtain e where e: "checked_add HEADER_OFFSET (of_nat (header_len c)) = Some e" "unat e = 24 + header_len c"
    using end_of_header_ptau [OF assms] by blast
  have "8 \<le> e" using e(2) by (simp add: word_le_nat_alt)
  then have sub: "checked_sub e 8 = Some (e - 8)" and unat_sub: "unat (e - 8) = 16 + header_len c"
    using e(2) by (simp_all add: checked_sub_def unat_sub)
  have read: "read_exact (length (nat_le 4 (unat (cy_k c)))) \<lparr> rd_file = ?f, rd_pos = 16 + header_len c \<rparr> =
      Ok (nat_le 4 (unat (cy_k c)), \<lparr> rd_file = ?f, rd_pos = 16 + header_len c + length (nat_le 4 (unat (cy_k c))) \<rparr>)"
    using assms
    by (intro read_exact_at [where pre = "cy_magic c @ nat_le 8 (header_len c) @ cy_header c"])
      (simp_all add: ptau_bytes_def ceremony_ok_def header_len_def)
  have "unat (cy_k c) < 256 ^ 4" using unat_lt_pow [of "cy_k c"] by simp
  with read have "read_u32 \<lparr> rd_file = ?f, rd_pos = 16 + header_len c \<rparr> =
      Ok (cy_k c, \<lparr> rd_file = ?f, rd_pos = 16 + header_len c + 4 \<rparr>)"
    by (simp add: read_u32_def from_le_bytes_def bytes_simps)
  with sub e unat_sub read_header_size_ptau [OF assms, of pos] ceremony_bounds(1) [OF assms] show ?thesis
    using ceremony_bounds(2) [OF assms] by (simp add: read_k_def seek_start_def)
qed

lemma g1_offset_ptau:
  assumes "ceremony_ok F p val c"
  shows "\<exists>o1 pos'. g1_offset \<lparr> rd_file = ptau_bytes F p val c, rd_pos = pos \<rparr> =
    Ok (o1, \<lparr> rd_file = ptau_bytes F p val c, rd_pos = pos' \<rparr>) \<and> unat o1 = 36 + header_len c"
proof -
  obtain e where e: "checked_add HEADER_OFFSET (of_nat (header_len c)) = Some e" "unat e = 24 + header_len c"
    using end_of_header_ptau [OF assms] by blast
  obtain o1 where "checked_add e 12 = Some o1" "unat o1 = 36 + header_len c"
    using checked_add_Some [of e 12] e(2) ceremony_bounds(1) [OF assms] by auto
  with e show ?thesis by (simp add: g1_offset_def read_header_size_ptau [OF assms])
qed

lemma g2_offset_ptau:
  assumes "ceremony_ok F p val c" and "0 < bf_repr_size F"
  shows "\<exists>o2 pos'. g2_offset F \<lparr> rd_file = ptau_bytes F p val c, rd_pos = pos \<rparr> =
    Ok (o2, \<lparr> rd_file = ptau_bytes F p val c, rd_pos = pos' \<rparr>) \<and>
    unat o2 = 36 + header_len c + 2 * bf_repr_size F * (2 * 2 ^ unat (cy_k c) - 1) + 12"
proof -
  let ?f = "ptau_bytes F p val c"
  let ?n = "2 ^ unat (cy_k c) :: nat"
  let ?size = "2 * bf_repr_size F * (2 * ?n - 1)"
  obtain o1 pos1 where o1: "g1_offset \<lparr> rd_file = ?f, rd_pos = pos \<rparr> = Ok (o1, \<lparr> rd_file = ?f, rd_pos = pos1 \<rparr>)"
    "unat o1 = 36 + header_len c" using g1_offset_ptau [OF assms(1)] by blast
  obtain pos2 where k: "read_k \<lparr> rd_file = ?f, rd_pos = pos1 \<rparr> = Ok (cy_k c, \<lparr> rd_file = ?f, rd_pos = pos2 \<rparr>)"
    using read_k_ptau [OF assms(1)] by blast
  note total = ceremony_bounds(2) [OF assms(1)]
  have shl: "shl_one (cy_k c) = Ok ?n" using ceremony_bounds(3) [OF assms] by (simp add: shl_one_def)
  have one: "1 \<le> ?n" by simp
  then have odd_count: "1 \<le> 2 * ?n - 1" by linarith
  have size: "?size < 2 ^ 63" using total by linarith
  have small: "m < 2 ^ 64" if "m \<le> ?size" for m
    using le_less_trans [OF that size] by simp
  have "2 * bf_repr_size F \<le> ?size"
    using mult_le_mono2 [OF odd_count, of "2 * bf_repr_size F"] by simp
  then have "2 * bf_repr_size F < 2 ^ 64" by (rule small)
  then have f1: "usize_op (2 * bf_repr_size F) = Ok (2 * bf_repr_size F)" by (simp add: usize_op_def)
  have "2 * (2 * ?n - 1) \<le> ?size"
    using mult_le_mono1 [of 2 "2 * bf_repr_size F" "2 * ?n - 1"] assms(2) by simp
  then have "2 * ?n \<le> ?size" using one by linarith
  then have "2 * ?n < 2 ^ 64" by (rule small)
  then have f2: "usize_op (2 * ?n) = Ok (2 * ?n)" by (simp add: usize_op_def)
  have "?size < 2 ^ 64" by (rule small) simp
  then have f3: "usize_op ?size = Ok ?size" by (simp add: usize_op_def)
  have w: "unat (of_nat ?size :: u64) = ?size" using size by (intro unat_of_nat_lt) simp
  obtain e where e: "checked_add o1 (of_nat ?size) = Some e" "unat e = 36 + header_len c + ?size"
    using checked_add_Some [of o1 "of_nat ?size"] o1(2) w total by auto
  obtain o2 where "checked_add e 12 = Some o2" "unat o2 = 36 + header_len c + ?size + 12"
    using checked_add_Some [of e 12] e(2) total by auto
  with o1 k shl f1 f2 f3 e show ?thesis
    by (simp add: g2_offset_def field_repr_size_def del: of_nat_mult of_nat_diff)
qed

text \<open>What the engine documents about coordinates over the extension and sizes.\<close>

definition engine_laws ::
  "('b, 'q, 'g1, 'g2, 'srs) engine \<Rightarrow> nat \<Rightarrow> ('b \<Rightarrow> nat) \<Rightarrow> ('b \<Rightarrow> 'b \<Rightarrow> 'q) \<Rightarrow> bool" where
  "engine_laws E p val ext \<longleftrightarrow>
     field_laws (en_base E) p val \<and> montgomery_field (en_base E) p \<and>
     en_ext_repr_size E = 2 * bf_repr_size (en_base E) \<and>
     (\<forall>c0 c1. en_ext_from_repr E (bf_to_repr (en_base E) c0 @ bf_to_repr (en_base E) c1) = Some (ext c0 c1))"

lemma g2_coordinate_mont:
  assumes "engine_laws E p val ext" and "2 ^ (8 * bf_repr_size (en_base E)) mod p * val ri mod p = 1"
  shows "g2_coordinate E ri (ext_bytes (en_base E) p val c) = Ok (ext (fst c) (snd c))"
proof -
  have coord: "g1_coordinate (en_base E) ri (mont_bytes (en_base E) p val x) = Ok x" for x
    using assms by (intro g1_coordinate_mont) (simp_all add: engine_laws_def)
  show ?thesis
    using assms(1) by (simp add: g2_coordinate_def ext_bytes_def field_repr_size_def coord engine_laws_def)
qed

lemma pairs_flat_take_drop:
  "concat (pairs_flat h xs) = concat (pairs_flat h (take n xs)) @ concat (pairs_flat h (drop n xs))"
  by (simp flip: concat_append pairs_flat_append)

lemma read_g1_ptau:
  assumes laws: "engine_laws E p val ext" and ok: "ceremony_ok (en_base E) p val c"
    and points: "\<And>i. i < 2 ^ unat (cy_k c) \<Longrightarrow>
      en_g1_from_xy E (fst (cy_g1 c ! i)) (snd (cy_g1 c ! i)) = Some (P i)"
  shows "\<exists>pos'. read_g1 E (2 ^ unat (cy_k c)) \<lparr> rd_file = ptau_bytes (en_base E) p val c, rd_pos = pos \<rparr> =
    Ok (map P [0 ..< 2 ^ unat (cy_k c)], \<lparr> rd_file = ptau_bytes (en_base E) p val c, rd_pos = pos' \<rparr>)"
proof -
  let ?F = "en_base E" and ?f = "ptau_bytes (en_base E) p val c" and ?n = "2 ^ unat (cy_k c) :: nat"
  let ?bss = "pairs_flat (mont_bytes ?F p val) (take ?n (cy_g1 c))"
  obtain o1 pos1 where o1: "g1_offset \<lparr> rd_file = ?f, rd_pos = pos \<rparr> = Ok (o1, \<lparr> rd_file = ?f, rd_pos = pos1 \<rparr>)"
    "unat o1 = 36 + header_len c" using g1_offset_ptau [OF ok] by blast
  obtain ri where ri: "montgomery_r_inverse ?F = Ok ri" "2 ^ (8 * bf_repr_size ?F) mod p * val ri mod p = 1"
    using montgomery_r_inverse_Ok laws unfolding engine_laws_def by blast
  have n_le: "?n \<le> length (cy_g1 c)" using ok by (simp add: ceremony_ok_def)
  then have len: "length ?bss = 2 * ?n" by simp
  have read: "read_reprs (bf_repr_size ?F) (length ?bss) \<lparr> rd_file = ?f, rd_pos = 36 + header_len c \<rparr> =
      Ok (?bss, \<lparr> rd_file = ?f, rd_pos = 36 + header_len c + bf_repr_size ?F * length ?bss \<rparr>)"
  proof (rule read_reprs_at)
    show "?f = (cy_magic c @ nat_le 8 (header_len c) @ cy_header c @ nat_le 4 (unat (cy_k c)) @ cy_ceremony_power c @
        cy_g1_section c) @ concat ?bss @ (concat (pairs_flat (mont_bytes ?F p val) (drop ?n (cy_g1 c))) @
        cy_g2_section c @ g2_part ?F p val (cy_g2 c) @ cy_rest c)"
      using pairs_flat_take_drop [of "mont_bytes ?F p val" "cy_g1 c" ?n]
      by (simp add: ptau_bytes_def g1_part_def)
    show "36 + header_len c = length (cy_magic c @ nat_le 8 (header_len c) @ cy_header c @ nat_le 4 (unat (cy_k c)) @
        cy_ceremony_power c @ cy_g1_section c)"
      using ok by (simp add: ceremony_ok_def header_len_def)
    show "\<forall>bs \<in> set ?bss. length bs = bf_repr_size ?F"
      using set_pairs_flat [of "mont_bytes ?F p val"] by fastforce
  qed
  have coord: "g1_coordinate ?F ri (mont_bytes ?F p val x) = Ok x" for x
    using g1_coordinate_mont [of ?F p val ri] ri(2) laws by (simp add: engine_laws_def)
  have "try_map (\<lambda>i.
      and_then (g1_coordinate ?F ri (?bss ! (2 * i))) (\<lambda>x.
      and_then (g1_coordinate ?F ri (?bss ! (2 * i + 1))) (\<lambda>y.
      expect (en_g1_from_xy E x y) unwrap_none))) [0 ..< ?n] = Ok (map P [0 ..< ?n])"
    unfolding try_map_Ok map_map
    using n_le points pairs_flat_nth [of _ "take ?n (cy_g1 c)" "mont_bytes ?F p val"]
    by (intro map_cong) (simp_all add: coord)
  with o1 ri(1) read len ceremony_bounds(2) [OF ok] show ?thesis
    by (simp add: read_g1_def seek_start_def)
qed

lemma read_g2_ptau:
  assumes laws: "engine_laws E p val ext" and ok: "ceremony_ok (en_base E) p val c"
    and points: "\<And>i. i < 2 \<Longrightarrow> en_g2_from_xy E (ext (fst (fst (cy_g2 c ! i))) (snd (fst (cy_g2 c ! i))))
      (ext (fst (snd (cy_g2 c ! i))) (snd (snd (cy_g2 c ! i)))) = Some (Q i)"
  shows "\<exists>pos'. read_g2 E 2 \<lparr> rd_file = ptau_bytes (en_base E) p val c, rd_pos = pos \<rparr> =
    Ok ([Q 0, Q 1], \<lparr> rd_file = ptau_bytes (en_base E) p val c, rd_pos = pos' \<rparr>)"
proof -
  let ?F = "en_base E" and ?f = "ptau_bytes (en_base E) p val c"
  let ?bss = "pairs_flat (ext_bytes ?F p val) (take 2 (cy_g2 c))"
  have pos_size: "0 < bf_repr_size ?F" using laws by (simp add: engine_laws_def montgomery_field_def)
  let ?at = "36 + header_len c + 2 * bf_repr_size ?F * (2 * 2 ^ unat (cy_k c) - 1) + 12"
  obtain o2 pos1 where o2: "g2_offset ?F \<lparr> rd_file = ?f, rd_pos = pos \<rparr> = Ok (o2, \<lparr> rd_file = ?f, rd_pos = pos1 \<rparr>)"
    "unat o2 = ?at" using g2_offset_ptau [OF ok pos_size] by blast
  obtain ri where ri: "montgomery_r_inverse ?F = Ok ri" "2 ^ (8 * bf_repr_size ?F) mod p * val ri mod p = 1"
    using montgomery_r_inverse_Ok laws unfolding engine_laws_def by blast
  have "2 \<le> (2 :: nat) ^ unat (cy_k c)"
    using ok power_increasing [of 1 "unat (cy_k c)" "2 :: nat"] by (simp add: ceremony_ok_def word_less_nat_alt)
  then have n_le: "2 \<le> length (cy_g2 c)" using ok by (simp add: ceremony_ok_def)
  then have len: "length ?bss = 4" by simp
  have read: "read_reprs (2 * bf_repr_size ?F) (length ?bss) \<lparr> rd_file = ?f, rd_pos = ?at \<rparr> =
      Ok (?bss, \<lparr> rd_file = ?f, rd_pos = ?at + 2 * bf_repr_size ?F * length ?bss \<rparr>)"
  proof (rule read_reprs_at)
    show "?f = (cy_magic c @ nat_le 8 (header_len c) @ cy_header c @ nat_le 4 (unat (cy_k c)) @ cy_ceremony_power c @
        cy_g1_section c @ g1_part ?F p val (cy_g1 c) @ cy_g2_section c) @ concat ?bss @
        (concat (pairs_flat (ext_bytes ?F p val) (drop 2 (cy_g2 c))) @ cy_rest c)"
      using pairs_flat_take_drop [of "ext_bytes ?F p val" "cy_g2 c" 2]
      by (simp add: ptau_bytes_def g2_part_def)
    show "?at = length (cy_magic c @ nat_le 8 (header_len c) @ cy_header c @ nat_le 4 (unat (cy_k c)) @
        cy_ceremony_power c @ cy_g1_section c @ g1_part ?F p val (cy_g1 c) @ cy_g2_section c)"
      using ok by (simp add: ceremony_ok_def header_len_def length_g1_part)
    have "length (ext_bytes ?F p val x) = 2 * bf_repr_size ?F" for x by (simp add: ext_bytes_def)
    then show "\<forall>bs \<in> set ?bss. length bs = 2 * bf_repr_size ?F"
      using set_pairs_flat [of "ext_bytes ?F p val"] by fastforce
  qed
  have coord: "g2_coordinate E ri (ext_bytes ?F p val x) = Ok (ext (fst x) (snd x))" for x
    by (rule g2_coordinate_mont [OF laws ri(2)])
  have "try_map (\<lambda>i.
      and_then (g2_coordinate E ri (?bss ! (2 * i))) (\<lambda>x.
      and_then (g2_coordinate E ri (?bss ! (2 * i + 1))) (\<lambda>y.
      expect (en_g2_from_xy E x y) unwrap_none))) [0 ..< 2] = Ok (map Q [0 ..< 2])"
    unfolding try_map_Ok map_map
    using n_le points pairs_flat_nth [of _ "take 2 (cy_g2 c)" "ext_bytes ?F p val"]
    by (intro map_cong) (simp_all add: coord)
  moreover have "map Q [0 ..< 2] = [Q 0, Q 1]" by (simp add: upt_rec)
  moreover have "en_ext_repr_size E = 2 * bf_repr_size ?F" using laws by (simp add: engine_laws_def)
  ultimately show ?thesis
    using o2 ri(1) read len ceremony_bounds(2) [OF ok] by (simp add: read_g2_def seek_start_def)
qed

section \<open>Properties\<close>

text \<open>
  C9. Reading a ceremony file returns its points. For a file laid out as the ceremony's format says, with
  coordinates in Montgomery form, of any header size and power of at least 1, the reader returns the
  setup with the file's power, its first \<open>2 ^ k\<close> points of the first group and its first two points of the
  second group: no offset is off, none overflows, and the division by the Montgomery constant undoes the
  form. The laws are those the engine documents, and the coordinates are points of the curves.
\<close>

theorem ceremony_roundtrip:
  assumes "engine_laws E p val ext" and "ceremony_ok (en_base E) p val c"
    and "\<And>i. i < 2 ^ unat (cy_k c) \<Longrightarrow> en_g1_from_xy E (fst (cy_g1 c ! i)) (snd (cy_g1 c ! i)) = Some (P i)"
    and "\<And>i. i < 2 \<Longrightarrow> en_g2_from_xy E (ext (fst (fst (cy_g2 c ! i))) (snd (fst (cy_g2 c ! i))))
      (ext (fst (snd (cy_g2 c ! i))) (snd (snd (cy_g2 c ! i)))) = Some (Q i)"
  shows "read_ptau E (Some (ptau_bytes (en_base E) p val c)) PerpetualPowersOfTau =
    Ok (en_from_parts E (cy_k c) (map P [0 ..< 2 ^ unat (cy_k c)]) (Q 0) (Q 1))"
proof -
  have "0 < bf_repr_size (en_base E)" using assms(1) by (simp add: engine_laws_def montgomery_field_def)
  then have "shl_one (cy_k c) = Ok (2 ^ unat (cy_k c))"
    using ceremony_bounds(3) [OF assms(2)] by (simp add: shl_one_def)
  moreover obtain pos1 where "read_k \<lparr> rd_file = ptau_bytes (en_base E) p val c, rd_pos = 0 \<rparr> =
      Ok (cy_k c, \<lparr> rd_file = ptau_bytes (en_base E) p val c, rd_pos = pos1 \<rparr>)"
    using read_k_ptau [OF assms(2)] by blast
  moreover obtain pos2 where
    "read_g1 E (2 ^ unat (cy_k c)) \<lparr> rd_file = ptau_bytes (en_base E) p val c, rd_pos = pos1 \<rparr> =
      Ok (map P [0 ..< 2 ^ unat (cy_k c)], \<lparr> rd_file = ptau_bytes (en_base E) p val c, rd_pos = pos2 \<rparr>)"
    using read_g1_ptau [where P = P, OF assms(1,2)] assms(3) by blast
  moreover obtain pos3 where
    "read_g2 E 2 \<lparr> rd_file = ptau_bytes (en_base E) p val c, rd_pos = pos2 \<rparr> =
      Ok ([Q 0, Q 1], \<lparr> rd_file = ptau_bytes (en_base E) p val c, rd_pos = pos3 \<rparr>)"
    using read_g2_ptau [where Q = Q, OF assms(1,2)] assms(4) by blast
  ultimately show ?thesis by (simp add: read_ptau_def)
qed

section \<open>Witness\<close>

text \<open>The field of seven elements in one byte, and a plane of pairs as both groups.\<close>

typedef z7 = "{n :: nat. n < 7}" morphisms z7_val Abs_z7
  by (rule exI [of _ 0]) simp

definition z7_of :: "nat \<Rightarrow> z7" where
  "z7_of n = Abs_z7 (n mod 7)"

lemma z7_val_of [simp]: "z7_val (z7_of n) = n mod 7"
  by (simp add: z7_of_def Abs_z7_inverse)

lemma z7_val_lt: "z7_val x < 7"
  using z7_val [of x] by simp

lemma z7_of_val [simp]: "z7_of (z7_val x) = x"
  using z7_val_lt [of x] by (simp add: z7_of_def z7_val_inverse)

definition z7_field :: "z7 base_field" where
  "z7_field = \<lparr>
     bf_repr_size = 1, bf_to_repr = (\<lambda>x. nat_le 1 (z7_val x)),
     bf_from_repr = (\<lambda>bs. if le_nat bs < 7 then Some (z7_of (le_nat bs)) else None),
     bf_one = z7_of 1, bf_neg = (\<lambda>x. z7_of (7 - z7_val x)), bf_mul = (\<lambda>x y. z7_of (z7_val x * z7_val y)),
     bf_invert = (\<lambda>x. map_option z7_of (find (\<lambda>y. z7_val x * y mod 7 = 1) [0 ..< 7])) \<rparr>"

definition z7_engine :: "(z7, z7 \<times> z7, z7 \<times> z7, (z7 \<times> z7) \<times> (z7 \<times> z7), u32 \<times> (z7 \<times> z7) list) engine" where
  "z7_engine = \<lparr>
     en_base = z7_field, en_ext_repr_size = 2,
     en_ext_from_repr = (\<lambda>bs. if length bs = 2 then Some (z7_of (le_nat (take 1 bs)), z7_of (le_nat (drop 1 bs))) else None),
     en_g1_from_xy = (\<lambda>x y. Some (x, y)), en_g2_from_xy = (\<lambda>x y. Some (x, y)),
     en_from_parts = (\<lambda>k g g2 s_g2. (k, g)), en_read_raw = (\<lambda>_. Err ''raw'') \<rparr>"

lemma z7_invert:
  assumes "coprime (z7_val x) 7"
  shows "\<exists>y. bf_invert z7_field x = Some y \<and> z7_val x * z7_val y mod 7 = 1"
proof -
  have "z7_val x \<in> {0, 1, 2, 3, 4, 5, 6}" using z7_val_lt [of x] by auto
  with assms show ?thesis by (auto simp: z7_field_def upt_rec)
qed

lemma z7_field_laws: "field_laws z7_field 7 z7_val"
proof -
  have "\<exists>x. z7_val x = n" if "n < 7" for n
    using that by (intro exI [of _ "z7_of n"]) simp
  moreover have "bf_from_repr z7_field bs = Some x \<longleftrightarrow> le_nat bs = z7_val x" for bs x
    using z7_val_lt [of x] by (auto simp: z7_field_def)
  ultimately show ?thesis
    using z7_invert by (simp add: field_laws_def z7_val_lt z7_val_inject) (simp add: z7_field_def)
qed

lemma z7_engine_laws: "engine_laws z7_engine 7 z7_val Pair"
proof -
  have "z7_of (le_nat (nat_le 1 (z7_val c))) = c" for c
    using z7_val_lt [of c] by (simp add: le_nat_nat_le del: nat_le.simps)
  then show ?thesis
    using z7_field_laws
    by (simp add: engine_laws_def z7_engine_def montgomery_field_def z7_field_def del: nat_le.simps)
qed

definition z7_ceremony :: "z7 ceremony" where
  "z7_ceremony = \<lparr>
     cy_magic = replicate 16 112, cy_header = [1, 0, 0, 0, 7], cy_k = 1, cy_ceremony_power = replicate 4 0,
     cy_g1_section = replicate 12 2, cy_g1 = [(z7_of 1, z7_of 2), (z7_of 3, z7_of 4), (z7_of 5, z7_of 6)],
     cy_g2_section = replicate 12 3,
     cy_g2 = [((z7_of 1, z7_of 2), (z7_of 3, z7_of 4)), ((z7_of 5, z7_of 6), (z7_of 0, z7_of 1))],
     cy_rest = [9] \<rparr>"

theorem ceremony_roundtrip_witness:
  "read_ptau z7_engine (Some (ptau_bytes z7_field 7 z7_val z7_ceremony)) PerpetualPowersOfTau =
     Ok (1, [(z7_of 1, z7_of 2), (z7_of 3, z7_of 4)])"
proof -
  have base: "en_base z7_engine = z7_field" "en_g1_from_xy z7_engine x y = Some (x, y)"
    "en_g2_from_xy z7_engine q r = Some (q, r)" "en_from_parts z7_engine k g a b = (k, g)" for x y q r k g a b
    by (simp_all add: z7_engine_def)
  have "bf_repr_size z7_field = 1" by (simp add: z7_field_def)
  then have "ceremony_ok z7_field 7 z7_val z7_ceremony"
    by (simp add: ceremony_ok_def ptau_bytes_def length_g1_part length_g2_part z7_ceremony_def)
  then have ok: "ceremony_ok (en_base z7_engine) 7 z7_val z7_ceremony" by (simp add: base)
  have "[0 ..< 2] = [0, 1 :: nat]" by (simp add: upt_rec)
  then show ?thesis
    using ceremony_roundtrip [OF z7_engine_laws ok, where P = "\<lambda>i. cy_g1 z7_ceremony ! i"
        and Q = "\<lambda>i. cy_g2 z7_ceremony ! i"]
    by (simp add: base) (simp add: z7_ceremony_def)
qed

end
