(* ===== verification/Files.thy ===== *)
theory Files
  imports Prelude
begin

text \<open>
  An explicit file system for the crates that keep files: contents by path, the paths that cannot be
  written, and the paths whose directories cannot be created. Directories themselves are not modelled.
\<close>

record file_system =
  fs_files :: "string \<rightharpoonup> bytes"
  fs_read_only :: "string \<Rightarrow> bool"
  fs_no_parent :: "string \<Rightarrow> bool"

definition fs_read :: "file_system \<Rightarrow> string \<Rightarrow> (bytes, string) result" where
  "fs_read fs path = ok_or (fs_files fs path) ''No such file or directory''"

definition fs_write :: "string \<Rightarrow> bytes \<Rightarrow> file_system \<Rightarrow> (file_system, string) result" where
  "fs_write path content fs =
     (if fs_read_only fs path then Err ''Permission denied''
      else Ok (fs\<lparr> fs_files := (fs_files fs)(path \<mapsto> content) \<rparr>))"

lemma fs_read_Ok [result_simps]: "fs_read fs path = Ok bs \<longleftrightarrow> fs_files fs path = Some bs"
  by (auto simp: fs_read_def result_simps)

lemma fs_write_Ok [result_simps]:
  "fs_write path content fs = Ok fs' \<longleftrightarrow>
     \<not> fs_read_only fs path \<and> fs' = fs\<lparr> fs_files := (fs_files fs)(path \<mapsto> content) \<rparr>"
  by (auto simp: fs_write_def)

text \<open>Writing changes the file it names and no other.\<close>

lemma fs_write_frame:
  "fs_write path content fs = Ok fs' \<Longrightarrow>
     fs_files fs' path = Some content \<and> (\<forall>other. other \<noteq> path \<longrightarrow> fs_files fs' other = fs_files fs other)"
  by (auto simp: result_simps)

end
