(* ===== verification/HaloProgram.thy ===== *)
theory HaloProgram
  imports HaloGenerator PowersOfTau Files
begin

text \<open>
  The program \<open>generator.rs\<close> of \<open>halo2-verifier\<close>: it reads the ceremony file, generates the keys of the
  three circuits and writes one Solidity contract for each. Key generation and the circuits come from
  another package and are parameters, the file system is explicit, progress lines are not modelled.
\<close>

datatype relation = NewAccountRel | DepositRel | WithdrawRel

text \<open>
  \<open>pe_kzg\<close> and \<open>pe_vk\<close> read off parameters and keys what the generator needs of them; \<open>pe_count\<close> is the
  number of public inputs (\<open>PK::PublicInput::COUNT\<close>).
\<close>

record ('b, 'q, 'g1, 'g2, 'srs, 'vk, 'p, 'p2, 'r, 'r2) program_env =
  pe_engine :: "('b, 'q, 'g1, 'g2, 'srs) engine"
  pe_ptau_path :: string
  pe_generate_keys :: "relation \<Rightarrow> 'srs \<Rightarrow> ('srs \<times> 'vk, string) result"
  pe_kzg :: "'srs \<Rightarrow> ('p, 'p2) kzg_params"
  pe_vk :: "'vk \<Rightarrow> 'p verifying_key"
  pe_count :: "relation \<Rightarrow> nat"
  pe_api :: "('p, 'p2, 'r, 'r2) curve_api"
  pe_template :: "halo2_verifier renderer"

definition CONTRACTS_DIR :: string where
  "CONTRACTS_DIR = ''./contracts''"

definition relation_name :: "relation \<Rightarrow> string" where
  "relation_name r = (case r of NewAccountRel \<Rightarrow> ''NewAccount'' | DepositRel \<Rightarrow> ''Deposit'' | WithdrawRel \<Rightarrow> ''Withdraw'')"

definition save_contract_source :: "string \<Rightarrow> string \<Rightarrow> file_system \<Rightarrow> (file_system, string) result" where
  "save_contract_source filename solidity fs =
     (let path = CONTRACTS_DIR @ ''/'' @ filename
      in expect_ok (fs_write path (map of_char solidity) fs) unwrap_err)"

definition generate_solidity_verification_bundle ::
  "('b, 'q, 'g1, 'g2, 'srs, 'vk, 'p, 'p2, 'r, 'r2) program_env \<Rightarrow> relation \<Rightarrow> 'srs \<Rightarrow> (string, string) result"
  where
  "generate_solidity_verification_bundle E r full_parameters =
     and_then (expect_ok (pe_generate_keys E r full_parameters) ''Failed to generate keys'')
       (\<lambda>(parameters, vk).
     and_then (expect (solidity_generator_new (pe_kzg E parameters) (pe_vk E vk) Bdfg21 (pe_count E r))
                 ''panic in SolidityGenerator::new'') (\<lambda>g.
     and_then (expect (render_string (pe_template E) (pe_api E) g) ''panic in render'') (\<lambda>rendered.
       expect_ok rendered ''Failed to generate separate contracts'')))"

definition handle_relation ::
  "('b, 'q, 'g1, 'g2, 'srs, 'vk, 'p, 'p2, 'r, 'r2) program_env \<Rightarrow> 'srs \<Rightarrow> relation \<Rightarrow> file_system
     \<Rightarrow> (unit, string) result \<times> file_system" where
  "handle_relation E full_params r fs =
     (case and_then (generate_solidity_verification_bundle E r full_params) (\<lambda>verifier_solidity.
             save_contract_source (relation_name r @ ''Verifier.sol'') verifier_solidity fs) of
        Ok fs' \<Rightarrow> (Ok (), fs')
      | Err e \<Rightarrow> (Err e, fs)
      | Panic m \<Rightarrow> (Panic m, fs))"

fun handle_relations ::
  "('b, 'q, 'g1, 'g2, 'srs, 'vk, 'p, 'p2, 'r, 'r2) program_env \<Rightarrow> 'srs \<Rightarrow> relation list \<Rightarrow> file_system
     \<Rightarrow> (unit, string) result \<times> file_system" where
  "handle_relations E full_parameters [] fs = (Ok (), fs)"
| "handle_relations E full_parameters (r # rs) fs =
     (case handle_relation E full_parameters r fs of
        (Ok _, fs') \<Rightarrow> handle_relations E full_parameters rs fs'
      | stopped \<Rightarrow> stopped)"

definition generator_main ::
  "('b, 'q, 'g1, 'g2, 'srs, 'vk, 'p, 'p2, 'r, 'r2) program_env \<Rightarrow> file_system
     \<Rightarrow> (unit, string) result \<times> file_system" where
  "generator_main E fs =
     (case expect_ok (read_ptau (pe_engine E) (fs_files fs (pe_ptau_path E)) PerpetualPowersOfTau)
             ''failed to read parameters from the ptau file'' of
        Ok full_parameters \<Rightarrow> handle_relations E full_parameters [NewAccountRel, DepositRel, WithdrawRel] fs
      | Err e \<Rightarrow> (Err e, fs)
      | Panic m \<Rightarrow> (Panic m, fs))"

section \<open>What the program writes\<close>

definition contract_path :: "relation \<Rightarrow> string" where
  "contract_path r = CONTRACTS_DIR @ ''/'' @ relation_name r @ ''Verifier.sol''"

lemma contract_path_inj: "contract_path r = contract_path r' \<longleftrightarrow> r = r'"
  by (cases r; cases r') (simp_all add: contract_path_def relation_name_def)

lemma expect_never_Err [simp]: "expect x m \<noteq> Err e"
  by (cases x) simp_all

lemma bundle_never_Err: "generate_solidity_verification_bundle E r srs \<noteq> Err e"
  by (auto simp: generate_solidity_verification_bundle_def result_simps)

lemma save_contract_source_Ok:
  "save_contract_source (relation_name r @ ''Verifier.sol'') sol fs = Ok fs' \<longleftrightarrow>
     \<not> fs_read_only fs (contract_path r) \<and>
     fs' = fs\<lparr> fs_files := (fs_files fs)(contract_path r \<mapsto> map of_char sol) \<rparr>"
  by (simp add: save_contract_source_def contract_path_def Let_def result_simps)

lemma handle_relation_cases:
  "handle_relation E srs r fs =
     (case generate_solidity_verification_bundle E r srs of
        Ok sol \<Rightarrow> if fs_read_only fs (contract_path r) then (Panic unwrap_err, fs)
          else (Ok (), fs\<lparr> fs_files := (fs_files fs)(contract_path r \<mapsto> map of_char sol) \<rparr>)
      | Err e \<Rightarrow> (Err e, fs)
      | Panic m \<Rightarrow> (Panic m, fs))"
  by (simp add: handle_relation_def save_contract_source_def contract_path_def fs_write_def Let_def
      split: result.splits)

text \<open>
  Whether the program succeeds or panics, a file is unchanged or it is the contract of a relation,
  generated from the ceremony file; a success means that all three contracts are. It never returns an
  error.
\<close>

lemma handle_relations_files:
  assumes "handle_relations E srs rs fs = (res, fs')" "distinct rs"
  shows "(\<forall>e. res \<noteq> Err e) \<and>
     (\<forall>r \<in> set rs. is_ok res \<longrightarrow> (\<exists>sol. generate_solidity_verification_bundle E r srs = Ok sol \<and>
        fs_files fs' (contract_path r) = Some (map of_char sol))) \<and>
     (\<forall>path. fs_files fs' path = fs_files fs path \<or>
        (\<exists>r \<in> set rs. \<exists>sol. path = contract_path r \<and> generate_solidity_verification_bundle E r srs = Ok sol \<and>
           fs_files fs' path = Some (map of_char sol)))"
  using assms
proof (induction rs arbitrary: fs)
  case Nil
  then show ?case by auto
next
  case (Cons r rs)
  show ?case
  proof (cases "\<exists>fs1. handle_relation E srs r fs = (Ok (), fs1)")
    case True
    then obtain fs1 where fs1: "handle_relation E srs r fs = (Ok (), fs1)" ..
    then obtain sol where sol: "generate_solidity_verification_bundle E r srs = Ok sol"
      "fs_files fs1 = (fs_files fs)(contract_path r \<mapsto> map of_char sol)"
      by (auto simp: handle_relation_cases split: result.splits if_splits)
    from fs1 Cons.prems have "handle_relations E srs rs fs1 = (res, fs')" "distinct rs" by simp_all
    note IH = Cons.IH [OF this]
    have "r \<notin> set rs" using Cons.prems(2) by simp
    then have "fs_files fs' (contract_path r) = fs_files fs1 (contract_path r)"
      using IH contract_path_inj by metis
    with sol(2) have here: "fs_files fs' (contract_path r) = Some (map of_char sol)" by simp
    from sol(2) have "path \<noteq> contract_path r \<longrightarrow> fs_files fs1 path = fs_files fs path" for path by simp
    with IH here sol(1) show ?thesis by (metis list.set_intros(1,2) set_ConsD)
  next
    case False
    then have "fs' = fs" "\<not> is_ok res" "\<forall>e. res \<noteq> Err e"
      using Cons.prems(1) bundle_never_Err [of E r srs]
      by (auto simp: handle_relation_cases split: result.splits if_splits)
    then show ?thesis by auto
  qed
qed

lemma generator_main_files:
  assumes "generator_main E fs = (Ok (), fs')"
  shows "\<exists>srs. read_ptau (pe_engine E) (fs_files fs (pe_ptau_path E)) PerpetualPowersOfTau = Ok srs \<and>
     (\<forall>r. \<exists>sol. generate_solidity_verification_bundle E r srs = Ok sol \<and>
        fs_files fs' (contract_path r) = Some (map of_char sol)) \<and>
     (\<forall>path. path \<notin> range contract_path \<longrightarrow> fs_files fs' path = fs_files fs path)"
proof -
  from assms obtain srs where srs: "read_ptau (pe_engine E) (fs_files fs (pe_ptau_path E)) PerpetualPowersOfTau = Ok srs"
    "handle_relations E srs [NewAccountRel, DepositRel, WithdrawRel] fs = (Ok (), fs')"
    by (auto simp: generator_main_def result_simps split: result.splits)
  have all: "set [NewAccountRel, DepositRel, WithdrawRel] = UNIV" by (auto intro: relation.exhaust)
  from handle_relations_files [OF srs(2)]
  have "(\<forall>r. \<exists>sol. generate_solidity_verification_bundle E r srs = Ok sol \<and>
        fs_files fs' (contract_path r) = Some (map of_char sol)) \<and>
     (\<forall>path. path \<notin> range contract_path \<longrightarrow> fs_files fs' path = fs_files fs path)"
    unfolding all by auto
  with srs(1) show ?thesis by blast
qed

end
