(* ===== verification/Setup.thy ===== *)
theory Setup
  imports TypeConversions
begin

text \<open>
  The crate \<open>shielder-setup\<close>: constants of the deployment, the contract version and the protocol
  fee. Fees are computed in 512-bit arithmetic and panic when the result does not fit a \<open>U256\<close>;
  the lemmas below show that they are rounded-up fractions, when they panic, and that the fee from
  a net amount is the fee from the corresponding gross amount.
\<close>

section \<open>Constants and versions\<close>

definition ARITY :: nat where "ARITY = 7"

definition TREE_HEIGHT :: nat where "TREE_HEIGHT = 13"

definition NATIVE_TOKEN_ADDRESS :: "'f field_api \<Rightarrow> 'f" where
  "NATIVE_TOKEN_ADDRESS FF = u256_to_field FF 0"

definition NATIVE_TOKEN_DECIMALS :: u32 where "NATIVE_TOKEN_DECIMALS = 18"

definition ONE_TZERO :: u128 where "ONE_TZERO = 1000000000000000000"

definition DEFAULT_SEED :: u64 where "DEFAULT_SEED = 42"

text \<open>The seed of the parameter generator: environment variable first, else the default.\<close>

definition rng_seed :: "(string \<Rightarrow> u64 option) \<Rightarrow> string option \<Rightarrow> u64" where
  "rng_seed parse_u64 env_var =
     (case Option.bind env_var parse_u64 of Some s \<Rightarrow> s | None \<Rightarrow> DEFAULT_SEED)"

record contract_version_t =
  note_version :: u8
  circuit_version :: u8
  patch_version :: u8

definition version_to_bytes :: "contract_version_t \<Rightarrow> bytes3" where
  "version_to_bytes v = (note_version v, circuit_version v, patch_version v)"

definition version_from_bytes :: "bytes3 \<Rightarrow> contract_version_t" where
  "version_from_bytes bs = (case bs of (a, b, c) \<Rightarrow>
     \<lparr> note_version = a, circuit_version = b, patch_version = c \<rparr>)"

definition contract_version :: contract_version_t where
  "contract_version = \<lparr> note_version = 0, circuit_version = 1, patch_version = 1 \<rparr>"

lemma version_bytes_roundtrip [simp]:
  "version_from_bytes (version_to_bytes v) = v"
  "version_to_bytes (version_from_bytes bs) = bs"
  by (simp_all add: version_from_bytes_def version_to_bytes_def split: prod.splits)

lemma version_from_bytes_eq_iff: "version_from_bytes bs = v \<longleftrightarrow> bs = version_to_bytes v"
  by (metis version_bytes_roundtrip)

section \<open>Protocol fee\<close>

definition MAX_BPS :: u16 where "MAX_BPS = 10000"

definition u512_to_u256 :: "u512 \<Rightarrow> (u256, 'e) result" where
  "u512_to_u256 r = (if r > ucast (- 1 :: u256) then Panic ''Protocol fee amount overflow''
     else Ok (ucast r))"

definition u512_div :: "u512 \<Rightarrow> u512 \<Rightarrow> (u512, 'e) result" where
  "u512_div a b = (if b = 0 then Panic ''division by zero'' else Ok (a div b))"

definition compute_protocol_fee_from_gross :: "u256 \<Rightarrow> u256 \<Rightarrow> (u256, 'e) result" where
  "compute_protocol_fee_from_gross amount protocol_fee_bps =
     and_then (u512_div (ucast amount * ucast protocol_fee_bps + ucast (MAX_BPS - 1)) (ucast MAX_BPS))
       u512_to_u256"

definition compute_protocol_fee_from_net :: "u256 \<Rightarrow> u256 \<Rightarrow> (u256, 'e) result" where
  "compute_protocol_fee_from_net amount protocol_fee_bps =
     (let denom = ucast MAX_BPS - ucast protocol_fee_bps
      in and_then (u512_div (ucast amount * ucast protocol_fee_bps + denom - 1) denom)
           u512_to_u256)"

subsection \<open>The fees as rounded-up fractions\<close>

definition ceil_div :: "nat \<Rightarrow> nat \<Rightarrow> nat" where
  "ceil_div n d = (n + d - 1) div d"

lemma ceil_div_le_iff: "0 < d \<Longrightarrow> ceil_div n d \<le> k \<longleftrightarrow> n \<le> k * d"
proof -
  assume d: "0 < d"
  have "(n + d - 1) div d < Suc k \<longleftrightarrow> n + d - 1 < Suc k * d"
    by (rule div_less_iff_less_mult [OF d])
  then show ?thesis using d by (simp add: ceil_div_def less_Suc_eq_le algebra_simps) linarith
qed

lemma ceil_div_eq_iff:
  assumes "0 < d"
  shows "ceil_div n d = k \<longleftrightarrow> n \<le> k * d \<and> (0 < k \<longrightarrow> (k - 1) * d < n)"
proof (cases k)
  case 0
  then show ?thesis using ceil_div_le_iff [OF assms, of n 0] by auto
next
  case (Suc j)
  have "ceil_div n d = k \<longleftrightarrow> ceil_div n d \<le> k \<and> \<not> ceil_div n d \<le> j" using Suc by auto
  then show ?thesis using ceil_div_le_iff [OF assms] Suc by auto
qed

lemma unat_ucast_512 [simp]: "unat (ucast (a :: u256) :: u512) = unat a"
proof -
  have "unat a < 2 ^ 512" using unat_lt_pow [of a] by (rule less_trans) simp
  then show ?thesis by (simp add: unsigned_ucast_eq take_bit_eq_mod)
qed

lemma unat_ucast_bps [simp]: "unat (ucast (MAX_BPS - 1) :: u512) = 9999" "unat (ucast MAX_BPS :: u512) = 10000"
  by (simp_all add: MAX_BPS_def)

lemma unat_max_u256: "unat (- 1 :: u256) = 2 ^ 256 - 1"
  by (simp add: unsigned_minus_1_eq_mask mask_eq_exp_minus_1)

lemma u512_to_u256_alt:
  "u512_to_u256 r = (if unat r < 2 ^ 256 then Ok (of_nat (unat r))
     else Panic ''Protocol fee amount overflow'')"
proof -
  have lt: "r > ucast (- 1 :: u256) \<longleftrightarrow> \<not> unat r < 2 ^ 256"
    unfolding word_less_nat_alt unat_ucast_512 unat_max_u256 by auto
  have "(ucast r :: u256) = of_nat (unat r)"
    by (simp add: word_unat_eq_iff unsigned_ucast_eq unat_of_nat)
  then show ?thesis unfolding u512_to_u256_def lt by simp
qed

lemma mult_256_bound: "unat (a :: u256) * unat (b :: u256) \<le> (2 ^ 256 - 1) * (2 ^ 256 - 1)"
proof -
  have "unat a < 2 ^ 256" "unat b < 2 ^ 256"
    using unat_lt_pow [of a] unat_lt_pow [of b] by simp_all
  then have "unat a \<le> 2 ^ 256 - 1" "unat b \<le> 2 ^ 256 - 1" by linarith+
  then show ?thesis by (rule mult_le_mono)
qed

lemma unat_mult_512: "unat (ucast (a :: u256) * ucast (b :: u256) :: u512) = unat a * unat b"
proof -
  have "unat a * unat b < 2 ^ 512" using mult_256_bound [of a b] by (rule le_less_trans) simp
  then show ?thesis using unat_mult_lt [of "ucast a :: u512" "ucast b"] by simp
qed

lemma unat_mult_add_512:
  assumes "unat c \<le> 10000"
  shows "unat (ucast (a :: u256) * ucast (b :: u256) + c :: u512) = unat a * unat b + unat c"
proof -
  have "unat a * unat b + unat c < 2 ^ 512" using mult_256_bound [of a b] assms by simp
  then show ?thesis
    using unat_add_lt [of "ucast a * ucast b :: u512" c] by (simp add: unat_mult_512)
qed

lemma compute_protocol_fee_from_gross_alt:
  "compute_protocol_fee_from_gross a bps =
     (let fee = ceil_div (unat a * unat bps) 10000
      in if fee < 2 ^ 256 then Ok (of_nat fee) else Panic ''Protocol fee amount overflow'')"
proof -
  have nz: "(ucast MAX_BPS :: u512) \<noteq> 0" by (simp add: MAX_BPS_def)
  have "unat ((ucast a * ucast bps + ucast (MAX_BPS - 1)) div ucast MAX_BPS :: u512)
      = ceil_div (unat a * unat bps) 10000"
    by (simp add: unat_div unat_mult_add_512 ceil_div_def)
  with nz show ?thesis
    by (simp add: compute_protocol_fee_from_gross_def u512_div_def u512_to_u256_alt Let_def)
qed

lemma unat_denom:
  assumes "unat (bps :: u256) \<le> 10000"
  shows "unat (ucast MAX_BPS - ucast bps :: u512) = 10000 - unat bps"
proof -
  have "(ucast bps :: u512) \<le> ucast MAX_BPS"
    using assms by (simp add: word_le_nat_alt)
  then show ?thesis by (simp add: unat_sub)
qed

lemma compute_protocol_fee_from_net_alt:
  assumes "unat bps < 10000"
  shows "compute_protocol_fee_from_net a bps =
     (let fee = ceil_div (unat a * unat bps) (10000 - unat bps)
      in if fee < 2 ^ 256 then Ok (of_nat fee) else Panic ''Protocol fee amount overflow'')"
proof -
  let ?d = "ucast MAX_BPS - ucast bps :: u512"
  have d: "unat ?d = 10000 - unat bps" using assms by (intro unat_denom) simp
  then have nz: "?d \<noteq> 0" using assms by (metis unsigned_0 zero_less_diff less_irrefl)
  have num: "unat (ucast a * ucast bps + ?d) = unat a * unat bps + (10000 - unat bps)"
    by (subst unat_mult_add_512) (simp_all add: d)
  then have "(1 :: u512) \<le> ucast a * ucast bps + ?d"
    using assms by (simp add: word_le_nat_alt)
  then have "unat (ucast a * ucast bps + ?d - 1) = unat a * unat bps + (10000 - unat bps) - 1"
    by (simp add: unat_sub num)
  then have "unat ((ucast a * ucast bps + ?d - 1) div ?d)
      = ceil_div (unat a * unat bps) (10000 - unat bps)"
    by (simp only: unat_div d ceil_div_def)
  with nz show ?thesis
    by (simp add: compute_protocol_fee_from_net_def u512_div_def u512_to_u256_alt Let_def)
qed

lemma unat_of_nat_256: "n < 2 ^ 256 \<Longrightarrow> unat (of_nat n :: u256) = n"
  using unat_of_nat_lt [of n, where 'a = 256] by simp

lemma fee_Ok_unat:
  "(if n < 2 ^ 256 then Ok (of_nat n) else Panic m) = Ok (fee :: u256) \<Longrightarrow> unat fee = n"
proof -
  assume a: "(if n < 2 ^ 256 then Ok (of_nat n) else Panic m) = Ok fee"
  then have "n < 2 ^ 256" by (rule contrapos_pp) (simp only: if_False result.distinct not_False_eq_True)
  moreover from this a have "fee = of_nat n" by (simp only: if_True result.inject)
  ultimately show ?thesis by (simp only: unat_of_nat_256)
qed

lemma gross_fee_Ok:
  "compute_protocol_fee_from_gross a bps = Ok fee \<Longrightarrow> unat fee = ceil_div (unat a * unat bps) 10000"
  unfolding compute_protocol_fee_from_gross_alt Let_def by (rule fee_Ok_unat)

lemma net_fee_Ok:
  "unat bps < 10000 \<Longrightarrow> compute_protocol_fee_from_net a bps = Ok fee \<Longrightarrow>
     unat fee = ceil_div (unat a * unat bps) (10000 - unat bps)"
  unfolding compute_protocol_fee_from_net_alt Let_def by (rule fee_Ok_unat)

lemma gross_fee_OkI:
  assumes "ceil_div (unat a * unat bps) 10000 = unat fee"
  shows "compute_protocol_fee_from_gross a bps = Ok fee"
proof -
  have "unat fee < 2 ^ 256" using unat_lt_pow [of fee] by simp
  then show ?thesis
    unfolding compute_protocol_fee_from_gross_alt Let_def assms
    by (simp only: if_True of_nat_unat ucast_id)
qed

section \<open>Properties\<close>

text \<open>
  For a rate of at most 100 percent the fee taken from a gross amount always exists (no
  panic), never exceeds the amount, and is the exact fraction rounded up by less than one unit.
\<close>

theorem gross_fee_bounded:
  assumes "unat bps \<le> 10000"
  shows "\<exists>fee. compute_protocol_fee_from_gross amount bps = Ok fee \<and> unat fee \<le> unat amount \<and>
    unat amount * unat bps \<le> unat fee * 10000 \<and>
    unat fee * 10000 < unat amount * unat bps + 10000"
proof -
  let ?f = "ceil_div (unat amount * unat bps) 10000"
  have le: "?f \<le> unat amount" using assms by (simp add: ceil_div_le_iff)
  then have "?f < 2 ^ 256" using unat_lt_pow [of amount] by simp
  then have f: "unat (of_nat ?f :: u256) = ?f" by (rule unat_of_nat_256)
  from gross_fee_OkI [of amount bps "of_nat ?f"] f
  have "compute_protocol_fee_from_gross amount bps = Ok (of_nat ?f)" by simp
  moreover have "unat amount * unat bps \<le> ?f * 10000 \<and> ?f * 10000 < unat amount * unat bps + 10000"
    using ceil_div_eq_iff [of 10000 "unat amount * unat bps" ?f] by (cases ?f) auto
  ultimately show ?thesis using le f by (metis)
qed

theorem gross_fee_bounded_witness:
  "unat (500 :: u256) \<le> 10000 \<and> (\<exists>fee. compute_protocol_fee_from_gross 99997 500 = Ok fee \<and>
    unat fee \<le> unat (99997 :: u256) \<and> unat (99997 :: u256) * unat (500 :: u256) \<le> unat fee * 10000 \<and>
    unat fee * 10000 < unat (99997 :: u256) * unat (500 :: u256) + 10000)"
proof -
  have h: "unat (500 :: u256) \<le> 10000" by simp
  with gross_fee_bounded [OF h, of 99997] show ?thesis by simp
qed

lemma net_fee_gross:
  assumes "unat bps < 10000"
    and "compute_protocol_fee_from_net amount bps = Ok fee"
    and "unat amount + unat fee < 2 ^ 256"
  shows "compute_protocol_fee_from_gross (amount + fee) bps = Ok fee"
proof (rule gross_fee_OkI)
  let ?a = "unat amount" and ?b = "unat bps" and ?f = "unat fee"
  have sum: "unat (amount + fee) = ?a + ?f" using assms(3) by (simp add: unat_add_lt)
  have d: "0 < 10000 - ?b" using assms(1) by simp
  have "ceil_div (?a * ?b) (10000 - ?b) = ?f" using net_fee_Ok [OF assms(1,2)] by simp
  then have up: "?a * ?b \<le> ?f * (10000 - ?b)"
    and low: "0 < ?f \<longrightarrow> (?f - 1) * (10000 - ?b) < ?a * ?b"
    using ceil_div_eq_iff [OF d] by auto
  obtain k where k: "10000 = ?b + k" using assms(1) by (metis le_add_diff_inverse less_imp_le)
  then have kd: "10000 - ?b = k" by simp
  have split: "n * 10000 = n * ?b + n * k" for n by (metis k distrib_left)
  have "(?a + ?f) * ?b \<le> ?f * 10000"
    unfolding split distrib_right using up kd by (metis add.commute add_le_mono order_refl)
  moreover have "0 < ?f \<longrightarrow> (?f - 1) * 10000 < (?a + ?f) * ?b"
    unfolding split using low k by (cases ?f) (auto simp: algebra_simps)
  ultimately show "ceil_div (unat (amount + fee) * ?b) 10000 = ?f"
    unfolding sum by (simp add: ceil_div_eq_iff)
qed

text \<open>
  C35. The two fee functions agree: topping a net amount up with the fee computed from the net
  amount gives a gross amount whose fee is that same fee, so what the client announces is what is
  charged.
\<close>

theorem net_fee_is_gross_fee:
  assumes "unat bps < 10000"
    and "compute_protocol_fee_from_net amount bps = Ok fee"
    and "unat amount + unat fee < 2 ^ 256"
  shows "compute_protocol_fee_from_gross (amount + fee) bps = Ok fee"
  by (rule net_fee_gross [OF assms])

theorem net_fee_is_gross_fee_witness:
  "compute_protocol_fee_from_net 94997 500 = Ok 5000 \<and>
   compute_protocol_fee_from_gross 99997 500 = Ok 5000"
proof -
  have n: "compute_protocol_fee_from_net 94997 500 = Ok 5000"
    by (subst compute_protocol_fee_from_net_alt) (simp_all add: ceil_div_def)
  then show ?thesis using net_fee_is_gross_fee [OF _ n] by simp
qed

text \<open>
  At a rate of 100 percent no gross amount leaves a positive net amount, and the computation from
  the net amount divides by zero.
\<close>

lemma net_fee_panics_at_max_bps:
  "compute_protocol_fee_from_net amount 10000 = Panic ''division by zero''"
  by (simp add: compute_protocol_fee_from_net_def u512_div_def MAX_BPS_def)

end
