(* ===== verification/Contract.thy ===== *)
theory Contract
  imports Setup
begin

text \<open>
  The crate \<open>shielder-contract\<close>: the calls and events of the Shielder contract, the errors of the
  client library, commitments, the connection to a node, Merkle paths and the recovery of an action
  from the chain. The node (provider), the ABI decoders and Keccak are parameters.
\<close>

section \<open>Calls, events and errors\<close>

record newAccountNativeCall =
  nan_expectedContractVersion :: bytes3
  nan_newNote :: u256
  nan_prenullifier :: u256
  nan_symKeyEncryptionC1X :: u256
  nan_symKeyEncryptionC1Y :: u256
  nan_symKeyEncryptionC2X :: u256
  nan_symKeyEncryptionC2Y :: u256
  nan_macSalt :: u256
  nan_macCommitment :: u256
  nan_proof :: bytes
  nan_memo :: bytes

record newAccountERC20Call =
  nae_expectedContractVersion :: bytes3
  nae_tokenAddress :: address
  nae_amount :: u256
  nae_newNote :: u256
  nae_prenullifier :: u256
  nae_symKeyEncryptionC1X :: u256
  nae_symKeyEncryptionC1Y :: u256
  nae_symKeyEncryptionC2X :: u256
  nae_symKeyEncryptionC2Y :: u256
  nae_macSalt :: u256
  nae_macCommitment :: u256
  nae_proof :: bytes
  nae_memo :: bytes

record depositNativeCall =
  dn_expectedContractVersion :: bytes3
  dn_oldNullifierHash :: u256
  dn_newNote :: u256
  dn_merkleRoot :: u256
  dn_macSalt :: u256
  dn_macCommitment :: u256
  dn_proof :: bytes
  dn_memo :: bytes

record depositERC20Call =
  de_expectedContractVersion :: bytes3
  de_tokenAddress :: address
  de_amount :: u256
  de_oldNullifierHash :: u256
  de_newNote :: u256
  de_merkleRoot :: u256
  de_macSalt :: u256
  de_macCommitment :: u256
  de_proof :: bytes
  de_memo :: bytes

record withdrawNativeCall =
  wn_expectedContractVersion :: bytes3
  wn_amount :: u256
  wn_withdrawalAddress :: address
  wn_merkleRoot :: u256
  wn_oldNullifierHash :: u256
  wn_newNote :: u256
  wn_proof :: bytes
  wn_relayerAddress :: address
  wn_relayerFee :: u256
  wn_macSalt :: u256
  wn_macCommitment :: u256
  wn_memo :: bytes

record withdrawERC20Call =
  we_expectedContractVersion :: bytes3
  we_tokenAddress :: address
  we_amount :: u256
  we_withdrawalAddress :: address
  we_merkleRoot :: u256
  we_oldNullifierHash :: u256
  we_newNote :: u256
  we_proof :: bytes
  we_relayerAddress :: address
  we_relayerFee :: u256
  we_macSalt :: u256
  we_macCommitment :: u256
  we_memo :: bytes

record new_account_event =
  ena_contractVersion :: bytes3
  ena_prenullifier :: u256
  ena_tokenAddress :: address
  ena_amount :: u256
  ena_newNote :: u256
  ena_newNoteIndex :: u256
  ena_macSalt :: u256
  ena_macCommitment :: u256
  ena_protocolFee :: u256
  ena_memo :: bytes

record deposit_event =
  ed_contractVersion :: bytes3
  ed_tokenAddress :: address
  ed_amount :: u256
  ed_newNote :: u256
  ed_newNoteIndex :: u256
  ed_macSalt :: u256
  ed_macCommitment :: u256
  ed_protocolFee :: u256
  ed_memo :: bytes

record withdraw_event =
  ew_contractVersion :: bytes3
  ew_tokenAddress :: address
  ew_amount :: u256
  ew_withdrawalAddress :: address
  ew_newNote :: u256
  ew_newNoteIndex :: u256
  ew_relayerAddress :: address
  ew_fee :: u256
  ew_macSalt :: u256
  ew_macCommitment :: u256
  ew_pocketMoney :: u256
  ew_protocolFee :: u256
  ew_memo :: bytes

datatype shielder_contract_event =
    NewAccountEvent new_account_event
  | DepositEvent deposit_event
  | WithdrawEvent withdraw_event

datatype contract_error =
    ProviderError string
  | SignerConflict
  | CallError string
  | WatchError
  | EventNotFound
  | InvalidSigner string
  | ContractVersionMismatch contract_version_t contract_version_t
  | OtherError string

text \<open>An error of the contract library is known by its message.\<close>

fun is_prefix_of :: "'a list \<Rightarrow> 'a list \<Rightarrow> bool" where
  "is_prefix_of [] ys = True"
| "is_prefix_of (x # xs) [] = False"
| "is_prefix_of (x # xs) (y # ys) = (x = y \<and> is_prefix_of xs ys)"

fun str_contains :: "string \<Rightarrow> string \<Rightarrow> bool" where
  "str_contains [] pat = is_prefix_of pat []"
| "str_contains (c # cs) pat = (is_prefix_of pat (c # cs) \<or> str_contains cs pat)"

definition error_from_alloy :: "string \<Rightarrow> contract_error" where
  "error_from_alloy e =
     (if str_contains e ''nonce too low'' \<or> str_contains e ''transaction already imported''
         \<or> str_contains e ''already known''
      then SignerConflict else CallError e)"

definition error_from_str :: "string \<Rightarrow> contract_error" where
  "error_from_str e = OtherError e"

fun event_note :: "shielder_contract_event \<Rightarrow> u256" where
  "event_note (NewAccountEvent e) = ena_newNote e"
| "event_note (DepositEvent e) = ed_newNote e"
| "event_note (WithdrawEvent e) = ew_newNote e"

fun event_version :: "shielder_contract_event \<Rightarrow> contract_version_t" where
  "event_version (NewAccountEvent e) = version_from_bytes (ena_contractVersion e)"
| "event_version (DepositEvent e) = version_from_bytes (ed_contractVersion e)"
| "event_version (WithdrawEvent e) = version_from_bytes (ew_contractVersion e)"

definition check_version :: "shielder_contract_event \<Rightarrow> (unit, contract_error) result" where
  "check_version e =
     (let version = event_version e; sdk_version = contract_version
      in if version = sdk_version then Ok ()
         else Err (ContractVersionMismatch version sdk_version))"

section \<open>Commitments\<close>

text \<open>
  Solidity's packed encoding: values big endian at their width, one after the other. Keccak is the
  parameter \<open>keccak\<close>, whose digest is read as a big-endian \<open>U256\<close>.
\<close>

definition packed_bytes3 :: "bytes3 \<Rightarrow> bytes" where
  "packed_bytes3 v = (case v of (a, b, c) \<Rightarrow> [a, b, c])"

definition packed_u256 :: "u256 \<Rightarrow> bytes" where
  "packed_u256 v = to_be_bytes 32 v"

definition hash_to_u256 :: "(bytes \<Rightarrow> bytes) \<Rightarrow> bytes \<Rightarrow> u256" where
  "hash_to_u256 keccak bs = from_be_bytes (keccak bs)"

record withdraw_commitment =
  wc_contract_version :: contract_version_t
  wc_withdraw_address :: address
  wc_relayer_address :: address
  wc_relayer_fee :: u256
  wc_chain_id :: u256
  wc_pocket_money :: u256
  wc_protocol_fee :: u256
  wc_memo :: bytes

definition withdraw_preimage :: "withdraw_commitment \<Rightarrow> bytes" where
  "withdraw_preimage c =
     packed_bytes3 (version_to_bytes (wc_contract_version c)) @
     packed_u256 (address_to_u256 (wc_withdraw_address c)) @
     packed_u256 (address_to_u256 (wc_relayer_address c)) @
     packed_u256 (wc_relayer_fee c) @
     packed_u256 (wc_chain_id c) @
     packed_u256 (wc_pocket_money c) @
     packed_u256 (wc_protocol_fee c) @
     wc_memo c"

definition withdraw_commitment_hash :: "(bytes \<Rightarrow> bytes) \<Rightarrow> withdraw_commitment \<Rightarrow> u256" where
  "withdraw_commitment_hash keccak c = drop_bit 4 (hash_to_u256 keccak (withdraw_preimage c))"

record new_account_commitment =
  nac_caller_address :: address
  nac_protocol_fee :: u256

definition new_account_preimage :: "new_account_commitment \<Rightarrow> bytes" where
  "new_account_preimage c =
     packed_u256 (address_to_u256 (nac_caller_address c)) @ packed_u256 (nac_protocol_fee c)"

definition new_account_commitment_hash :: "(bytes \<Rightarrow> bytes) \<Rightarrow> new_account_commitment \<Rightarrow> u256" where
  "new_account_commitment_hash keccak c = drop_bit 4 (hash_to_u256 keccak (new_account_preimage c))"

record deposit_commitment =
  dc_caller_address :: address
  dc_protocol_fee :: u256

definition deposit_preimage :: "deposit_commitment \<Rightarrow> bytes" where
  "deposit_preimage c =
     packed_u256 (address_to_u256 (dc_caller_address c)) @ packed_u256 (dc_protocol_fee c)"

definition deposit_commitment_hash :: "(bytes \<Rightarrow> bytes) \<Rightarrow> deposit_commitment \<Rightarrow> u256" where
  "deposit_commitment_hash keccak c = drop_bit 4 (hash_to_u256 keccak (deposit_preimage c))"

section \<open>Connection and call kinds\<close>

text \<open>
  A provider \<open>'p\<close> and a signer \<open>'s\<close> come from another package. A call kind (\<open>Call\<close>, \<open>Submit\<close>,
  \<open>DryRun\<close>, \<open>EstimateGas\<close>) is a function from a provider and a prepared request to its outcome; the
  node operations it uses are its parameters and fail with a message.
\<close>

record 'c call_request =
  rq_to :: address
  rq_call :: 'c
  rq_from :: address
  rq_value :: u256

type_synonym ('p, 'c, 'r) call_kind = "'p \<Rightarrow> 'c call_request \<Rightarrow> ('r, contract_error) result"

definition call_action ::
  "('p \<Rightarrow> 'c call_request \<Rightarrow> (hash32, string) result) \<Rightarrow>
   ('p \<Rightarrow> hash32 \<Rightarrow> (hash32 \<times> hash32 option, string) result) \<Rightarrow> ('p, 'c, hash32 \<times> hash32) call_kind" where
  "call_action send get_receipt p rq =
     and_then (map_err error_from_alloy (send p rq)) (\<lambda>pending.
     and_then (map_err (\<lambda>e. WatchError) (get_receipt p pending)) (\<lambda>receipt.
     and_then (expect (snd receipt) ''Block hash is missing'') (\<lambda>block_hash.
     Ok (fst receipt, block_hash))))"

definition submit_action ::
  "('p \<Rightarrow> 'c call_request \<Rightarrow> (hash32, string) result) \<Rightarrow> ('p, 'c, hash32) call_kind" where
  "submit_action send p rq = map_err error_from_alloy (send p rq)"

definition dry_run_action ::
  "('p \<Rightarrow> 'c call_request \<Rightarrow> ('o, string) result) \<Rightarrow> ('o \<Rightarrow> 'r) \<Rightarrow> ('p, 'c, 'r) call_kind" where
  "dry_run_action call unwrap_result p rq =
     map_ok unwrap_result (map_err error_from_alloy (call p rq))"

definition estimate_gas_action ::
  "('p \<Rightarrow> 'c call_request \<Rightarrow> (u64, string) result) \<Rightarrow> ('p, 'c, u64) call_kind" where
  "estimate_gas_action estimate p rq = map_err error_from_alloy (estimate p rq)"

datatype ('p, 's) connection_policy = Keep 'p address | OnDemand string 's

record ('p, 's) connection =
  cn_contract_address :: address
  cn_policy :: "('p, 's) connection_policy"

text \<open>The surroundings of a connection: signers, provider creation, the feature flag \<open>erc20\<close>.\<close>

record ('p, 's) net_env =
  ne_signer_address :: "'s \<Rightarrow> address"
  ne_create_provider :: "string \<Rightarrow> 's \<Rightarrow> ('p, contract_error) result"
  ne_erc20 :: bool

fun policy_caller_address :: "('p, 's) net_env \<Rightarrow> ('p, 's) connection_policy \<Rightarrow> address" where
  "policy_caller_address env (Keep p caller_address) = caller_address"
| "policy_caller_address env (OnDemand rpc_url signer) = ne_signer_address env signer"

definition caller_address :: "('p, 's) net_env \<Rightarrow> ('p, 's) connection \<Rightarrow> address" where
  "caller_address env conn = policy_caller_address env (cn_policy conn)"

definition call_with_resolved_provider ::
  "('p, 's) net_env \<Rightarrow> ('p, 's) connection \<Rightarrow> ('p, 'c, 'r) call_kind \<Rightarrow>
   address \<Rightarrow> 'c \<Rightarrow> u256 option \<Rightarrow> 'p \<Rightarrow> ('r, contract_error) result" where
  "call_with_resolved_provider env conn CT contract_address call value p =
     (if contract_address = cn_contract_address conn then
        CT p \<lparr> rq_to = cn_contract_address conn, rq_call = call,
               rq_from = caller_address env conn, rq_value = (case value of None \<Rightarrow> 0 | Some v \<Rightarrow> v) \<rparr>
      else if \<not> ne_erc20 env then Err (OtherError ''Contract address mismatch'')
      else
        CT p \<lparr> rq_to = contract_address, rq_call = call,
               rq_from = caller_address env conn, rq_value = (case value of None \<Rightarrow> 0 | Some v \<Rightarrow> v) \<rparr>)"

definition connection_call_inner ::
  "('p, 's) net_env \<Rightarrow> ('p, 's) connection \<Rightarrow> ('p, 'c, 'r) call_kind \<Rightarrow>
   address \<Rightarrow> 'c \<Rightarrow> u256 option \<Rightarrow> ('r, contract_error) result" where
  "connection_call_inner env conn CT contract_address call value =
     (case cn_policy conn of
        Keep p _ \<Rightarrow> call_with_resolved_provider env conn CT contract_address call value p
      | OnDemand rpc_url signer \<Rightarrow>
          and_then (ne_create_provider env rpc_url signer)
            (call_with_resolved_provider env conn CT contract_address call value))"

definition connection_call_with_address ::
  "('p, 's) net_env \<Rightarrow> ('p, 's) connection \<Rightarrow> ('p, 'c, 'r) call_kind \<Rightarrow> address \<Rightarrow> 'c
     \<Rightarrow> ('r, contract_error) result" where
  "connection_call_with_address env conn CT contract_address call =
     connection_call_inner env conn CT contract_address call None"

definition connection_call ::
  "('p, 's) net_env \<Rightarrow> ('p, 's) connection \<Rightarrow> ('p, 'c, 'r) call_kind \<Rightarrow> 'c
     \<Rightarrow> ('r, contract_error) result" where
  "connection_call env conn CT call =
     connection_call_inner env conn CT (cn_contract_address conn) call None"

definition connection_call_with_value ::
  "('p, 's) net_env \<Rightarrow> ('p, 's) connection \<Rightarrow> ('p, 'c, 'r) call_kind \<Rightarrow> 'c \<Rightarrow> u256
     \<Rightarrow> ('r, contract_error) result" where
  "connection_call_with_value env conn CT call value =
     connection_call_inner env conn CT (cn_contract_address conn) call (Some value)"

section \<open>The user of the contract\<close>

record getMerklePathCall =
  gmp_id :: u256

record nullifiersCall =
  nc_nullifierHash :: u256

record approveCall =
  ac_spender :: address
  ac_amount :: u256

record allowanceCall =
  alc_owner :: address
  alc_spender :: address

datatype anonymityRevokerPubkeyCall = AnonymityRevokerPubkeyCall
datatype protocolDepositFeeBpsCall = ProtocolDepositFeeBpsCall
datatype protocolWithdrawFeeBpsCall = ProtocolWithdrawFeeBpsCall

record ('p, 's) shielder_user =
  su_connection :: "('p, 's) connection"

definition shielder_user_new :: "address \<Rightarrow> ('p, 's) connection_policy \<Rightarrow> ('p, 's) shielder_user" where
  "shielder_user_new contract_address policy =
     \<lparr> su_connection = \<lparr> cn_contract_address = contract_address, cn_policy = policy \<rparr> \<rparr>"

definition user_address :: "('p, 's) net_env \<Rightarrow> ('p, 's) shielder_user \<Rightarrow> address" where
  "user_address env u = caller_address env (su_connection u)"

definition new_account_native ::
  "('p, 's) net_env \<Rightarrow> ('p, 's) shielder_user \<Rightarrow> ('p, newAccountNativeCall, 'r) call_kind \<Rightarrow>
   newAccountNativeCall \<Rightarrow> u256 \<Rightarrow> ('r, contract_error) result" where
  "new_account_native env u C call value = connection_call_with_value env (su_connection u) C call value"

definition new_account_erc20 ::
  "('p, 's) net_env \<Rightarrow> ('p, 's) shielder_user \<Rightarrow> ('p, newAccountERC20Call, 'r) call_kind \<Rightarrow>
   newAccountERC20Call \<Rightarrow> ('r, contract_error) result" where
  "new_account_erc20 env u C call = connection_call env (su_connection u) C call"

definition deposit_native ::
  "('p, 's) net_env \<Rightarrow> ('p, 's) shielder_user \<Rightarrow> ('p, depositNativeCall, 'r) call_kind \<Rightarrow>
   depositNativeCall \<Rightarrow> u256 \<Rightarrow> ('r, contract_error) result" where
  "deposit_native env u C call value = connection_call_with_value env (su_connection u) C call value"

definition deposit_erc20 ::
  "('p, 's) net_env \<Rightarrow> ('p, 's) shielder_user \<Rightarrow> ('p, depositERC20Call, 'r) call_kind \<Rightarrow>
   depositERC20Call \<Rightarrow> ('r, contract_error) result" where
  "deposit_erc20 env u C call = connection_call env (su_connection u) C call"

definition withdraw_native ::
  "('p, 's) net_env \<Rightarrow> ('p, 's) shielder_user \<Rightarrow> ('p, withdrawNativeCall, 'r) call_kind \<Rightarrow>
   withdrawNativeCall \<Rightarrow> ('r, contract_error) result" where
  "withdraw_native env u C call = connection_call env (su_connection u) C call"

definition withdraw_erc20 ::
  "('p, 's) net_env \<Rightarrow> ('p, 's) shielder_user \<Rightarrow> ('p, withdrawERC20Call, 'r) call_kind \<Rightarrow>
   withdrawERC20Call \<Rightarrow> u256 \<Rightarrow> ('r, contract_error) result" where
  "withdraw_erc20 env u C call pocket_money =
     connection_call_with_value env (su_connection u) C call pocket_money"

definition user_nullifiers ::
  "('p, 's) net_env \<Rightarrow> ('p, 's) shielder_user \<Rightarrow> ('p, nullifiersCall, 'r) call_kind \<Rightarrow> u256
     \<Rightarrow> ('r, contract_error) result" where
  "user_nullifiers env u C nullifier_hash =
     connection_call env (su_connection u) C \<lparr> nc_nullifierHash = nullifier_hash \<rparr>"

definition user_get_merkle_path ::
  "('p, 's) net_env \<Rightarrow> ('p, 's) shielder_user \<Rightarrow> ('p, getMerklePathCall, 'r) call_kind \<Rightarrow> u256
     \<Rightarrow> ('r, contract_error) result" where
  "user_get_merkle_path env u C leaf_id =
     connection_call env (su_connection u) C \<lparr> gmp_id = leaf_id \<rparr>"

definition anonymity_revoker_pubkey ::
  "('p, 's) net_env \<Rightarrow> ('p, 's) shielder_user \<Rightarrow> ('p, anonymityRevokerPubkeyCall, 'r) call_kind
     \<Rightarrow> ('r, contract_error) result" where
  "anonymity_revoker_pubkey env u C =
     connection_call env (su_connection u) C AnonymityRevokerPubkeyCall"

definition protocol_deposit_fee_bps ::
  "('p, 's) net_env \<Rightarrow> ('p, 's) shielder_user \<Rightarrow> ('p, protocolDepositFeeBpsCall, 'r) call_kind
     \<Rightarrow> ('r, contract_error) result" where
  "protocol_deposit_fee_bps env u C =
     connection_call env (su_connection u) C ProtocolDepositFeeBpsCall"

definition protocol_withdraw_fee_bps ::
  "('p, 's) net_env \<Rightarrow> ('p, 's) shielder_user \<Rightarrow> ('p, protocolWithdrawFeeBpsCall, 'r) call_kind
     \<Rightarrow> ('r, contract_error) result" where
  "protocol_withdraw_fee_bps env u C =
     connection_call env (su_connection u) C ProtocolWithdrawFeeBpsCall"

definition approve_erc20 ::
  "('p, 's) net_env \<Rightarrow> ('p, 's) shielder_user \<Rightarrow> ('p, approveCall, 'r) call_kind \<Rightarrow>
   address \<Rightarrow> address \<Rightarrow> u256 \<Rightarrow> ('r, contract_error) result" where
  "approve_erc20 env u C contract_address spender amount =
     connection_call_with_address env (su_connection u) C contract_address
       \<lparr> ac_spender = spender, ac_amount = amount \<rparr>"

definition erc20_allowance ::
  "('p, 's) net_env \<Rightarrow> ('p, 's) shielder_user \<Rightarrow> ('p, allowanceCall, 'r) call_kind \<Rightarrow>
   address \<Rightarrow> address \<Rightarrow> address \<Rightarrow> ('r, contract_error) result" where
  "erc20_allowance env u C contract_address owner spender =
     connection_call_with_address env (su_connection u) C contract_address
       \<lparr> alc_owner = owner, alc_spender = spender \<rparr>"

definition get_protocol_deposit_fee_bps ::
  "('p, 's) net_env \<Rightarrow> ('p, protocolDepositFeeBpsCall, u256) call_kind \<Rightarrow> ('p, 's) shielder_user
     \<Rightarrow> (u256, contract_error) result" where
  "get_protocol_deposit_fee_bps env DryRun u = protocol_deposit_fee_bps env u DryRun"

definition get_protocol_withdraw_fee_bps ::
  "('p, 's) net_env \<Rightarrow> ('p, protocolWithdrawFeeBpsCall, u256) call_kind \<Rightarrow> ('p, 's) shielder_user
     \<Rightarrow> (u256, contract_error) result" where
  "get_protocol_withdraw_fee_bps env DryRun u = protocol_withdraw_fee_bps env u DryRun"

section \<open>Merkle paths\<close>

text \<open>The loop of \<open>reorganize_merkle_path\<close>: element \<open>i\<close> goes to row \<open>i / ARITY\<close>, column \<open>i % ARITY\<close>.\<close>

fun fill_path :: "nat \<Rightarrow> u256 list \<Rightarrow> u256 list list \<Rightarrow> u256 list list" where
  "fill_path i [] path = path"
| "fill_path i (element # rest) path =
     fill_path (Suc i) rest
       (path[i div ARITY := (path ! (i div ARITY))[i mod ARITY := element]])"

definition reorganize_merkle_path ::
  "u256 list \<Rightarrow> (u256 \<times> u256 list list, contract_error) result" where
  "reorganize_merkle_path merkle_path =
     (if length merkle_path \<noteq> ARITY * TREE_HEIGHT + 1
      then Err (error_from_str ''Invalid merkle path length'')
      else
        (let root = last merkle_path;
             path = replicate TREE_HEIGHT (replicate ARITY 0)
         in Ok (root, fill_path 0 (take (ARITY * TREE_HEIGHT) merkle_path) path)))"

definition get_current_merkle_path ::
  "('p, 's) net_env \<Rightarrow> ('p, getMerklePathCall, u256 list) call_kind \<Rightarrow> u256 \<Rightarrow> ('p, 's) shielder_user
     \<Rightarrow> (u256 \<times> u256 list list, contract_error) result" where
  "get_current_merkle_path env DryRun leaf_index u =
     and_then (user_get_merkle_path env u DryRun leaf_index) reorganize_merkle_path"

section \<open>Events and recovery of actions\<close>

text \<open>
  Logs carry undecoded data of type \<open>'l\<close>; a decoder is a partial function. The node's answers
  (\<open>get_logs\<close>, \<open>get_block_by_number\<close>) are parameters and fail with a message.
\<close>

record 'l chain_log =
  log_transaction_hash :: "hash32 option"
  log_data :: 'l

definition get_event ::
  "(hash32 \<Rightarrow> ('l chain_log list, string) result) \<Rightarrow> ('l \<Rightarrow> 'e option) \<Rightarrow> hash32 \<Rightarrow> hash32
     \<Rightarrow> ('e, contract_error) result" where
  "get_event get_logs decode tx_hash block_hash =
     and_then (map_err ProviderError (get_logs block_hash)) (\<lambda>logs.
       case List.map_filter
              (\<lambda>log. if log_transaction_hash log \<noteq> Some tx_hash then None else decode (log_data log))
              logs of
         [] \<Rightarrow> Err EventNotFound
       | e # _ \<Rightarrow> Ok e)"

record 'l abi =
  abi_newAccountNative :: "bytes \<Rightarrow> newAccountNativeCall option"
  abi_newAccountERC20 :: "bytes \<Rightarrow> newAccountERC20Call option"
  abi_depositNative :: "bytes \<Rightarrow> depositNativeCall option"
  abi_depositERC20 :: "bytes \<Rightarrow> depositERC20Call option"
  abi_withdrawNative :: "bytes \<Rightarrow> withdrawNativeCall option"
  abi_withdrawERC20 :: "bytes \<Rightarrow> withdrawERC20Call option"
  abi_NewAccount :: "'l \<Rightarrow> new_account_event option"
  abi_Deposit :: "'l \<Rightarrow> deposit_event option"
  abi_Withdraw :: "'l \<Rightarrow> withdraw_event option"

definition check_if_tx_is_shielder_action ::
  "'l abi \<Rightarrow> (hash32 \<Rightarrow> ('l chain_log list, string) result) \<Rightarrow> hash32 \<Rightarrow> bytes \<Rightarrow> hash32
     \<Rightarrow> ((shielder_contract_event \<times> u256) option, contract_error) result" where
  "check_if_tx_is_shielder_action D get_logs tx_hash tx_data block_hash =
     (case abi_newAccountNative D tx_data of
        Some call \<Rightarrow> and_then (get_event get_logs (abi_NewAccount D) tx_hash block_hash)
          (\<lambda>event. Ok (Some (NewAccountEvent event, nan_prenullifier call)))
      | None \<Rightarrow>
     (case abi_newAccountERC20 D tx_data of
        Some call \<Rightarrow> and_then (get_event get_logs (abi_NewAccount D) tx_hash block_hash)
          (\<lambda>event. Ok (Some (NewAccountEvent event, nae_prenullifier call)))
      | None \<Rightarrow>
     (case abi_depositNative D tx_data of
        Some call \<Rightarrow> and_then (get_event get_logs (abi_Deposit D) tx_hash block_hash)
          (\<lambda>event. Ok (Some (DepositEvent event, dn_oldNullifierHash call)))
      | None \<Rightarrow>
     (case abi_depositERC20 D tx_data of
        Some call \<Rightarrow> and_then (get_event get_logs (abi_Deposit D) tx_hash block_hash)
          (\<lambda>event. Ok (Some (DepositEvent event, de_oldNullifierHash call)))
      | None \<Rightarrow>
     (case abi_withdrawNative D tx_data of
        Some call \<Rightarrow> and_then (get_event get_logs (abi_Withdraw D) tx_hash block_hash)
          (\<lambda>event. Ok (Some (WithdrawEvent event, wn_oldNullifierHash call)))
      | None \<Rightarrow>
     (case abi_withdrawERC20 D tx_data of
        Some call \<Rightarrow> and_then (get_event get_logs (abi_Withdraw D) tx_hash block_hash)
          (\<lambda>event. Ok (Some (WithdrawEvent event, we_oldNullifierHash call)))
      | None \<Rightarrow> Ok None))))))"

text \<open>The contract stores \<open>block + 1\<close> for a spent nullifier and 0 for an unspent one.\<close>

definition get_block_of_nullifier_spending ::
  "(u256 \<Rightarrow> (u256, contract_error) result) \<Rightarrow> u256 \<Rightarrow> (u64 option, contract_error) result" where
  "get_block_of_nullifier_spending nullifiers nullifier =
     and_then (nullifiers nullifier) (\<lambda>stored.
       if stored = 0 then Ok None
       else
         (let block_number = stored - 1
          in if block_number \<ge> ucast (- 1 :: u64)
             then Err (OtherError ''Block number too large'')
             else Ok (Some (as_limbs block_number ! 0))))"

record chain_tx =
  tx_info_hash :: "hash32 option"
  tx_block_hash :: "hash32 option"
  tx_input :: bytes
  tx_hash_of :: hash32

text \<open>The loop over the transactions of the block.\<close>

fun find_action ::
  "'l abi \<Rightarrow> (hash32 \<Rightarrow> ('l chain_log list, string) result) \<Rightarrow> u256 \<Rightarrow> chain_tx list
     \<Rightarrow> ((hash32 \<times> shielder_contract_event) option, contract_error) result" where
  "find_action D get_logs nullifier [] = Ok None"
| "find_action D get_logs nullifier (tx # txs) =
     and_then (ok_or (tx_info_hash tx) (OtherError ''Transaction hash not found'')) (\<lambda>tx_hash.
     and_then (ok_or (tx_block_hash tx) (OtherError ''Block hash not found'')) (\<lambda>block_hash.
     and_then (check_if_tx_is_shielder_action D get_logs tx_hash (tx_input tx) block_hash) (\<lambda>found.
       case found of
         Some (event, spent_nullifier) \<Rightarrow>
           if spent_nullifier = nullifier then Ok (Some (tx_hash_of tx, event))
           else find_action D get_logs nullifier txs
       | None \<Rightarrow> find_action D get_logs nullifier txs)))"

text \<open>
  A block as the node returns it: \<open>None\<close> when it does not exist; its transaction list is \<open>None\<close>
  when only hashes were returned, which the code does not expect.
\<close>

definition get_shielder_action ::
  "'l abi \<Rightarrow> (hash32 \<Rightarrow> ('l chain_log list, string) result) \<Rightarrow>
   (u64 \<Rightarrow> (chain_tx list option option, string) result) \<Rightarrow>
   (u256 \<Rightarrow> (u256, contract_error) result) \<Rightarrow> u256
     \<Rightarrow> ((hash32 \<times> shielder_contract_event) option, contract_error) result" where
  "get_shielder_action D get_logs get_block_by_number nullifiers nullifier =
     and_then (get_block_of_nullifier_spending nullifiers nullifier) (\<lambda>found.
       case found of
         None \<Rightarrow> Ok None
       | Some block_number \<Rightarrow>
           and_then (map_err ProviderError (get_block_by_number block_number)) (\<lambda>answer.
           and_then (ok_or answer (OtherError ''Block not found'')) (\<lambda>block.
           and_then (expect block ''We asked for full transactions'')
             (find_action D get_logs nullifier))))"

section \<open>Properties of commitments\<close>

lemma length_packed [simp, bytes_simps]:
  "length (packed_bytes3 v) = 3" "length (packed_u256 w) = 32"
  by (simp_all add: packed_bytes3_def packed_u256_def split: prod.splits)

lemma packed_u256_inj [simp]: "packed_u256 v = packed_u256 w \<longleftrightarrow> v = w"
  by (simp add: packed_u256_def to_be_bytes_inj)

lemma packed_version_inj [simp]:
  "packed_bytes3 (version_to_bytes v) = packed_bytes3 (version_to_bytes w) \<longleftrightarrow> v = w"
proof -
  have "packed_bytes3 a = packed_bytes3 b \<longleftrightarrow> a = b" for a b
    by (simp add: packed_bytes3_def split: prod.splits)
  then show ?thesis by (metis version_bytes_roundtrip(1))
qed

lemma shifted_hash_lt: "unat (drop_bit 4 (h :: u256)) < 2 ^ 252"
proof -
  have "unat h < 2 ^ 256" using unat_lt_pow [of h] by simp
  then have "unat h div 16 < 2 ^ 252" by simp
  then show ?thesis by (simp add: drop_bit_eq_div unat_div)
qed

lemma shifted_hash_field: "field_to_u256 Fr (u256_to_field Fr (drop_bit 4 h)) = drop_bit 4 h"
  using shifted_hash_lt [of h] fr_modulus_bounds(5)
  by (intro bn254.u256_field_roundtrip) (rule less_le_trans)

text \<open>
  A commitment fits the scalar field: shifted right by four bits, the hash of a withdrawal, of a
  new account or of a deposit survives the conversion to a field element and back.
\<close>

theorem commitments_fit_field:
  "field_to_u256 Fr (u256_to_field Fr (withdraw_commitment_hash keccak w)) = withdraw_commitment_hash keccak w \<and>
   field_to_u256 Fr (u256_to_field Fr (new_account_commitment_hash keccak n)) = new_account_commitment_hash keccak n \<and>
   field_to_u256 Fr (u256_to_field Fr (deposit_commitment_hash keccak d)) = deposit_commitment_hash keccak d"
  by (simp add: withdraw_commitment_hash_def new_account_commitment_hash_def
      deposit_commitment_hash_def shifted_hash_field)

text \<open>
  The bytes hashed for a withdrawal determine every committed field: version, withdrawal and
  relayer address, relayer fee, chain id, pocket money, protocol fee and memo. Changing any of them
  changes the preimage, although the memo has no length prefix.
\<close>

theorem withdraw_preimage_injective: "withdraw_preimage c = withdraw_preimage c' \<longleftrightarrow> c = c'"
  by (cases c; cases c') (simp add: withdraw_preimage_def address_to_u256_inj)

lemma new_account_preimage_injective: "new_account_preimage c = new_account_preimage c' \<longleftrightarrow> c = c'"
  by (cases c; cases c') (simp add: new_account_preimage_def address_to_u256_inj)

lemma deposit_preimage_injective: "deposit_preimage c = deposit_preimage c' \<longleftrightarrow> c = c'"
  by (cases c; cases c') (simp add: deposit_preimage_def address_to_u256_inj)

text \<open>A withdrawal preimage is never one of the other two: it is longer than 64 bytes.\<close>

lemma withdraw_preimage_separated:
  "withdraw_preimage c \<noteq> new_account_preimage n" "withdraw_preimage c \<noteq> deposit_preimage d"
proof -
  have "length (withdraw_preimage c) > 64" by (simp add: withdraw_preimage_def)
  moreover have "length (new_account_preimage n) = 64" "length (deposit_preimage d) = 64"
    by (simp_all add: new_account_preimage_def deposit_preimage_def)
  ultimately show "withdraw_preimage c \<noteq> new_account_preimage n"
    "withdraw_preimage c \<noteq> deposit_preimage d" by (metis less_irrefl)+
qed

section \<open>Properties of Merkle paths\<close>

definition path_shape :: "nat \<Rightarrow> u256 list list \<Rightarrow> bool" where
  "path_shape h path \<longleftrightarrow> length path = h \<and> (\<forall>row \<in> set path. length row = ARITY)"

lemma ARITY_pos [simp]: "0 < ARITY"
  by (simp add: ARITY_def)

lemma length_concat_path: "path_shape h path \<Longrightarrow> length (concat path) = ARITY * h"
proof (induction path arbitrary: h)
  case Nil
  then show ?case by (simp add: path_shape_def)
next
  case (Cons row path)
  then have "path_shape (h - 1) path" by (auto simp: path_shape_def)
  then have "length (concat path) = ARITY * (h - 1)" by (rule Cons.IH)
  with Cons.prems show ?case by (cases h) (auto simp: path_shape_def)
qed

lemma concat_path_update:
  assumes "\<forall>row \<in> set path. length row = ARITY" and "r < length path" and "c < ARITY"
  shows "concat (path[r := (path ! r)[c := x]]) = (concat path)[ARITY * r + c := x]"
  using assms
proof (induction path arbitrary: r)
  case Nil
  then show ?case by simp
next
  case (Cons row path)
  show ?case
  proof (cases r)
    case 0
    with Cons.prems show ?thesis by (simp add: list_update_append)
  next
    case (Suc r')
    then have "concat (path[r' := (path ! r')[c := x]]) = (concat path)[ARITY * r' + c := x]"
      using Cons by simp
    with Suc Cons.prems show ?thesis by (simp add: list_update_append)
  qed
qed

lemma path_shape_update:
  assumes "path_shape h path" and "r < h"
  shows "path_shape h (path[r := (path ! r)[c := x]])"
proof -
  have "length (path ! r) = ARITY" using assms by (simp add: path_shape_def)
  then show ?thesis using assms
    by (auto simp: path_shape_def dest!: set_update_subset_insert [THEN subsetD])
qed

lemma fill_path_concat:
  assumes "path_shape h path" and "i + length xs \<le> ARITY * h"
  shows "path_shape h (fill_path i xs path) \<and>
    concat (fill_path i xs path) = take i (concat path) @ xs @ drop (i + length xs) (concat path)"
  using assms
proof (induction xs arbitrary: i path)
  case Nil
  then show ?case by simp
next
  case (Cons x xs)
  let ?r = "i div ARITY" and ?c = "i mod ARITY"
  let ?path = "path[?r := (path ! ?r)[?c := x]]"
  have i: "i < ARITY * h" using Cons.prems(2) by simp
  then have r: "?r < h" by (simp add: less_mult_imp_div_less mult.commute)
  have shape: "path_shape h ?path" using Cons.prems(1) r by (rule path_shape_update)
  have "concat ?path = (concat path)[ARITY * ?r + ?c := x]"
    using Cons.prems(1) r by (intro concat_path_update) (auto simp: path_shape_def)
  then have upd: "concat ?path = (concat path)[i := x]" by simp
  have "take (Suc i) ((concat path)[i := x]) = take i (concat path) @ [x]"
    using i length_concat_path [OF Cons.prems(1)] by (simp add: take_Suc_conv_app_nth)
  with Cons.IH [OF shape, of "Suc i"] Cons.prems(2) show ?case
    by (simp add: upd)
qed

lemma reorganize_merkle_path_Ok:
  assumes "length mp = ARITY * TREE_HEIGHT + 1"
  shows "\<exists>path. reorganize_merkle_path mp = Ok (last mp, path) \<and> path_shape TREE_HEIGHT path \<and>
    concat path = butlast mp"
proof -
  let ?z = "replicate TREE_HEIGHT (replicate ARITY (0 :: u256))"
  let ?xs = "take (ARITY * TREE_HEIGHT) mp"
  have z: "path_shape TREE_HEIGHT ?z" by (simp add: path_shape_def)
  have len: "length ?xs = ARITY * TREE_HEIGHT" using assms by simp
  from fill_path_concat [OF z, of 0 ?xs] len
  have "path_shape TREE_HEIGHT (fill_path 0 ?xs ?z)"
    and "concat (fill_path 0 ?xs ?z) = ?xs @ drop (ARITY * TREE_HEIGHT) (concat ?z)" by auto
  moreover have "drop (ARITY * TREE_HEIGHT) (concat ?z) = []"
    using length_concat_path [OF z] by simp
  moreover have "?xs = butlast mp" using assms by (simp add: butlast_conv_take)
  ultimately show ?thesis using assms by (auto simp: reorganize_merkle_path_def Let_def)
qed

text \<open>
  Reorganising a flat Merkle path loses nothing: it is accepted exactly when it has
  \<open>ARITY * TREE_HEIGHT + 1\<close> elements, and then the rows of the structured path, each of \<open>ARITY\<close>
  elements and \<open>TREE_HEIGHT\<close> many, followed by the root, are the flat path again.
\<close>

theorem reorganize_merkle_path_correct:
  "(\<exists>root path. reorganize_merkle_path mp = Ok (root, path) \<and> concat path @ [root] = mp \<and>
      path_shape TREE_HEIGHT path)
    \<longleftrightarrow> length mp = ARITY * TREE_HEIGHT + 1"
proof
  assume len: "length mp = ARITY * TREE_HEIGHT + 1"
  then have "mp \<noteq> []" by auto
  then show "\<exists>root path. reorganize_merkle_path mp = Ok (root, path) \<and> concat path @ [root] = mp \<and>
      path_shape TREE_HEIGHT path"
    using reorganize_merkle_path_Ok [OF len] by auto
next
  assume "\<exists>root path. reorganize_merkle_path mp = Ok (root, path) \<and> concat path @ [root] = mp \<and>
      path_shape TREE_HEIGHT path"
  then show "length mp = ARITY * TREE_HEIGHT + 1"
    by (auto simp: reorganize_merkle_path_def split: if_splits)
qed

section \<open>Properties of recovery\<close>

lemma as_limbs_0: "as_limbs v ! 0 = ucast v"
proof -
  have "as_limbs v ! 0 = (of_nat (unat v mod 2 ^ 64) :: u64)"
    using nat_limbs.simps(2) [of 3 "unat v"] by (simp add: as_limbs_def)
  also have "\<dots> = ucast v"
    by (simp add: word_unat_eq_iff unsigned_ucast_eq unat_of_nat take_bit_eq_mod)
  finally show ?thesis .
qed

lemma ucast_max_u64: "(ucast (- 1 :: u64) :: u256) = 0xFFFFFFFFFFFFFFFF"
  by (simp add: word_unat_eq_iff unsigned_ucast_eq unsigned_minus_1_eq_mask mask_eq_exp_minus_1
      take_bit_eq_mod)

text \<open>
  The block of a spent nullifier is read back exactly: a contract that stores \<open>b + 1\<close> for a
  nullifier spent in block \<open>b\<close> (below the largest \<open>u64\<close>) gives \<open>b\<close>, and an unspent nullifier gives
  none.
\<close>

theorem block_of_spent_nullifier:
  assumes "b < 2 ^ 64 - 1"
    and "nullifiers = (\<lambda>n. Ok (if n \<in> spent then of_nat (b + 1) else 0))"
  shows "get_block_of_nullifier_spending nullifiers n =
    Ok (if n \<in> spent then Some (of_nat b) else None)"
proof -
  have b1: "unat (of_nat (b + 1) :: u256) = b + 1"
    using assms(1) by (intro unat_of_nat_256) simp
  then have nz: "(of_nat (b + 1) :: u256) \<noteq> 0" by (metis add_is_0 one_neq_zero unsigned_0)
  have sub: "(of_nat (b + 1) :: u256) - 1 = of_nat b" by simp
  have b0: "unat (of_nat b :: u256) = b"
    using assms(1) by (intro unat_of_nat_256) simp
  have ok: "\<not> (of_nat b :: u256) \<ge> ucast (- 1 :: u64)"
    using assms(1) b0 by (simp add: word_le_nat_alt ucast_max_u64)
  have "as_limbs (of_nat b) ! 0 = of_nat b"
    using assms(1) b0 by (simp add: as_limbs_0 word_unat_eq_iff unsigned_ucast_eq unat_of_nat take_bit_eq_mod)
  then show ?thesis
    using nz ok unfolding assms(2) get_block_of_nullifier_spending_def and_then.simps Let_def
    by (simp only: sub if_cancel if_False if_True split: if_splits) simp
qed

theorem block_of_spent_nullifier_witness:
  "get_block_of_nullifier_spending (\<lambda>n. Ok (if n \<in> {7} then of_nat (41 + 1) else 0)) 7 = Ok (Some 41)"
  using block_of_spent_nullifier [of 41 _ "{7}" 7] by simp

lemma map_filter_first:
  "List.map_filter f xs = y # ys \<Longrightarrow>
     \<exists>us x vs. xs = us @ x # vs \<and> f x = Some y \<and> (\<forall>u \<in> set us. f u = None)"
proof (induction xs)
  case Nil
  then show ?case by (simp add: List.map_filter_def)
next
  case (Cons x xs)
  show ?case
  proof (cases "f x")
    case None
    with Cons obtain us z vs where "xs = us @ z # vs" "f z = Some y" "\<forall>u \<in> set us. f u = None"
      by (auto simp: List.map_filter_def)
    with None show ?thesis
      by (intro exI [of _ "x # us"] exI [of _ z] exI [of _ vs]) auto
  next
    case (Some z)
    with Cons.prems show ?thesis
      by (intro exI [of _ "[]"] exI [of _ x] exI [of _ xs]) (auto simp: List.map_filter_def)
  qed
qed

text \<open>What it means that a transaction is the spending of a nullifier with the given event.\<close>

definition tx_spends ::
  "'l abi \<Rightarrow> (hash32 \<Rightarrow> ('l chain_log list, string) result) \<Rightarrow> u256 \<Rightarrow> chain_tx
     \<Rightarrow> shielder_contract_event \<Rightarrow> bool" where
  "tx_spends D get_logs nullifier tx event \<longleftrightarrow>
     (\<exists>h bh. tx_info_hash tx = Some h \<and> tx_block_hash tx = Some bh \<and>
        check_if_tx_is_shielder_action D get_logs h (tx_input tx) bh = Ok (Some (event, nullifier)))"

lemma find_action_Some:
  "find_action D get_logs n txs = Ok (Some (h, event)) \<Longrightarrow>
     \<exists>us tx vs. txs = us @ tx # vs \<and> tx_hash_of tx = h \<and> tx_spends D get_logs n tx event \<and>
       (\<forall>u \<in> set us. \<forall>e. \<not> tx_spends D get_logs n u e)"
proof (induction txs)
  case Nil
  then show ?case by simp
next
  case (Cons tx txs)
  show ?case
  proof (cases "\<exists>e. tx_spends D get_logs n tx e")
    case True
    with Cons.prems have "tx_hash_of tx = h \<and> tx_spends D get_logs n tx event"
      by (auto simp: tx_spends_def result_simps split: option.splits)
    then show ?thesis by (intro exI [of _ "[]"] exI [of _ tx] exI [of _ txs]) auto
  next
    case False
    with Cons.prems have "find_action D get_logs n txs = Ok (Some (h, event))"
      by (auto simp: tx_spends_def result_simps split: option.splits if_splits)
    with Cons.IH obtain us t vs where "txs = us @ t # vs" "tx_hash_of t = h"
      "tx_spends D get_logs n t event" "\<forall>u \<in> set us. \<forall>e. \<not> tx_spends D get_logs n u e" by blast
    with False show ?thesis
      by (intro exI [of _ "tx # us"] exI [of _ t] exI [of _ vs]) auto
  qed
qed

lemmas recovery_simps = get_shielder_action_def result_simps

text \<open>
  Recovery finds the spending transaction: when it returns an action, the contract records a
  block for the nullifier and, in that block, the returned transaction is the first one whose call
  data spends the nullifier, paired with the event logged for it.
\<close>

theorem get_shielder_action_sound:
  assumes "get_shielder_action D get_logs get_block nullifiers n = Ok (Some (h, event))"
  shows "\<exists>b us tx vs. get_block_of_nullifier_spending nullifiers n = Ok (Some b) \<and>
    get_block b = Ok (Some (Some (us @ tx # vs))) \<and> tx_hash_of tx = h \<and>
    tx_spends D get_logs n tx event \<and> (\<forall>u \<in> set us. \<forall>e. \<not> tx_spends D get_logs n u e)"
proof -
  from assms obtain b txs where "get_block_of_nullifier_spending nullifiers n = Ok (Some b)"
    and "get_block b = Ok (Some (Some txs))" and "find_action D get_logs n txs = Ok (Some (h, event))"
    by (auto simp: recovery_simps split: option.splits)
  with find_action_Some show ?thesis by metis
qed

text \<open>
  A chain with one block holding an unrelated transaction and a native deposit that spends
  nullifier 7.
\<close>

definition sample_deposit_call :: depositNativeCall where
  "sample_deposit_call = \<lparr> dn_expectedContractVersion = (0, 1, 1), dn_oldNullifierHash = 7,
     dn_newNote = 8, dn_merkleRoot = 9, dn_macSalt = 1, dn_macCommitment = 2, dn_proof = [], dn_memo = [] \<rparr>"

definition sample_deposit_event :: deposit_event where
  "sample_deposit_event = \<lparr> ed_contractVersion = (0, 1, 1), ed_tokenAddress = 0, ed_amount = 100,
     ed_newNote = 8, ed_newNoteIndex = 3, ed_macSalt = 1, ed_macCommitment = 2, ed_protocolFee = 0,
     ed_memo = [] \<rparr>"

definition sample_abi :: "nat abi" where
  "sample_abi = \<lparr>
     abi_newAccountNative = (\<lambda>_. None), abi_newAccountERC20 = (\<lambda>_. None),
     abi_depositNative = (\<lambda>bs. if bs = [1] then Some sample_deposit_call else None),
     abi_depositERC20 = (\<lambda>_. None), abi_withdrawNative = (\<lambda>_. None), abi_withdrawERC20 = (\<lambda>_. None),
     abi_NewAccount = (\<lambda>_. None),
     abi_Deposit = (\<lambda>l. if l = 1 then Some sample_deposit_event else None),
     abi_Withdraw = (\<lambda>_. None) \<rparr>"

definition sample_logs :: "hash32 \<Rightarrow> (nat chain_log list, string) result" where
  "sample_logs bh = Ok [\<lparr> log_transaction_hash = Some 21, log_data = 0 \<rparr>,
     \<lparr> log_transaction_hash = Some 22, log_data = 0 \<rparr>, \<lparr> log_transaction_hash = Some 22, log_data = 1 \<rparr>]"

definition sample_txs :: "chain_tx list" where
  "sample_txs = [
     \<lparr> tx_info_hash = Some 21, tx_block_hash = Some 5, tx_input = [0], tx_hash_of = 21 \<rparr>,
     \<lparr> tx_info_hash = Some 22, tx_block_hash = Some 5, tx_input = [1], tx_hash_of = 22 \<rparr>]"

definition sample_nullifiers :: "u256 \<Rightarrow> (u256, contract_error) result" where
  "sample_nullifiers n = Ok (if n = 7 then 42 else 0)"

lemmas sample_chain_defs = sample_deposit_call_def sample_deposit_event_def sample_abi_def
  sample_logs_def sample_txs_def sample_nullifiers_def

lemma sample_block: "get_block_of_nullifier_spending sample_nullifiers 7 = Ok (Some 41)"
  by (simp add: get_block_of_nullifier_spending_def sample_nullifiers_def as_limbs_0 ucast_max_u64)

lemma sample_find: "find_action sample_abi sample_logs 7 sample_txs =
    Ok (Some (22, DepositEvent sample_deposit_event))"
  by (simp add: sample_chain_defs check_if_tx_is_shielder_action_def get_event_def List.map_filter_def)

theorem get_shielder_action_sound_witness:
  "get_shielder_action sample_abi sample_logs (\<lambda>b. Ok (Some (Some sample_txs))) sample_nullifiers 7
     = Ok (Some (22, DepositEvent sample_deposit_event)) \<and>
   (\<exists>b us tx vs. get_block_of_nullifier_spending sample_nullifiers 7 = Ok (Some b) \<and>
    Ok (Some (Some sample_txs)) = (Ok (Some (Some (us @ tx # vs))) :: (chain_tx list option option, string) result)
    \<and> tx_hash_of tx = 22 \<and>
    tx_spends sample_abi sample_logs 7 tx (DepositEvent sample_deposit_event) \<and>
    (\<forall>u \<in> set us. \<forall>e. \<not> tx_spends sample_abi sample_logs 7 u e))"
proof -
  have h: "get_shielder_action sample_abi sample_logs (\<lambda>b. Ok (Some (Some sample_txs))) sample_nullifiers 7
     = Ok (Some (22, DepositEvent sample_deposit_event))"
    by (simp add: get_shielder_action_def sample_block sample_find)
  from h get_shielder_action_sound [OF h] show ?thesis by simp
qed

text \<open>
  A transaction is answered for when it carries its hashes and the lookup of its event, if it is a
  Shielder call, succeeds.
\<close>

definition tx_answered ::
  "'l abi \<Rightarrow> (hash32 \<Rightarrow> ('l chain_log list, string) result) \<Rightarrow> chain_tx \<Rightarrow> bool" where
  "tx_answered D get_logs tx \<longleftrightarrow>
     (\<exists>h bh found. tx_info_hash tx = Some h \<and> tx_block_hash tx = Some bh \<and>
        check_if_tx_is_shielder_action D get_logs h (tx_input tx) bh = Ok found)"

lemma find_action_Cons:
  assumes "tx_answered D get_logs tx" "\<forall>e. \<not> tx_spends D get_logs n tx e"
  shows "find_action D get_logs n (tx # txs) = find_action D get_logs n txs"
  using assms by (auto simp: tx_answered_def tx_spends_def split: option.splits)

lemma find_action_first:
  assumes "\<forall>u \<in> set us. tx_answered D get_logs u \<and> (\<forall>e. \<not> tx_spends D get_logs n u e)"
    and "tx_spends D get_logs n tx event"
  shows "find_action D get_logs n (us @ tx # vs) = Ok (Some (tx_hash_of tx, event))"
  using assms(1)
proof (induction us)
  case Nil
  then show ?case using assms(2) by (auto simp: tx_spends_def)
next
  case (Cons u us)
  then show ?case using find_action_Cons [of D get_logs u n "us @ tx # vs"] by simp
qed

lemma find_action_none:
  assumes "\<forall>u \<in> set txs. tx_answered D get_logs u \<and> (\<forall>e. \<not> tx_spends D get_logs n u e)"
  shows "find_action D get_logs n txs = Ok None"
  using assms by (induction txs) (simp_all add: find_action_Cons del: find_action.simps(2))

lemma block_of_stored:
  assumes "nullifiers n = Ok (of_nat (b + 1))" "b < 2 ^ 64 - 1"
  shows "get_block_of_nullifier_spending nullifiers n = Ok (Some (of_nat b))"
proof -
  have "get_block_of_nullifier_spending nullifiers n =
      get_block_of_nullifier_spending (\<lambda>m. Ok (if m \<in> {n} then of_nat (b + 1) else 0)) n"
    by (simp add: get_block_of_nullifier_spending_def assms(1))
  then show ?thesis using block_of_spent_nullifier [OF assms(2) refl, of "{n}" n] by simp
qed

text \<open>
  C23. Recovery finds the spending transaction, and misses none. Let the contract have recorded block
  \<open>b\<close> for the nullifier, and the node return the transactions of that block. If one of them spends the
  nullifier and those before it can be looked up and do not, recovery returns exactly that transaction
  with its event; if all can be looked up and none spends it, recovery returns that there is no action.
  For a nullifier without a recorded block, it returns at once that there is none.
\<close>

theorem get_shielder_action_complete:
  assumes "nullifiers n = Ok (of_nat (b + 1))" "b < 2 ^ 64 - 1"
    and "get_block (of_nat b) = Ok (Some (Some txs))"
  shows "(\<forall>us tx vs event. txs = us @ tx # vs \<and> tx_spends D get_logs n tx event \<and>
        (\<forall>u \<in> set us. tx_answered D get_logs u \<and> (\<forall>e. \<not> tx_spends D get_logs n u e)) \<longrightarrow>
        get_shielder_action D get_logs get_block nullifiers n = Ok (Some (tx_hash_of tx, event))) \<and>
    ((\<forall>u \<in> set txs. tx_answered D get_logs u \<and> (\<forall>e. \<not> tx_spends D get_logs n u e)) \<longrightarrow>
        get_shielder_action D get_logs get_block nullifiers n = Ok None) \<and>
    (\<forall>m. nullifiers m = Ok 0 \<longrightarrow> get_shielder_action D get_logs get_block nullifiers m = Ok None)"
proof -
  have result: "get_shielder_action D get_logs get_block nullifiers n = find_action D get_logs n txs"
    using block_of_stored [where nullifiers = nullifiers and n = n and b = b, OF assms(1,2)] assms(3)
    by (simp add: get_shielder_action_def)
  have "get_shielder_action D get_logs get_block nullifiers m = Ok None" if "nullifiers m = Ok 0" for m
    using that by (simp add: get_shielder_action_def get_block_of_nullifier_spending_def)
  then show ?thesis
  proof (intro conjI allI impI)
    fix us tx vs event
    assume "txs = us @ tx # vs \<and> tx_spends D get_logs n tx event \<and>
        (\<forall>u \<in> set us. tx_answered D get_logs u \<and> (\<forall>e. \<not> tx_spends D get_logs n u e))"
    then show "get_shielder_action D get_logs get_block nullifiers n = Ok (Some (tx_hash_of tx, event))"
      unfolding result using find_action_first by blast
  next
    assume "\<forall>u \<in> set txs. tx_answered D get_logs u \<and> (\<forall>e. \<not> tx_spends D get_logs n u e)"
    then show "get_shielder_action D get_logs get_block nullifiers n = Ok None"
      unfolding result by (rule find_action_none)
  qed
qed

theorem get_shielder_action_complete_witness:
  "get_shielder_action sample_abi sample_logs (\<lambda>b. Ok (Some (Some sample_txs))) sample_nullifiers 7
      = Ok (Some (22, DepositEvent sample_deposit_event)) \<and>
   get_shielder_action sample_abi sample_logs (\<lambda>b. Ok (Some (Some [hd sample_txs]))) sample_nullifiers 7 = Ok None"
proof
  have stored: "sample_nullifiers 7 = Ok (of_nat (41 + 1))" "(41 :: nat) < 2 ^ 64 - 1"
    by (simp_all add: sample_nullifiers_def)
  let ?other = "hd sample_txs" and ?spending = "sample_txs ! 1"
  have txs: "sample_txs = [?other] @ ?spending # []" and hash: "tx_hash_of ?spending = 22"
    by (simp_all add: sample_txs_def)
  have spends: "tx_spends sample_abi sample_logs 7 ?spending (DepositEvent sample_deposit_event)"
    by (simp add: sample_chain_defs tx_spends_def check_if_tx_is_shielder_action_def get_event_def
        List.map_filter_def)
  have other: "tx_answered sample_abi sample_logs ?other \<and> (\<forall>e. \<not> tx_spends sample_abi sample_logs 7 ?other e)"
    by (simp add: sample_chain_defs tx_spends_def tx_answered_def check_if_tx_is_shielder_action_def)
  note complete = get_shielder_action_complete [where b = 41 and nullifiers = sample_nullifiers and n = 7
      and D = sample_abi and get_logs = sample_logs, OF stored]
  have found: "sample_txs = [?other] @ ?spending # [] \<and>
      tx_spends sample_abi sample_logs 7 ?spending (DepositEvent sample_deposit_event) \<and>
      (\<forall>u \<in> set [?other]. tx_answered sample_abi sample_logs u \<and> (\<forall>e. \<not> tx_spends sample_abi sample_logs 7 u e))"
    using other by (intro conjI txs spends) simp
  show "get_shielder_action sample_abi sample_logs (\<lambda>b. Ok (Some (Some sample_txs))) sample_nullifiers 7
      = Ok (Some (22, DepositEvent sample_deposit_event))"
    using complete [where txs = sample_txs and get_block = "\<lambda>b. Ok (Some (Some sample_txs))", OF refl,
        THEN conjunct1, rule_format, OF found] unfolding hash .
  show "get_shielder_action sample_abi sample_logs (\<lambda>b. Ok (Some (Some [hd sample_txs]))) sample_nullifiers 7 = Ok None"
    using complete [where txs = "[?other]" and get_block = "\<lambda>b. Ok (Some (Some [?other]))", OF refl] other by simp
qed

section \<open>Requests\<close>

text \<open>
  Whatever the connection policy, a user's call becomes one request to the Shielder contract, sent
  from the user's address, once a provider is available.
\<close>

definition user_provider :: "('p, 's) net_env \<Rightarrow> ('p, 's) shielder_user \<Rightarrow> ('p, contract_error) result" where
  "user_provider env u = (case cn_policy (su_connection u) of
     Keep p _ \<Rightarrow> Ok p | OnDemand rpc_url signer \<Rightarrow> ne_create_provider env rpc_url signer)"

definition user_request ::
  "('p, 's) net_env \<Rightarrow> ('p, 's) shielder_user \<Rightarrow> ('p, 'c, 'r) call_kind \<Rightarrow> 'c \<Rightarrow> u256
     \<Rightarrow> ('r, contract_error) result" where
  "user_request env u CT call value = and_then (user_provider env u) (\<lambda>p.
     CT p \<lparr> rq_to = cn_contract_address (su_connection u), rq_call = call,
            rq_from = user_address env u, rq_value = value \<rparr>)"

lemma connection_call_inner_request:
  "connection_call_inner env (su_connection u) CT (cn_contract_address (su_connection u)) call value
     = user_request env u CT call (case value of None \<Rightarrow> 0 | Some v \<Rightarrow> v)"
  unfolding connection_call_inner_def user_request_def user_provider_def user_address_def
    call_with_resolved_provider_def
  by (cases "cn_policy (su_connection u)") simp_all

text \<open>
  Money attached to calls: a native deposit or account creation carries the given value, an ERC20
  withdrawal carries exactly the pocket money, and native withdrawals and ERC20 deposits carry none;
  all go to the Shielder contract and come from the user's address.
\<close>

theorem user_calls_are_requests:
  "new_account_native env u CT1 c1 v = user_request env u CT1 c1 v \<and>
   new_account_erc20 env u CT2 c2 = user_request env u CT2 c2 0 \<and>
   deposit_native env u CT3 c3 v = user_request env u CT3 c3 v \<and>
   deposit_erc20 env u CT4 c4 = user_request env u CT4 c4 0 \<and>
   withdraw_native env u CT5 c5 = user_request env u CT5 c5 0 \<and>
   withdraw_erc20 env u CT6 c6 v = user_request env u CT6 c6 v"
  by (simp add: new_account_native_def new_account_erc20_def deposit_native_def deposit_erc20_def
      withdraw_native_def withdraw_erc20_def connection_call_def connection_call_with_value_def
      connection_call_inner_request)

end
