(* ===== verification/Account.thy ===== *)
theory Account
  imports Contract
begin

text \<open>
  The crate \<open>shielder-account\<close> without call data: secrets, tokens, actions and the account state
  machine. Keccak (\<open>keccak\<close>), the user id derivation and the note hash of the circuits package are
  parameters. The central facts are the account invariant (the nonce counts the history, the shielded
  amount is the net sum of the history) and the chaining of nullifiers from one action to the next.
\<close>

section \<open>Secrets\<close>

datatype label = NullifierLabel | IdLabel

text \<open>ASCII codes of the labels.\<close>

fun label_as_bytes :: "label \<Rightarrow> bytes" where
  "label_as_bytes NullifierLabel = [110, 117, 108, 108, 105, 102, 105, 101, 114]"
| "label_as_bytes IdLabel = [105, 100]"

text \<open>A hasher accumulates its updates; finalising hashes them and reduces modulo the field order.\<close>

definition hasher_update :: "bytes \<Rightarrow> bytes \<Rightarrow> bytes" where
  "hasher_update data hasher = hasher @ data"

definition finalize_hash :: "(bytes \<Rightarrow> bytes) \<Rightarrow> bytes \<Rightarrow> u256" where
  "finalize_hash keccak hasher = from_be_bytes (keccak hasher) mod FIELD_MODULUS"

definition nullifier_hasher :: "u256 \<Rightarrow> u32 \<Rightarrow> bytes" where
  "nullifier_hasher uid nonce =
     (hasher_update (to_be_bytes 4 nonce)
       (hasher_update (label_as_bytes NullifierLabel)
         (hasher_update (to_be_bytes 32 uid) [])))"

definition derive_nullifier :: "(bytes \<Rightarrow> bytes) \<Rightarrow> u256 \<Rightarrow> u32 \<Rightarrow> u256" where
  "derive_nullifier keccak uid nonce = finalize_hash keccak (nullifier_hasher uid nonce)"

definition id_hasher :: "u256 \<Rightarrow> u64 \<Rightarrow> u32 \<Rightarrow> bytes" where
  "id_hasher private_key chain_id account_nonce =
     (hasher_update (to_be_bytes 4 account_nonce)
       (hasher_update (to_be_bytes 8 chain_id)
         (hasher_update (label_as_bytes IdLabel)
           (hasher_update (to_be_bytes 32 private_key) []))))"

definition derive_id :: "(bytes \<Rightarrow> bytes) \<Rightarrow> u256 \<Rightarrow> u64 \<Rightarrow> u32 \<Rightarrow> u256" where
  "derive_id keccak private_key chain_id account_nonce =
     finalize_hash keccak (id_hasher private_key chain_id account_nonce)"

section \<open>Tokens\<close>

datatype token = Native | ERC20 address

fun token_address :: "'f field_api \<Rightarrow> token \<Rightarrow> address" where
  "token_address FF Native = field_to_address FF (NATIVE_TOKEN_ADDRESS FF)"
| "token_address FF (ERC20 a) = a"

definition token_from_address :: "'f field_api \<Rightarrow> address \<Rightarrow> token" where
  "token_from_address FF a =
     (if a = field_to_address FF (NATIVE_TOKEN_ADDRESS FF) then Native else ERC20 a)"

section \<open>Actions\<close>

record shielder_tx_data =
  td_amount :: u256
  td_note_index :: u256
  td_tx_hash :: hash32
  td_token :: token
  td_protocol_fee :: u256

datatype shielder_action =
    NewAccount shielder_tx_data
  | Deposit shielder_tx_data
  | Withdraw address shielder_tx_data

definition new_account_action :: "u256 \<Rightarrow> u256 \<Rightarrow> hash32 \<Rightarrow> token \<Rightarrow> u256 \<Rightarrow> shielder_action" where
  "new_account_action amount note_index tx_hash token protocol_fee =
     NewAccount \<lparr> td_amount = amount, td_note_index = note_index, td_tx_hash = tx_hash,
       td_token = token, td_protocol_fee = protocol_fee \<rparr>"

definition deposit_action :: "u256 \<Rightarrow> u256 \<Rightarrow> hash32 \<Rightarrow> token \<Rightarrow> u256 \<Rightarrow> shielder_action" where
  "deposit_action amount note_index tx_hash token protocol_fee =
     Deposit \<lparr> td_amount = amount, td_note_index = note_index, td_tx_hash = tx_hash,
       td_token = token, td_protocol_fee = protocol_fee \<rparr>"

definition withdraw_action ::
  "u256 \<Rightarrow> u256 \<Rightarrow> hash32 \<Rightarrow> address \<Rightarrow> token \<Rightarrow> u256 \<Rightarrow> shielder_action" where
  "withdraw_action amount note_index tx_hash to token protocol_fee =
     Withdraw to \<lparr> td_amount = amount, td_note_index = note_index, td_tx_hash = tx_hash,
       td_token = token, td_protocol_fee = protocol_fee \<rparr>"

fun action_data :: "shielder_action \<Rightarrow> shielder_tx_data" where
  "action_data (NewAccount data) = data"
| "action_data (Deposit data) = data"
| "action_data (Withdraw to data) = data"

definition action_token :: "shielder_action \<Rightarrow> token" where
  "action_token a = td_token (action_data a)"

fun action_from_event ::
  "'f field_api \<Rightarrow> hash32 \<times> shielder_contract_event \<Rightarrow> shielder_action" where
  "action_from_event FF (tx_hash, NewAccountEvent e) =
     new_account_action (ena_amount e) (ena_newNoteIndex e) tx_hash
       (token_from_address FF (ena_tokenAddress e)) (ena_protocolFee e)"
| "action_from_event FF (tx_hash, DepositEvent e) =
     deposit_action (ed_amount e) (ed_newNoteIndex e) tx_hash
       (token_from_address FF (ed_tokenAddress e)) (ed_protocolFee e)"
| "action_from_event FF (tx_hash, WithdrawEvent e) =
     withdraw_action (ew_amount e) (ew_newNoteIndex e) tx_hash (ew_withdrawalAddress e)
       (token_from_address FF (ew_tokenAddress e)) (ew_protocolFee e)"

section \<open>The account\<close>

record shielder_account =
  sa_id :: u256
  sa_token :: token
  sa_nonce :: u32
  sa_shielded_amount :: u256
  sa_history :: "shielder_action list"

definition default_account :: shielder_account where
  "default_account = \<lparr> sa_id = 0, sa_token = Native, sa_nonce = 0, sa_shielded_amount = 0,
     sa_history = [] \<rparr>"

record 'f circuit_note =
  nt_version :: u8
  nt_id :: 'f
  nt_nullifier :: 'f
  nt_account_balance :: 'f
  nt_token_address :: 'f

definition account_new ::
  "'f field_api \<Rightarrow> (bytes \<Rightarrow> 'f) \<Rightarrow> u256 \<Rightarrow> token \<Rightarrow> shielder_account" where
  "account_new FF generate_user_id id_seed token =
     default_account\<lparr>
       sa_id := field_to_u256 FF (generate_user_id (ff_to_repr FF (u256_to_field FF id_seed))),
       sa_token := token \<rparr>"

text \<open>
  Registering an action either succeeds or panics; the type of its (impossible) errors is \<open>unit\<close>.
  The new shielded amount: the subtraction of the fee wraps, the sum and difference are checked.
\<close>

fun updated_amount :: "shielder_account \<Rightarrow> shielder_action \<Rightarrow> (u256, unit) result" where
  "updated_amount a (Deposit data) =
     expect (checked_add (sa_shielded_amount a) (td_amount data - td_protocol_fee data))
       ''shielded amount overflow''"
| "updated_amount a (NewAccount data) =
     expect (checked_add (sa_shielded_amount a) (td_amount data - td_protocol_fee data))
       ''shielded amount overflow''"
| "updated_amount a (Withdraw to data) =
     expect (checked_sub (sa_shielded_amount a) (td_amount data)) ''shielded amount underflow''"

definition register_action ::
  "shielder_account \<Rightarrow> shielder_action \<Rightarrow> (shielder_account, unit) result" where
  "register_action a action =
     (if sa_token a \<noteq> action_token action then Panic ''token mismatch''
      else and_then (updated_amount a action) (\<lambda>amount.
           and_then (expect (checked_add (sa_nonce a) 1) ''attempt to add with overflow'') (\<lambda>nonce.
           Ok (a\<lparr> sa_shielded_amount := amount, sa_nonce := nonce,
                  sa_history := sa_history a @ [action] \<rparr>))))"

definition current_leaf_index :: "shielder_account \<Rightarrow> u256 option" where
  "current_leaf_index a =
     (if sa_history a = [] then None else Some (td_note_index (action_data (last (sa_history a)))))"

definition prenullifier :: "shielder_account \<Rightarrow> u256" where
  "prenullifier a = sa_id a"

definition next_nullifier :: "(bytes \<Rightarrow> bytes) \<Rightarrow> shielder_account \<Rightarrow> u256" where
  "next_nullifier keccak a = derive_nullifier keccak (sa_id a) (sa_nonce a)"

definition previous_nullifier :: "(bytes \<Rightarrow> bytes) \<Rightarrow> shielder_account \<Rightarrow> u256" where
  "previous_nullifier keccak a =
     (case checked_sub (sa_nonce a) 1 of
        None \<Rightarrow> prenullifier a
      | Some nonce \<Rightarrow> derive_nullifier keccak (sa_id a) nonce)"

definition account_note ::
  "'f field_api \<Rightarrow> (bytes \<Rightarrow> bytes) \<Rightarrow> ('f circuit_note \<Rightarrow> 'f) \<Rightarrow> shielder_account \<Rightarrow> token \<Rightarrow> u256 option" where
  "account_note FF keccak note_hash a token =
     (if sa_nonce a = 0 then None
      else
        (let raw_note = note_hash \<lparr>
               nt_version = note_version contract_version,
               nt_id = u256_to_field FF (sa_id a),
               nt_nullifier = u256_to_field FF (previous_nullifier keccak a),
               nt_account_balance = u256_to_field FF (sa_shielded_amount a),
               nt_token_address = address_to_field FF (token_address FF token) \<rparr>
         in Some (field_to_u256 FF raw_note)))"

text \<open>Registering a whole history, as recovery does.\<close>

definition register_all ::
  "shielder_account \<Rightarrow> shielder_action list \<Rightarrow> (shielder_account, unit) result" where
  "register_all a actions = try_fold (\<lambda>action acc. register_action acc action) actions a"

section \<open>Secrets: bounds and separation\<close>

lemma finalize_hash_lt: "unat (finalize_hash keccak h) < fr_modulus"
proof -
  have "unat (finalize_hash keccak h) = unat (from_be_bytes (keccak h) :: u256) mod fr_modulus"
    by (simp add: finalize_hash_def unat_mod unat_FIELD_MODULUS)
  then show ?thesis using fr_modulus_bounds(1) by simp
qed

lemma length_hashers:
  "length (nullifier_hasher uid nonce) = 45" "length (id_hasher key chain anonce) = 46"
  by (simp_all add: nullifier_hasher_def id_hasher_def hasher_update_def)

text \<open>
  Derived secrets are canonical field elements: a nullifier or an id survives the conversion to
  the field and back, whatever Keccak returns.
\<close>

theorem derived_secrets_canonical:
  "field_to_u256 Fr (u256_to_field Fr (derive_nullifier keccak uid nonce)) = derive_nullifier keccak uid nonce \<and>
   field_to_u256 Fr (u256_to_field Fr (derive_id keccak key chain_id account_nonce)) =
     derive_id keccak key chain_id account_nonce"
  by (simp add: derive_nullifier_def derive_id_def field_to_u256_u256_to_field_iff finalize_hash_lt)

text \<open>
  What is hashed determines the secret's inputs: nullifier preimages are injective in the id and
  the nonce, id preimages in the key, the chain and the account nonce, and no nullifier preimage is an
  id preimage.
\<close>

theorem secret_preimages_injective:
  "(nullifier_hasher uid nonce = nullifier_hasher uid' nonce' \<longleftrightarrow> uid = uid' \<and> nonce = nonce') \<and>
   (id_hasher key chain anonce = id_hasher key' chain' anonce' \<longleftrightarrow>
      key = key' \<and> chain = chain' \<and> anonce = anonce') \<and>
   nullifier_hasher uid nonce \<noteq> id_hasher key chain anonce"
proof (intro conjI)
  show "nullifier_hasher uid nonce = nullifier_hasher uid' nonce' \<longleftrightarrow> uid = uid' \<and> nonce = nonce'"
    by (simp add: nullifier_hasher_def hasher_update_def to_be_bytes_inj)
  show "id_hasher key chain anonce = id_hasher key' chain' anonce' \<longleftrightarrow>
      key = key' \<and> chain = chain' \<and> anonce = anonce'"
    by (simp add: id_hasher_def hasher_update_def to_be_bytes_inj)
  show "nullifier_hasher uid nonce \<noteq> id_hasher key chain anonce"
    using length_hashers(1) [of uid nonce] length_hashers(2) [of key chain anonce] by auto
qed

section \<open>Tokens and addresses\<close>

lemma native_address [simp]: "field_to_address Fr (NATIVE_TOKEN_ADDRESS Fr) = 0"
  by (simp add: word_unat_eq_iff bn254.field_to_address_val NATIVE_TOKEN_ADDRESS_def
      bn254.val_u256_to_field)

text \<open>The zero address stands for the native token; every other address round trips.\<close>

lemma token_address_roundtrip: "token_from_address Fr (token_address Fr t) = t \<longleftrightarrow> t \<noteq> ERC20 0"
  by (cases t) (auto simp: token_from_address_def)

lemma token_from_address_roundtrip: "token_address Fr (token_from_address Fr a) = a"
  by (auto simp: token_from_address_def)

section \<open>The account invariant\<close>

text \<open>
  What the code adds to the balance for an action, and the sum over a history. The difference of amount
  and fee is the \<open>U256\<close> subtraction of the code, which wraps around when the fee exceeds the amount; the
  integer it really stands for is \<open>net_delta\<close> below.
\<close>

fun action_delta :: "shielder_action \<Rightarrow> int" where
  "action_delta (NewAccount data) = uint (td_amount data - td_protocol_fee data)"
| "action_delta (Deposit data) = uint (td_amount data - td_protocol_fee data)"
| "action_delta (Withdraw to data) = - uint (td_amount data)"

definition history_balance :: "shielder_action list \<Rightarrow> int" where
  "history_balance hs = sum_list (map action_delta hs)"

definition account_inv :: "shielder_account \<Rightarrow> bool" where
  "account_inv a \<longleftrightarrow> unat (sa_nonce a) = length (sa_history a) \<and>
     uint (sa_shielded_amount a) = history_balance (sa_history a) \<and>
     (\<forall>act \<in> set (sa_history a). action_token act = sa_token a)"

lemma history_balance_snoc [simp]: "history_balance (hs @ [act]) = history_balance hs + action_delta act"
  by (simp add: history_balance_def)

lemma history_balance_Nil [simp]: "history_balance [] = 0"
  by (simp add: history_balance_def)

lemma account_inv_new: "account_inv (account_new FF gen seed tok)"
  by (simp add: account_inv_def account_new_def default_account_def)

lemma updated_amount_Ok_iff:
  "updated_amount a act = Ok m \<longleftrightarrow>
     uint m = uint (sa_shielded_amount a) + action_delta act"
  by (cases act) (auto simp: result_simps checked_add_uint checked_sub_uint)

lemma register_action_Ok:
  assumes "register_action a act = Ok a'"
  shows "action_token act = sa_token a" "sa_token a' = sa_token a" "sa_id a' = sa_id a"
    "sa_history a' = sa_history a @ [act]" "unat (sa_nonce a') = unat (sa_nonce a) + 1"
    "uint (sa_shielded_amount a') = uint (sa_shielded_amount a) + action_delta act"
  using assms
  by (auto simp: register_action_def result_simps updated_amount_Ok_iff dest!: checked_add_SomeD
      split: if_splits)

lemma register_action_inv: "account_inv a \<Longrightarrow> register_action a act = Ok a' \<Longrightarrow> account_inv a'"
  by (auto simp: account_inv_def register_action_Ok)

lemma uint_of_int_256: "0 \<le> n \<Longrightarrow> n < 2 ^ 256 \<Longrightarrow> uint (of_int n :: u256) = n"
  by (simp add: uint_word_of_int)

lemma register_action_succeeds_iff:
  assumes "account_inv a"
  shows "(\<exists>a'. register_action a act = Ok a') \<longleftrightarrow>
    action_token act = sa_token a \<and>
    0 \<le> history_balance (sa_history a @ [act]) \<and> history_balance (sa_history a @ [act]) < 2 ^ 256 \<and>
    length (sa_history a @ [act]) < 2 ^ 32"
    (is "?L \<longleftrightarrow> ?R")
proof
  assume ?L
  then obtain a' where a': "register_action a act = Ok a'" by blast
  note inv = register_action_inv [OF assms a']
  have "uint (sa_shielded_amount a') < 2 ^ 256" "unat (sa_nonce a') < 2 ^ 32"
    using uint_lt2p [of "sa_shielded_amount a'"] unat_lt_pow [of "sa_nonce a'"] by simp_all
  moreover have "0 \<le> history_balance (sa_history a')"
    using inv uint_ge_0 [of "sa_shielded_amount a'"] by (simp add: account_inv_def)
  ultimately show ?R using inv register_action_Ok [OF a'] by (auto simp: account_inv_def)
next
  assume R: ?R
  define m :: u256 where "m = of_int (history_balance (sa_history a @ [act]))"
  from R have "uint m = history_balance (sa_history a @ [act])"
    unfolding m_def by (intro uint_of_int_256) auto
  with R assms have "uint m = uint (sa_shielded_amount a) + action_delta act"
    by (simp add: account_inv_def)
  then have "updated_amount a act = Ok m" by (simp add: updated_amount_Ok_iff)
  moreover have "checked_add (sa_nonce a) 1 = Some (sa_nonce a + 1)"
    using R assms by (simp add: checked_add_def account_inv_def)
  ultimately show ?L using R by (auto simp: register_action_def)
qed

lemma register_all_inv:
  assumes "account_inv a" and "register_all a hs = Ok a'"
  shows "account_inv a' \<and> sa_history a' = sa_history a @ hs \<and> sa_token a' = sa_token a \<and>
    sa_id a' = sa_id a"
  using assms unfolding register_all_def
proof (induction hs arbitrary: a)
  case Nil
  then show ?case by simp
next
  case (Cons act hs)
  then obtain b where b: "register_action a act = Ok b"
    and "try_fold (\<lambda>action acc. register_action acc action) hs b = Ok a'"
    by (auto simp: result_simps)
  with Cons show ?case using register_action_inv [OF Cons.prems(1) b] register_action_Ok [OF b]
    by auto
qed

lemma register_all_append:
  "register_all a (hs @ [act]) = and_then (register_all a hs) (\<lambda>b. register_action b act)"
proof (cases "register_all a hs")
  case (Ok b)
  then show ?thesis by (cases "register_action b act") (simp_all add: register_all_def try_fold_append)
qed (simp_all add: register_all_def try_fold_append)

lemma register_all_Ok_iff:
  "(\<exists>a. register_all (account_new FF generate_user_id seed tok) hs = Ok a) \<longleftrightarrow>
    (\<forall>act \<in> set hs. action_token act = tok) \<and> length hs < 2 ^ 32 \<and>
    (\<forall>k \<le> length hs. 0 \<le> history_balance (take k hs) \<and> history_balance (take k hs) < 2 ^ 256)"
proof (induction hs rule: rev_induct)
  case Nil
  then show ?case by (simp add: register_all_def)
next
  case (snoc act hs)
  let ?new = "account_new FF generate_user_id seed tok"
  have new: "sa_history ?new = []" "sa_token ?new = tok"
    by (simp_all add: account_new_def default_account_def)
  have step: "(\<exists>b'. register_action b act = Ok b') \<longleftrightarrow> action_token act = tok \<and>
      0 \<le> history_balance (hs @ [act]) \<and> history_balance (hs @ [act]) < 2 ^ 256 \<and>
      length (hs @ [act]) < 2 ^ 32" if b: "register_all ?new hs = Ok b" for b
    using register_action_succeeds_iff [of b act] register_all_inv [OF account_inv_new b]
    by (simp add: new)
  have prefixes: "(\<forall>k \<le> length (hs @ [act]). P (take k (hs @ [act]))) \<longleftrightarrow>
      (\<forall>k \<le> length hs. P (take k hs)) \<and> P (hs @ [act])" for P
    by (auto simp: le_Suc_eq)
  have tokens: "(\<forall>x \<in> set (hs @ [act]). action_token x = tok) \<longleftrightarrow>
      (\<forall>x \<in> set hs. action_token x = tok) \<and> action_token act = tok" by auto
  have shorter: "length (hs @ [act]) < 2 ^ 32 \<Longrightarrow> length hs < 2 ^ 32" by simp
  have "(\<exists>a. register_all ?new (hs @ [act]) = Ok a) \<longleftrightarrow>
      (\<exists>b. register_all ?new hs = Ok b \<and> (\<exists>b'. register_action b act = Ok b'))"
    by (auto simp: register_all_append result_simps)
  also have "\<dots> \<longleftrightarrow> (\<exists>b. register_all ?new hs = Ok b) \<and> action_token act = tok \<and>
      0 \<le> history_balance (hs @ [act]) \<and> history_balance (hs @ [act]) < 2 ^ 256 \<and>
      length (hs @ [act]) < 2 ^ 32"
    using step by blast
  finally show ?case
    unfolding snoc.IH tokens prefixes [of "\<lambda>h. 0 \<le> history_balance h \<and> history_balance h < 2 ^ 256"]
    using shorter by blast
qed

section \<open>Properties of the account\<close>

text \<open>
  Replaying a history on a fresh account succeeds exactly when every action is for the account's
  token, fewer than \<open>2 ^ 32\<close> actions are replayed, and every intermediate net balance lies between
  zero and the largest \<open>U256\<close>; any other history panics.
\<close>

theorem register_all_succeeds_iff:
  "(\<exists>a. register_all (account_new FF generate_user_id seed tok) hs = Ok a) \<longleftrightarrow>
    (\<forall>act \<in> set hs. action_token act = tok) \<and> length hs < 2 ^ 32 \<and>
    (\<forall>k \<le> length hs. 0 \<le> history_balance (take k hs) \<and> history_balance (take k hs) < 2 ^ 256)"
  by (rule register_all_Ok_iff)

definition sample_history :: "shielder_action list" where
  "sample_history = [new_account_action 100 0 11 Native 1, deposit_action 50 1 12 Native 0,
     withdraw_action 149 2 13 7 Native 2]"

lemma sample_bounds: "(99 :: int) < 2 ^ 256" "(149 :: int) < 2 ^ 256"
  by simp_all

lemma sample_history_ok:
  "(\<forall>act \<in> set sample_history. action_token act = Native) \<and> length sample_history < 2 ^ 32 \<and>
    (\<forall>k \<le> length sample_history. 0 \<le> history_balance (take k sample_history) \<and>
       history_balance (take k sample_history) < 2 ^ 256)"
proof (intro conjI)
  have "history_balance (take 0 sample_history) = 0" "history_balance (take 1 sample_history) = 99"
    "history_balance (take 2 sample_history) = 149" "history_balance (take 3 sample_history) = 0"
    by (simp_all add: sample_history_def history_balance_def new_account_action_def
        deposit_action_def withdraw_action_def take_Cons')
  moreover have "k = 0 \<or> k = 1 \<or> k = 2 \<or> k = 3" if "k \<le> length sample_history" for k
    using that by (auto simp: sample_history_def)
  ultimately show "\<forall>k \<le> length sample_history. 0 \<le> history_balance (take k sample_history) \<and>
       history_balance (take k sample_history) < 2 ^ 256"
    by (metis order_refl zero_less_power zero_less_numeral zero_le_numeral sample_bounds)
qed (simp_all add: sample_history_def action_token_def new_account_action_def deposit_action_def
    withdraw_action_def)

theorem register_all_succeeds_iff_witness:
  "\<exists>a. register_all (account_new Fr (\<lambda>bs. fr_of_nat (le_nat bs)) 5 Native) sample_history = Ok a"
  using register_all_succeeds_iff [of Fr _ 5 Native sample_history] sample_history_ok by simp

text \<open>
  The specification of the balance over the integers: deposits credit their amount less the fee, withdrawals
  debit their amount. A deposit is overcharged when its fee exceeds its amount: its net value is negative.
\<close>

fun net_delta :: "shielder_action \<Rightarrow> int" where
  "net_delta (NewAccount data) = uint (td_amount data) - uint (td_protocol_fee data)"
| "net_delta (Deposit data) = uint (td_amount data) - uint (td_protocol_fee data)"
| "net_delta (Withdraw to data) = - uint (td_amount data)"

definition net_balance :: "shielder_action list \<Rightarrow> int" where
  "net_balance hs = (\<Sum>act \<leftarrow> hs. net_delta act)"

fun overcharged :: "shielder_action \<Rightarrow> bool" where
  "overcharged (NewAccount data) \<longleftrightarrow> td_amount data < td_protocol_fee data"
| "overcharged (Deposit data) \<longleftrightarrow> td_amount data < td_protocol_fee data"
| "overcharged (Withdraw to data) \<longleftrightarrow> False"

lemma uint_diff_wraps:
  fixes a b :: u256
  shows "uint (a - b) = uint a - uint b + (if a < b then 2 ^ 256 else 0)"
proof (cases "a < b")
  case True
  then have "uint a < uint b" by (simp add: word_less_def)
  then have "uint (a - b) = uint a - uint b + 2 ^ 256"
    using uint_sub_if' [of a b] by simp
  with True show ?thesis by simp
next
  case False
  then have "uint b \<le> uint a" by (simp add: word_less_def)
  then show ?thesis using False uint_sub_lem [of b a] by simp
qed

lemma action_delta_net: "action_delta act = net_delta act + (if overcharged act then 2 ^ 256 else 0)"
  by (cases act) (simp_all add: uint_diff_wraps)

lemma history_balance_net: "history_balance hs = net_balance hs + 2 ^ 256 * int (length (filter overcharged hs))"
  by (induction hs) (simp_all add: history_balance_def net_balance_def action_delta_net algebra_simps)

text \<open>
  C13. The state after a replay is a function of the history: the nonce counts the actions, the history
  is kept in order, the id and token are unchanged and the leaf index is that of the last action. The
  shielded amount is, over the integers, the sum of the deposits less their fees and less the
  withdrawals, plus \<open>2 ^ 256\<close> for every overcharged deposit, whose unchecked subtraction of the fee wraps
  around; so it is exactly the net sum when, and only when, no deposit has a fee above its amount.
\<close>

theorem register_all_state:
  assumes "register_all (account_new FF generate_user_id seed tok) hs = Ok a"
  shows "unat (sa_nonce a) = length hs \<and>
    uint (sa_shielded_amount a) = net_balance hs + 2 ^ 256 * int (length (filter overcharged hs)) \<and>
    (uint (sa_shielded_amount a) = net_balance hs \<longleftrightarrow> (\<forall>act \<in> set hs. \<not> overcharged act)) \<and>
    sa_history a = hs \<and> sa_token a = tok \<and>
    sa_id a = sa_id (account_new FF generate_user_id seed tok) \<and>
    current_leaf_index a = (if hs = [] then None else Some (td_note_index (action_data (last hs))))"
  using register_all_inv [OF account_inv_new assms]
  by (auto simp: account_inv_def account_new_def default_account_def current_leaf_index_def
      history_balance_net filter_empty_conv)

definition overcharged_history :: "shielder_action list" where
  "overcharged_history = [new_account_action 5 0 11 Native 6]"

theorem register_all_state_witness:
  "(\<exists>a. register_all (account_new Fr (\<lambda>bs. fr_of_nat (le_nat bs)) 5 Native) sample_history = Ok a \<and>
     unat (sa_nonce a) = 3 \<and> uint (sa_shielded_amount a) = 0 \<and> current_leaf_index a = Some 2) \<and>
   (\<exists>a. register_all (account_new Fr (\<lambda>bs. fr_of_nat (le_nat bs)) 5 Native) overcharged_history = Ok a \<and>
     uint (sa_shielded_amount a) = 2 ^ 256 - 1)"
proof (intro conjI)
  obtain a where a: "register_all (account_new Fr (\<lambda>bs. fr_of_nat (le_nat bs)) 5 Native)
      sample_history = Ok a"
    using register_all_Ok_iff [of Fr _ 5 Native sample_history] sample_history_ok by blast
  from register_all_state [OF a] a show "\<exists>a. register_all (account_new Fr (\<lambda>bs. fr_of_nat (le_nat bs)) 5 Native)
      sample_history = Ok a \<and> unat (sa_nonce a) = 3 \<and> uint (sa_shielded_amount a) = 0 \<and> current_leaf_index a = Some 2"
    by (auto simp: sample_history_def net_balance_def new_account_action_def deposit_action_def
        withdraw_action_def)
next
  have "history_balance overcharged_history = 2 ^ 256 - 1"
    by (simp add: overcharged_history_def history_balance_net net_balance_def new_account_action_def)
  then have "\<exists>a. register_all (account_new Fr (\<lambda>bs. fr_of_nat (le_nat bs)) 5 Native) overcharged_history = Ok a"
    unfolding register_all_Ok_iff
    by (auto simp: overcharged_history_def new_account_action_def action_token_def take_Cons')
  then obtain a where a: "register_all (account_new Fr (\<lambda>bs. fr_of_nat (le_nat bs)) 5 Native)
      overcharged_history = Ok a" ..
  from register_all_state [OF a] a show "\<exists>a. register_all (account_new Fr (\<lambda>bs. fr_of_nat (le_nat bs)) 5 Native)
      overcharged_history = Ok a \<and> uint (sa_shielded_amount a) = 2 ^ 256 - 1"
    by (auto simp: overcharged_history_def net_balance_def new_account_action_def)
qed

lemma previous_after_register:
  assumes "register_action a act = Ok a'"
  shows "previous_nullifier keccak a' = next_nullifier keccak a"
proof -
  have "uint (sa_nonce a') = uint (sa_nonce a) + 1"
    unfolding uint_nat register_action_Ok(5) [OF assms] by (simp only: of_nat_add of_nat_1)
  then have "checked_sub (sa_nonce a') 1 = Some (sa_nonce a)" by (simp add: checked_sub_uint)
  then show ?thesis
    using register_action_Ok(3) [OF assms] by (simp add: previous_nullifier_def next_nullifier_def)
qed

text \<open>
  C17. Nullifiers chain: the nullifier an account consumes in its next action is the one it announces
  as new in the current action, and the first action consumes the account's id.
\<close>

theorem nullifiers_chain:
  assumes "register_action a act = Ok a'"
  shows "previous_nullifier keccak a' = next_nullifier keccak a \<and>
    previous_nullifier keccak (account_new FF gen seed tok) = sa_id (account_new FF gen seed tok)"
  using previous_after_register [OF assms]
  by (simp add: previous_nullifier_def prenullifier_def account_new_def default_account_def
      checked_sub_def)

theorem nullifiers_chain_witness:
  "\<exists>a'. register_action default_account (deposit_action 5 0 0 Native 0) = Ok a' \<and>
    previous_nullifier (\<lambda>bs. bs) a' = next_nullifier (\<lambda>bs. bs) default_account \<and>
    previous_nullifier (\<lambda>bs. bs) (account_new Fr (\<lambda>bs. fr_of_nat 3) 1 Native) =
      sa_id (account_new Fr (\<lambda>bs. fr_of_nat 3) 1 Native)"
proof -
  have "account_inv default_account" by (simp add: account_inv_def default_account_def)
  from register_action_succeeds_iff [OF this, of "deposit_action 5 0 0 Native 0"]
  obtain a' where a': "register_action default_account (deposit_action 5 0 0 Native 0) = Ok a'"
    by (auto simp: default_account_def history_balance_def deposit_action_def action_token_def)
  with nullifiers_chain [OF a'] show ?thesis by blast
qed

end
