(* ===== verification/CallData.thy ===== *)
theory CallData
  imports Account
begin

text \<open>
  The module \<open>call_data\<close> of \<open>shielder-account\<close>: from an account and an action to the prover's
  knowledge, and from the knowledge and a proof to the data of a contract call. The trait \<open>CallType\<close>
  is the record \<open>call_type\<close>; its three implementations are values of it. The circuits (public inputs
  of a prover's knowledge, bit decomposition) are fields of \<open>circuits\<close>, the proof generation is an
  argument. The locale \<open>faithful_call_type\<close> is the contract of the trait: the call carries the
  requested amount, token and memo.
\<close>

section \<open>Data\<close>

record action_secrets =
  as_nullifier_old :: u256
  as_nullifier_new :: u256

datatype call_type_conversion_error = CallTypeConversionError

record 'a grumpkin_point =
  gp_x :: 'a
  gp_y :: 'a

record 'f new_account_knowledge =
  nk_id :: 'f
  nk_nullifier :: 'f
  nk_initial_deposit :: 'f
  nk_commitment :: 'f
  nk_token_address :: 'f
  nk_encryption_salt :: "bool list"
  nk_anonymity_revoker_public_key :: "'f grumpkin_point"
  nk_mac_salt :: 'f

record 'f deposit_knowledge =
  dk_id :: 'f
  dk_nullifier_old :: 'f
  dk_account_old_balance :: 'f
  dk_commitment :: 'f
  dk_token_address :: 'f
  dk_path :: "'f list list"
  dk_deposit_value :: 'f
  dk_nullifier_new :: 'f
  dk_mac_salt :: 'f

record 'f withdraw_knowledge =
  wk_id :: 'f
  wk_nullifier_old :: 'f
  wk_account_old_balance :: 'f
  wk_token_address :: 'f
  wk_path :: "'f list list"
  wk_withdrawal_value :: 'f
  wk_nullifier_new :: 'f
  wk_commitment :: 'f
  wk_mac_salt :: 'f

datatype new_account_instance =
    NA_HashedNote | NA_Prenullifier | NA_InitialDeposit | NA_Commitment | NA_TokenAddress
  | NA_AnonymityRevokerPublicKeyX | NA_AnonymityRevokerPublicKeyY
  | NA_EncryptedKeyCiphertext1X | NA_EncryptedKeyCiphertext1Y
  | NA_EncryptedKeyCiphertext2X | NA_EncryptedKeyCiphertext2Y
  | NA_MacSalt | NA_MacCommitment

datatype deposit_instance =
    D_MerkleRoot | D_HashedOldNullifier | D_HashedNewNote | D_DepositValue | D_Commitment
  | D_TokenAddress | D_MacSalt | D_MacCommitment

datatype withdraw_instance =
    W_MerkleRoot | W_HashedOldNullifier | W_HashedNewNote | W_WithdrawalValue | W_Commitment
  | W_TokenAddress | W_MacSalt | W_MacCommitment

text \<open>What the code uses of the field, the hash and the circuits package.\<close>

record 'f circuits =
  c_field :: "'f field_api"
  c_keccak :: "bytes \<Rightarrow> bytes"
  c_le_bits :: "'f \<Rightarrow> bool list"
  c_new_account :: "'f new_account_knowledge \<Rightarrow> new_account_instance \<Rightarrow> 'f"
  c_deposit :: "'f deposit_knowledge \<Rightarrow> deposit_instance \<Rightarrow> 'f"
  c_withdraw :: "'f withdraw_knowledge \<Rightarrow> withdraw_instance \<Rightarrow> 'f"

record ('extra, 'k, 'call) call_type =
  ct_prepare_prover_knowledge :: "shielder_account \<Rightarrow> token \<Rightarrow> u256 \<Rightarrow> 'extra \<Rightarrow> 'k"
  ct_prepare_call_data :: "'k \<Rightarrow> bytes \<Rightarrow> 'extra \<Rightarrow> 'call"

definition get_secrets :: "(bytes \<Rightarrow> bytes) \<Rightarrow> shielder_account \<Rightarrow> action_secrets" where
  "get_secrets keccak account =
     (let nullifier_old = previous_nullifier keccak account;
          nullifier_new = next_nullifier keccak account
      in \<lparr> as_nullifier_old = nullifier_old, as_nullifier_new = nullifier_new \<rparr>)"

text \<open>The proof generation \<open>prove\<close> (parameters, keys and randomness included) is an argument.\<close>

definition prepare_call ::
  "('extra, 'k, 'call) call_type \<Rightarrow> ('k \<Rightarrow> bytes) \<Rightarrow> shielder_account \<Rightarrow> token \<Rightarrow> u256 \<Rightarrow> 'extra \<Rightarrow> 'call" where
  "prepare_call CT prove account token amount extra =
     (let prover_knowledge = ct_prepare_prover_knowledge CT account token amount extra;
          prf = prove prover_knowledge
      in ct_prepare_call_data CT prover_knowledge prf extra)"

definition map_path_to_field :: "'f field_api \<Rightarrow> u256 list list \<Rightarrow> 'f list list" where
  "map_path_to_field FF path = map (map (u256_to_field FF)) path"

section \<open>New account\<close>

record new_account_call =
  nac_amount :: u256
  nac_token :: token
  nac_expected_contract_version :: bytes3
  nac_new_note :: u256
  nac_prenullifier :: u256
  nac_sym_key_encryption_c1 :: "u256 grumpkin_point"
  nac_sym_key_encryption_c2 :: "u256 grumpkin_point"
  nac_mac_salt :: u256
  nac_mac_commitment :: u256
  nac_proof :: bytes
  nac_memo :: bytes

definition new_account_native_try_from ::
  "new_account_call \<Rightarrow> (newAccountNativeCall, call_type_conversion_error) result" where
  "new_account_native_try_from calldata =
     (case nac_token calldata of
        Native \<Rightarrow> Ok \<lparr>
          nan_expectedContractVersion = nac_expected_contract_version calldata,
          nan_newNote = nac_new_note calldata,
          nan_prenullifier = nac_prenullifier calldata,
          nan_symKeyEncryptionC1X = gp_x (nac_sym_key_encryption_c1 calldata),
          nan_symKeyEncryptionC1Y = gp_y (nac_sym_key_encryption_c1 calldata),
          nan_symKeyEncryptionC2X = gp_x (nac_sym_key_encryption_c2 calldata),
          nan_symKeyEncryptionC2Y = gp_y (nac_sym_key_encryption_c2 calldata),
          nan_macSalt = nac_mac_salt calldata,
          nan_macCommitment = nac_mac_commitment calldata,
          nan_proof = nac_proof calldata,
          nan_memo = nac_memo calldata \<rparr>
      | ERC20 _ \<Rightarrow> Err CallTypeConversionError)"

definition new_account_erc20_try_from ::
  "new_account_call \<Rightarrow> (newAccountERC20Call, call_type_conversion_error) result" where
  "new_account_erc20_try_from calldata =
     (case nac_token calldata of
        Native \<Rightarrow> Err CallTypeConversionError
      | ERC20 token_addr \<Rightarrow> Ok \<lparr>
          nae_expectedContractVersion = nac_expected_contract_version calldata,
          nae_tokenAddress = token_addr,
          nae_amount = nac_amount calldata,
          nae_newNote = nac_new_note calldata,
          nae_prenullifier = nac_prenullifier calldata,
          nae_symKeyEncryptionC1X = gp_x (nac_sym_key_encryption_c1 calldata),
          nae_symKeyEncryptionC1Y = gp_y (nac_sym_key_encryption_c1 calldata),
          nae_symKeyEncryptionC2X = gp_x (nac_sym_key_encryption_c2 calldata),
          nae_symKeyEncryptionC2Y = gp_y (nac_sym_key_encryption_c2 calldata),
          nae_macSalt = nac_mac_salt calldata,
          nae_macCommitment = nac_mac_commitment calldata,
          nae_proof = nac_proof calldata,
          nae_memo = nac_memo calldata \<rparr>)"

record new_account_extra =
  nx_anonymity_revoker_public_key :: "u256 grumpkin_point"
  nx_encryption_salt :: u256
  nx_mac_salt :: u256
  nx_caller_address :: address
  nx_protocol_fee :: u256
  nx_memo :: bytes

definition new_account_prover_knowledge ::
  "'f circuits \<Rightarrow> shielder_account \<Rightarrow> token \<Rightarrow> u256 \<Rightarrow> new_account_extra \<Rightarrow> 'f new_account_knowledge" where
  "new_account_prover_knowledge C account token amount extra =
     (let FF = c_field C;
          commitment = new_account_commitment_hash (c_keccak C)
            \<lparr> nac_caller_address = nx_caller_address extra, nac_protocol_fee = nx_protocol_fee extra \<rparr>
      in \<lparr>
        nk_id = u256_to_field FF (sa_id account),
        nk_nullifier = u256_to_field FF (next_nullifier (c_keccak C) account),
        nk_initial_deposit = u256_to_field FF (amount - nx_protocol_fee extra),
        nk_commitment = u256_to_field FF commitment,
        nk_token_address = address_to_field FF (token_address FF token),
        nk_encryption_salt = c_le_bits C (u256_to_field FF (nx_encryption_salt extra)),
        nk_anonymity_revoker_public_key = \<lparr>
          gp_x = u256_to_field FF (gp_x (nx_anonymity_revoker_public_key extra)),
          gp_y = u256_to_field FF (gp_y (nx_anonymity_revoker_public_key extra)) \<rparr>,
        nk_mac_salt = u256_to_field FF (nx_mac_salt extra) \<rparr>)"

definition new_account_call_data ::
  "'f circuits \<Rightarrow> 'f new_account_knowledge \<Rightarrow> bytes \<Rightarrow> new_account_extra \<Rightarrow> new_account_call" where
  "new_account_call_data C pk prf extra =
     (let FF = c_field C; input = (\<lambda>i. field_to_u256 FF (c_new_account C pk i))
      in \<lparr>
        nac_amount = field_to_u256 FF (nk_initial_deposit pk) + nx_protocol_fee extra,
        nac_token = token_from_address FF (field_to_address FF (nk_token_address pk)),
        nac_expected_contract_version = version_to_bytes contract_version,
        nac_new_note = input NA_HashedNote,
        nac_prenullifier = input NA_Prenullifier,
        nac_sym_key_encryption_c1 = \<lparr> gp_x = input NA_EncryptedKeyCiphertext1X,
          gp_y = input NA_EncryptedKeyCiphertext1Y \<rparr>,
        nac_sym_key_encryption_c2 = \<lparr> gp_x = input NA_EncryptedKeyCiphertext2X,
          gp_y = input NA_EncryptedKeyCiphertext2Y \<rparr>,
        nac_mac_salt = input NA_MacSalt,
        nac_mac_commitment = input NA_MacCommitment,
        nac_proof = prf,
        nac_memo = nx_memo extra \<rparr>)"

definition new_account_call_type ::
  "'f circuits \<Rightarrow> (new_account_extra, 'f new_account_knowledge, new_account_call) call_type" where
  "new_account_call_type C = \<lparr>
     ct_prepare_prover_knowledge = new_account_prover_knowledge C,
     ct_prepare_call_data = new_account_call_data C \<rparr>"

section \<open>Deposit\<close>

record deposit_call =
  dpc_amount :: u256
  dpc_token :: token
  dpc_expected_contract_version :: bytes3
  dpc_old_nullifier_hash :: u256
  dpc_new_note :: u256
  dpc_merkle_root :: u256
  dpc_mac_salt :: u256
  dpc_mac_commitment :: u256
  dpc_proof :: bytes
  dpc_memo :: bytes

definition deposit_native_try_from ::
  "deposit_call \<Rightarrow> (depositNativeCall, call_type_conversion_error) result" where
  "deposit_native_try_from calldata =
     (case dpc_token calldata of
        Native \<Rightarrow> Ok \<lparr>
          dn_expectedContractVersion = dpc_expected_contract_version calldata,
          dn_oldNullifierHash = dpc_old_nullifier_hash calldata,
          dn_newNote = dpc_new_note calldata,
          dn_merkleRoot = dpc_merkle_root calldata,
          dn_macSalt = dpc_mac_salt calldata,
          dn_macCommitment = dpc_mac_commitment calldata,
          dn_proof = dpc_proof calldata,
          dn_memo = dpc_memo calldata \<rparr>
      | ERC20 _ \<Rightarrow> Err CallTypeConversionError)"

definition deposit_erc20_try_from ::
  "deposit_call \<Rightarrow> (depositERC20Call, call_type_conversion_error) result" where
  "deposit_erc20_try_from calldata =
     (case dpc_token calldata of
        Native \<Rightarrow> Err CallTypeConversionError
      | ERC20 token_addr \<Rightarrow> Ok \<lparr>
          de_expectedContractVersion = dpc_expected_contract_version calldata,
          de_tokenAddress = token_addr,
          de_amount = dpc_amount calldata,
          de_oldNullifierHash = dpc_old_nullifier_hash calldata,
          de_newNote = dpc_new_note calldata,
          de_merkleRoot = dpc_merkle_root calldata,
          de_macSalt = dpc_mac_salt calldata,
          de_macCommitment = dpc_mac_commitment calldata,
          de_proof = dpc_proof calldata,
          de_memo = dpc_memo calldata \<rparr>)"

record deposit_extra =
  dx_merkle_path :: "u256 list list"
  dx_mac_salt :: u256
  dx_caller_address :: address
  dx_protocol_fee :: u256
  dx_memo :: bytes

definition deposit_prover_knowledge ::
  "'f circuits \<Rightarrow> shielder_account \<Rightarrow> token \<Rightarrow> u256 \<Rightarrow> deposit_extra \<Rightarrow> 'f deposit_knowledge" where
  "deposit_prover_knowledge C account token amount extra =
     (let FF = c_field C;
          secrets = get_secrets (c_keccak C) account;
          commitment = deposit_commitment_hash (c_keccak C)
            \<lparr> dc_caller_address = dx_caller_address extra, dc_protocol_fee = dx_protocol_fee extra \<rparr>
      in \<lparr>
        dk_id = u256_to_field FF (sa_id account),
        dk_nullifier_old = u256_to_field FF (as_nullifier_old secrets),
        dk_account_old_balance = u256_to_field FF (sa_shielded_amount account),
        dk_commitment = u256_to_field FF commitment,
        dk_token_address = address_to_field FF (token_address FF token),
        dk_path = map_path_to_field FF (dx_merkle_path extra),
        dk_deposit_value = u256_to_field FF (amount - dx_protocol_fee extra),
        dk_nullifier_new = u256_to_field FF (as_nullifier_new secrets),
        dk_mac_salt = u256_to_field FF (dx_mac_salt extra) \<rparr>)"

definition deposit_call_data ::
  "'f circuits \<Rightarrow> 'f deposit_knowledge \<Rightarrow> bytes \<Rightarrow> deposit_extra \<Rightarrow> deposit_call" where
  "deposit_call_data C pk prf extra =
     (let FF = c_field C; input = (\<lambda>i. field_to_u256 FF (c_deposit C pk i))
      in \<lparr>
        dpc_amount = field_to_u256 FF (dk_deposit_value pk) + dx_protocol_fee extra,
        dpc_token = token_from_address FF (field_to_address FF (dk_token_address pk)),
        dpc_expected_contract_version = version_to_bytes contract_version,
        dpc_old_nullifier_hash = input D_HashedOldNullifier,
        dpc_new_note = input D_HashedNewNote,
        dpc_merkle_root = input D_MerkleRoot,
        dpc_mac_salt = input D_MacSalt,
        dpc_mac_commitment = input D_MacCommitment,
        dpc_proof = prf,
        dpc_memo = dx_memo extra \<rparr>)"

definition deposit_call_type ::
  "'f circuits \<Rightarrow> (deposit_extra, 'f deposit_knowledge, deposit_call) call_type" where
  "deposit_call_type C = \<lparr>
     ct_prepare_prover_knowledge = deposit_prover_knowledge C,
     ct_prepare_call_data = deposit_call_data C \<rparr>"

section \<open>Withdrawal\<close>

record withdraw_call =
  wdc_amount :: u256
  wdc_token :: token
  wdc_expected_contract_version :: bytes3
  wdc_withdrawal_address :: address
  wdc_relayer_address :: address
  wdc_merkle_root :: u256
  wdc_old_nullifier_hash :: u256
  wdc_new_note :: u256
  wdc_relayer_fee :: u256
  wdc_mac_salt :: u256
  wdc_mac_commitment :: u256
  wdc_proof :: bytes
  wdc_pocket_money :: u256
  wdc_memo :: bytes

definition withdraw_native_try_from ::
  "withdraw_call \<Rightarrow> (withdrawNativeCall, call_type_conversion_error) result" where
  "withdraw_native_try_from calldata =
     (case wdc_token calldata of
        Native \<Rightarrow> Ok \<lparr>
          wn_expectedContractVersion = wdc_expected_contract_version calldata,
          wn_amount = wdc_amount calldata,
          wn_withdrawalAddress = wdc_withdrawal_address calldata,
          wn_merkleRoot = wdc_merkle_root calldata,
          wn_oldNullifierHash = wdc_old_nullifier_hash calldata,
          wn_newNote = wdc_new_note calldata,
          wn_proof = wdc_proof calldata,
          wn_relayerAddress = wdc_relayer_address calldata,
          wn_relayerFee = wdc_relayer_fee calldata,
          wn_macSalt = wdc_mac_salt calldata,
          wn_macCommitment = wdc_mac_commitment calldata,
          wn_memo = wdc_memo calldata \<rparr>
      | ERC20 _ \<Rightarrow> Err CallTypeConversionError)"

definition withdraw_erc20_try_from ::
  "withdraw_call \<Rightarrow> (withdrawERC20Call, call_type_conversion_error) result" where
  "withdraw_erc20_try_from calldata =
     (case wdc_token calldata of
        Native \<Rightarrow> Err CallTypeConversionError
      | ERC20 token_addr \<Rightarrow> Ok \<lparr>
          we_expectedContractVersion = wdc_expected_contract_version calldata,
          we_tokenAddress = token_addr,
          we_amount = wdc_amount calldata,
          we_withdrawalAddress = wdc_withdrawal_address calldata,
          we_merkleRoot = wdc_merkle_root calldata,
          we_oldNullifierHash = wdc_old_nullifier_hash calldata,
          we_newNote = wdc_new_note calldata,
          we_proof = wdc_proof calldata,
          we_relayerAddress = wdc_relayer_address calldata,
          we_relayerFee = wdc_relayer_fee calldata,
          we_macSalt = wdc_mac_salt calldata,
          we_macCommitment = wdc_mac_commitment calldata,
          we_memo = wdc_memo calldata \<rparr>)"

record withdraw_extra =
  wx_merkle_path :: "u256 list list"
  wx_to :: address
  wx_relayer_address :: address
  wx_relayer_fee :: u256
  wx_contract_version :: contract_version_t
  wx_chain_id :: u256
  wx_mac_salt :: u256
  wx_pocket_money :: u256
  wx_protocol_fee :: u256
  wx_memo :: bytes

definition withdraw_prover_knowledge ::
  "'f circuits \<Rightarrow> shielder_account \<Rightarrow> token \<Rightarrow> u256 \<Rightarrow> withdraw_extra \<Rightarrow> 'f withdraw_knowledge" where
  "withdraw_prover_knowledge C account token amount extra =
     (let FF = c_field C;
          secrets = get_secrets (c_keccak C) account;
          commitment = withdraw_commitment_hash (c_keccak C) \<lparr>
            wc_contract_version = wx_contract_version extra,
            wc_withdraw_address = wx_to extra,
            wc_relayer_address = wx_relayer_address extra,
            wc_relayer_fee = wx_relayer_fee extra,
            wc_chain_id = wx_chain_id extra,
            wc_pocket_money = wx_pocket_money extra,
            wc_protocol_fee = wx_protocol_fee extra,
            wc_memo = wx_memo extra \<rparr>
      in \<lparr>
        wk_id = u256_to_field FF (sa_id account),
        wk_nullifier_old = u256_to_field FF (as_nullifier_old secrets),
        wk_account_old_balance = u256_to_field FF (sa_shielded_amount account),
        wk_token_address = address_to_field FF (token_address FF token),
        wk_path = map_path_to_field FF (wx_merkle_path extra),
        wk_withdrawal_value = u256_to_field FF amount,
        wk_nullifier_new = u256_to_field FF (as_nullifier_new secrets),
        wk_commitment = u256_to_field FF commitment,
        wk_mac_salt = u256_to_field FF (wx_mac_salt extra) \<rparr>)"

definition withdraw_call_data ::
  "'f circuits \<Rightarrow> 'f withdraw_knowledge \<Rightarrow> bytes \<Rightarrow> withdraw_extra \<Rightarrow> withdraw_call" where
  "withdraw_call_data C pk prf extra =
     (let FF = c_field C; input = (\<lambda>i. field_to_u256 FF (c_withdraw C pk i))
      in \<lparr>
        wdc_amount = input W_WithdrawalValue,
        wdc_token = token_from_address FF (field_to_address FF (wk_token_address pk)),
        wdc_expected_contract_version = version_to_bytes contract_version,
        wdc_withdrawal_address = wx_to extra,
        wdc_relayer_address = wx_relayer_address extra,
        wdc_merkle_root = input W_MerkleRoot,
        wdc_old_nullifier_hash = input W_HashedOldNullifier,
        wdc_new_note = input W_HashedNewNote,
        wdc_relayer_fee = wx_relayer_fee extra,
        wdc_mac_salt = input W_MacSalt,
        wdc_mac_commitment = input W_MacCommitment,
        wdc_proof = prf,
        wdc_pocket_money = wx_pocket_money extra,
        wdc_memo = wx_memo extra \<rparr>)"

definition withdraw_call_type ::
  "'f circuits \<Rightarrow> (withdraw_extra, 'f withdraw_knowledge, withdraw_call) call_type" where
  "withdraw_call_type C = \<lparr>
     ct_prepare_prover_knowledge = withdraw_prover_knowledge C,
     ct_prepare_call_data = withdraw_call_data C \<rparr>"

section \<open>The contract of a call type\<close>

locale faithful_call_type =
  fixes CT :: "('extra, 'k, 'call) call_type"
    and call_amount :: "'call \<Rightarrow> u256" and call_token :: "'call \<Rightarrow> token"
    and call_proof :: "'call \<Rightarrow> bytes" and call_memo :: "'call \<Rightarrow> bytes"
    and extra_memo :: "'extra \<Rightarrow> bytes" and representable :: "u256 \<Rightarrow> 'extra \<Rightarrow> bool"
  assumes amount_kept: "representable amount extra \<Longrightarrow>
      call_amount (ct_prepare_call_data CT (ct_prepare_prover_knowledge CT account tok amount extra) prf extra)
        = amount"
    and token_kept: "tok \<noteq> ERC20 0 \<Longrightarrow>
      call_token (ct_prepare_call_data CT (ct_prepare_prover_knowledge CT account tok amount extra) prf extra)
        = tok"
    and proof_kept: "call_proof (ct_prepare_call_data CT k prf extra) = prf"
    and memo_kept: "call_memo (ct_prepare_call_data CT k prf extra) = extra_memo extra"
begin

lemma prepare_call_faithful:
  assumes "representable amount extra" and "tok \<noteq> ERC20 0"
  shows "call_amount (prepare_call CT prove account tok amount extra) = amount"
    "call_token (prepare_call CT prove account tok amount extra) = tok"
    "call_proof (prepare_call CT prove account tok amount extra) =
       prove (ct_prepare_prover_knowledge CT account tok amount extra)"
    "call_memo (prepare_call CT prove account tok amount extra) = extra_memo extra"
  using assms by (simp_all add: prepare_call_def Let_def amount_kept token_kept proof_kept memo_kept)

end

text \<open>Circuits over the scalar field; their withdrawal circuit publishes the withdrawn value.\<close>

definition fr_circuits ::
  "(bytes \<Rightarrow> bytes) \<Rightarrow> (fr \<Rightarrow> bool list) \<Rightarrow> (fr new_account_knowledge \<Rightarrow> new_account_instance \<Rightarrow> fr) \<Rightarrow>
   (fr deposit_knowledge \<Rightarrow> deposit_instance \<Rightarrow> fr) \<Rightarrow> (fr withdraw_knowledge \<Rightarrow> withdraw_instance \<Rightarrow> fr)
     \<Rightarrow> fr circuits" where
  "fr_circuits keccak bits na dp wd = \<lparr> c_field = Fr, c_keccak = keccak, c_le_bits = bits,
     c_new_account = na, c_deposit = dp,
     c_withdraw = (\<lambda>k i. if i = W_WithdrawalValue then wk_withdrawal_value k else wd k i) \<rparr>"

lemma token_field_roundtrip:
  "token_from_address Fr (field_to_address Fr (address_to_field Fr (token_address Fr tok))) = tok
     \<longleftrightarrow> tok \<noteq> ERC20 0"
  by (simp add: bn254.address_field_roundtrip token_address_roundtrip)

lemma gross_amount_kept:
  "unat (amount - fee) < fr_modulus \<Longrightarrow>
     field_to_u256 Fr (u256_to_field Fr (amount - fee)) + fee = amount"
  by (simp add: bn254.u256_field_roundtrip)

lemmas call_type_defs = new_account_call_type_def deposit_call_type_def withdraw_call_type_def
  new_account_prover_knowledge_def deposit_prover_knowledge_def withdraw_prover_knowledge_def
  new_account_call_data_def deposit_call_data_def withdraw_call_data_def fr_circuits_def Let_def

interpretation new_account_ct: faithful_call_type
  "new_account_call_type (fr_circuits keccak bits na dp wd)"
  nac_amount nac_token nac_proof nac_memo nx_memo
  "\<lambda>amount extra. unat (amount - nx_protocol_fee extra) < fr_modulus"
  for keccak bits na dp wd
  by unfold_locales (simp_all add: call_type_defs gross_amount_kept token_field_roundtrip)

interpretation deposit_ct: faithful_call_type
  "deposit_call_type (fr_circuits keccak bits na dp wd)"
  dpc_amount dpc_token dpc_proof dpc_memo dx_memo
  "\<lambda>amount extra. unat (amount - dx_protocol_fee extra) < fr_modulus"
  for keccak bits na dp wd
  by unfold_locales (simp_all add: call_type_defs gross_amount_kept token_field_roundtrip)

interpretation withdraw_ct: faithful_call_type
  "withdraw_call_type (fr_circuits keccak bits na dp wd)"
  wdc_amount wdc_token wdc_proof wdc_memo wx_memo
  "\<lambda>amount extra. unat amount < fr_modulus"
  for keccak bits na dp wd
  by unfold_locales (simp_all add: call_type_defs bn254.u256_field_roundtrip token_field_roundtrip)

lemma fr_circuits_cases:
  assumes "c_field C = Fr" and "\<And>k. c_withdraw C k W_WithdrawalValue = wk_withdrawal_value k"
  shows "fr_circuits (c_keccak C) (c_le_bits C) (c_new_account C) (c_deposit C) (c_withdraw C) = C"
proof -
  have "(\<lambda>k i. if i = W_WithdrawalValue then wk_withdrawal_value k else c_withdraw C k i) = c_withdraw C"
    using assms(2) by (intro ext) auto
  then show ?thesis using assms(1) by (simp add: fr_circuits_def)
qed

section \<open>Properties\<close>

text \<open>
  Exactly one of the two conversions of a prepared call succeeds: the native one for the native
  token, the ERC20 one for any other token.
\<close>

theorem conversions_match_token:
  "is_ok (new_account_native_try_from n) = (nac_token n = Native) \<and>
   is_ok (new_account_erc20_try_from n) = (nac_token n \<noteq> Native) \<and>
   is_ok (deposit_native_try_from d) = (dpc_token d = Native) \<and>
   is_ok (deposit_erc20_try_from d) = (dpc_token d \<noteq> Native) \<and>
   is_ok (withdraw_native_try_from w) = (wdc_token w = Native) \<and>
   is_ok (withdraw_erc20_try_from w) = (wdc_token w \<noteq> Native)"
  by (auto simp: new_account_native_try_from_def new_account_erc20_try_from_def
      deposit_native_try_from_def deposit_erc20_try_from_def withdraw_native_try_from_def
      withdraw_erc20_try_from_def split: token.splits)

text \<open>
  C18. A prepared withdrawal is what was asked for: over a circuit that publishes the withdrawn value,
  the call carries the requested amount (below the field order), token, recipient, relayer, relayer
  fee, pocket money and memo, and the commitment proved in zero knowledge binds exactly those values.
\<close>

theorem withdraw_call_faithful:
  fixes C :: "fr circuits" and prove :: "fr withdraw_knowledge \<Rightarrow> bytes" and account :: shielder_account
    and extra :: withdraw_extra
  assumes "c_field C = Fr" and "\<And>k. c_withdraw C k W_WithdrawalValue = wk_withdrawal_value k"
    and "unat amount < fr_modulus" and "tok \<noteq> ERC20 0"
  defines "call \<equiv> prepare_call (withdraw_call_type C) prove account tok amount extra"
  shows "wdc_amount call = amount \<and> wdc_token call = tok \<and> wdc_memo call = wx_memo extra \<and>
    wdc_withdrawal_address call = wx_to extra \<and> wdc_relayer_address call = wx_relayer_address extra \<and>
    wdc_relayer_fee call = wx_relayer_fee extra \<and> wdc_pocket_money call = wx_pocket_money extra \<and>
    (\<exists>k. wdc_proof call = prove k \<and>
      field_to_u256 Fr (wk_commitment k) = withdraw_commitment_hash (c_keccak C) \<lparr>
        wc_contract_version = wx_contract_version extra, wc_withdraw_address = wx_to extra,
        wc_relayer_address = wx_relayer_address extra, wc_relayer_fee = wx_relayer_fee extra,
        wc_chain_id = wx_chain_id extra, wc_pocket_money = wx_pocket_money extra,
        wc_protocol_fee = wx_protocol_fee extra, wc_memo = wx_memo extra \<rparr>)"
proof -
  note faithful = withdraw_ct.prepare_call_faithful
    [of amount tok "c_keccak C" "c_le_bits C" "c_new_account C" "c_deposit C" "c_withdraw C",
      unfolded fr_circuits_cases [OF assms(1,2)], OF assms(3,4)]
  let ?k = "withdraw_prover_knowledge C account tok amount extra"
  have "wdc_proof call = prove ?k"
    unfolding call_def faithful(3) by (simp add: withdraw_call_type_def)
  moreover have "field_to_u256 Fr (wk_commitment ?k) = withdraw_commitment_hash (c_keccak C) \<lparr>
        wc_contract_version = wx_contract_version extra, wc_withdraw_address = wx_to extra,
        wc_relayer_address = wx_relayer_address extra, wc_relayer_fee = wx_relayer_fee extra,
        wc_chain_id = wx_chain_id extra, wc_pocket_money = wx_pocket_money extra,
        wc_protocol_fee = wx_protocol_fee extra, wc_memo = wx_memo extra \<rparr>"
    using assms(1) by (simp add: withdraw_prover_knowledge_def Let_def withdraw_commitment_hash_def
        shifted_hash_field)
  ultimately show ?thesis using faithful(1,2,4) unfolding call_def
    by (auto simp: prepare_call_def Let_def withdraw_call_type_def withdraw_call_data_def)
qed

definition sample_circuits :: "fr circuits" where
  "sample_circuits = fr_circuits (\<lambda>bs. nat_be 32 (le_nat bs)) (\<lambda>x. []) (\<lambda>k i. nk_id k) (\<lambda>k i. dk_id k)
     (\<lambda>k i. wk_id k)"

definition sample_withdraw_extra :: withdraw_extra where
  "sample_withdraw_extra = \<lparr> wx_merkle_path = replicate 13 (replicate 7 1), wx_to = 77,
     wx_relayer_address = 88, wx_relayer_fee = 3, wx_contract_version = contract_version, wx_chain_id = 1,
     wx_mac_salt = 4, wx_pocket_money = 0, wx_protocol_fee = 1, wx_memo = [1, 2] \<rparr>"

theorem withdraw_call_faithful_witness:
  "let call = prepare_call (withdraw_call_type sample_circuits) (\<lambda>k. [9]) default_account Native 50
      sample_withdraw_extra
   in wdc_amount call = 50 \<and> wdc_token call = Native \<and> wdc_withdrawal_address call = 77 \<and>
      wdc_relayer_fee call = 3 \<and> wdc_proof call = [9]"
proof -
  have "c_field sample_circuits = Fr" by (simp add: sample_circuits_def fr_circuits_def)
  moreover have "\<And>k. c_withdraw sample_circuits k W_WithdrawalValue = wk_withdrawal_value k"
    by (simp add: sample_circuits_def fr_circuits_def)
  moreover have "unat (50 :: u256) < fr_modulus" by (simp add: fr_modulus_def)
  ultimately show ?thesis
    using withdraw_call_faithful [of sample_circuits 50 Native "\<lambda>k. [9]" default_account
        sample_withdraw_extra]
    by (simp add: Let_def sample_withdraw_extra_def)
qed

text \<open>
  Account creation and deposit announce the gross amount: the circuit sees the amount less the
  protocol fee, and the call restores the requested amount (when that net amount is below the field
  order), keeps the token, the memo and the generated proof.
\<close>

theorem deposit_calls_faithful:
  fixes C :: "fr circuits"
  assumes "c_field C = Fr" and "\<And>k. c_withdraw C k W_WithdrawalValue = wk_withdrawal_value k"
    and "unat (amount - dx_protocol_fee dx) < fr_modulus"
    and "nx_protocol_fee nx = dx_protocol_fee dx" and "tok \<noteq> ERC20 0"
  shows "dpc_amount (prepare_call (deposit_call_type C) dprove account tok amount dx) = amount \<and>
    dpc_token (prepare_call (deposit_call_type C) dprove account tok amount dx) = tok \<and>
    dpc_memo (prepare_call (deposit_call_type C) dprove account tok amount dx) = dx_memo dx \<and>
    nac_amount (prepare_call (new_account_call_type C) nprove account tok amount nx) = amount \<and>
    nac_token (prepare_call (new_account_call_type C) nprove account tok amount nx) = tok \<and>
    nac_memo (prepare_call (new_account_call_type C) nprove account tok amount nx) = nx_memo nx \<and>
    dk_deposit_value (deposit_prover_knowledge C account tok amount dx) =
      nk_initial_deposit (new_account_prover_knowledge C account tok amount nx)"
proof -
  note C = fr_circuits_cases [OF assms(1,2)]
  note d = deposit_ct.prepare_call_faithful
    [of amount dx tok "c_keccak C" "c_le_bits C" "c_new_account C" "c_deposit C" "c_withdraw C",
      unfolded C, OF assms(3,5)]
  have "unat (amount - nx_protocol_fee nx) < fr_modulus" using assms(3,4) by simp
  note n = new_account_ct.prepare_call_faithful
    [of amount nx tok "c_keccak C" "c_le_bits C" "c_new_account C" "c_deposit C" "c_withdraw C",
      unfolded C, OF this assms(5)]
  show ?thesis using d n assms(4)
    by (simp add: deposit_prover_knowledge_def new_account_prover_knowledge_def Let_def)
qed

theorem deposit_calls_faithful_witness:
  "dpc_amount (prepare_call (deposit_call_type sample_circuits) (\<lambda>k. []) default_account (ERC20 5) 60
     \<lparr> dx_merkle_path = [], dx_mac_salt = 0, dx_caller_address = 1, dx_protocol_fee = 2, dx_memo = [] \<rparr>) = 60"
proof -
  have a: "c_field sample_circuits = Fr" by (simp add: sample_circuits_def fr_circuits_def)
  have b: "\<And>k. c_withdraw sample_circuits k W_WithdrawalValue = wk_withdrawal_value k"
    by (simp add: sample_circuits_def fr_circuits_def)
  show ?thesis
    using deposit_calls_faithful [OF a b, of 60
        "\<lparr> dx_merkle_path = [], dx_mac_salt = 0, dx_caller_address = 1, dx_protocol_fee = 2, dx_memo = [] \<rparr>"
        "\<lparr> nx_anonymity_revoker_public_key = \<lparr> gp_x = 0, gp_y = 0 \<rparr>, nx_encryption_salt = 0, nx_mac_salt = 0,
           nx_caller_address = 1, nx_protocol_fee = 2, nx_memo = [] \<rparr>" "ERC20 5"]
    by (simp add: fr_modulus_def)
qed

text \<open>
  Consecutive actions chain inside the circuits: once an action is registered, the old nullifier
  proved by the next deposit or withdrawal is the new nullifier that the action itself proved,
  whichever kind it was.
\<close>

theorem circuit_nullifiers_chain:
  assumes "register_action account act = Ok account'"
  shows "dk_nullifier_old (deposit_prover_knowledge C account' tok' amount' dx') =
      dk_nullifier_new (deposit_prover_knowledge C account tok amount dx) \<and>
    dk_nullifier_old (deposit_prover_knowledge C account' tok' amount' dx') =
      wk_nullifier_new (withdraw_prover_knowledge C account tok amount wx) \<and>
    dk_nullifier_old (deposit_prover_knowledge C account' tok' amount' dx') =
      nk_nullifier (new_account_prover_knowledge C account tok amount nx) \<and>
    wk_nullifier_old (withdraw_prover_knowledge C account' tok' amount' wx') =
      dk_nullifier_old (deposit_prover_knowledge C account' tok' amount' dx')"
  using previous_after_register [OF assms, of "c_keccak C"]
  by (simp add: deposit_prover_knowledge_def withdraw_prover_knowledge_def
      new_account_prover_knowledge_def get_secrets_def Let_def)

theorem circuit_nullifiers_chain_witness:
  "\<exists>a'. register_action default_account (deposit_action 5 0 0 Native 0) = Ok a' \<and>
    wk_nullifier_old (withdraw_prover_knowledge sample_circuits a' Native 2 sample_withdraw_extra) =
    wk_nullifier_new (withdraw_prover_knowledge sample_circuits default_account Native 2 sample_withdraw_extra)"
proof -
  obtain a' where a': "register_action default_account (deposit_action 5 0 0 Native 0) = Ok a'"
    by (simp add: register_action_def default_account_def deposit_action_def action_token_def
        checked_add_def)
  then show ?thesis using circuit_nullifiers_chain [OF a'] by metis
qed

end
