(* ===== verification/MemoScan.thy ===== *)
theory MemoScan
  imports Contract "HOL-Library.Signed_Division"
begin

text \<open>
  The crate \<open>memo-scan\<close>: it finds the block in which the contract was deployed by bisection over the
  history of an archival node, and collects the memo of every Shielder event in a block range, one
  batch of blocks at a time. The node is a parameter; what it answers about a past block does not
  change, the current block number may (the code asks twice). \<open>i64\<close> values are integers whose
  additions and subtractions panic outside the range of the type. Error messages are kept without
  the numbers the code formats into them.
\<close>

lemma and_then_cong [fundef_cong]:
  "r = s \<Longrightarrow> (\<And>x. s = Ok x \<Longrightarrow> f x = g x) \<Longrightarrow> and_then r f = and_then s g"
  by (cases s) auto

section \<open>The node\<close>

record 'l topic_log = "'l chain_log" +
  log_block_number :: "u64 option"
  log_topic0 :: "hash32 option"

record event_signatures =
  sig_NewAccount :: hash32
  sig_Deposit :: hash32
  sig_Withdraw :: hash32

record 'l scan_node =
  sn_get_code_at :: "address \<Rightarrow> u64 \<Rightarrow> (bytes, string) result"
  sn_get_chain_id :: "(u64, string) result"
  sn_get_block_number :: "nat \<Rightarrow> (u64, string) result"
  sn_get_logs :: "address \<Rightarrow> u64 \<Rightarrow> u64 \<Rightarrow> ('l topic_log list, string) result"

section \<open>The deployment block\<close>

definition get_code_at_height ::
  "'l scan_node \<Rightarrow> address \<Rightarrow> u64 \<Rightarrow> (bytes option, string) result" where
  "get_code_at_height N a block_number =
     (case sn_get_code_at N a block_number of
        Ok code \<Rightarrow> if code = [] then Ok None else Ok (Some code)
      | Err e \<Rightarrow> if str_contains e ''missing trie node'' then Ok None
                 else Err (''Provider error: '' @ e)
      | Panic m \<Rightarrow> Panic m)"

definition archival_test_query :: "u64 \<Rightarrow> (address \<times> u64, string) result" where
  "archival_test_query chain_id =
     (if chain_id = 42161 then Ok (0xFd086bC7CD5C481DCC9C85ebE478A1C0b69FCbb9, 228105)
      else if chain_id = 1 then Ok (0xdAC17F958D2ee523a2206206994597C13D831ec7, 4634748)
      else if chain_id = 8453 then Ok (0x833589fCD6eDb6E08f4c7C32D4f71b54bdA02913, 2797221)
      else Err ''Unsupported chain ID for archival test query'')"

definition is_archival_node :: "'l scan_node \<Rightarrow> (bool, string) result" where
  "is_archival_node N =
     and_then (sn_get_chain_id N) (\<lambda>chain_id.
     and_then (archival_test_query chain_id) (\<lambda>(a, block_number).
     and_then (get_code_at_height N a block_number) (\<lambda>code. Ok (code \<noteq> None))))"

definition i64_range :: "int \<Rightarrow> (int, string) result" where
  "i64_range i = (if - (2 ^ 63) \<le> i \<and> i < 2 ^ 63 then Ok i
     else Panic ''attempt to add or subtract with overflow'')"

text \<open>The loop of the bisection, on \<open>i64\<close> bounds; \<open>/\<close> truncates towards zero.\<close>

lemma sdiv_two_bounds:
  fixes s :: int
  shows "s - 1 \<le> 2 * (s sdiv 2)" "2 * (s sdiv 2) \<le> s + 1"
  by (auto simp: signed_divide_int_def sgn_if abs_if; presburger)+

function bisect ::
  "(u64 \<Rightarrow> (bytes option, string) result) \<Rightarrow> int \<Rightarrow> int \<Rightarrow> (int, string) result" where
  "bisect code_at lo hi =
     and_then (i64_range (hi - lo)) (\<lambda>gap.
       if gap > 1 then
         and_then (i64_range (lo + hi)) (\<lambda>both.
           let mid = both sdiv 2
           in and_then (code_at (word_of_int mid)) (\<lambda>code_mid.
                if code_mid \<noteq> None then bisect code_at lo mid else bisect code_at mid hi))
       else Ok hi)"
  by pat_completeness auto

lemma i64_range_Ok [result_simps]:
  "i64_range i = Ok j \<longleftrightarrow> j = i \<and> - (2 ^ 63) \<le> i \<and> i < 2 ^ 63"
  by (auto simp: i64_range_def)

termination bisect
proof (relation "measure (\<lambda>(code_at, lo, hi). nat (hi - lo))")
  fix code_at :: "u64 \<Rightarrow> (bytes option, string) result" and lo hi gap both mid :: int
  assume "i64_range (hi - lo) = Ok gap" "1 < gap" "i64_range (lo + hi) = Ok both" "mid = both sdiv 2"
  then have "1 < hi - lo" "mid = (lo + hi) sdiv 2" by (auto simp: i64_range_Ok)
  then have "mid < hi" "lo < mid" using sdiv_two_bounds [of "lo + hi"] by linarith+
  then show "((code_at, lo, mid), code_at, lo, hi) \<in> measure (\<lambda>(code_at, lo, hi). nat (hi - lo))"
    "((code_at, mid, hi), code_at, lo, hi) \<in> measure (\<lambda>(code_at, lo, hi). nat (hi - lo))"
    by auto
qed simp

declare bisect.simps [simp del]

definition get_contract_deployment_block_num ::
  "'l scan_node \<Rightarrow> address \<Rightarrow> (u64, string) result" where
  "get_contract_deployment_block_num N contract_address =
     and_then (is_archival_node N) (\<lambda>archival.
       if \<not> archival then Err ''Provider is not an archival node. Cannot determine contract deployment block number.''
       else
         and_then (sn_get_block_number N 0) (\<lambda>block_number.
         and_then (get_code_at_height N contract_address block_number) (\<lambda>code_curr.
           if code_curr = None then Err ''Contract does not exist on chain''
           else and_then (bisect (get_code_at_height N contract_address) (- 1) (sint block_number))
                  (\<lambda>hi. Ok (word_of_int hi)))))"

section \<open>Referrals\<close>

definition BATCH_LENGTH :: u64 where
  "BATCH_LENGTH = 10000"

record referral =
  ref_block_number :: u64
  ref_transaction_hash :: hash32
  ref_memo :: bytes

text \<open>The memo of a log with one of the three signatures; a log of another kind has none.\<close>

definition log_memo ::
  "'l abi \<Rightarrow> event_signatures \<Rightarrow> 'l topic_log \<Rightarrow> (bytes option, string) result" where
  "log_memo D S log =
     (if log_topic0 log = Some (sig_NewAccount S) then
        and_then (ok_or (abi_NewAccount D (log_data log)) ''ABI decoding failed'') (\<lambda>e. Ok (Some (ena_memo e)))
      else if log_topic0 log = Some (sig_Deposit S) then
        and_then (ok_or (abi_Deposit D (log_data log)) ''ABI decoding failed'') (\<lambda>e. Ok (Some (ed_memo e)))
      else if log_topic0 log = Some (sig_Withdraw S) then
        and_then (ok_or (abi_Withdraw D (log_data log)) ''ABI decoding failed'') (\<lambda>e. Ok (Some (ew_memo e)))
      else Ok None)"

text \<open>The body of the loop over the logs of a batch.\<close>

definition scan_log ::
  "'l abi \<Rightarrow> event_signatures \<Rightarrow> 'l topic_log \<Rightarrow> referral list \<Rightarrow> (referral list, string) result" where
  "scan_log D S log referrals =
     and_then (ok_or (log_transaction_hash log) ''Missing transaction hash'') (\<lambda>tx_hash.
     and_then (ok_or (log_block_number log) ''Missing block number'') (\<lambda>block_number.
     and_then (log_memo D S log) (\<lambda>memo.
       case memo of
         Some m \<Rightarrow> Ok (referrals @
           [\<lparr> ref_block_number = block_number, ref_transaction_hash = tx_hash, ref_memo = m \<rparr>])
       | None \<Rightarrow> Ok referrals)))"

text \<open>The loop over the batches.\<close>

function find_referrals_loop ::
  "'l abi \<Rightarrow> event_signatures \<Rightarrow> 'l scan_node \<Rightarrow> address \<Rightarrow> u64 \<Rightarrow> u64 \<Rightarrow> referral list
     \<Rightarrow> (referral list, string) result" where
  "find_referrals_loop D S N contract_address next_block_to_process stop_block referrals =
     (if next_block_to_process \<le> stop_block then
        and_then (expect (checked_add next_block_to_process BATCH_LENGTH) ''attempt to add with overflow'')
          (\<lambda>batch_end.
           let end_block = min batch_end stop_block
           in and_then (sn_get_logs N contract_address next_block_to_process end_block) (\<lambda>raw_logs.
              and_then (try_fold (scan_log D S) raw_logs referrals) (\<lambda>referrals'.
              and_then (expect (checked_add end_block 1) ''attempt to add with overflow'') (\<lambda>next_block.
                find_referrals_loop D S N contract_address next_block stop_block referrals'))))
      else Ok referrals)"
  by pat_completeness auto

lemma batch_step:
  assumes "start \<le> stop" "checked_add start len = Some e" "checked_add (min e stop) 1 = Some (start' :: u64)"
  shows "unat start < unat start'" "unat start' \<le> Suc (unat stop)"
    "unat start' = Suc (min (unat start + unat len) (unat stop))"
proof -
  from checked_add_SomeD [OF assms(2)] have e: "unat e = unat start + unat len" .
  then have m: "unat (min e stop) = min (unat start + unat len) (unat stop)"
    by (simp add: min_def word_le_nat_alt)
  with checked_add_SomeD [OF assms(3)]
  show next_eq: "unat start' = Suc (min (unat start + unat len) (unat stop))" by simp
  from assms(1) have "unat start \<le> unat stop" by (simp add: word_le_nat_alt)
  then show "unat start < unat start'" "unat start' \<le> Suc (unat stop)" by (auto simp: next_eq)
qed

termination find_referrals_loop
proof (relation "measure (\<lambda>(D, S, N, a, start, stop, acc). Suc (unat stop) - unat start)", goal_cases)
  case 1
  then show ?case by simp
next
  case (2 D S N a start stop acc e endb raw acc' nxt)
  then have "unat start < unat nxt" "unat nxt \<le> Suc (unat stop)"
    using batch_step(1,2) [of start stop BATCH_LENGTH e nxt] by (auto simp: result_simps)
  then show ?case by auto
qed

declare find_referrals_loop.simps [simp del]

definition find_referrals ::
  "'l abi \<Rightarrow> event_signatures \<Rightarrow> 'l scan_node \<Rightarrow> address \<Rightarrow> u64 \<Rightarrow> u64 \<Rightarrow> (referral list, string) result"
  where
  "find_referrals D S N contract_address start_block stop_block =
     find_referrals_loop D S N contract_address start_block stop_block []"

definition scan_blocks ::
  "'l abi \<Rightarrow> event_signatures \<Rightarrow> 'l scan_node \<Rightarrow> address \<Rightarrow> u64 option \<Rightarrow> u64 option
     \<Rightarrow> (referral list, string) result" where
  "scan_blocks D S N contract_address start_block stop_block =
     and_then (get_contract_deployment_block_num N contract_address) (\<lambda>deployment_block_num.
     and_then (sn_get_block_number N 1) (\<lambda>current_num.
     and_then (case start_block of
         Some num \<Rightarrow> if num < deployment_block_num
           then Err ''Start block is before contract deployment'' else Ok num
       | None \<Rightarrow> Ok deployment_block_num) (\<lambda>start_block.
     and_then (case stop_block of
         Some num \<Rightarrow> if num > current_num
           then Err ''Stop block is after current block'' else Ok num
       | None \<Rightarrow> Ok current_num) (\<lambda>stop_block.
     find_referrals D S N contract_address start_block stop_block))))"

section \<open>Correctness of the bisection\<close>

text \<open>One turn of the loop, with the overflow checks discharged.\<close>

lemma bisect_step:
  assumes "- 1 \<le> lo" "lo < hi" "hi \<le> 2 ^ 62"
  shows "bisect code_at lo hi =
     (if hi - lo > 1 then
        and_then (code_at (word_of_int ((lo + hi) sdiv 2))) (\<lambda>code_mid.
          if code_mid \<noteq> None then bisect code_at lo ((lo + hi) sdiv 2)
          else bisect code_at ((lo + hi) sdiv 2) hi)
      else Ok hi)"
proof -
  have "i64_range (hi - lo) = Ok (hi - lo)" "i64_range (lo + hi) = Ok (lo + hi)"
    using assms by (auto simp: i64_range_Ok)
  then show ?thesis by (subst bisect.simps) (simp add: Let_def)
qed

text \<open>
  The invariant of the loop: there is code at the upper bound and none at the lower one. When the
  node answers every question below the upper bound, the loop ends with two neighbouring blocks.
\<close>

lemma bisect_boundary:
  assumes "- 1 \<le> lo" "lo < hi" "hi \<le> 2 ^ 62"
    and "\<And>i. lo < i \<Longrightarrow> i < hi \<Longrightarrow> \<exists>c. code_at (word_of_int i) = Ok c"
    and "\<exists>c. code_at (word_of_int hi) = Ok (Some c)"
    and "lo = - 1 \<or> code_at (word_of_int lo) = Ok None"
  shows "\<exists>h. bisect code_at lo hi = Ok h \<and> lo < h \<and> h \<le> hi \<and>
     (\<exists>c. code_at (word_of_int h) = Ok (Some c)) \<and>
     (h = 0 \<or> code_at (word_of_int (h - 1)) = Ok None)"
  using assms
proof (induction "nat (hi - lo)" arbitrary: lo hi rule: less_induct)
  case less
  show ?case
  proof (cases "hi - lo > 1")
    case False
    with less.prems(2) have "lo = hi - 1" by simp
    with False less.prems show ?thesis by (auto simp: bisect_step)
  next
    case True
    define mid where "mid = (lo + hi) sdiv 2"
    have mid: "lo < mid" "mid < hi"
      using True sdiv_two_bounds [of "lo + hi"] unfolding mid_def by linarith+
    then obtain c where c: "code_at (word_of_int mid) = Ok c" using less.prems(4) by blast
    show ?thesis
    proof (cases c)
      case None
      with c True have step: "bisect code_at lo hi = bisect code_at mid hi"
        using less.prems(1-3) by (simp add: bisect_step [of lo hi] flip: mid_def)
      have "\<exists>h. bisect code_at mid hi = Ok h \<and> mid < h \<and> h \<le> hi \<and>
          (\<exists>c. code_at (word_of_int h) = Ok (Some c)) \<and>
          (h = 0 \<or> code_at (word_of_int (h - 1)) = Ok None)"
        by (rule less.hyps) (use mid less.prems c None in auto)
      with step mid show ?thesis by auto
    next
      case (Some code)
      with c True have step: "bisect code_at lo hi = bisect code_at lo mid"
        using less.prems(1-3) by (simp add: bisect_step [of lo hi] flip: mid_def)
      have "\<exists>h. bisect code_at lo mid = Ok h \<and> lo < h \<and> h \<le> mid \<and>
          (\<exists>c. code_at (word_of_int h) = Ok (Some c)) \<and>
          (h = 0 \<or> code_at (word_of_int (h - 1)) = Ok None)"
        by (rule less.hyps) (use mid less.prems c Some in auto)
      with step mid show ?thesis by auto
    qed
  qed
qed

lemma sint_small:
  assumes "uint (n :: u64) \<le> 2 ^ 62"
  shows "sint n = uint n"
proof -
  have "signed_take_bit 63 (uint n) = uint n"
    by (rule signed_take_bit_int_eq_self) (use assms in \<open>auto intro: order_trans [of _ 0]\<close>)
  then show ?thesis by (simp add: sint_uint)
qed

lemma uint_word_of_int_below:
  fixes n :: "'a::len word"
  assumes "0 \<le> i" "i \<le> uint n"
  shows "uint (word_of_int i :: 'a word) = i"
proof -
  from assms(2) uint_lt2p [of n] have "i < 2 ^ LENGTH('a)" by (rule le_less_trans)
  with assms(1) show ?thesis by (simp add: uint_word_of_int)
qed

text \<open>
  C29. The deployment block. Let an archival node report block \<open>n\<close> (at most \<open>2 ^ 62\<close>, so that the
  \<open>i64\<close> bounds cannot overflow), answer every question about the contract's code up to \<open>n\<close>, and have
  code at \<open>n\<close>. Then the search returns, with a block \<open>h \<le> n\<close> that has code and whose predecessor, if
  any, has none; and when code never disappears once it is there, no block before \<open>h\<close> has code.
\<close>

theorem deployment_block_found:
  assumes "is_archival_node N = Ok True"
    and "sn_get_block_number N 0 = Ok n" and n: "uint n \<le> 2 ^ 62"
    and "\<forall>b \<le> n. \<exists>c. get_code_at_height N a b = Ok c"
    and "get_code_at_height N a n \<noteq> Ok None"
  shows "\<exists>h. get_contract_deployment_block_num N a = Ok h \<and> h \<le> n \<and>
     get_code_at_height N a h \<noteq> Ok None \<and>
     (h = 0 \<or> get_code_at_height N a (h - 1) = Ok None) \<and>
     ((\<forall>b b'. b \<le> b' \<longrightarrow> b' \<le> n \<longrightarrow> get_code_at_height N a b \<noteq> Ok None \<longrightarrow>
         get_code_at_height N a b' \<noteq> Ok None) \<longrightarrow>
      (\<forall>b < h. get_code_at_height N a b = Ok None))"
proof -
  let ?code = "get_code_at_height N a"
  from assms(4,5) obtain c where c: "?code n = Ok (Some c)" by (metis not_None_eq order_refl)
  have "\<exists>i. bisect ?code (- 1) (uint n) = Ok i \<and> - 1 < i \<and> i \<le> uint n \<and>
     (\<exists>c. ?code (word_of_int i) = Ok (Some c)) \<and> (i = 0 \<or> ?code (word_of_int (i - 1)) = Ok None)"
  proof (rule bisect_boundary)
    fix i assume "- 1 < i" "i < uint n"
    then have "word_of_int i \<le> n" using uint_word_of_int_below [of i n] by (simp add: word_le_def)
    with assms(4) show "\<exists>c. ?code (word_of_int i) = Ok c" by blast
  qed (use n c in \<open>auto intro: less_le_trans [of _ 0]\<close>)
  then obtain i where i: "bisect ?code (- 1) (uint n) = Ok i" "0 \<le> i" "i \<le> uint n"
    "\<exists>c. ?code (word_of_int i) = Ok (Some c)" "i = 0 \<or> ?code (word_of_int (i - 1)) = Ok None" by auto
  define h :: u64 where "h = word_of_int i"
  have h: "uint h = i" unfolding h_def using i(2,3) by (rule uint_word_of_int_below)
  then have "h \<le> n" using i(3) by (simp add: word_le_def)
  have found: "get_contract_deployment_block_num N a = Ok h"
    using assms(1,2) c i(1) n
    by (simp add: get_contract_deployment_block_num_def sint_small h_def)
  have code_h: "?code h \<noteq> Ok None" and before: "h = 0 \<or> ?code (h - 1) = Ok None"
    using i(4,5) by (auto simp: h_def)
  have "?code b = Ok None"
    if mono: "\<forall>b b'. b \<le> b' \<longrightarrow> b' \<le> n \<longrightarrow> ?code b \<noteq> Ok None \<longrightarrow> ?code b' \<noteq> Ok None" and "b < h" for b
  proof -
    from \<open>b < h\<close> have "h \<noteq> 0" by auto
    with \<open>b < h\<close> \<open>h \<le> n\<close> have "b \<le> h - 1" "h - 1 \<le> n"
      by (auto simp: word_le_nat_alt word_less_nat_alt unat_minus_one)
    with before mono \<open>h \<noteq> 0\<close> show ?thesis by metis
  qed
  with found \<open>h \<le> n\<close> code_h before show ?thesis by blast
qed


definition referred_deposit :: deposit_event where
  "referred_deposit = \<lparr> ed_contractVersion = (0, 0, 1), ed_tokenAddress = 0, ed_amount = 10,
     ed_newNote = 1, ed_newNoteIndex = 2, ed_macSalt = 3, ed_macCommitment = 4, ed_protocolFee = 0,
     ed_memo = [0x72, 0x31] \<rparr>"

definition scan_abi :: "unit abi" where
  "scan_abi = \<lparr> abi_newAccountNative = (\<lambda>_. None), abi_newAccountERC20 = (\<lambda>_. None),
     abi_depositNative = (\<lambda>_. None), abi_depositERC20 = (\<lambda>_. None),
     abi_withdrawNative = (\<lambda>_. None), abi_withdrawERC20 = (\<lambda>_. None),
     abi_NewAccount = (\<lambda>_. None), abi_Deposit = (\<lambda>_. Some referred_deposit),
     abi_Withdraw = (\<lambda>_. None) \<rparr>"

definition sample_signatures :: event_signatures where
  "sample_signatures = \<lparr> sig_NewAccount = 101, sig_Deposit = 102, sig_Withdraw = 103 \<rparr>"

definition sample_chain :: "nat \<Rightarrow> unit topic_log list" where
  "sample_chain b =
     (if b = 9 then [\<lparr> log_transaction_hash = Some 55, log_data = (), log_block_number = Some 9,
        log_topic0 = Some 102 \<rparr>] else [])"

definition sample_scan_node :: "unit scan_node" where
  "sample_scan_node = \<lparr>
     sn_get_code_at = (\<lambda>a b. if b < 7 then Err ''missing trie node 7f'' else Ok [0x60]),
     sn_get_chain_id = Ok 1,
     sn_get_block_number = (\<lambda>n. Ok (20 + of_nat n)),
     sn_get_logs = (\<lambda>a f t. Ok (concat (map sample_chain [unat f ..< Suc (unat t)]))) \<rparr>"

lemma sample_code:
  "get_code_at_height sample_scan_node a b = Ok (if b < 7 then None else Some [0x60])"
  by (auto simp: get_code_at_height_def sample_scan_node_def)

theorem deployment_block_found_witness:
  "get_contract_deployment_block_num sample_scan_node 5 = Ok 7"
proof -
  have "is_archival_node sample_scan_node = Ok True"
    by (simp add: is_archival_node_def sample_code archival_test_query_def)
       (simp add: sample_scan_node_def)
  moreover have "sn_get_block_number sample_scan_node 0 = Ok 20"
    by (simp add: sample_scan_node_def)
  ultimately obtain h where h: "get_contract_deployment_block_num sample_scan_node 5 = Ok h"
    "\<not> h < 7" "h = 0 \<or> h - 1 < 7"
    using deployment_block_found [of sample_scan_node 20 5]
    by (auto simp: sample_code split: if_splits)
  from h(2,3) have "h = 7" by unat_arith
  with h(1) show ?thesis by simp
qed

section \<open>Correctness of the scan\<close>

text \<open>
  The node serves the history \<open>chain\<close> (the contract's logs of every block): a query returns the logs
  of the blocks of its inclusive range, in order.
\<close>

definition serves_logs :: "'l scan_node \<Rightarrow> address \<Rightarrow> (nat \<Rightarrow> 'l topic_log list) \<Rightarrow> bool" where
  "serves_logs N a chain \<longleftrightarrow>
     (\<forall>f t. sn_get_logs N a f t = Ok (concat (map chain [unat f ..< Suc (unat t)])))"

text \<open>One pass over a range of blocks, without batches.\<close>

definition scan_range ::
  "'l abi \<Rightarrow> event_signatures \<Rightarrow> (nat \<Rightarrow> 'l topic_log list) \<Rightarrow> nat \<Rightarrow> nat \<Rightarrow> referral list
     \<Rightarrow> (referral list, string) result" where
  "scan_range D S chain start stop =
     try_fold (scan_log D S) (concat (map chain [start ..< Suc stop]))"

lemma scan_range_split:
  assumes "start \<le> Suc mid" "mid \<le> stop"
  shows "scan_range D S chain start stop referrals =
     and_then (scan_range D S chain start mid referrals) (scan_range D S chain (Suc mid) stop)"
proof -
  have "[start ..< Suc stop] = [start ..< Suc mid] @ [Suc mid ..< Suc stop]"
    using assms by (metis Suc_le_mono le_add_diff_inverse upt_add_eq_append)
  then show ?thesis by (simp add: scan_range_def try_fold_append del: upt_Suc)
qed

lemma find_referrals_loop_scan_range:
  assumes "serves_logs N a chain" and "unat stop + 10000 < 2 ^ 64"
  shows "find_referrals_loop D S N a start stop referrals =
     scan_range D S chain (unat start) (unat stop) referrals"
  using assms(2)
proof (induction "Suc (unat stop) - unat start" arbitrary: start referrals rule: less_induct)
  case less
  show ?case
  proof (cases "start \<le> stop")
    case False
    then have "unat stop < unat start" by (simp add: word_le_nat_alt)
    then show ?thesis using False by (simp add: find_referrals_loop.simps scan_range_def)
  next
    case True
    then have le: "unat start \<le> unat stop" by (simp add: word_le_nat_alt)
    then obtain e where e: "checked_add start BATCH_LENGTH = Some e"
      using less.prems by (auto simp: checked_add_def BATCH_LENGTH_def)
    have "unat (min e stop) \<le> unat stop" by (simp add: min_def word_le_nat_alt)
    then obtain nxt where nxt: "checked_add (min e stop) 1 = Some nxt"
      using less.prems by (auto simp: checked_add_def)
    from batch_step(1,2) [OF True e nxt] have bounds: "unat start < unat nxt" "unat nxt \<le> Suc (unat stop)" .
    have mid: "unat nxt = Suc (unat (min e stop))" using checked_add_SomeD [OF nxt] by simp
    have logs: "sn_get_logs N a start (min e stop) =
        Ok (concat (map chain [unat start ..< Suc (unat (min e stop))]))"
      using assms(1) by (simp add: serves_logs_def del: upt_Suc)
    have "find_referrals_loop D S N a start stop referrals =
        and_then (scan_range D S chain (unat start) (unat (min e stop)) referrals)
          (find_referrals_loop D S N a nxt stop)"
      using True by (simp add: find_referrals_loop.simps [of D S N a start] e nxt logs
          Let_def scan_range_def del: upt_Suc)
    also have "find_referrals_loop D S N a nxt stop = scan_range D S chain (unat nxt) (unat stop)"
      using less bounds by (intro ext less.hyps) auto
    also have "and_then (scan_range D S chain (unat start) (unat (min e stop)) referrals) \<dots> =
        scan_range D S chain (unat start) (unat stop) referrals"
      unfolding mid using bounds mid by (intro scan_range_split [symmetric]) auto
    finally show ?thesis .
  qed
qed


text \<open>
  On logs that carry a transaction hash, a block number and data that decodes, the pass returns one
  referral for each log with a memo, in the order of the logs.
\<close>

definition log_referral :: "'l abi \<Rightarrow> event_signatures \<Rightarrow> 'l topic_log \<Rightarrow> referral option" where
  "log_referral D S log =
     (case log_memo D S log of
        Ok (Some m) \<Rightarrow> Some \<lparr> ref_block_number = the (log_block_number log),
          ref_transaction_hash = the (log_transaction_hash log), ref_memo = m \<rparr>
      | _ \<Rightarrow> None)"

definition well_formed_log :: "'l abi \<Rightarrow> event_signatures \<Rightarrow> 'l topic_log \<Rightarrow> bool" where
  "well_formed_log D S log \<longleftrightarrow>
     log_transaction_hash log \<noteq> None \<and> log_block_number log \<noteq> None \<and> is_ok (log_memo D S log)"

lemma scan_logs_well_formed:
  "\<forall>log \<in> set logs. well_formed_log D S log \<Longrightarrow>
   try_fold (scan_log D S) logs referrals = Ok (referrals @ List.map_filter (log_referral D S) logs)"
proof (induction logs arbitrary: referrals)
  case Nil
  then show ?case by simp
next
  case (Cons log logs)
  then obtain h b m where "log_transaction_hash log = Some h" "log_block_number log = Some b"
    "log_memo D S log = Ok m" by (auto simp: well_formed_log_def result_simps)
  then have "scan_log D S log referrals = Ok (referrals @ (case log_referral D S log of Some r \<Rightarrow> [r] | None \<Rightarrow> []))"
    by (auto simp: scan_log_def log_referral_def split: option.splits)
  with Cons show ?case by (auto simp: map_filter_simps split: option.splits)
qed

text \<open>
  C30. The scan is complete and free of duplicates. When the node serves the contract's logs, scanning
  in batches equals one pass over the whole range, errors included: no block is skipped at a batch
  boundary and none is read twice. The range is the given one, or runs from the deployment block to
  the current block; a start before the deployment and a stop after the current block are refused.
  On well-formed logs the result is exactly the list of referrals of the logs in range.
\<close>

theorem scan_blocks_complete:
  fixes N :: "'l scan_node" and start_block stop_block :: "u64 option"
  assumes "get_contract_deployment_block_num N a = Ok deployed"
    and "sn_get_block_number N 1 = Ok current" and "unat current + 10000 < 2 ^ 64"
    and "serves_logs N a chain"
  defines "from_block \<equiv> case start_block of Some b \<Rightarrow> b | None \<Rightarrow> deployed"
    and "to_block \<equiv> case stop_block of Some b \<Rightarrow> b | None \<Rightarrow> current"
  defines "logs \<equiv> concat (map chain [unat from_block ..< Suc (unat to_block)])"
  shows "scan_blocks D S N a start_block stop_block =
     (if from_block < deployed then Err ''Start block is before contract deployment''
      else if current < to_block then Err ''Stop block is after current block''
      else try_fold (scan_log D S) logs []) \<and>
   (deployed \<le> from_block \<longrightarrow> to_block \<le> current \<longrightarrow> (\<forall>log \<in> set logs. well_formed_log D S log) \<longrightarrow>
    scan_blocks D S N a start_block stop_block = Ok (List.map_filter (log_referral D S) logs))"
proof -
  have "find_referrals D S N a from_block to_block = try_fold (scan_log D S) logs []"
    if "to_block \<le> current"
  proof -
    from that assms(3) have "unat to_block + 10000 < 2 ^ 64" by (simp add: word_le_nat_alt)
    with assms(4) show ?thesis
      by (simp add: find_referrals_def find_referrals_loop_scan_range scan_range_def logs_def del: upt_Suc)
  qed
  then have eq: "scan_blocks D S N a start_block stop_block =
     (if from_block < deployed then Err ''Start block is before contract deployment''
      else if current < to_block then Err ''Stop block is after current block''
      else try_fold (scan_log D S) logs [])"
    using assms(1,2) unfolding from_block_def to_block_def
    by (auto simp: scan_blocks_def not_less split: option.splits)
  then show ?thesis by (auto simp: scan_logs_well_formed not_less)
qed

lemma sample_deployment: "get_contract_deployment_block_num sample_scan_node 5 = Ok 7"
  by code_simp

theorem scan_blocks_complete_witness:
  "scan_blocks scan_abi sample_signatures sample_scan_node 5 (Some 3) None =
     Err ''Start block is before contract deployment'' \<and>
   scan_blocks scan_abi sample_signatures sample_scan_node 5 None (Some 22) =
     Err ''Stop block is after current block'' \<and>
   scan_blocks scan_abi sample_signatures sample_scan_node 5 None None =
     Ok [\<lparr> ref_block_number = 9, ref_transaction_hash = 55, ref_memo = [0x72, 0x31] \<rparr>]"
proof -
  have "serves_logs sample_scan_node 5 sample_chain"
    by (simp add: serves_logs_def sample_scan_node_def)
  moreover have "sn_get_block_number sample_scan_node 1 = Ok 21" by (simp add: sample_scan_node_def)
  moreover have "try_fold (scan_log scan_abi sample_signatures)
      (concat (map sample_chain [unat (7 :: u64) ..< Suc (unat (21 :: u64))])) [] =
      Ok [\<lparr> ref_block_number = 9, ref_transaction_hash = 55, ref_memo = [0x72, 0x31] \<rparr>]"
    by code_simp
  ultimately show ?thesis using sample_deployment
    scan_blocks_complete [of sample_scan_node 5 7 21 sample_chain scan_abi sample_signatures "Some 3" None]
    scan_blocks_complete [of sample_scan_node 5 7 21 sample_chain scan_abi sample_signatures None "Some 22"]
    scan_blocks_complete [of sample_scan_node 5 7 21 sample_chain scan_abi sample_signatures None None]
    by (simp del: upt_Suc)
qed

end
