(* ===== verification/ArCli.thy ===== *)
theory ArCli
  imports CallData MemoScan
begin

text \<open>
  The crate \<open>ar-cli\<close>, the tool of the anonymity revoker: it indexes the Shielder events of the chain
  and the viewing keys encrypted in new-account calls into a local database, matches events with keys
  (\<open>revoke\<close>) and lists the events of one account (\<open>reveal\<close>).

  The database is explicit state: a table is \<open>None\<close> until it is created, and every SQL statement of
  \<open>db.rs\<close> is a function on tables with the meaning of its text (\<open>REPLACE\<close> deletes the row with the
  same primary key). Every statement commits on its own, so an operation that fails keeps what it has
  written: an operation returns its outcome together with the database. A query without an order yields
  the rows as they were last written, which is what SQLite's storage by row number does although SQL does
  not promise it. Failures of the storage itself are not modelled. The node, the ABI decoders, the Grumpkin curve and Poseidon come from
  other packages and are parameters.
\<close>

section \<open>Errors and data\<close>

datatype rpc_error = HttpError bool string | OtherRpc string

datatype ar_error =
    ContractErr contract_error
  | Rpc rpc_error
  | ARKeyRead string
  | NotAGrumpkinBaseFieldElement
  | Db string
  | EventLog
  | MissingData
  | FieldConversion string
  | DeserializePubKey
  | PubkeyNotOnCurve
  | Mnemonic string

record event_row =
  ev_tx_hash :: bytes
  ev_block_number :: u64
  ev_mac_salt :: bytes
  ev_mac_commitment :: bytes
  ev_viewing_key :: "bytes option"

record ar_db =
  db_events :: "event_row list option"
  db_checkpoints :: "string \<rightharpoonup> u64 option"
  db_viewing_keys :: "bytes list option"

definition db_empty :: ar_db where
  "db_empty = \<lparr> db_events = None, db_checkpoints = Map.empty, db_viewing_keys = None \<rparr>"

type_synonym 'a db_op = "ar_db \<Rightarrow> ('a, ar_error) result \<times> ar_db"

text \<open>The \<open>?\<close> operator and the \<open>for\<close> loop over operations on the database.\<close>

definition db_lift :: "('a, ar_error) result \<Rightarrow> 'a db_op" where
  "db_lift r d = (r, d)"

definition db_then :: "'a db_op \<Rightarrow> ('a \<Rightarrow> 'b db_op) \<Rightarrow> 'b db_op" where
  "db_then m f d =
     (case m d of
        (Ok x, d') \<Rightarrow> f x d'
      | (Err e, d') \<Rightarrow> (Err e, d')
      | (Panic p, d') \<Rightarrow> (Panic p, d'))"

fun db_for :: "('x \<Rightarrow> unit db_op) \<Rightarrow> 'x list \<Rightarrow> unit db_op" where
  "db_for f [] = db_lift (Ok ())"
| "db_for f (x # xs) = db_then (f x) (\<lambda>_. db_for f xs)"

lemma db_then_lift [simp]: "db_then (db_lift (Ok x)) f = f x"
  "db_then (db_lift (Err e)) f = db_lift (Err e)"
  "db_then (db_lift (Panic p)) f = db_lift (Panic p)"
  by (simp_all add: db_then_def db_lift_def fun_eq_iff)

lemma db_then_Ok: "m d = (Ok x, d') \<Longrightarrow> db_then m f d = f x d'"
  by (simp add: db_then_def)

lemma db_for_append: "db_for f (xs @ ys) = db_then (db_for f xs) (\<lambda>_. db_for f ys)"
  by (induction xs) (auto simp: fun_eq_iff db_then_def split: prod.splits result.splits)

section \<open>The statements of the database\<close>

text \<open>A \<open>u64\<close> is stored as a signed 64-bit integer; a larger one is refused when it is bound.\<close>

definition to_sql :: "u64 \<Rightarrow> (unit, ar_error) result" where
  "to_sql n = (if n < 2 ^ 63 then Ok () else Err (Db ''ToSqlConversionFailure''))"

definition create_events_table :: "unit db_op" where
  "create_events_table d =
     (Ok (), d\<lparr> db_events := Some (case db_events d of Some t \<Rightarrow> t | None \<Rightarrow> []) \<rparr>)"

definition upsert_event :: "event_row \<Rightarrow> unit db_op" where
  "upsert_event event d =
     (case db_events d of
        None \<Rightarrow> (Err (Db ''no such table: events''), d)
      | Some t \<Rightarrow>
          (case to_sql (ev_block_number event) of
             Ok _ \<Rightarrow> (Ok (), d\<lparr> db_events :=
               Some (filter (\<lambda>r. ev_tx_hash r \<noteq> ev_tx_hash event) t @ [event]) \<rparr>)
           | r \<Rightarrow> (r, d)))"

definition query_event :: "bytes \<Rightarrow> event_row db_op" where
  "query_event tx_hash d =
     (case db_events d of
        None \<Rightarrow> (Err (Db ''no such table: events''), d)
      | Some t \<Rightarrow> (ok_or (find (\<lambda>r. ev_tx_hash r = tx_hash) t) (Db ''Query returned no rows''), d))"

definition query_events :: "bytes option \<Rightarrow> event_row list db_op" where
  "query_events viewing_key d =
     (case db_events d of
        None \<Rightarrow> (Err (Db ''no such table: events''), d)
      | Some t \<Rightarrow>
          (case viewing_key of
             Some key \<Rightarrow> (Ok (filter (\<lambda>r. ev_viewing_key r = Some key) t), d)
           | None \<Rightarrow> (Ok t, d)))"

definition create_checkpoint_table :: "string \<Rightarrow> unit db_op" where
  "create_checkpoint_table table d =
     (Ok (), if db_checkpoints d table = None
             then d\<lparr> db_checkpoints := (db_checkpoints d)(table \<mapsto> None) \<rparr> else d)"

definition update_checkpoint :: "string \<Rightarrow> u64 \<Rightarrow> unit db_op" where
  "update_checkpoint table last_block_number d =
     (case db_checkpoints d table of
        None \<Rightarrow> (Err (Db ''no such table''), d)
      | Some _ \<Rightarrow>
          (case to_sql last_block_number of
             Ok _ \<Rightarrow> (Ok (), d\<lparr> db_checkpoints := (db_checkpoints d)(table \<mapsto> Some last_block_number) \<rparr>)
           | r \<Rightarrow> (r, d)))"

definition query_checkpoint :: "string \<Rightarrow> u64 db_op" where
  "query_checkpoint table d =
     (case db_checkpoints d table of
        None \<Rightarrow> (Err (Db ''no such table''), d)
      | Some None \<Rightarrow> (Ok 0, d)
      | Some (Some n) \<Rightarrow> (Ok n, d))"

definition create_viewing_keys_table :: "unit db_op" where
  "create_viewing_keys_table d =
     (Ok (), d\<lparr> db_viewing_keys := Some (case db_viewing_keys d of Some t \<Rightarrow> t | None \<Rightarrow> []) \<rparr>)"

definition upsert_viewing_key :: "bytes \<Rightarrow> unit db_op" where
  "upsert_viewing_key viewing_key d =
     (case db_viewing_keys d of
        None \<Rightarrow> (Err (Db ''no such table: viewing_keys''), d)
      | Some t \<Rightarrow> (Ok (), d\<lparr> db_viewing_keys := Some (filter (\<lambda>k. k \<noteq> viewing_key) t @ [viewing_key]) \<rparr>))"

definition query_viewing_keys :: "bytes list db_op" where
  "query_viewing_keys d =
     (case db_viewing_keys d of
        None \<Rightarrow> (Err (Db ''no such table: viewing_keys''), d)
      | Some t \<Rightarrow> (Ok t, d))"

section \<open>Keys\<close>

text \<open>What the circuits package provides: field arithmetic, points, decryption and Poseidon.\<close>

record ('f, 's, 'p) curve_api =
  cv_mul :: "'f \<Rightarrow> 'f \<Rightarrow> 'f"
  cv_sub :: "'f \<Rightarrow> 'f \<Rightarrow> 'f"
  cv_from :: "u64 \<Rightarrow> 'f"
  cv_to_affine :: "'p \<Rightarrow> 'f grumpkin_point"
  cv_of_affine :: "'f grumpkin_point \<Rightarrow> 'p"
  cv_scalar_from_bytes :: "bytes \<Rightarrow> 's option"
  cv_decrypt :: "'p \<Rightarrow> 'p \<Rightarrow> 's \<Rightarrow> 'p"
  cv_hash :: "'f list \<Rightarrow> 'f"

definition bytes32_to_field :: "'f field_api \<Rightarrow> bytes \<Rightarrow> ('f, ar_error) result" where
  "bytes32_to_field FF bs = ok_or (ff_from_repr FF bs) (FieldConversion ''Failed to convert to Fr'')"

definition blob_to_field :: "'f field_api \<Rightarrow> bytes \<Rightarrow> ('f, ar_error) result" where
  "blob_to_field FF blob =
     (if length blob \<noteq> 32 then Err (FieldConversion ''Expected 32 bytes'')
      else bytes32_to_field FF blob)"

definition serialize_pub_key :: "'f field_api \<Rightarrow> ('f, 's, 'p) curve_api \<Rightarrow> 'p \<Rightarrow> bytes" where
  "serialize_pub_key FF C pubkey =
     (let P = cv_to_affine C pubkey
      in to_bytes_be FF (gp_x P) @ to_bytes_be FF (gp_y P))"

definition deserialize_pub_key ::
  "'f field_api \<Rightarrow> ('f, 's, 'p) curve_api \<Rightarrow> bytes \<Rightarrow> ('p, ar_error) result" where
  "deserialize_pub_key FF C bs =
     (if length bs \<noteq> 64 then Err DeserializePubKey
      else
        and_then (blob_to_field FF (rev (take 32 bs))) (\<lambda>x.
        and_then (blob_to_field FF (rev (take 32 (drop 32 bs)))) (\<lambda>y.
          if cv_mul C y y \<noteq> cv_sub C (cv_mul C (cv_mul C x x) x) (cv_from C 17)
          then Err PubkeyNotOnCurve
          else Ok (cv_of_affine C \<lparr> gp_x = x, gp_y = y \<rparr>))))"

section \<open>Indexing events\<close>

record ar_tx =
  at_to :: "address option"
  at_input :: bytes

record 'l ar_node =
  an_connect :: "(unit, ar_error) result"
  an_get_block_number :: "(u64, rpc_error) result"
  an_get_logs :: "address \<Rightarrow> u64 \<Rightarrow> u64 \<Rightarrow> ('l topic_log list, rpc_error) result"
  an_get_block_by_number :: "u64 \<Rightarrow> (ar_tx list option option, rpc_error) result"

definition EVENTS_TABLE :: string where
  "EVENTS_TABLE = ''last_events_block''"

fun event_mac :: "shielder_contract_event \<Rightarrow> u256 \<times> u256" where
  "event_mac (NewAccountEvent e) = (ena_macSalt e, ena_macCommitment e)"
| "event_mac (DepositEvent e) = (ed_macSalt e, ed_macCommitment e)"
| "event_mac (WithdrawEvent e) = (ew_macSalt e, ew_macCommitment e)"

definition event_to_row ::
  "'f field_api \<Rightarrow> shielder_contract_event \<Rightarrow> hash32 \<Rightarrow> u64 \<Rightarrow> event_row" where
  "event_to_row FF event tx_hash block_number =
     (case event_mac event of (mac_salt, mac_commitment) \<Rightarrow>
        \<lparr> ev_tx_hash = to_be_bytes 32 tx_hash,
          ev_block_number = block_number,
          ev_mac_salt = field_to_bytes FF (u256_to_field FF mac_salt),
          ev_mac_commitment = field_to_bytes FF (u256_to_field FF mac_commitment),
          ev_viewing_key = None \<rparr>)"

definition persist_event ::
  "'f field_api \<Rightarrow> shielder_contract_event \<Rightarrow> hash32 \<Rightarrow> u64 \<Rightarrow> unit db_op" where
  "persist_event FF event tx_hash block_number = upsert_event (event_to_row FF event tx_hash block_number)"

definition process_log ::
  "'f field_api \<Rightarrow> 'l abi \<Rightarrow> event_signatures \<Rightarrow> 'l topic_log \<Rightarrow> unit db_op" where
  "process_log FF D S log =
     db_then (db_lift (ok_or (log_transaction_hash log) MissingData)) (\<lambda>tx_hash.
     db_then (db_lift (ok_or (log_block_number log) MissingData)) (\<lambda>block_number.
       if log_topic0 log = Some (sig_NewAccount S) then
         db_then (db_lift (ok_or (abi_NewAccount D (log_data log)) EventLog))
           (\<lambda>e. persist_event FF (NewAccountEvent e) tx_hash block_number)
       else if log_topic0 log = Some (sig_Deposit S) then
         db_then (db_lift (ok_or (abi_Deposit D (log_data log)) EventLog))
           (\<lambda>e. persist_event FF (DepositEvent e) tx_hash block_number)
       else if log_topic0 log = Some (sig_Withdraw S) then
         db_then (db_lift (ok_or (abi_Withdraw D (log_data log)) EventLog))
           (\<lambda>e. persist_event FF (WithdrawEvent e) tx_hash block_number)
       else db_lift (Ok ())))"

definition process_logs ::
  "'f field_api \<Rightarrow> 'l abi \<Rightarrow> event_signatures \<Rightarrow> 'l topic_log list \<Rightarrow> unit db_op" where
  "process_logs FF D S logs = db_for (process_log FF D S) logs"

text \<open>\<open>(start..=stop).step_by(step)\<close> for a positive step.\<close>

function step_by :: "nat \<Rightarrow> nat \<Rightarrow> nat \<Rightarrow> nat list" where
  "step_by start stop step =
     (if step = 0 \<or> stop < start then [] else start # step_by (start + step) stop step)"
  by pat_completeness auto
termination by (relation "measure (\<lambda>(start, stop, step). Suc stop - start)") auto

declare step_by.simps [simp del]

text \<open>One turn of the loop over batches.\<close>

definition index_batch ::
  "'f field_api \<Rightarrow> 'l abi \<Rightarrow> event_signatures \<Rightarrow> 'l ar_node \<Rightarrow> address \<Rightarrow> u64 \<Rightarrow> u64 \<Rightarrow> u64 \<Rightarrow> unit db_op"
  where
  "index_batch FF D S N shielder_address batch_size current_height block_number =
     db_then (db_lift (expect (checked_add block_number batch_size) ''attempt to add with overflow''))
       (\<lambda>batch_end.
        let last_batch_block = min (batch_end - 1) current_height
        in db_then (db_lift (map_err Rpc (an_get_logs N shielder_address block_number last_batch_block)))
             (\<lambda>raw_logs.
              db_then (process_logs FF D S raw_logs)
                (\<lambda>_. update_checkpoint EVENTS_TABLE last_batch_block)))"

definition index_events ::
  "'f field_api \<Rightarrow> 'l abi \<Rightarrow> event_signatures \<Rightarrow> 'l ar_node \<Rightarrow> address \<Rightarrow> u64 \<Rightarrow> u64 \<Rightarrow> unit db_op" where
  "index_events FF D S N shielder_address from_block batch_size =
     db_then (db_lift (an_connect N)) (\<lambda>_.
     db_then (db_lift (map_err Rpc (an_get_block_number N))) (\<lambda>current_height.
     db_then create_events_table (\<lambda>_.
     db_then (create_checkpoint_table EVENTS_TABLE) (\<lambda>_.
     db_then (query_checkpoint EVENTS_TABLE) (\<lambda>last_seen_block.
       if batch_size = 0 then db_lift (Panic ''assertion failed: step != 0'')
       else db_for (\<lambda>b. index_batch FF D S N shielder_address batch_size current_height (of_nat b))
              (step_by (unat (max from_block last_seen_block)) (unat current_height) (unat batch_size)))))))"

section \<open>Collecting viewing keys\<close>

definition KEYS_TABLE :: string where
  "KEYS_TABLE = ''last_keys_block''"

text \<open>The key file, as its contents or the error of opening it.\<close>

definition private_key_bytes :: "(bytes, string) result \<Rightarrow> (bytes, ar_error) result" where
  "private_key_bytes file =
     and_then (map_err ARKeyRead file) (\<lambda>contents.
       if length contents < 32 then Err (ARKeyRead ''failed to fill whole buffer'')
       else if 32 < length contents then Err (ARKeyRead ''Private key file contains more than 32 bytes!'')
       else Ok contents)"

definition decode_and_persist ::
  "'f field_api \<Rightarrow> ('f, 's, 'p) curve_api \<Rightarrow> u256 \<Rightarrow> u256 \<Rightarrow> u256 \<Rightarrow> u256 \<Rightarrow> 's \<Rightarrow> unit db_op" where
  "decode_and_persist FF C c1x c1y c2x c2y private_key =
     (let ciphertext1 = \<lparr> gp_x = u256_to_field FF c1x, gp_y = u256_to_field FF c1y \<rparr>;
          ciphertext2 = \<lparr> gp_x = u256_to_field FF c2x, gp_y = u256_to_field FF c2y \<rparr>;
          x = gp_x (cv_to_affine C (cv_decrypt C (cv_of_affine C ciphertext1) (cv_of_affine C ciphertext2) private_key))
      in upsert_viewing_key (field_to_bytes FF x))"

definition collect_from_tx ::
  "'f field_api \<Rightarrow> ('f, 's, 'p) curve_api \<Rightarrow> 'l abi \<Rightarrow> address \<Rightarrow> 's \<Rightarrow> ar_tx \<Rightarrow> unit db_op" where
  "collect_from_tx FF C D shielder_address private_key tx =
     (if at_to tx = Some shielder_address then
        db_then
          (case abi_newAccountNative D (at_input tx) of
             Some c \<Rightarrow> decode_and_persist FF C (nan_symKeyEncryptionC1X c) (nan_symKeyEncryptionC1Y c)
                         (nan_symKeyEncryptionC2X c) (nan_symKeyEncryptionC2Y c) private_key
           | None \<Rightarrow> db_lift (Ok ()))
          (\<lambda>_.
           case abi_newAccountERC20 D (at_input tx) of
             Some c \<Rightarrow> decode_and_persist FF C (nae_symKeyEncryptionC1X c) (nae_symKeyEncryptionC1Y c)
                         (nae_symKeyEncryptionC2X c) (nae_symKeyEncryptionC2Y c) private_key
           | None \<Rightarrow> db_lift (Ok ()))
      else db_lift (Ok ()))"

definition collect_block ::
  "'f field_api \<Rightarrow> ('f, 's, 'p) curve_api \<Rightarrow> 'l abi \<Rightarrow> 'l ar_node \<Rightarrow> address \<Rightarrow> 's \<Rightarrow> u64 \<Rightarrow> unit db_op" where
  "collect_block FF C D N shielder_address private_key block_number =
     db_then (db_lift (map_err Rpc (an_get_block_by_number N block_number))) (\<lambda>answer.
     db_then
       (case answer of
          Some (Some txs) \<Rightarrow> db_for (collect_from_tx FF C D shielder_address private_key) txs
        | _ \<Rightarrow> db_lift (Ok ()))
       (\<lambda>_. update_checkpoint KEYS_TABLE block_number))"

definition collect_viewing_keys ::
  "'f field_api \<Rightarrow> ('f, 's, 'p) curve_api \<Rightarrow> 'l abi \<Rightarrow> 'l ar_node \<Rightarrow> address \<Rightarrow> (bytes, string) result
     \<Rightarrow> u64 \<Rightarrow> unit db_op" where
  "collect_viewing_keys FF C D N shielder_address private_key_file from_block =
     db_then (db_lift (an_connect N)) (\<lambda>_.
     db_then (db_lift (map_err Rpc (an_get_block_number N))) (\<lambda>last_finalized_block_number.
     db_then (db_lift (private_key_bytes private_key_file)) (\<lambda>bs.
     db_then (db_lift (ok_or (cv_scalar_from_bytes C (rev bs)) NotAGrumpkinBaseFieldElement)) (\<lambda>private_key.
     db_then create_viewing_keys_table (\<lambda>_.
     db_then (create_checkpoint_table KEYS_TABLE) (\<lambda>_.
     db_then (query_checkpoint KEYS_TABLE) (\<lambda>last_seen_block.
       db_for (\<lambda>b. collect_block FF C D N shielder_address private_key (of_nat b))
         [unat (max from_block last_seen_block) ..< Suc (unat last_finalized_block_number)])))))))"

text \<open>
  What is logged of a key: its first half, rounded up, is replaced by stars (the source computes the
  half in \<open>f32\<close>, exact for strings of this length).
\<close>

definition redacted :: "string \<Rightarrow> bool \<Rightarrow> string" where
  "redacted input redact =
     (if input = [] \<or> \<not> redact then input
      else let chars_to_redact = (length input + 1) div 2
           in replicate chars_to_redact CHR ''*'' @ drop chars_to_redact input)"

section \<open>Revoking and revealing\<close>

text \<open>The inner loop: the first key whose commitment matches, with the conversions that may fail.\<close>

fun match_key ::
  "'f field_api \<Rightarrow> ('f list \<Rightarrow> 'f) \<Rightarrow> 'f \<Rightarrow> bytes \<Rightarrow> bytes list \<Rightarrow> (bytes option, ar_error) result" where
  "match_key FF hash commitment mac_salt [] = Ok None"
| "match_key FF hash commitment mac_salt (key # keys) =
     and_then (blob_to_field FF mac_salt) (\<lambda>r.
     and_then (blob_to_field FF key) (\<lambda>k.
       if commitment = hash [r, k] then Ok (Some key)
       else match_key FF hash commitment mac_salt keys))"

definition revoke_event ::
  "'f field_api \<Rightarrow> ('f list \<Rightarrow> 'f) \<Rightarrow> bytes list \<Rightarrow> event_row \<Rightarrow> unit db_op" where
  "revoke_event FF hash keys event =
     (if ev_viewing_key event = None then
        db_then (db_lift (blob_to_field FF (ev_mac_commitment event))) (\<lambda>commitment.
        db_then (db_lift (match_key FF hash commitment (ev_mac_salt event) keys)) (\<lambda>found.
          case found of
            Some key \<Rightarrow> upsert_event (event\<lparr> ev_viewing_key := Some key \<rparr>)
          | None \<Rightarrow> db_lift (Ok ())))
      else db_lift (Ok ()))"

definition revoke :: "'f field_api \<Rightarrow> ('f list \<Rightarrow> 'f) \<Rightarrow> unit db_op" where
  "revoke FF hash =
     db_then query_viewing_keys (\<lambda>keys.
     db_then (query_events None) (\<lambda>events.
       db_for (revoke_event FF hash keys) events))"

text \<open>The events that \<open>reveal\<close> prints; \<open>None\<close> is the warning that no key is known.\<close>

definition reveal :: "hash32 \<Rightarrow> event_row list option db_op" where
  "reveal tx_hash =
     db_then (query_event (to_be_bytes 32 tx_hash)) (\<lambda>event.
       case ev_viewing_key event of
         Some key \<Rightarrow> db_then (query_events (Some key)) (\<lambda>events. db_lift (Ok (Some events)))
       | None \<Rightarrow> db_lift (Ok None))"

section \<open>Retrying with back-off\<close>

definition DEFAULT_BACKOFF :: nat where
  "DEFAULT_BACKOFF = 2000"

definition MAX_BACKOFF :: nat where
  "MAX_BACKOFF = 600000"

fun is_rate_limited :: "('a, ar_error) result \<Rightarrow> bool" where
  "is_rate_limited (Err (Rpc (HttpError rate_limit m))) = rate_limit"
| "is_rate_limited _ = False"

text \<open>
  Attempt \<open>n\<close> of the operation may differ from the others (the chain moves on) and changes the
  database. The loop may run forever, which is \<open>None\<close>; it also returns the delays (in milliseconds)
  it has slept.
\<close>

partial_function (option) retry_loop ::
  "(nat \<Rightarrow> 'a db_op) \<Rightarrow> nat \<Rightarrow> nat \<Rightarrow> nat list \<Rightarrow> ar_db \<Rightarrow> (('a, ar_error) result \<times> ar_db \<times> nat list) option"
  where
  "retry_loop op n delay slept d =
     (let r = fst (op n d); d' = snd (op n d)
      in if is_rate_limited r
         then let delay' = min MAX_BACKOFF (delay * 2)
              in retry_loop op (Suc n) delay' (slept @ [delay']) d'
         else Some (r, d', slept))"

definition retry_with_backoff ::
  "(nat \<Rightarrow> 'a db_op) \<Rightarrow> ar_db \<Rightarrow> (('a, ar_error) result \<times> ar_db \<times> nat list) option" where
  "retry_with_backoff op d = retry_loop op 0 DEFAULT_BACKOFF [] d"

section \<open>Facts about tables\<close>

definition row_of :: "event_row list \<Rightarrow> bytes \<Rightarrow> event_row option" where
  "row_of t h = find (\<lambda>r. ev_tx_hash r = h) t"

definition replace_row :: "event_row \<Rightarrow> event_row list \<Rightarrow> event_row list" where
  "replace_row e t = filter (\<lambda>r. ev_tx_hash r \<noteq> ev_tx_hash e) t @ [e]"

text \<open>The invariant of the events table: the key is unique and stored integers fit.\<close>

definition events_inv :: "event_row list \<Rightarrow> bool" where
  "events_inv t \<longleftrightarrow> distinct (map ev_tx_hash t) \<and> (\<forall>r \<in> set t. ev_block_number r < 2 ^ 63)"

lemma upsert_event_Ok:
  "db_events d = Some t \<Longrightarrow> ev_block_number e < 2 ^ 63 \<Longrightarrow>
   upsert_event e d = (Ok (), d\<lparr> db_events := Some (replace_row e t) \<rparr>)"
  by (simp add: upsert_event_def to_sql_def replace_row_def)

lemma row_of_replace: "row_of (replace_row e t) h = (if h = ev_tx_hash e then Some e else row_of t h)"
  unfolding row_of_def replace_row_def
  by (induction t) auto

lemma row_of_in_set:
  "distinct (map ev_tx_hash t) \<Longrightarrow> r \<in> set t \<Longrightarrow> row_of t (ev_tx_hash r) = Some r"
  unfolding row_of_def by (induction t) force+

lemma row_of_SomeD: "row_of t h = Some r \<Longrightarrow> r \<in> set t \<and> ev_tx_hash r = h"
  unfolding row_of_def by (induction t) (auto split: if_splits)

lemma row_of_None: "row_of t h = None \<longleftrightarrow> h \<notin> ev_tx_hash ` set t"
  unfolding row_of_def by (induction t) auto

lemma events_inv_replace:
  assumes "events_inv t" "ev_block_number e < 2 ^ 63"
  shows "events_inv (replace_row e t)"
proof -
  have "distinct (map ev_tx_hash (filter P t))" for P
    using assms(1) by (simp add: events_inv_def distinct_map_filter)
  with assms show ?thesis by (auto simp: events_inv_def replace_row_def)
qed

section \<open>Revocation\<close>

text \<open>A stored field element: 32 bytes below the modulus, least significant byte first.\<close>

definition canonical_blob :: "bytes \<Rightarrow> bool" where
  "canonical_blob bs \<longleftrightarrow> length bs = 32 \<and> le_nat bs < fr_modulus"

definition blob_value :: "bytes \<Rightarrow> fr" where
  "blob_value bs = fr_of_nat (le_nat bs)"

lemma blob_to_field_Fr:
  "blob_to_field Fr bs = (if length bs \<noteq> 32 then Err (FieldConversion ''Expected 32 bytes'')
     else if le_nat bs < fr_modulus then Ok (blob_value bs)
     else Err (FieldConversion ''Failed to convert to Fr''))"
  by (simp add: blob_to_field_def bytes32_to_field_def Fr_def blob_value_def)

lemma blob_to_field_canonical: "canonical_blob bs \<Longrightarrow> blob_to_field Fr bs = Ok (blob_value bs)"
  by (simp add: blob_to_field_Fr canonical_blob_def)

lemma canonical_field_bytes: "canonical_blob (field_to_bytes Fr x)" "blob_value (field_to_bytes Fr x) = x"
  using fr_val_lt [of x] fr_modulus_bounds(2)
  by (auto simp: canonical_blob_def blob_value_def field_to_bytes_def Fr_def bytes_simps)

text \<open>The key of an event: the first collected key that opens its commitment.\<close>

definition opens :: "(fr list \<Rightarrow> fr) \<Rightarrow> event_row \<Rightarrow> bytes \<Rightarrow> bool" where
  "opens hash row key \<longleftrightarrow>
     blob_value (ev_mac_commitment row) = hash [blob_value (ev_mac_salt row), blob_value key]"

definition attribute_row :: "(fr list \<Rightarrow> fr) \<Rightarrow> bytes list \<Rightarrow> event_row \<Rightarrow> event_row" where
  "attribute_row hash keys row =
     (if ev_viewing_key row = None then row\<lparr> ev_viewing_key := find (opens hash row) keys \<rparr> else row)"

definition canonical_row :: "event_row \<Rightarrow> bool" where
  "canonical_row row \<longleftrightarrow> canonical_blob (ev_mac_salt row) \<and> canonical_blob (ev_mac_commitment row)"

lemma attribute_row_simps [simp]:
  "ev_tx_hash (attribute_row hash keys row) = ev_tx_hash row"
  "ev_block_number (attribute_row hash keys row) = ev_block_number row"
  "canonical_row (attribute_row hash keys row) = canonical_row row"
  by (simp_all add: attribute_row_def canonical_row_def)

lemma match_key_canonical:
  assumes "canonical_row row" "\<forall>k \<in> set keys. canonical_blob k"
  shows "match_key Fr hash (blob_value (ev_mac_commitment row)) (ev_mac_salt row) keys =
     Ok (find (opens hash row) keys)"
  using assms(2)
proof (induction keys)
  case Nil
  then show ?case by simp
next
  case (Cons k keys)
  with assms(1) show ?case
    by (auto simp: blob_to_field_canonical canonical_row_def opens_def)
qed

lemma revoke_event_step:
  assumes "canonical_row row" "\<forall>k \<in> set keys. canonical_blob k" "ev_block_number row < 2 ^ 63"
    and "db_events d = Some t" "events_inv t" "row_of t (ev_tx_hash row) = Some row"
  shows "\<exists>t'. revoke_event Fr hash keys row d = (Ok (), d\<lparr> db_events := Some t' \<rparr>) \<and> events_inv t' \<and>
     row_of t' = (row_of t)(ev_tx_hash row \<mapsto> attribute_row hash keys row)"
proof (cases "ev_viewing_key row = None \<and> find (opens hash row) keys \<noteq> None")
  case True
  then have "revoke_event Fr hash keys row d = upsert_event (attribute_row hash keys row) d"
    using assms(1,2)
    by (auto simp: revoke_event_def attribute_row_def match_key_canonical blob_to_field_canonical
        canonical_row_def)
  then show ?thesis using assms(3-5)
    by (auto simp: upsert_event_Ok row_of_replace events_inv_replace fun_eq_iff)
next
  case False
  then have "attribute_row hash keys row = row" by (cases row) (auto simp: attribute_row_def)
  moreover have "revoke_event Fr hash keys row d = (Ok (), d)"
    using False assms(1,2)
    by (auto simp: revoke_event_def match_key_canonical blob_to_field_canonical canonical_row_def
        db_lift_def split: option.splits)
  ultimately show ?thesis using assms(4-6)
    by (intro exI [of _ t]) (auto simp: fun_eq_iff)
qed

lemma revoke_events_loop:
  assumes "\<forall>row \<in> set rows. canonical_row row \<and> ev_block_number row < 2 ^ 63"
    and "\<forall>k \<in> set keys. canonical_blob k" and "distinct (map ev_tx_hash rows)"
    and "db_events d = Some t" "events_inv t" "\<forall>row \<in> set rows. row_of t (ev_tx_hash row) = Some row"
  shows "\<exists>t'. db_for (revoke_event Fr hash keys) rows d = (Ok (), d\<lparr> db_events := Some t' \<rparr>) \<and>
     events_inv t' \<and>
     row_of t' = (\<lambda>h. if h \<in> ev_tx_hash ` set rows then map_option (attribute_row hash keys) (row_of t h)
                      else row_of t h)"
  using assms
proof (induction rows arbitrary: d t)
  case Nil
  then show ?case by (intro exI [of _ t]) (auto simp: db_lift_def)
next
  case (Cons row rows)
  from Cons.prems have row: "canonical_row row" "ev_block_number row < 2 ^ 63"
    "row_of t (ev_tx_hash row) = Some row" by auto
  from revoke_event_step [OF row(1) Cons.prems(2) row(2) Cons.prems(4,5) row(3)] obtain t1 where
    t1: "revoke_event Fr hash keys row d = (Ok (), d\<lparr> db_events := Some t1 \<rparr>)" "events_inv t1"
    "row_of t1 = (row_of t)(ev_tx_hash row \<mapsto> attribute_row hash keys row)" by blast
  have "\<exists>t'. db_for (revoke_event Fr hash keys) rows (d\<lparr> db_events := Some t1 \<rparr>) =
       (Ok (), d\<lparr> db_events := Some t1 \<rparr>\<lparr> db_events := Some t' \<rparr>) \<and> events_inv t' \<and>
     row_of t' = (\<lambda>h. if h \<in> ev_tx_hash ` set rows then map_option (attribute_row hash keys) (row_of t1 h)
                      else row_of t1 h)"
    by (rule Cons.IH) (use Cons.prems t1 in \<open>auto simp: image_iff\<close>)
  then obtain t' where t': "db_for (revoke_event Fr hash keys) rows (d\<lparr> db_events := Some t1 \<rparr>) =
       (Ok (), d\<lparr> db_events := Some t' \<rparr>)" "events_inv t'"
     "row_of t' = (\<lambda>h. if h \<in> ev_tx_hash ` set rows then map_option (attribute_row hash keys) (row_of t1 h)
                      else row_of t1 h)" by auto
  have "ev_tx_hash row \<notin> ev_tx_hash ` set rows" using Cons.prems(3) by auto
  then have "row_of t' = (\<lambda>h. if h \<in> ev_tx_hash ` set (row # rows)
      then map_option (attribute_row hash keys) (row_of t h) else row_of t h)"
    using row(3) by (auto simp: t'(3) t1(3) fun_eq_iff)
  with t' t1(1) show ?case by (auto simp: db_then_Ok)
qed

text \<open>
  C26. Revocation attributes every event to its account. On a database whose blobs are canonical field
  elements, \<open>revoke\<close> succeeds and changes only viewing keys: the row of each transaction hash keeps its
  data, keeps a viewing key it already has, and otherwise gets the first collected key \<open>k\<close> with
  \<open>mac_commitment = hash [mac_salt, k]\<close>, or none when no key opens the commitment. The invariant of the
  table is preserved.
\<close>

theorem revoke_attributes_events:
  assumes "db_events d = Some t" "db_viewing_keys d = Some keys" "events_inv t"
    and "\<forall>row \<in> set t. canonical_row row" "\<forall>k \<in> set keys. canonical_blob k"
  shows "\<exists>t'. revoke Fr hash d = (Ok (), d\<lparr> db_events := Some t' \<rparr>) \<and> events_inv t' \<and>
     (\<forall>h. row_of t' h = map_option (attribute_row hash keys) (row_of t h))"
proof -
  have "\<exists>t'. db_for (revoke_event Fr hash keys) t d = (Ok (), d\<lparr> db_events := Some t' \<rparr>) \<and>
     events_inv t' \<and>
     row_of t' = (\<lambda>h. if h \<in> ev_tx_hash ` set t then map_option (attribute_row hash keys) (row_of t h)
                      else row_of t h)"
    using assms
    by (intro revoke_events_loop) (auto simp: events_inv_def row_of_in_set)
  moreover have "h \<notin> ev_tx_hash ` set t \<Longrightarrow> row_of t h = None" for h by (simp add: row_of_None)
  moreover have "revoke Fr hash d = db_for (revoke_event Fr hash keys) t d"
    using assms(1,2) by (simp add: revoke_def query_viewing_keys_def query_events_def db_then_def)
  ultimately show ?thesis by (metis (no_types, lifting) option.map_disc_iff option.simps(8))
qed

text \<open>
  Revealing a transaction whose key is known lists exactly the stored events with that key, the
  transaction itself among them; it never changes the database.
\<close>

lemma reveal_lists_account:
  assumes "db_events d = Some t" "row_of t (to_be_bytes 32 tx_hash) = Some row"
  shows "reveal tx_hash d = (Ok (map_option (\<lambda>key. filter (\<lambda>r. ev_viewing_key r = Some key) t) (ev_viewing_key row)), d)"
    and "ev_viewing_key row = Some key \<Longrightarrow> row \<in> set (filter (\<lambda>r. ev_viewing_key r = Some key) t)"
proof -
  show "reveal tx_hash d = (Ok (map_option (\<lambda>key. filter (\<lambda>r. ev_viewing_key r = Some key) t) (ev_viewing_key row)), d)"
    using assms
    by (auto simp: reveal_def query_event_def query_events_def db_then_def db_lift_def row_of_def split: option.splits)
  show "ev_viewing_key row = Some key \<Longrightarrow> row \<in> set (filter (\<lambda>r. ev_viewing_key r = Some key) t)"
    using row_of_SomeD [OF assms(2)] by simp
qed

lemma collected_keys_canonical:
  assumes "\<forall>k \<in> set keys. canonical_blob k" "db_viewing_keys d = Some keys"
  shows "\<exists>keys'. decode_and_persist Fr C c1x c1y c2x c2y key d = (Ok (), d\<lparr> db_viewing_keys := Some keys' \<rparr>) \<and>
     (\<forall>k \<in> set keys'. canonical_blob k) \<and> set keys \<subseteq> set keys'"
proof -
  obtain x where "decode_and_persist Fr C c1x c1y c2x c2y key = upsert_viewing_key (field_to_bytes Fr x)"
    unfolding decode_and_persist_def Let_def by blast
  then show ?thesis using assms canonical_field_bytes(1) [of x]
    by (intro exI [of _ "filter (\<lambda>k. k \<noteq> field_to_bytes Fr x) keys @ [field_to_bytes Fr x]"])
      (auto simp: upsert_viewing_key_def)
qed

lemma redacted_hides_half:
  "length (redacted input redact) = length input"
  "redact \<Longrightarrow> i < (length input + 1) div 2 \<Longrightarrow> redacted input redact ! i = CHR ''*''"
  by (auto simp: redacted_def Let_def nth_append)

definition sample_salt :: bytes where
  "sample_salt = 3 # replicate 31 0"

definition sample_key :: bytes where
  "sample_key = 5 # replicate 31 0"

definition sample_row :: event_row where
  "sample_row = \<lparr> ev_tx_hash = to_be_bytes 32 (55 :: u256), ev_block_number = 9, ev_mac_salt = sample_salt,
     ev_mac_commitment = sample_key, ev_viewing_key = None \<rparr>"

definition sample_ar_db :: ar_db where
  "sample_ar_db = \<lparr> db_events = Some [sample_row], db_checkpoints = Map.empty,
     db_viewing_keys = Some [sample_salt, sample_key] \<rparr>"

lemma sample_blobs [simp]: "canonical_blob sample_salt" "canonical_blob sample_key"
  "blob_value sample_salt \<noteq> blob_value sample_key"
proof -
  have "le_nat sample_salt = 3" "le_nat sample_key = 5" by (simp_all add: sample_salt_def sample_key_def)
  moreover have "fr_of_nat 3 \<noteq> fr_of_nat 5"
  proof
    assume "fr_of_nat 3 = fr_of_nat 5"
    then have "fr_val (fr_of_nat 3) = fr_val (fr_of_nat 5)" by simp
    then show False by (simp add: fr_modulus_def)
  qed
  ultimately show "canonical_blob sample_salt" "canonical_blob sample_key"
    "blob_value sample_salt \<noteq> blob_value sample_key"
    by (simp_all add: canonical_blob_def blob_value_def fr_modulus_def)
     (simp_all add: sample_salt_def sample_key_def)
qed

theorem revoke_attributes_events_witness:
  "\<exists>t'. revoke Fr (\<lambda>xs. xs ! 1) sample_ar_db = (Ok (), sample_ar_db\<lparr> db_events := Some t' \<rparr>) \<and>
     row_of t' (to_be_bytes 32 (55 :: u256)) = Some (sample_row\<lparr> ev_viewing_key := Some sample_key \<rparr>)"
proof -
  have "attribute_row (\<lambda>xs. xs ! 1) [sample_salt, sample_key] sample_row =
      sample_row\<lparr> ev_viewing_key := Some sample_key \<rparr>"
    using sample_blobs(3) sample_blobs(3) [symmetric] by (auto simp: attribute_row_def opens_def sample_row_def)
  moreover have "row_of [sample_row] (to_be_bytes 32 (55 :: u256)) = Some sample_row"
    by (simp add: row_of_def sample_row_def)
  moreover have "events_inv [sample_row]" "canonical_row sample_row"
    by (simp_all add: events_inv_def canonical_row_def sample_row_def)
  ultimately show ?thesis
    using revoke_attributes_events [of sample_ar_db "[sample_row]" "[sample_salt, sample_key]" "\<lambda>xs. xs ! 1"]
    by (auto simp: sample_ar_db_def)
qed

section \<open>Public keys\<close>

text \<open>What the circuits package documents: a point is its pair of affine coordinates, on the curve.\<close>

definition on_curve :: "('f, 's, 'p) curve_api \<Rightarrow> 'f grumpkin_point \<Rightarrow> bool" where
  "on_curve C A \<longleftrightarrow>
     (let x = gp_x A; y = gp_y A
      in cv_mul C y y = cv_sub C (cv_mul C (cv_mul C x x) x) (cv_from C 17))"

definition curve_ok :: "('f, 's, 'p) curve_api \<Rightarrow> bool" where
  "curve_ok C \<longleftrightarrow> (\<forall>P. cv_of_affine C (cv_to_affine C P) = P \<and> on_curve C (cv_to_affine C P))"

lemma length_to_bytes_be: "length (to_bytes_be Fr x) = 32"
  by (simp add: to_bytes_be_def to_bytes_le_def Fr_def)

lemma blob_of_bytes_be: "blob_to_field Fr (rev (to_bytes_be Fr x)) = Ok x"
  using canonical_field_bytes [of x]
  by (simp add: to_bytes_be_def to_bytes_le_def field_to_bytes_def blob_to_field_canonical)

lemma bytes_be_of_blob:
  assumes "blob_to_field Fr (rev part) = Ok z" "length part = 32"
  shows "to_bytes_be Fr z = part"
proof -
  from assms have "le_nat (rev part) = fr_val z"
    by (auto simp: blob_to_field_Fr blob_value_def split: if_splits)
  then have "nat_le 32 (fr_val z) = rev part" using nat_le_le_nat [of "rev part" 32] assms(2) by simp
  then show ?thesis by (simp add: to_bytes_be_def to_bytes_le_def Fr_def)
qed

text \<open>A byte string is accepted exactly when it is the encoding of a point on the curve.\<close>

lemma deserialize_pub_key_iff:
  "deserialize_pub_key Fr C bs = Ok P \<longleftrightarrow>
     (\<exists>A. on_curve C A \<and> P = cv_of_affine C A \<and> bs = to_bytes_be Fr (gp_x A) @ to_bytes_be Fr (gp_y A))"
  (is "?lhs \<longleftrightarrow> ?rhs")
proof
  assume ?lhs
  then have len: "length bs = 64" by (auto simp: deserialize_pub_key_def split: if_splits)
  with \<open>?lhs\<close> obtain x y where xy: "blob_to_field Fr (rev (take 32 bs)) = Ok x"
    "blob_to_field Fr (rev (drop 32 bs)) = Ok y" "P = cv_of_affine C \<lparr> gp_x = x, gp_y = y \<rparr>"
    "on_curve C \<lparr> gp_x = x, gp_y = y \<rparr>"
    by (auto simp: deserialize_pub_key_def on_curve_def result_simps split: if_splits)
  have "bs = to_bytes_be Fr x @ to_bytes_be Fr y"
    using bytes_be_of_blob [OF xy(1)] bytes_be_of_blob [OF xy(2)] len by simp
  with xy(3,4) show ?rhs by (intro exI [of _ "\<lparr> gp_x = x, gp_y = y \<rparr>"]) simp
next
  assume ?rhs
  then obtain A where "on_curve C A" "P = cv_of_affine C A"
    "bs = to_bytes_be Fr (gp_x A) @ to_bytes_be Fr (gp_y A)" by blast
  then show ?lhs
    by (cases A) (simp add: deserialize_pub_key_def length_to_bytes_be blob_of_bytes_be on_curve_def)
qed

text \<open>
  C33. Public keys survive serialisation: a key becomes 64 bytes, both coordinates most significant
  byte first, which \<open>deserialize_pub_key\<close> turns back into the same key; and any byte string it accepts
  is the encoding of exactly one point, on the curve, so that no two byte strings denote one point.
\<close>

theorem pub_key_roundtrip:
  assumes "curve_ok C"
  shows "length (serialize_pub_key Fr C P) = 64 \<and>
     deserialize_pub_key Fr C (serialize_pub_key Fr C P) = Ok P \<and>
     (deserialize_pub_key Fr C bs = Ok P \<longrightarrow>
       (\<exists>!A. on_curve C A \<and> P = cv_of_affine C A \<and> bs = to_bytes_be Fr (gp_x A) @ to_bytes_be Fr (gp_y A)))"
proof (intro conjI impI)
  show "length (serialize_pub_key Fr C P) = 64"
    by (simp add: serialize_pub_key_def Let_def length_to_bytes_be)
  show "deserialize_pub_key Fr C (serialize_pub_key Fr C P) = Ok P"
    using assms unfolding deserialize_pub_key_iff serialize_pub_key_def curve_ok_def Let_def
    by (intro exI [of _ "cv_to_affine C P"]) simp
next
  have inj: "to_bytes_be Fr u = to_bytes_be Fr v \<Longrightarrow> u = v" for u v
    by (metis blob_of_bytes_be result.inject(1))
  assume "deserialize_pub_key Fr C bs = Ok P"
  then obtain A where "on_curve C A" "P = cv_of_affine C A"
    "bs = to_bytes_be Fr (gp_x A) @ to_bytes_be Fr (gp_y A)" by (auto simp: deserialize_pub_key_iff)
  then show "\<exists>!A. on_curve C A \<and> P = cv_of_affine C A \<and> bs = to_bytes_be Fr (gp_x A) @ to_bytes_be Fr (gp_y A)"
    by (intro ex1I [of _ A]) (auto simp: append_eq_same_length length_to_bytes_be dest!: inj
        intro: grumpkin_point.equality)
qed

text \<open>A one-point curve that satisfies the documented laws.\<close>

definition sample_curve :: "(fr, unit, unit) curve_api" where
  "sample_curve = \<lparr>
     cv_mul = (\<lambda>x y. fr_of_nat (fr_val x * fr_val y)),
     cv_sub = (\<lambda>x y. fr_of_nat (fr_val x + (fr_modulus - fr_val y))),
     cv_from = (\<lambda>n. fr_of_nat (unat n)),
     cv_to_affine = (\<lambda>_. \<lparr> gp_x = fr_of_nat 1, gp_y = fr_of_nat 17631683881184975370165255887551781615748388533673675138860 \<rparr>),
     cv_of_affine = (\<lambda>_. ()),
     cv_scalar_from_bytes = (\<lambda>_. Some ()),
     cv_decrypt = (\<lambda>_ _ _. ()),
     cv_hash = (\<lambda>xs. fr_of_nat 0) \<rparr>"

lemma sample_curve_ok: "curve_ok sample_curve"
proof -
  have "(17631683881184975370165255887551781615748388533673675138860 * 17631683881184975370165255887551781615748388533673675138860) mod fr_modulus
     = (1 + (fr_modulus - 17)) mod fr_modulus"
    by (simp add: fr_modulus_def)
  then have "fr_of_nat (17631683881184975370165255887551781615748388533673675138860 * 17631683881184975370165255887551781615748388533673675138860)
     = fr_of_nat (1 + (fr_modulus - 17))"
    by (simp only: fr_of_nat_def)
  then show ?thesis
    by (simp add: curve_ok_def on_curve_def sample_curve_def fr_modulus_def)
qed

theorem pub_key_roundtrip_witness:
  "length (serialize_pub_key Fr sample_curve ()) = 64 \<and>
   deserialize_pub_key Fr sample_curve (serialize_pub_key Fr sample_curve ()) = Ok ()"
  using pub_key_roundtrip [OF sample_curve_ok, of "()"] by blast

section \<open>Back-off\<close>

text \<open>The database after the first \<open>n\<close> attempts.\<close>

fun after_attempts :: "(nat \<Rightarrow> 'a db_op) \<Rightarrow> nat \<Rightarrow> ar_db \<Rightarrow> ar_db" where
  "after_attempts op 0 d = d"
| "after_attempts op (Suc n) d = snd (op n (after_attempts op n d))"

definition backoff :: "nat \<Rightarrow> nat" where
  "backoff i = min MAX_BACKOFF (DEFAULT_BACKOFF * 2 ^ Suc i)"

lemma backoff_Suc: "min MAX_BACKOFF (backoff i * 2) = backoff (Suc i)"
  by (auto simp: backoff_def min_def MAX_BACKOFF_def)

lemma retry_loop_step:
  "retry_loop op n delay slept d =
     (if is_rate_limited (fst (op n d))
      then retry_loop op (Suc n) (min MAX_BACKOFF (delay * 2)) (slept @ [min MAX_BACKOFF (delay * 2)]) (snd (op n d))
      else Some (fst (op n d), snd (op n d), slept))"
  by (subst retry_loop.simps) (simp add: Let_def)

lemma retry_loop_after:
  assumes "\<forall>i < n. is_rate_limited (fst (op i (after_attempts op i d)))"
  shows "retry_with_backoff op d =
     retry_loop op n (if n = 0 then DEFAULT_BACKOFF else backoff (n - 1)) (map backoff [0 ..< n])
       (after_attempts op n d)"
  using assms
proof (induction n)
  case 0
  then show ?case by (simp add: retry_with_backoff_def)
next
  case (Suc n)
  let ?delay = "if n = 0 then DEFAULT_BACKOFF else backoff (n - 1)"
  have next_delay: "min MAX_BACKOFF (?delay * 2) = backoff n"
    using backoff_Suc [of "n - 1"] by (cases n) (auto simp: backoff_def)
  from Suc have "retry_with_backoff op d =
      retry_loop op n ?delay (map backoff [0 ..< n]) (after_attempts op n d)" by simp
  also have "\<dots> = retry_loop op (Suc n) (backoff n) (map backoff [0 ..< n] @ [backoff n])
      (after_attempts op (Suc n) d)"
    using Suc.prems by (subst retry_loop_step) (simp add: next_delay)
  finally show ?case by simp
qed

text \<open>
  C34. Retrying with back-off. If attempt \<open>n\<close> is the first that is not refused for its rate, the loop
  returns its outcome and its database, having slept exactly \<open>n\<close> times: the \<open>i\<close>-th delay is 2 seconds
  doubled \<open>i + 1\<close> times, capped at 10 minutes. Delays never decrease, and any other error ends the loop
  at once.
\<close>

theorem retry_returns_first_outcome:
  assumes "\<forall>i < n. is_rate_limited (fst (op i (after_attempts op i d)))"
    and "\<not> is_rate_limited (fst (op n (after_attempts op n d)))"
  shows "retry_with_backoff op d =
     Some (fst (op n (after_attempts op n d)), snd (op n (after_attempts op n d)), map backoff [0 ..< n]) \<and>
     sorted (map backoff [0 ..< n]) \<and> (\<forall>i < n. 4000 \<le> backoff i \<and> backoff i \<le> 600000)"
proof (intro conjI)
  show "retry_with_backoff op d =
     Some (fst (op n (after_attempts op n d)), snd (op n (after_attempts op n d)), map backoff [0 ..< n])"
    using assms by (simp add: retry_loop_after retry_loop_step [of op n])
  have "i \<le> j \<Longrightarrow> backoff i \<le> backoff j" for i j
    unfolding backoff_def by (intro min.mono mult_le_mono2 power_increasing) auto
  then show "sorted (map backoff [0 ..< n])" by (auto simp: sorted_iff_nth_mono)
  show "\<forall>i < n. 4000 \<le> backoff i \<and> backoff i \<le> 600000"
    by (auto simp: backoff_def MAX_BACKOFF_def DEFAULT_BACKOFF_def)
qed

definition sample_op :: "nat \<Rightarrow> unit db_op" where
  "sample_op n d =
     (if n < 2 then (Err (Rpc (HttpError True ''429'')), d) else (Err MissingData, d))"

theorem retry_returns_first_outcome_witness:
  "retry_with_backoff sample_op db_empty = Some (Err MissingData, db_empty, [4000, 8000])"
proof -
  have "map backoff [0 ..< 2] = [4000, 8000]"
    by (simp add: backoff_def upt_rec MAX_BACKOFF_def DEFAULT_BACKOFF_def)
  moreover have "after_attempts sample_op i db_empty = db_empty" for i
    by (induction i) (auto simp: sample_op_def)
  ultimately show ?thesis
    using retry_returns_first_outcome [of 2 sample_op db_empty] by (simp add: sample_op_def)
qed

section \<open>Indexing\<close>

definition log_event :: "'l abi \<Rightarrow> event_signatures \<Rightarrow> 'l topic_log \<Rightarrow> shielder_contract_event option" where
  "log_event D S log =
     (if log_topic0 log = Some (sig_NewAccount S) then map_option NewAccountEvent (abi_NewAccount D (log_data log))
      else if log_topic0 log = Some (sig_Deposit S) then map_option DepositEvent (abi_Deposit D (log_data log))
      else if log_topic0 log = Some (sig_Withdraw S) then map_option WithdrawEvent (abi_Withdraw D (log_data log))
      else None)"

definition log_row :: "'f field_api \<Rightarrow> 'l abi \<Rightarrow> event_signatures \<Rightarrow> 'l topic_log \<Rightarrow> event_row option" where
  "log_row FF D S log =
     map_option (\<lambda>e. event_to_row FF e (the (log_transaction_hash log)) (the (log_block_number log)))
       (log_event D S log)"

text \<open>A log as a node documents it: placed in a block, with data that its topic decodes.\<close>

definition indexable :: "'l abi \<Rightarrow> event_signatures \<Rightarrow> 'l topic_log \<Rightarrow> bool" where
  "indexable D S log \<longleftrightarrow>
     log_transaction_hash log \<noteq> None \<and> log_block_number log \<noteq> None \<and>
     the (log_block_number log) < 2 ^ 63 \<and>
     (log_event D S log = None \<longrightarrow>
       log_topic0 log \<notin> Some ` {sig_NewAccount S, sig_Deposit S, sig_Withdraw S})"

lemma process_log_indexable:
  assumes "db_events d = Some t" "indexable D S log"
  shows "process_log FF D S log d =
     (Ok (), d\<lparr> db_events := Some (case log_row FF D S log of None \<Rightarrow> t | Some r \<Rightarrow> replace_row r t) \<rparr>)"
proof -
  from assms(2) obtain h b where hb: "log_transaction_hash log = Some h" "log_block_number log = Some b"
    "b < 2 ^ 63" by (auto simp: indexable_def)
  then have persist: "persist_event FF e h b d =
      (Ok (), d\<lparr> db_events := Some (replace_row (event_to_row FF e h b) t) \<rparr>)" for e
    using assms(1) by (simp add: persist_event_def upsert_event_Ok event_to_row_def split: prod.splits)
  show ?thesis
  proof (cases "log_event D S log")
    case None
    with assms hb show ?thesis
      by (auto simp: process_log_def indexable_def log_row_def db_lift_def)
  next
    case (Some e)
    then show ?thesis
      by (auto simp: process_log_def log_row_def log_event_def hb persist split: if_splits)
  qed
qed

lemma process_logs_indexable:
  "db_events d = Some t \<Longrightarrow> \<forall>log \<in> set logs. indexable D S log \<Longrightarrow>
   process_logs FF D S logs d =
     (Ok (), d\<lparr> db_events := Some (fold replace_row (List.map_filter (log_row FF D S) logs) t) \<rparr>)"
proof (induction logs arbitrary: d t)
  case Nil
  then show ?case by (simp add: process_logs_def db_lift_def map_filter_simps)
next
  case (Cons log logs)
  let ?t = "case log_row FF D S log of None \<Rightarrow> t | Some r \<Rightarrow> replace_row r t"
  have "process_logs FF D S (log # logs) d = process_logs FF D S logs (d\<lparr> db_events := Some ?t \<rparr>)"
    using Cons.prems process_log_indexable [of d t D S log FF] by (simp add: process_logs_def db_then_Ok)
  with Cons.prems Cons.IH [of "d\<lparr> db_events := Some ?t \<rparr>" ?t] show ?case
    by (auto simp: map_filter_simps split: option.splits)
qed

text \<open>The rows of the events of a block range, and what indexing the range does to the database.\<close>

definition range_rows ::
  "'f field_api \<Rightarrow> 'l abi \<Rightarrow> event_signatures \<Rightarrow> (nat \<Rightarrow> 'l topic_log list) \<Rightarrow> nat \<Rightarrow> nat \<Rightarrow> event_row list" where
  "range_rows FF D S chain start stop =
     List.map_filter (log_row FF D S) (concat (map chain [start ..< Suc stop]))"

definition index_range ::
  "event_row list \<Rightarrow> u64 \<Rightarrow> ar_db \<Rightarrow> ar_db" where
  "index_range rows last_block d = d\<lparr>
     db_events := map_option (fold replace_row rows) (db_events d),
     db_checkpoints := (db_checkpoints d)(EVENTS_TABLE \<mapsto> Some last_block) \<rparr>"

lemma range_rows_split:
  assumes "start \<le> Suc mid" "mid \<le> stop"
  shows "range_rows FF D S chain start stop =
     range_rows FF D S chain start mid @ range_rows FF D S chain (Suc mid) stop"
proof -
  have "[start ..< Suc stop] = [start ..< Suc mid] @ [Suc mid ..< Suc stop]"
    using assms by (metis Suc_le_mono le_add_diff_inverse upt_add_eq_append)
  then show ?thesis by (simp add: range_rows_def List.map_filter_def del: upt_Suc)
qed

definition serves_events :: "'l ar_node \<Rightarrow> address \<Rightarrow> (nat \<Rightarrow> 'l topic_log list) \<Rightarrow> bool" where
  "serves_events N a chain \<longleftrightarrow>
     (\<forall>f t. an_get_logs N a f t = Ok (concat (map chain [unat f ..< Suc (unat t)])))"

lemma index_batch_range:
  assumes "serves_events N a chain" "\<forall>b. \<forall>log \<in> set (chain b). indexable D S log"
    and "db_events d \<noteq> None" "db_checkpoints d EVENTS_TABLE \<noteq> None"
    and "0 < k" "current < 2 ^ 63" "unat current + unat k < 2 ^ 64" "start \<le> current"
  defines "last_block \<equiv> min (start + k - 1) current"
  shows "index_batch FF D S N a k current start d =
     (Ok (), index_range (range_rows FF D S chain (unat start) (unat last_block)) last_block d)"
    and "unat last_block = min (unat start + unat k - 1) (unat current)"
proof -
  obtain t where t: "db_events d = Some t" using assms(3) by auto
  have fits: "unat start + unat k < 2 ^ 64" using assms(7,8) by (simp add: word_le_nat_alt)
  then have add: "checked_add start k = Some (start + k)" and sum: "unat (start + k) = unat start + unat k"
    by (simp_all add: checked_add_def unat_add_lt)
  have "last_block \<le> current" by (simp add: last_block_def)
  then have sql: "last_block < 2 ^ 63" using assms(6) by (rule le_less_trans)
  let ?logs = "concat (map chain [unat start ..< Suc (unat last_block)])"
  have "\<forall>log \<in> set ?logs. indexable D S log" using assms(2) by auto
  note logs = process_logs_indexable [OF t this, of FF]
  have get: "an_get_logs N a start last_block = Ok ?logs"
    using assms(1) by (simp add: serves_events_def del: upt_Suc)
  have "index_batch FF D S N a k current start d =
      update_checkpoint EVENTS_TABLE last_block
        (d\<lparr> db_events := Some (fold replace_row (List.map_filter (log_row FF D S) ?logs) t) \<rparr>)"
    unfolding index_batch_def add expect.simps db_then_lift Let_def
    unfolding last_block_def [symmetric] get map_err.simps db_then_lift by (rule db_then_Ok) (rule logs)
  also have "\<dots> = (Ok (), index_range (range_rows FF D S chain (unat start) (unat last_block)) last_block d)"
    using assms(4) sql
    by (auto simp: update_checkpoint_def to_sql_def index_range_def t range_rows_def simp del: upt_Suc)
  finally show "index_batch FF D S N a k current start d =
     (Ok (), index_range (range_rows FF D S chain (unat start) (unat last_block)) last_block d)" .
  have "start + k \<noteq> 0" using sum assms(5) by (auto simp: word_greater_zero_iff unat_eq_zero)
  then have "unat (start + k - 1) = unat start + unat k - 1" by (simp add: unat_minus_one sum)
  then show "unat last_block = min (unat start + unat k - 1) (unat current)"
    by (simp add: last_block_def min_def word_le_nat_alt)
qed

lemma index_loop:
  assumes "serves_events N a chain" "\<forall>b. \<forall>log \<in> set (chain b). indexable D S log"
    and "0 < k" "current < 2 ^ 63" "unat current + unat k < 2 ^ 64"
    and "db_events d \<noteq> None" "db_checkpoints d EVENTS_TABLE \<noteq> None"
  shows "db_for (\<lambda>b. index_batch FF D S N a k current (of_nat b)) (step_by start (unat current) (unat k)) d =
     (Ok (), if start \<le> unat current
             then index_range (range_rows FF D S chain start (unat current)) current d else d)"
  using assms(6,7)
proof (induction "Suc (unat current) - start" arbitrary: start d rule: less_induct)
  case less
  have k: "0 < unat k" using assms(3) by (simp add: word_less_nat_alt)
  show ?case
  proof (cases "start \<le> unat current")
    case False
    then show ?thesis by (simp add: step_by.simps db_lift_def)
  next
    case True
    let ?s = "of_nat start :: u64"
    define last_block where "last_block = min (?s + k - 1) current"
    have s: "unat ?s = start"
      using True unat_lt_pow [of current] by (intro unat_of_nat_lt) (rule le_less_trans)
    then have "?s \<le> current" using True by (simp add: word_le_nat_alt)
    note batch = index_batch_range(1) [OF assms(1,2) less.prems assms(3-5) this, of FF]
      index_batch_range(2) [OF assms(1,2) less.prems assms(3-5) this]
    note batch = this [folded last_block_def, unfolded s]
    let ?d = "index_range (range_rows FF D S chain start (unat last_block)) last_block d"
    have tables: "db_events ?d \<noteq> None" "db_checkpoints ?d EVENTS_TABLE \<noteq> None"
      using less.prems by (simp_all add: index_range_def)
    have "db_for (\<lambda>b. index_batch FF D S N a k current (of_nat b)) (step_by start (unat current) (unat k)) d =
        db_for (\<lambda>b. index_batch FF D S N a k current (of_nat b)) (step_by (start + unat k) (unat current) (unat k)) ?d"
      using True k batch(1) by (simp add: step_by.simps [of start] db_then_def)
    also have "\<dots> = (Ok (), if start + unat k \<le> unat current
        then index_range (range_rows FF D S chain (start + unat k) (unat current)) current ?d else ?d)"
      using k True by (intro less.hyps tables) auto
    also have "\<dots> = (Ok (), index_range (range_rows FF D S chain start (unat current)) current d)"
    proof (cases "start + unat k \<le> unat current")
      case True
      with batch(2) k have mid: "Suc (unat last_block) = start + unat k" by auto
      have "range_rows FF D S chain start (unat current) =
          range_rows FF D S chain start (unat last_block) @ range_rows FF D S chain (start + unat k) (unat current)"
        using range_rows_split [of start "unat last_block" "unat current" FF D S chain] mid True by simp
      with True show ?thesis
        by (simp add: index_range_def option.map_comp comp_def fold_append)
    next
      case False
      with batch(2) k True have "unat last_block = unat current" by auto
      then have "last_block = current" by (simp add: word_unat_eq_iff)
      with False show ?thesis by simp
    qed
    finally show ?thesis using True by simp
  qed
qed

lemma index_events_run:
  fixes d :: ar_db
  assumes "an_connect N = Ok ()" "an_get_block_number N = Ok current"
  defines "d0 \<equiv> snd (create_checkpoint_table EVENTS_TABLE (snd (create_events_table d)))"
  shows "index_events FF D S N a from_block k d =
      (if k = 0 then db_lift (Panic ''assertion failed: step != 0'')
       else db_for (\<lambda>b. index_batch FF D S N a k current (of_nat b))
              (step_by (unat (max from_block
                 (case db_checkpoints d EVENTS_TABLE of Some (Some n) \<Rightarrow> n | _ \<Rightarrow> 0))) (unat current) (unat k))) d0"
proof -
  have "query_checkpoint EVENTS_TABLE d0 =
      (Ok (case db_checkpoints d EVENTS_TABLE of Some (Some n) \<Rightarrow> n | _ \<Rightarrow> 0), d0)"
    by (auto simp: d0_def create_checkpoint_table_def create_events_table_def query_checkpoint_def
        split: option.splits)
  then show ?thesis using assms(1,2)
    by (simp add: index_events_def db_then_def d0_def create_checkpoint_table_def
        create_events_table_def db_lift_def)
qed

text \<open>
  Rows written by the indexer carry no viewing key, and they replace the stored row. The block of the
  last checkpoint is read again at the next run, so a key that \<open>revoke\<close> had found for an event of that
  block is lost until \<open>revoke\<close> runs again.
\<close>

lemma indexed_rows_have_no_key:
  assumes "row_of (fold replace_row (range_rows FF D S chain start stop) t) h = Some r"
    and "h \<in> ev_tx_hash ` set (range_rows FF D S chain start stop)"
  shows "ev_viewing_key r = None"
proof -
  have "\<forall>r \<in> set (range_rows FF D S chain start stop). ev_viewing_key r = None"
    by (auto simp: range_rows_def log_row_def event_to_row_def List.map_filter_def simp del: upt_Suc
        split: prod.splits)
  moreover have "row_of (fold replace_row rows t) h = Some r \<Longrightarrow> h \<in> ev_tx_hash ` set rows \<Longrightarrow>
      \<forall>r \<in> set rows. ev_viewing_key r = None \<Longrightarrow> ev_viewing_key r = None" for rows
    by (induction rows rule: rev_induct) (auto simp: row_of_replace split: if_splits)
  ultimately show ?thesis using assms by blast
qed

text \<open>After replacing rows in order, a transaction has the last of its rows.\<close>

lemma row_of_fold_replace:
  "row_of (fold replace_row rows t) h =
     (case row_of (rev rows) h of Some r \<Rightarrow> Some r | None \<Rightarrow> row_of t h)"
proof (induction rows rule: rev_induct)
  case Nil
  then show ?case by (simp add: row_of_def)
next
  case (snoc r rows)
  then show ?case by (auto simp: row_of_replace) (auto simp: row_of_def)
qed

lemma last_row_iff:
  "y \<in> set (fold replace_row rows t) \<and> ev_tx_hash y \<in> ev_tx_hash ` set rows \<longleftrightarrow>
     row_of (rev rows) (ev_tx_hash y) = Some y"
proof (induction rows rule: rev_induct)
  case Nil
  then show ?case by (simp add: row_of_def)
next
  case (snoc r rows)
  then show ?case by (auto simp: replace_row_def row_of_def)
qed

lemma rows_kept_iff: "set rows \<subseteq> set (fold replace_row rows t) \<longleftrightarrow> inj_on ev_tx_hash (set rows)"
proof
  assume kept: "set rows \<subseteq> set (fold replace_row rows t)"
  show "inj_on ev_tx_hash (set rows)"
  proof (rule inj_onI)
    fix x y
    assume "x \<in> set rows" "y \<in> set rows" "ev_tx_hash x = ev_tx_hash y"
    have last: "row_of (rev rows) (ev_tx_hash z) = Some z" if "z \<in> set rows" for z
      using that kept last_row_iff [of z rows t] by (meson imageI subsetD)
    from last [OF \<open>x \<in> set rows\<close>] last [OF \<open>y \<in> set rows\<close>] \<open>ev_tx_hash x = ev_tx_hash y\<close> show "x = y" by (metis option.inject)
  qed
next
  assume inj: "inj_on ev_tx_hash (set rows)"
  show "set rows \<subseteq> set (fold replace_row rows t)"
  proof
    fix x
    assume x: "x \<in> set rows"
    then obtain y where y: "row_of (rev rows) (ev_tx_hash x) = Some y"
      by (cases "row_of (rev rows) (ev_tx_hash x)") (auto simp: row_of_None)
    from row_of_SomeD [OF y] have "y \<in> set rows" "ev_tx_hash y = ev_tx_hash x" by simp_all
    with inj x have "y = x" by (auto dest: inj_onD)
    with y last_row_iff [of x rows t] show "x \<in> set (fold replace_row rows t)" by simp
  qed
qed

text \<open>
  C28. Indexing skips no block, and keeps one row per transaction. When the node serves well-formed logs,
  \<open>index_events\<close> succeeds; it creates the tables that are missing and, unless the chain is shorter than the
  start, makes a row of every Shielder event in the blocks from the later of \<open>from_block\<close> and the last
  checkpoint up to the current height, in order, each replacing the row of the same transaction, and
  moves the checkpoint to the current height. A transaction with events in that range thus has the row of
  the last of them; every event has its row exactly when no transaction has two, and the earlier events
  of one that has are lost. Rows of transactions without events in the range stay. A batch size of zero
  panics.
\<close>

theorem index_events_complete:
  fixes d :: ar_db and from_block :: u64 and FF :: "'f field_api"
  assumes "serves_events N a chain" "\<forall>b. \<forall>log \<in> set (chain b). indexable D S log"
    and "an_connect N = Ok ()" "an_get_block_number N = Ok current"
    and "current < 2 ^ 63" "unat current + unat k < 2 ^ 64"
  defines "t \<equiv> case db_events d of Some t \<Rightarrow> t | None \<Rightarrow> []"
    and "seen \<equiv> case db_checkpoints d EVENTS_TABLE of Some (Some n) \<Rightarrow> n | _ \<Rightarrow> 0"
  defines "start \<equiv> max from_block seen"
  defines "rows \<equiv> range_rows FF D S chain (unat start) (unat current)"
  shows "(0 < k \<longrightarrow> start \<le> current \<longrightarrow>
     index_events FF D S N a from_block k d =
       (Ok (), d\<lparr> db_events := Some (fold replace_row rows t),
                  db_checkpoints := (db_checkpoints d)(EVENTS_TABLE \<mapsto> Some current) \<rparr>)) \<and>
     (\<forall>h. row_of (fold replace_row rows t) h =
        (case row_of (rev rows) h of Some r \<Rightarrow> Some r | None \<Rightarrow> row_of t h)) \<and>
     (set rows \<subseteq> set (fold replace_row rows t) \<longleftrightarrow> inj_on ev_tx_hash (set rows)) \<and>
     fst (index_events FF D S N a from_block 0 d) = Panic ''assertion failed: step != 0''"
proof (intro conjI impI)
  define d0 where "d0 = snd (create_checkpoint_table EVENTS_TABLE (snd (create_events_table d)))"
  note run = index_events_run [OF assms(3,4), of FF D S a from_block _ d, folded d0_def seen_def start_def]
  have d0: "db_events d0 = Some t" "db_checkpoints d0 EVENTS_TABLE \<noteq> None"
    by (auto simp: d0_def create_checkpoint_table_def create_events_table_def t_def)
  assume k: "0 < k" and "start \<le> current"
  then have "index_events FF D S N a from_block k d = (Ok (), index_range rows current d0)"
    using index_loop [OF assms(1,2) k assms(5,6), of d0 FF "unat start"] d0
    by (auto simp: run rows_def word_le_nat_alt)
  also have "index_range rows current d0 = d\<lparr> db_events := Some (fold replace_row rows t),
                  db_checkpoints := (db_checkpoints d)(EVENTS_TABLE \<mapsto> Some current) \<rparr>"
    using d0(1) by (auto simp: index_range_def d0_def create_checkpoint_table_def create_events_table_def)
  finally show "index_events FF D S N a from_block k d =
       (Ok (), d\<lparr> db_events := Some (fold replace_row rows t),
                  db_checkpoints := (db_checkpoints d)(EVENTS_TABLE \<mapsto> Some current) \<rparr>)" .
next
  show "fst (index_events FF D S N a from_block 0 d) = Panic ''assertion failed: step != 0''"
    by (simp add: index_events_run [OF assms(3,4)] db_lift_def)
qed (simp_all add: row_of_fold_replace rows_kept_iff)

definition sample_ar_node :: "unit ar_node" where
  "sample_ar_node = \<lparr>
     an_connect = Ok (),
     an_get_block_number = Ok 20,
     an_get_logs = (\<lambda>a f t. Ok (concat (map sample_chain [unat f ..< Suc (unat t)]))),
     an_get_block_by_number = (\<lambda>b. Ok None) \<rparr>"

theorem index_events_complete_witness:
  "index_events Fr scan_abi sample_signatures sample_ar_node 5 0 4 db_empty =
     (Ok (), \<lparr> db_events = Some [event_to_row Fr (DepositEvent referred_deposit) 55 9],
               db_checkpoints = [EVENTS_TABLE \<mapsto> Some 20], db_viewing_keys = None \<rparr>)"
proof -
  have served: "serves_events sample_ar_node 5 sample_chain"
    by (simp add: serves_events_def sample_ar_node_def)
  have ok: "\<forall>b. \<forall>log \<in> set (sample_chain b). indexable scan_abi sample_signatures log"
    by (simp add: sample_chain_def indexable_def log_event_def scan_abi_def sample_signatures_def)
  have node: "an_connect sample_ar_node = Ok ()" "an_get_block_number sample_ar_node = Ok 20"
    by (simp_all add: sample_ar_node_def)
  have "concat (map sample_chain [0 ..< Suc 20]) =
      [\<lparr> log_transaction_hash = Some 55, log_data = (), log_block_number = Some 9, log_topic0 = Some 102 \<rparr>]"
    by code_simp
  then have "range_rows Fr scan_abi sample_signatures sample_chain 0 20 =
      [event_to_row Fr (DepositEvent referred_deposit) 55 9]"
    by (simp add: range_rows_def map_filter_simps log_row_def log_event_def
        scan_abi_def sample_signatures_def del: upt_Suc)
  then show ?thesis
    using index_events_complete [OF served ok node, where k = 4 and d = db_empty and from_block = 0 and FF = Fr]
    by (simp add: db_empty_def replace_row_def)
qed

end
