(* ===== verification/ArKeys.thy ===== *)
theory ArKeys
  imports ArCli Files
begin

text \<open>
  The command line of \<open>ar-cli\<close>: key generation from a seed or a mnemonic phrase (\<open>generate.rs\<close>), the
  inspection of phrases and public keys (\<open>inspect.rs\<close>), the parsing of hexadecimal arguments and the
  subcommands (\<open>cli.rs\<close>), and the dispatch of \<open>main.rs\<close> over files, terminal and databases.

  The state is explicit: the file system, the lines printed to the terminal and the databases by path
  (a database that does not exist yet is empty when it is opened). Key derivation (\<open>bip39\<close>,
  \<open>keccak256\<close>, \<open>ChaCha12Rng\<close>, \<open>generate_keys\<close>) and the hexadecimal codec come from other packages and
  are parameters; what the theorems rely on is that the codec inverts itself and that a scalar of
  Grumpkin is read back from its canonical representation. Log lines are not modelled.
\<close>

section \<open>World and parameters\<close>

datatype terminal_line =
    LineMnemonicPhrase string
  | LineSeedBytes string
  | LinePublicKey string
  | LineKeyPairFiles string
  | LineEnterMnemonic
  | LinePublicKeyValid
  | LineArPublicKey string string
  | LineDecimalCoordinates u256 u256

record ar_world =
  aw_files :: file_system
  aw_terminal :: "terminal_line list"
  aw_dbs :: "string \<Rightarrow> ar_db"

type_synonym 'a world_op = "ar_world \<Rightarrow> ('a, ar_error) result \<times> ar_world"

record ('s, 'p, 'm, 'g) ar_key_api =
  ka_phrase :: "'m \<Rightarrow> string"
  ka_from_phrase :: "string \<Rightarrow> ('m, string) result"
  ka_seed_new :: "'m \<Rightarrow> string \<Rightarrow> bytes"
  ka_keccak256 :: "bytes \<Rightarrow> bytes"
  ka_from_seed :: "bytes \<Rightarrow> 'g"
  ka_generate_keys :: "'g \<Rightarrow> 's \<times> 'p"
  ka_hex_encode :: "bytes \<Rightarrow> string"
  ka_hex_decode :: "string \<Rightarrow> nat \<Rightarrow> bytes option"

definition w_lift :: "('a, ar_error) result \<Rightarrow> 'a world_op" where
  "w_lift r w = (r, w)"

definition w_then :: "'a world_op \<Rightarrow> ('a \<Rightarrow> 'b world_op) \<Rightarrow> 'b world_op" where
  "w_then m f w =
     (case m w of
        (Ok x, w') \<Rightarrow> f x w'
      | (Err e, w') \<Rightarrow> (Err e, w')
      | (Panic p, w') \<Rightarrow> (Panic p, w'))"

definition println :: "terminal_line \<Rightarrow> unit world_op" where
  "println line w = (Ok (), w\<lparr> aw_terminal := aw_terminal w @ [line] \<rparr>)"

definition on_db :: "string \<Rightarrow> 'a db_op \<Rightarrow> 'a world_op" where
  "on_db path op w =
     (case op (aw_dbs w path) of (r, d) \<Rightarrow> (r, w\<lparr> aw_dbs := (aw_dbs w)(path := d) \<rparr>))"

lemma w_then_lift [simp]: "w_then (w_lift (Ok x)) f = f x"
  "w_then (w_lift (Err e)) f = w_lift (Err e)"
  "w_then (w_lift (Panic p)) f = w_lift (Panic p)"
  by (simp_all add: w_then_def w_lift_def fun_eq_iff)

lemma w_then_println [simp]:
  "w_then (println line) f w = f () (w\<lparr> aw_terminal := aw_terminal w @ [line] \<rparr>)"
  by (simp add: w_then_def println_def)

section \<open>Keys\<close>

definition mnemonic_to_seed :: "('s, 'p, 'm, 'g) ar_key_api \<Rightarrow> 'm \<Rightarrow> bytes" where
  "mnemonic_to_seed K mnemonic = ka_keccak256 K (ka_seed_new K mnemonic '''')"

definition seed_to_keypair :: "('s, 'p, 'm, 'g) ar_key_api \<Rightarrow> bytes \<Rightarrow> 's \<times> 'p" where
  "seed_to_keypair K seed = ka_generate_keys K (ka_from_seed K seed)"

definition spit :: "string \<Rightarrow> string \<Rightarrow> bytes \<Rightarrow> unit world_op" where
  "spit dir filename content w =
     (case fs_write (dir @ ''/'' @ filename) content (aw_files w) of
        Ok files \<Rightarrow> (Ok (), w\<lparr> aw_files := files \<rparr>)
      | Err e \<Rightarrow> (Err (ARKeyRead e), w)
      | Panic p \<Rightarrow> (Panic p, w))"

text \<open>\<open>FF\<close> is the field of the coordinates, \<open>G\<close> the field of the private key.\<close>

definition run_inner ::
  "('s, 'p, 'm, 'g) ar_key_api \<Rightarrow> 'f field_api \<Rightarrow> 's field_api \<Rightarrow> ('f, 's, 'p) curve_api \<Rightarrow> bytes
     \<Rightarrow> string option \<Rightarrow> unit world_op" where
  "run_inner K FF G C seed dir =
     (case seed_to_keypair K seed of (private_key, public_key) \<Rightarrow>
        let public_key_bytes = serialize_pub_key FF C public_key;
            hex_pub_key = ka_hex_encode K public_key_bytes
        in w_then (println (LinePublicKey hex_pub_key)) (\<lambda>_.
             case dir of
               None \<Rightarrow> w_lift (Ok ())
             | Some dir \<Rightarrow>
                 let private_key_bytes = to_bytes_be G private_key
                 in w_then (spit dir ''private_key.bin'' private_key_bytes) (\<lambda>_.
                    w_then (spit dir ''public_key.bin'' public_key_bytes) (\<lambda>_.
                      println (LineKeyPairFiles dir)))))"

definition run_gen_from_seed ::
  "('s, 'p, 'm, 'g) ar_key_api \<Rightarrow> 'f field_api \<Rightarrow> 's field_api \<Rightarrow> ('f, 's, 'p) curve_api \<Rightarrow> bytes
     \<Rightarrow> string \<Rightarrow> unit world_op" where
  "run_gen_from_seed K FF G C seed dir = run_inner K FF G C seed (Some dir)"

text \<open>The fresh phrase that \<open>Mnemonic::new\<close> draws is an argument.\<close>

definition run_gen_mnemonic ::
  "('s, 'p, 'm, 'g) ar_key_api \<Rightarrow> 'f field_api \<Rightarrow> 's field_api \<Rightarrow> ('f, 's, 'p) curve_api \<Rightarrow> 'm
     \<Rightarrow> unit world_op" where
  "run_gen_mnemonic K FF G C mnemonic =
     w_then (println (LineMnemonicPhrase (ka_phrase K mnemonic))) (\<lambda>_.
       let seed_bytes = mnemonic_to_seed K mnemonic
       in w_then (println (LineSeedBytes (ka_hex_encode K seed_bytes))) (\<lambda>_.
            run_inner K FF G C seed_bytes None))"

text \<open>What is typed at the terminal, or the error of reading it, is an argument.\<close>

definition run_mnemonic ::
  "('s, 'p, 'm, 'g) ar_key_api \<Rightarrow> 'f field_api \<Rightarrow> ('f, 's, 'p) curve_api \<Rightarrow> (string, string) result
     \<Rightarrow> unit world_op" where
  "run_mnemonic K FF C typed =
     w_then (println LineEnterMnemonic) (\<lambda>_.
     w_then (w_lift (map_err ARKeyRead typed)) (\<lambda>maybe_mnemonic.
     w_then (w_lift (map_err Mnemonic (ka_from_phrase K maybe_mnemonic))) (\<lambda>mnemonic.
       let seed = mnemonic_to_seed K mnemonic
       in case seed_to_keypair K seed of (private_key, public_key) \<Rightarrow>
            let pub_key = serialize_pub_key FF C public_key
            in w_then (println (LineSeedBytes (ka_hex_encode K seed))) (\<lambda>_.
                 println (LinePublicKey (ka_hex_encode K pub_key))))))"

definition run_pubkey ::
  "('s, 'p, 'm, 'g) ar_key_api \<Rightarrow> 'f field_api \<Rightarrow> ('f, 's, 'p) curve_api \<Rightarrow> bytes \<Rightarrow> unit world_op" where
  "run_pubkey K FF C pk =
     w_then (w_lift (deserialize_pub_key FF C pk)) (\<lambda>deserialized.
       let x = take 32 pk; y = drop 32 pk
       in if \<not> (length x = 32 \<and> length y = 32)
          then w_lift (Panic ''assertion failed: x.len() == 32 && y.len() == 32'')
          else
            w_then (println LinePublicKeyValid) (\<lambda>_.
            w_then (println (LineArPublicKey (ka_hex_encode K x) (ka_hex_encode K y))) (\<lambda>_.
              let P = cv_to_affine C deserialized;
                  x_decimal = field_to_u256 FF (gp_x P);
                  y_decimal = field_to_u256 FF (gp_y P)
              in println (LineDecimalCoordinates x_decimal y_decimal))))"

section \<open>The command line\<close>

definition parse_byte_array :: "('s, 'p, 'm, 'g) ar_key_api \<Rightarrow> nat \<Rightarrow> string \<Rightarrow> (bytes, string) result" where
  "parse_byte_array K n input =
     (let sanitized_input = (if take 2 input = ''0x'' then drop 2 input else input)
      in case ka_hex_decode K sanitized_input n of
           None \<Rightarrow> Err ''Error when parsing input value''
         | Some decoded \<Rightarrow> Ok decoded)"

definition parse_32byte_array :: "('s, 'p, 'm, 'g) ar_key_api \<Rightarrow> string \<Rightarrow> (bytes, string) result" where
  "parse_32byte_array K input = parse_byte_array K 32 input"

definition parse_64byte_array :: "('s, 'p, 'm, 'g) ar_key_api \<Rightarrow> string \<Rightarrow> (bytes, string) result" where
  "parse_64byte_array K input = parse_byte_array K 64 input"

record ar_chain_config =
  cc_shielder_address :: address
  cc_rpc_url :: string
  cc_from_block :: u64

datatype command =
    Generate string bytes
  | InspectMnemonic
  | InspectPubkey bytes
  | GenerateMnemonic
  | IndexEvents ar_chain_config u64 string
  | CollectKeys ar_chain_config string string bool
  | Revoke string
  | Reveal string bytes

text \<open>
  What surrounds a run: the packages, the fresh phrase, the typed line and the node behind a URL, which
  may answer differently at every attempt.
\<close>

record ('f, 's, 'p, 'm, 'g, 'l) ar_env =
  ae_keys :: "('s, 'p, 'm, 'g) ar_key_api"
  ae_field :: "'f field_api"
  ae_scalar :: "'s field_api"
  ae_curve :: "('f, 's, 'p) curve_api"
  ae_abi :: "'l abi"
  ae_signatures :: event_signatures
  ae_fresh_mnemonic :: 'm
  ae_typed :: "(string, string) result"
  ae_node :: "string \<Rightarrow> nat \<Rightarrow> 'l ar_node"

definition with_retries :: "string \<Rightarrow> (nat \<Rightarrow> unit db_op) \<Rightarrow> ar_world
     \<Rightarrow> ((unit, ar_error) result \<times> ar_world) option" where
  "with_retries path op w =
     map_option (\<lambda>(r, d, slept). (r, w\<lparr> aw_dbs := (aw_dbs w)(path := d) \<rparr>))
       (retry_with_backoff op (aw_dbs w path))"

text \<open>\<open>None\<close> when the node limits the rate for ever. Redaction concerns log lines only.\<close>

fun ar_main ::
  "('f, 's, 'p, 'm, 'g, 'l) ar_env \<Rightarrow> command \<Rightarrow> ar_world \<Rightarrow> ((unit, ar_error) result \<times> ar_world) option"
  where
  "ar_main E (Generate dir seed) w =
     Some (run_gen_from_seed (ae_keys E) (ae_field E) (ae_scalar E) (ae_curve E) seed dir w)"
| "ar_main E (InspectPubkey pk) w = Some (run_pubkey (ae_keys E) (ae_field E) (ae_curve E) pk w)"
| "ar_main E InspectMnemonic w =
     Some (run_mnemonic (ae_keys E) (ae_field E) (ae_curve E) (ae_typed E) w)"
| "ar_main E GenerateMnemonic w =
     Some (run_gen_mnemonic (ae_keys E) (ae_field E) (ae_scalar E) (ae_curve E) (ae_fresh_mnemonic E) w)"
| "ar_main E (CollectKeys common db private_key_file redact_sensitive_data) w =
     with_retries db
       (\<lambda>attempt. collect_viewing_keys (ae_field E) (ae_curve E) (ae_abi E)
          (ae_node E (cc_rpc_url common) attempt) (cc_shielder_address common)
          (fs_read (aw_files w) private_key_file) (cc_from_block common)) w"
| "ar_main E (IndexEvents common batch_size db) w =
     with_retries db
       (\<lambda>attempt. index_events (ae_field E) (ae_abi E) (ae_signatures E)
          (ae_node E (cc_rpc_url common) attempt) (cc_shielder_address common)
          (cc_from_block common) batch_size) w"
| "ar_main E (Revoke db) w = Some (on_db db (revoke (ae_field E) (cv_hash (ae_curve E))) w)"
| "ar_main E (Reveal db tx_hash) w =
     Some (on_db db (db_then (reveal (from_be_bytes tx_hash)) (\<lambda>events. db_lift (Ok ()))) w)"

section \<open>Generating keys\<close>

definition private_key_path :: "string \<Rightarrow> string" where
  "private_key_path dir = dir @ ''/private_key.bin''"

definition public_key_path :: "string \<Rightarrow> string" where
  "public_key_path dir = dir @ ''/public_key.bin''"

lemma key_paths_differ: "private_key_path dir \<noteq> public_key_path dir"
  by (simp add: private_key_path_def public_key_path_def)

text \<open>
  The outcomes of \<open>generate\<close>: both files, or an error. When only the second file cannot be written the
  first has been, next to whatever public key was there.
\<close>

lemma generate_outcomes:
  fixes w :: ar_world and K :: "('s, 'p, 'm, 'g) ar_key_api" and FF :: "'f field_api" and C :: "('f, 's, 'p) curve_api"
    and G :: "'s field_api" and dir :: string
  assumes "seed_to_keypair K seed = (private_key, public_key)"
  defines "pk \<equiv> serialize_pub_key FF C public_key"
    and "ro \<equiv> fs_read_only (aw_files w)" and "files \<equiv> fs_files (aw_files w)"
  defines "files1 \<equiv> files(private_key_path dir \<mapsto> to_bytes_be G private_key)"
  defines "said \<equiv> aw_terminal w @ [LinePublicKey (ka_hex_encode K pk)]"
  shows "run_gen_from_seed K FF G C seed dir w =
    (if ro (private_key_path dir)
     then (Err (ARKeyRead ''Permission denied''), w\<lparr> aw_terminal := said \<rparr>)
     else if ro (public_key_path dir)
     then (Err (ARKeyRead ''Permission denied''),
           w\<lparr> aw_files := (aw_files w)\<lparr> fs_files := files1 \<rparr>, aw_terminal := said \<rparr>)
     else (Ok (), w\<lparr> aw_files := (aw_files w)\<lparr> fs_files := files1(public_key_path dir \<mapsto> pk) \<rparr>,
                     aw_terminal := said @ [LineKeyPairFiles dir] \<rparr>))"
  by (simp add: run_gen_from_seed_def run_inner_def Let_def w_then_def spit_def fs_write_def println_def
      private_key_path_def public_key_path_def assms)

text \<open>A phrase that is typed again gives the seed and the public key that were printed with it.\<close>

lemma mnemonic_recovers_keys:
  fixes K :: "('s, 'p, 'm, 'g) ar_key_api" and FF :: "'f field_api" and C :: "('f, 's, 'p) curve_api"
  assumes "ka_from_phrase K (ka_phrase K mnemonic) = Ok mnemonic"
  defines "seed \<equiv> mnemonic_to_seed K mnemonic"
  defines "pk \<equiv> serialize_pub_key FF C (snd (seed_to_keypair K seed))"
  defines "keys \<equiv> [LineSeedBytes (ka_hex_encode K seed), LinePublicKey (ka_hex_encode K pk)]"
  shows "run_gen_mnemonic K FF G C mnemonic w =
      (Ok (), w\<lparr> aw_terminal := aw_terminal w @ LineMnemonicPhrase (ka_phrase K mnemonic) # keys \<rparr>)"
    and "run_mnemonic K FF C (Ok (ka_phrase K mnemonic)) w =
      (Ok (), w\<lparr> aw_terminal := aw_terminal w @ LineEnterMnemonic # keys \<rparr>)"
  by (simp_all add: run_gen_mnemonic_def run_inner_def run_mnemonic_def assms w_lift_def println_def
      Let_def split: prod.splits)

text \<open>What is printed in hexadecimal, with or without its prefix, is read back.\<close>

lemma parse_printed_bytes:
  assumes "ka_hex_decode K (ka_hex_encode K bs) n = Some bs" "take 2 (ka_hex_encode K bs) \<noteq> ''0x''"
  shows "parse_byte_array K n (ka_hex_encode K bs) = Ok bs"
    and "parse_byte_array K n (''0x'' @ ka_hex_encode K bs) = Ok bs"
  using assms by (simp_all add: parse_byte_array_def)

section \<open>Collecting viewing keys\<close>

definition replace_key :: "bytes \<Rightarrow> bytes list \<Rightarrow> bytes list" where
  "replace_key k t = filter (\<lambda>k'. k' \<noteq> k) t @ [k]"

lemma set_fold_replace_key: "set (fold replace_key ks t) = set t \<union> set ks"
  by (induction ks arbitrary: t) (auto simp: replace_key_def)

lemma distinct_fold_replace_key: "distinct t \<Longrightarrow> distinct (fold replace_key ks t)"
  by (induction ks arbitrary: t) (auto simp: replace_key_def)

text \<open>The viewing key that a ciphertext holds, and those of the calls of a transaction.\<close>

definition decrypted_key ::
  "'f field_api \<Rightarrow> ('f, 's, 'p) curve_api \<Rightarrow> 's \<Rightarrow> u256 \<Rightarrow> u256 \<Rightarrow> u256 \<Rightarrow> u256 \<Rightarrow> bytes" where
  "decrypted_key FF C private_key c1x c1y c2x c2y =
     field_to_bytes FF (gp_x (cv_to_affine C (cv_decrypt C
       (cv_of_affine C \<lparr> gp_x = u256_to_field FF c1x, gp_y = u256_to_field FF c1y \<rparr>)
       (cv_of_affine C \<lparr> gp_x = u256_to_field FF c2x, gp_y = u256_to_field FF c2y \<rparr>) private_key)))"

definition keys_of_tx ::
  "'f field_api \<Rightarrow> ('f, 's, 'p) curve_api \<Rightarrow> 'l abi \<Rightarrow> address \<Rightarrow> 's \<Rightarrow> ar_tx \<Rightarrow> bytes list" where
  "keys_of_tx FF C D shielder private_key tx =
     (if at_to tx \<noteq> Some shielder then []
      else (case abi_newAccountNative D (at_input tx) of None \<Rightarrow> []
            | Some c \<Rightarrow> [decrypted_key FF C private_key (nan_symKeyEncryptionC1X c) (nan_symKeyEncryptionC1Y c)
                          (nan_symKeyEncryptionC2X c) (nan_symKeyEncryptionC2Y c)]) @
           (case abi_newAccountERC20 D (at_input tx) of None \<Rightarrow> []
            | Some c \<Rightarrow> [decrypted_key FF C private_key (nae_symKeyEncryptionC1X c) (nae_symKeyEncryptionC1Y c)
                          (nae_symKeyEncryptionC2X c) (nae_symKeyEncryptionC2Y c)]))"

definition add_keys :: "bytes list \<Rightarrow> ar_db \<Rightarrow> ar_db" where
  "add_keys ks d = d\<lparr> db_viewing_keys := map_option (fold replace_key ks) (db_viewing_keys d) \<rparr>"

lemma add_keys_simps [simp]:
  "db_viewing_keys (add_keys ks d) = None \<longleftrightarrow> db_viewing_keys d = None"
  "db_checkpoints (add_keys ks d) = db_checkpoints d"
  "add_keys [] d = d"
  by (simp_all add: add_keys_def option.map_id)

lemma add_keys_append: "add_keys (ks @ ks') d = add_keys ks' (add_keys ks d)"
  by (simp add: add_keys_def option.map_comp comp_def)

lemma add_keys_two: "add_keys [k, k'] d = add_keys [k'] (add_keys [k] d)"
  using add_keys_append [of "[k]" "[k']"] by simp

lemma decode_and_persist_adds:
  assumes "db_viewing_keys d \<noteq> None"
  shows "decode_and_persist FF C c1x c1y c2x c2y private_key d =
     (Ok (), add_keys [decrypted_key FF C private_key c1x c1y c2x c2y] d)"
  using assms by (auto simp: decode_and_persist_def upsert_viewing_key_def decrypted_key_def add_keys_def
      replace_key_def Let_def)

lemma collect_from_tx_adds:
  assumes "db_viewing_keys d \<noteq> None"
  shows "collect_from_tx FF C D a sk tx d = (Ok (), add_keys (keys_of_tx FF C D a sk tx) d)"
  using assms
  by (simp add: collect_from_tx_def keys_of_tx_def db_then_def db_lift_def decode_and_persist_adds
      add_keys_two split: option.splits)

lemma db_for_adds:
  assumes "db_viewing_keys d \<noteq> None" "\<forall>x. \<forall>d. db_viewing_keys d \<noteq> None \<longrightarrow> f x d = (Ok (), add_keys (ks x) d)"
  shows "db_for f xs d = (Ok (), add_keys (concat (map ks xs)) d)"
  using assms(1) assms(2)
  by (induction xs arbitrary: d) (simp_all add: db_lift_def db_then_def add_keys_append del: not_None_eq)

text \<open>A node that serves the transactions \<open>chain b\<close> of every block \<open>b\<close>.\<close>

definition serves_blocks :: "'l ar_node \<Rightarrow> (nat \<Rightarrow> ar_tx list) \<Rightarrow> bool" where
  "serves_blocks N chain \<longleftrightarrow> (\<forall>b. an_get_block_by_number N b = Ok (Some (Some (chain (unat b)))))"

definition chain_keys ::
  "'f field_api \<Rightarrow> ('f, 's, 'p) curve_api \<Rightarrow> 'l abi \<Rightarrow> address \<Rightarrow> 's \<Rightarrow> (nat \<Rightarrow> ar_tx list)
     \<Rightarrow> nat \<Rightarrow> nat \<Rightarrow> bytes list" where
  "chain_keys FF C D a sk chain start stop =
     concat (map (keys_of_tx FF C D a sk) (concat (map chain [start ..< Suc stop])))"

lemma chain_keys_Suc:
  "start \<le> Suc stop \<Longrightarrow> chain_keys FF C D a sk chain start (Suc stop) =
     chain_keys FF C D a sk chain start stop @ concat (map (keys_of_tx FF C D a sk) (chain (Suc stop)))"
  by (simp add: chain_keys_def)

lemma collect_block_adds:
  assumes "serves_blocks N chain" "db_viewing_keys d \<noteq> None" "db_checkpoints d KEYS_TABLE \<noteq> None"
    and "b < 2 ^ 63"
  shows "collect_block FF C D N a sk b d =
     (Ok (), (add_keys (concat (map (keys_of_tx FF C D a sk) (chain (unat b)))) d)
        \<lparr> db_checkpoints := (db_checkpoints d)(KEYS_TABLE \<mapsto> Some b) \<rparr>)"
proof -
  have "db_for (collect_from_tx FF C D a sk) (chain (unat b)) d =
      (Ok (), add_keys (concat (map (keys_of_tx FF C D a sk) (chain (unat b)))) d)"
    using assms(2) by (rule db_for_adds) (simp add: collect_from_tx_adds)
  with assms show ?thesis
    by (auto simp: collect_block_def serves_blocks_def db_then_Ok update_checkpoint_def to_sql_def)
qed

lemma collect_loop:
  assumes "serves_blocks N chain" "db_viewing_keys d \<noteq> None" "db_checkpoints d KEYS_TABLE \<noteq> None"
    and "start \<le> stop" "stop < 2 ^ 63"
  shows "db_for (\<lambda>b. collect_block FF C D N a sk (of_nat b)) [start ..< Suc stop] d =
     (Ok (), (add_keys (chain_keys FF C D a sk chain start stop) d)
        \<lparr> db_checkpoints := (db_checkpoints d)(KEYS_TABLE \<mapsto> Some (of_nat stop)) \<rparr>)"
  using assms(4,5)
proof (induction stop rule: dec_induct)
  case base
  then have "unat (of_nat start :: u64) = start" "(of_nat start :: u64) < 2 ^ 63"
    by (simp_all add: unat_of_nat_lt word_less_nat_alt)
  with collect_block_adds [OF assms(1-3), of "of_nat start" FF C D a sk] show ?case
    by (simp add: db_then_def db_lift_def chain_keys_def fun_upd_def)
next
  case (step n)
  then have n: "unat (of_nat (Suc n) :: u64) = Suc n" "(of_nat (Suc n) :: u64) < 2 ^ 63"
    by (simp_all add: unat_of_nat_lt word_less_nat_alt del: of_nat_Suc)
  have split: "[start ..< Suc (Suc n)] = [start ..< Suc n] @ [Suc n]" using step.hyps by simp
  let ?d = "(add_keys (chain_keys FF C D a sk chain start n) d)
        \<lparr> db_checkpoints := (db_checkpoints d)(KEYS_TABLE \<mapsto> Some (of_nat n)) \<rparr>"
  have "db_for (\<lambda>b. collect_block FF C D N a sk (of_nat b)) [start ..< Suc n] d = (Ok (), ?d)"
    using step by (simp add: fun_upd_def)
  moreover have "db_viewing_keys ?d \<noteq> None" "db_checkpoints ?d KEYS_TABLE \<noteq> None"
    using assms(2) by simp_all
  note collect_block_adds [OF assms(1) this n(2), of FF C D a sk]
  ultimately show ?case
    using step.hyps
    by (simp add: split db_for_append db_then_def db_lift_def n(1) chain_keys_Suc add_keys_append
        add_keys_def fun_upd_def option.map_comp cong: if_cong del: upt_Suc of_nat_Suc)
qed

lemma collect_run:
  fixes d :: ar_db and from_block :: u64
  assumes "an_connect N = Ok ()" "an_get_block_number N = Ok current" "serves_blocks N chain" "current < 2 ^ 63"
    and "private_key_bytes file = Ok bs" "cv_scalar_from_bytes C (rev bs) = Some sk"
  defines "t \<equiv> case db_viewing_keys d of Some t \<Rightarrow> t | None \<Rightarrow> []"
    and "seen \<equiv> case db_checkpoints d KEYS_TABLE of Some (Some n) \<Rightarrow> n | _ \<Rightarrow> 0"
  assumes "max from_block seen \<le> current"
  shows "collect_viewing_keys FF C D N a file from_block d =
     (Ok (), d\<lparr> db_viewing_keys := Some (fold replace_key
                  (chain_keys FF C D a sk chain (unat (max from_block seen)) (unat current)) t),
               db_checkpoints := (db_checkpoints d)(KEYS_TABLE \<mapsto> Some current) \<rparr>)"
proof -
  define d0 where "d0 = snd (create_checkpoint_table KEYS_TABLE (snd (create_viewing_keys_table d)))"
  have d0: "db_viewing_keys d0 = Some t" "db_checkpoints d0 KEYS_TABLE \<noteq> None"
    by (auto simp: d0_def create_checkpoint_table_def create_viewing_keys_table_def t_def)
  have "query_checkpoint KEYS_TABLE d0 = (Ok seen, d0)"
    by (auto simp: d0_def create_checkpoint_table_def create_viewing_keys_table_def query_checkpoint_def
        seen_def split: option.splits)
  then have "collect_viewing_keys FF C D N a file from_block d =
      db_for (\<lambda>b. collect_block FF C D N a sk (of_nat b))
        [unat (max from_block seen) ..< Suc (unat current)] d0"
    using assms(1,2,5,6)
    by (simp add: collect_viewing_keys_def db_then_def d0_def create_checkpoint_table_def
        create_viewing_keys_table_def db_lift_def del: upt_Suc)
  also have "\<dots> = (Ok (), (add_keys (chain_keys FF C D a sk chain (unat (max from_block seen)) (unat current)) d0)
      \<lparr> db_checkpoints := (db_checkpoints d0)(KEYS_TABLE \<mapsto> Some (of_nat (unat current))) \<rparr>)"
    using assms(4,9) d0 by (intro collect_loop [OF assms(3)]) (simp_all add: word_le_nat_alt word_less_nat_alt)
  finally show ?thesis
    using d0(1) by (auto simp: add_keys_def d0_def create_checkpoint_table_def create_viewing_keys_table_def)
qed

text \<open>What the circuits package documents of a scalar: a canonical representation of 32 bytes.\<close>

definition scalar_ok :: "'s field_api \<Rightarrow> ('f, 's, 'p) curve_api \<Rightarrow> bool" where
  "scalar_ok G C \<longleftrightarrow>
     (\<forall>s. length (ff_to_repr G s) = 32 \<and> cv_scalar_from_bytes C (ff_to_repr G s) = Some s)"

lemma generated_files:
  fixes w :: ar_world
  assumes "run_gen_from_seed K FF G C seed dir w = (Ok (), w1)"
    and "seed_to_keypair K seed = (private_key, public_key)"
  shows "fs_files (aw_files w1) (private_key_path dir) = Some (to_bytes_be G private_key)"
    and "fs_files (aw_files w1) (public_key_path dir) = Some (serialize_pub_key FF C public_key)"
    and "aw_dbs w1 = aw_dbs w"
  using assms(1) key_paths_differ [of dir]
  by (auto simp: generate_outcomes [OF assms(2)] split: if_splits)

lemma private_key_survives:
  assumes "scalar_ok G C" "file = Ok (to_bytes_be G sk)"
  shows "private_key_bytes file = Ok (to_bytes_be G sk)"
    and "cv_scalar_from_bytes C (rev (to_bytes_be G sk)) = Some sk"
  using assms by (simp_all add: private_key_bytes_def to_bytes_be_def to_bytes_le_def scalar_ok_def)

lemma with_retries_Ok:
  assumes "op 0 (aw_dbs w path) = (Ok (), d)"
  shows "with_retries path op w = Some (Ok (), w\<lparr> aw_dbs := (aw_dbs w)(path := d) \<rparr>)"
  by (simp add: with_retries_def retry_with_backoff_def retry_loop_step assms)

text \<open>
  C27. The keys that \<open>generate\<close> writes are the keys that the revoker works with. After a successful
  \<open>generate\<close> the public key file is accepted by the tool as the public key derived from the seed, and
  \<open>collect-keys\<close> on the private key file decrypts with the private key derived from the seed: it stores
  exactly the viewing key of every new-account call sent to the contract, native or ERC20, in the
  blocks from the later of \<open>from_block\<close> and the last checkpoint up to the current height, beside
  the keys already stored and without duplicates, and moves the checkpoint to the current height.
\<close>

theorem generated_key_collects:
  fixes E :: "(fr, 's, 'p, 'm, 'g, 'l) ar_env" and w w1 :: ar_world and db :: string and common :: ar_chain_config
    and chain :: "nat \<Rightarrow> ar_tx list" and current :: u64
  assumes "curve_ok (ae_curve E)" "scalar_ok (ae_scalar E) (ae_curve E)" "ae_field E = Fr"
    and "seed_to_keypair (ae_keys E) seed = (private_key, public_key)"
    and "ar_main E (Generate dir seed) w = Some (Ok (), w1)"
    and "an_connect (ae_node E (cc_rpc_url common) 0) = Ok ()"
    and "an_get_block_number (ae_node E (cc_rpc_url common) 0) = Ok current"
    and "serves_blocks (ae_node E (cc_rpc_url common) 0) chain" "current < 2 ^ 63"
  defines "d \<equiv> aw_dbs w db"
  defines "t \<equiv> case db_viewing_keys d of Some t \<Rightarrow> t | None \<Rightarrow> []"
    and "seen \<equiv> case db_checkpoints d KEYS_TABLE of Some (Some n) \<Rightarrow> n | _ \<Rightarrow> 0"
  defines "start \<equiv> max (cc_from_block common) seen"
  defines "txs \<equiv> concat (map chain [unat start ..< Suc (unat current)])"
  shows "(\<exists>content. fs_files (aw_files w1) (dir @ ''/public_key.bin'') = Some content \<and>
            deserialize_pub_key Fr (ae_curve E) content = Ok public_key) \<and>
     (start \<le> current \<longrightarrow>
        (\<exists>keys. ar_main E (CollectKeys common db (dir @ ''/private_key.bin'') redact) w1 =
            Some (Ok (), w1\<lparr> aw_dbs := (aw_dbs w1)(db := d\<lparr> db_viewing_keys := Some keys,
              db_checkpoints := (db_checkpoints d)(KEYS_TABLE \<mapsto> Some current) \<rparr>) \<rparr>) \<and>
          set keys = set t \<union>
            (\<Union>tx \<in> set txs. set (keys_of_tx Fr (ae_curve E) (ae_abi E) (cc_shielder_address common) private_key tx)) \<and>
          (distinct t \<longrightarrow> distinct keys)))"
proof (intro conjI impI)
  let ?C = "ae_curve E"
  from assms(3,5) have "run_gen_from_seed (ae_keys E) Fr (ae_scalar E) ?C seed dir w = (Ok (), w1)" by simp
  note files = generated_files [OF this assms(4)]
  have "deserialize_pub_key Fr ?C (serialize_pub_key Fr ?C public_key) = Ok public_key"
    using assms(1) unfolding deserialize_pub_key_iff serialize_pub_key_def curve_ok_def Let_def
    by (intro exI [of _ "cv_to_affine ?C public_key"]) simp
  with files(2) show "\<exists>content. fs_files (aw_files w1) (dir @ ''/public_key.bin'') = Some content \<and>
      deserialize_pub_key Fr ?C content = Ok public_key"
    by (simp add: public_key_path_def)
  assume late: "start \<le> current"
  let ?a = "cc_shielder_address common"
  let ?keys = "fold replace_key (chain_keys Fr ?C (ae_abi E) ?a private_key chain (unat start) (unat current)) t"
  from files(1) have "fs_read (aw_files w1) (dir @ ''/private_key.bin'') = Ok (to_bytes_be (ae_scalar E) private_key)"
    by (simp add: fs_read_def private_key_path_def)
  note key = private_key_survives [OF assms(2) this]
  from collect_run [OF assms(6-9) key, of _ d Fr "ae_abi E" ?a] late
  have "ar_main E (CollectKeys common db (dir @ ''/private_key.bin'') redact) w1 =
      Some (Ok (), w1\<lparr> aw_dbs := (aw_dbs w1)(db := d\<lparr> db_viewing_keys := Some ?keys,
        db_checkpoints := (db_checkpoints d)(KEYS_TABLE \<mapsto> Some current) \<rparr>) \<rparr>)"
    unfolding ar_main.simps
    by (intro with_retries_Ok) (simp add: assms(3) files(3) d_def t_def seen_def start_def)
  moreover have "set ?keys = set t \<union> (\<Union>tx \<in> set txs. set (keys_of_tx Fr ?C (ae_abi E) ?a private_key tx))"
    by (simp add: set_fold_replace_key chain_keys_def txs_def del: upt_Suc)
  ultimately show "\<exists>keys. ar_main E (CollectKeys common db (dir @ ''/private_key.bin'') redact) w1 =
            Some (Ok (), w1\<lparr> aw_dbs := (aw_dbs w1)(db := d\<lparr> db_viewing_keys := Some keys,
              db_checkpoints := (db_checkpoints d)(KEYS_TABLE \<mapsto> Some current) \<rparr>) \<rparr>) \<and>
          set keys = set t \<union>
            (\<Union>tx \<in> set txs. set (keys_of_tx Fr ?C (ae_abi E) ?a private_key tx)) \<and>
          (distinct t \<longrightarrow> distinct keys)"
    using distinct_fold_replace_key by blast
qed

text \<open>A tool whose chain has one new account, in block 3, and a call to another contract.\<close>

definition revoker_keys :: "(fr, unit, unit, bytes) ar_key_api" where
  "revoker_keys = \<lparr> ka_phrase = (\<lambda>_. ''phrase''), ka_from_phrase = (\<lambda>_. Ok ()),
     ka_seed_new = (\<lambda>_ _. replicate 64 0), ka_keccak256 = (\<lambda>bs. take 32 bs), ka_from_seed = (\<lambda>seed. seed),
     ka_generate_keys = (\<lambda>g. (fr_of_nat (le_nat g), ())), ka_hex_encode = (\<lambda>_. ''00''),
     ka_hex_decode = (\<lambda>_ n. Some (replicate n 0)) \<rparr>"

definition revoker_curve :: "(fr, fr, unit) curve_api" where
  "revoker_curve = \<lparr>
     cv_mul = cv_mul sample_curve, cv_sub = cv_sub sample_curve, cv_from = cv_from sample_curve,
     cv_to_affine = cv_to_affine sample_curve, cv_of_affine = (\<lambda>_. ()),
     cv_scalar_from_bytes = ff_from_repr Fr, cv_decrypt = (\<lambda>_ _ _. ()), cv_hash = cv_hash sample_curve \<rparr>"

definition revoker_call :: newAccountNativeCall where
  "revoker_call = \<lparr> nan_expectedContractVersion = (0, 1, 1), nan_newNote = 1, nan_prenullifier = 42,
     nan_symKeyEncryptionC1X = 2, nan_symKeyEncryptionC1Y = 3, nan_symKeyEncryptionC2X = 4,
     nan_symKeyEncryptionC2Y = 5, nan_macSalt = 6, nan_macCommitment = 7, nan_proof = [], nan_memo = [] \<rparr>"

definition revoker_chain :: "nat \<Rightarrow> ar_tx list" where
  "revoker_chain b =
     (if b = 3 then [\<lparr> at_to = Some 5, at_input = [1] \<rparr>, \<lparr> at_to = Some 6, at_input = [1] \<rparr>] else [])"

definition revoker_env :: "(fr, fr, unit, unit, bytes, unit) ar_env" where
  "revoker_env = \<lparr> ae_keys = revoker_keys, ae_field = Fr, ae_scalar = Fr, ae_curve = revoker_curve,
     ae_abi = scan_abi\<lparr> abi_newAccountNative := (\<lambda>bs. if bs = [1] then Some revoker_call else None) \<rparr>,
     ae_signatures = sample_signatures, ae_fresh_mnemonic = (), ae_typed = Ok '''',
     ae_node = (\<lambda>url n. \<lparr> an_connect = Ok (), an_get_block_number = Ok 4, an_get_logs = (\<lambda>a f t. Ok []),
        an_get_block_by_number = (\<lambda>b. Ok (Some (Some (revoker_chain (unat b))))) \<rparr>) \<rparr>"

definition revoker_world :: ar_world where
  "revoker_world = \<lparr> aw_files = \<lparr> fs_files = Map.empty, fs_read_only = (\<lambda>_. False), fs_no_parent = (\<lambda>_. False) \<rparr>,
     aw_terminal = [], aw_dbs = (\<lambda>_. db_empty) \<rparr>"

definition revoker_config :: ar_chain_config where
  "revoker_config = \<lparr> cc_shielder_address = 5, cc_rpc_url = ''http://localhost:8545'', cc_from_block = 1 \<rparr>"

lemma revoker_curve_ok: "curve_ok revoker_curve" "scalar_ok Fr revoker_curve"
proof -
  show "curve_ok revoker_curve"
    using sample_curve_ok by (simp add: curve_ok_def on_curve_def revoker_curve_def sample_curve_def)
  have "length (ff_to_repr Fr s) = 32 \<and> ff_from_repr Fr (ff_to_repr Fr s) = Some s" for s
    using bn254.from_repr [of "ff_to_repr Fr s" s] bn254.le_nat_to_repr [of s] by (simp add: Fr_def)
  then show "scalar_ok Fr revoker_curve" by (simp add: scalar_ok_def revoker_curve_def)
qed

theorem generated_key_collects_witness:
  "\<exists>w1 w2. ar_main revoker_env (Generate ''keys'' (replicate 32 7)) revoker_world = Some (Ok (), w1) \<and>
     ar_main revoker_env (CollectKeys revoker_config ''ar_db.db3'' ''keys/private_key.bin'' True) w1 =
       Some (Ok (), w2) \<and>
     db_viewing_keys (aw_dbs w2 ''ar_db.db3'') = Some [1 # replicate 31 0] \<and>
     db_checkpoints (aw_dbs w2 ''ar_db.db3'') KEYS_TABLE = Some (Some 4)"
proof -
  let ?sk = "fr_of_nat (le_nat (replicate 32 7))"
  have pair: "seed_to_keypair (ae_keys revoker_env) (replicate 32 7) = (?sk, ())"
    by (simp add: seed_to_keypair_def revoker_env_def revoker_keys_def)
  have "\<exists>w1. ar_main revoker_env (Generate ''keys'' (replicate 32 7)) revoker_world = Some (Ok (), w1)"
    by (simp add: generate_outcomes [OF pair] revoker_world_def)
  then obtain w1 where w1: "ar_main revoker_env (Generate ''keys'' (replicate 32 7)) revoker_world = Some (Ok (), w1)" ..
  have env: "curve_ok (ae_curve revoker_env)" "scalar_ok (ae_scalar revoker_env) (ae_curve revoker_env)"
    "ae_field revoker_env = Fr"
    "an_connect (ae_node revoker_env (cc_rpc_url revoker_config) 0) = Ok ()"
    "an_get_block_number (ae_node revoker_env (cc_rpc_url revoker_config) 0) = Ok 4"
    "serves_blocks (ae_node revoker_env (cc_rpc_url revoker_config) 0) revoker_chain" "(4 :: u64) < 2 ^ 63"
    "aw_dbs revoker_world ''ar_db.db3'' = db_empty"
    using revoker_curve_ok by (simp_all add: revoker_env_def serves_blocks_def revoker_world_def)
  have empty: "db_viewing_keys db_empty = None" "db_checkpoints db_empty KEYS_TABLE = None"
    by (simp_all add: db_empty_def)
  have start: "max (cc_from_block revoker_config) 0 = 1" by (simp add: revoker_config_def)
  have "nat_le 32 1 = (1 # replicate 31 0 :: bytes)" by code_simp
  then have key: "decrypted_key Fr revoker_curve ?sk 2 3 4 5 = 1 # replicate 31 0"
    by (simp add: decrypted_key_def revoker_curve_def sample_curve_def field_to_bytes_def Fr_def fr_modulus_def)
  have chain: "concat (map revoker_chain [unat (1 :: u64) ..< Suc (unat (4 :: u64))]) =
      [\<lparr> at_to = Some 5, at_input = [1] \<rparr>, \<lparr> at_to = Some 6, at_input = [1] \<rparr>]"
    by code_simp
  have keys: "(\<Union>tx \<in> {\<lparr> at_to = Some 5, at_input = [1] \<rparr>, \<lparr> at_to = Some 6, at_input = [1] \<rparr>}.
      set (keys_of_tx Fr (ae_curve revoker_env) (ae_abi revoker_env) (cc_shielder_address revoker_config) ?sk tx)) =
      {1 # replicate 31 0}"
    using key by (simp add: keys_of_tx_def revoker_env_def revoker_config_def scan_abi_def revoker_call_def)
  from generated_key_collects [OF env(1-3) pair w1 env(4-7), of "''ar_db.db3''" True]
  obtain ks where ks: "set ks = {1 # replicate 31 0}" "distinct ks"
    and run: "ar_main revoker_env (CollectKeys revoker_config ''ar_db.db3'' ''keys/private_key.bin'' True) w1 =
      Some (Ok (), w1\<lparr> aw_dbs := (aw_dbs w1)(''ar_db.db3'' := db_empty\<lparr> db_viewing_keys := Some ks,
        db_checkpoints := (db_checkpoints db_empty)(KEYS_TABLE \<mapsto> Some 4) \<rparr>) \<rparr>)"
    unfolding env(8) empty option.case start chain list.set keys by auto
  from ks have "ks = [1 # replicate 31 0]"
    by (metis distinct_card card_1_singleton_iff One_nat_def length_Suc_conv length_0_conv list.set(1,2) singleton_insert_inj_eq')
  with w1 run show ?thesis by auto
qed

end
