(* ===== verification/Fee.thy ===== *)
theory Fee
  imports CallData
begin

text \<open>
  The library part of the crate \<open>shielder-relayer\<close>: tokens with decimals (\<open>token.rs\<close>), the wire types
  of the service (\<open>lib.rs\<close>, \<open>server.rs\<close>) and the fee computation (\<open>fee.rs\<close>). Decimal numbers come
  from another package: they are values of a type \<open>'d\<close> with the operations of \<open>'d decimal_api\<close>, where
  \<open>None\<close> stands for a panic or a failed rounding. The hypothesis \<open>decimal_repr\<close> states the documented
  representation: a mantissa of at most 96 bits and a scale of at most 28.
\<close>

section \<open>Decimal numbers\<close>

record 'd decimal_api =
  dec_mul :: "'d \<Rightarrow> 'd \<Rightarrow> 'd option"
  dec_div :: "'d \<Rightarrow> 'd \<Rightarrow> 'd option"
  dec_from_scale :: "int \<Rightarrow> u32 \<Rightarrow> 'd option"
  dec_round_sf :: "'d \<Rightarrow> u32 \<Rightarrow> 'd option"
  dec_mantissa :: "'d \<Rightarrow> int"
  dec_scale :: "'d \<Rightarrow> u32"

section \<open>Tokens and wire types\<close>

datatype token_kind = NativeKind | ERC20Kind address u32

fun token_of_kind :: "token_kind \<Rightarrow> token" where
  "token_of_kind NativeKind = Native"
| "token_of_kind (ERC20Kind address decimals) = ERC20 address"

datatype 'd price_provider = Url string | Static 'd

record 'd token_info =
  ti_kind :: token_kind
  ti_price_provider :: "'d price_provider"

definition token_decimals :: "'d token_info \<Rightarrow> u32" where
  "token_decimals info = (case ti_kind info of NativeKind \<Rightarrow> 18 | ERC20Kind address decimals \<Rightarrow> decimals)"

datatype status_code = OK_200 | INTERNAL_SERVER_ERROR | BAD_REQUEST | SERVICE_UNAVAILABLE

datatype 'b response = Response status_code "string + 'b"

definition success :: "string \<Rightarrow> 'b response" where
  "success msg = Response OK_200 (Inl msg)"

definition success_response :: "'b \<Rightarrow> 'b response" where
  "success_response r = Response OK_200 (Inr r)"

definition server_error :: "string \<Rightarrow> 'b response" where
  "server_error msg = Response INTERNAL_SERVER_ERROR (Inl msg)"

definition bad_request :: "string \<Rightarrow> 'b response" where
  "bad_request msg = Response BAD_REQUEST (Inl msg)"

definition temporary_failure :: "string \<Rightarrow> 'b response" where
  "temporary_failure msg = Response SERVICE_UNAVAILABLE (Inl msg)"

fun status_of :: "'b response \<Rightarrow> status_code" where
  "status_of (Response c body) = c"

record relay_calldata =
  rc_expected_contract_version :: bytes3
  rc_amount :: u256
  rc_withdraw_address :: address
  rc_merkle_root :: u256
  rc_nullifier_hash :: u256
  rc_new_note :: u256
  rc_proof :: bytes
  rc_fee_token :: token
  rc_fee_amount :: u256
  rc_mac_salt :: u256
  rc_mac_commitment :: u256
  rc_pocket_money :: u256
  rc_memo :: bytes

record 'd relay_quote =
  rq_gas_price :: u256
  rq_native_token_unit_price :: 'd
  rq_fee_token_unit_price :: 'd

record 'd relay_query =
  rqy_calldata :: relay_calldata
  rqy_quote :: "'d relay_quote"

record quote_fee_query =
  qq_fee_token :: token
  qq_pocket_money :: u256

record fee_details =
  fd_total_cost_native :: u256
  fd_total_cost_fee_token :: u256
  fd_relayer_cost_native :: u256
  fd_relayer_cost_fee_token :: u256
  fd_pocket_money_native :: u256
  fd_pocket_money_fee_token :: u256
  fd_gas_cost_native :: u256
  fd_gas_cost_fee_token :: u256
  fd_commission_native :: u256
  fd_commission_fee_token :: u256

record 'd price_details =
  pd_gas_price :: u256
  pd_native_token_price :: 'd
  pd_native_token_unit_price :: 'd
  pd_fee_token_price :: 'd
  pd_fee_token_unit_price :: 'd

record 'd quote_fee_response =
  qr_fee_details :: fee_details
  qr_price_details :: "'d price_details"

definition relay_quote_from :: "'d quote_fee_response \<Rightarrow> 'd relay_quote" where
  "relay_quote_from r = \<lparr>
     rq_gas_price = pd_gas_price (qr_price_details r),
     rq_native_token_unit_price = pd_native_token_unit_price (qr_price_details r),
     rq_fee_token_unit_price = pd_fee_token_unit_price (qr_price_details r) \<rparr>"

section \<open>The fee computation\<close>

definition RELATIVE_PRICE_DIGITS :: u32 where "RELATIVE_PRICE_DIGITS = 20"

definition u256_div :: "u256 \<Rightarrow> u256 \<Rightarrow> (u256, 'e) result" where
  "u256_div a b = (if b = 0 then Panic ''division by zero'' else Ok (a div b))"

text \<open>\<open>U256::try_from\<close> on a signed mantissa fails exactly on negative numbers.\<close>

definition mantissa_to_u256 :: "int \<Rightarrow> u256 option" where
  "mantissa_to_u256 m = (if 0 \<le> m then Some (of_int m) else None)"

definition scale_u256 :: "'d decimal_api \<Rightarrow> u256 \<Rightarrow> 'd \<Rightarrow> (u256, string) result" where
  "scale_u256 D a b =
     and_then (ok_or (dec_round_sf D b RELATIVE_PRICE_DIGITS) ''Arithmetic error'') (\<lambda>b.
     and_then (ok_or (mantissa_to_u256 (dec_mantissa D b)) ''Arithmetic error'') (\<lambda>mantissa.
       (let scale = 10 ^ unat (dec_scale D b)
        in u256_div (a * mantissa) scale)))"

definition compute_fee ::
  "'d decimal_api \<Rightarrow> u256 \<Rightarrow> u64 \<Rightarrow> u256 \<Rightarrow> u32 \<Rightarrow> 'd \<Rightarrow> 'd \<Rightarrow> (fee_details, string) result" where
  "compute_fee D gas_price required_gas pocket_money commission native_token_unit_price fee_token_unit_price =
     (let gas_cost_native = ucast required_gas * gas_price;
          relayer_cost_native = gas_cost_native + pocket_money;
          commission_native = relayer_cost_native * ucast commission div 100;
          total_cost_native = relayer_cost_native + commission_native
      in
      and_then (expect (dec_div D native_token_unit_price fee_token_unit_price) ''Division failed'')
        (\<lambda>native_to_fee_ratio.
      and_then (scale_u256 D total_cost_native native_to_fee_ratio) (\<lambda>total_cost_fee_token.
      and_then (scale_u256 D relayer_cost_native native_to_fee_ratio) (\<lambda>relayer_cost_fee_token.
      and_then (scale_u256 D pocket_money native_to_fee_ratio) (\<lambda>pocket_money_fee_token.
      and_then (scale_u256 D gas_cost_native native_to_fee_ratio) (\<lambda>gas_cost_fee_token.
      and_then (scale_u256 D commission_native native_to_fee_ratio) (\<lambda>commission_fee_token.
      Ok \<lparr>
        fd_total_cost_native = total_cost_native,
        fd_total_cost_fee_token = total_cost_fee_token,
        fd_relayer_cost_native = relayer_cost_native,
        fd_relayer_cost_fee_token = relayer_cost_fee_token,
        fd_pocket_money_native = pocket_money,
        fd_pocket_money_fee_token = pocket_money_fee_token,
        fd_gas_cost_native = gas_cost_native,
        fd_gas_cost_fee_token = gas_cost_fee_token,
        fd_commission_native = commission_native,
        fd_commission_fee_token = commission_fee_token \<rparr>)))))))"

section \<open>Scaling\<close>

definition decimal_repr :: "'d decimal_api \<Rightarrow> bool" where
  "decimal_repr D \<longleftrightarrow> (\<forall>d. \<bar>dec_mantissa D d\<bar> < 2 ^ 96 \<and> unat (dec_scale D d) \<le> 28)"

text \<open>The ideal scaling: multiply by the rounded ratio, round down.\<close>

definition scaled :: "'d decimal_api \<Rightarrow> 'd \<Rightarrow> nat \<Rightarrow> nat" where
  "scaled D b n = n * nat (dec_mantissa D b) div 10 ^ unat (dec_scale D b)"

lemma pow10_u256: "s \<le> 28 \<Longrightarrow> unat (10 ^ s :: u256) = 10 ^ s"
proof -
  assume "s \<le> 28"
  then have "(10 :: nat) ^ s \<le> 10 ^ 28" by (rule power_increasing) simp
  also have "\<dots> < 2 ^ 256" by simp
  finally have lt: "(10 :: nat) ^ s < 2 ^ 256" .
  have "(10 ^ s :: u256) = of_nat (10 ^ s)" by simp
  then show ?thesis using unat_of_nat_256 [OF lt] by simp
qed

lemma scale_u256_no_panic: "decimal_repr D \<Longrightarrow> \<not> is_panic (scale_u256 D a b)"
proof -
  assume r: "decimal_repr D"
  have "(10 ^ unat (dec_scale D d) :: u256) \<noteq> 0" for d
    using pow10_u256 [of "unat (dec_scale D d)"] r
    by (metis decimal_repr_def power_not_zero unsigned_0 zero_neq_numeral)
  then show ?thesis
    by (auto simp: scale_u256_def u256_div_def Let_def mantissa_to_u256_def
        split: option.splits elim!: is_panic.elims) (auto simp: result_simps)
qed

lemma scale_u256_Ok:
  assumes "decimal_repr D" and "scale_u256 D a b = Ok r" and "unat a < 2 ^ 160"
  shows "\<exists>b'. dec_round_sf D b RELATIVE_PRICE_DIGITS = Some b' \<and> 0 \<le> dec_mantissa D b' \<and>
    unat r = scaled D b' (unat a)"
proof -
  from assms(2) obtain b' where b': "dec_round_sf D b RELATIVE_PRICE_DIGITS = Some b'"
    and pos: "0 \<le> dec_mantissa D b'"
    and r: "r = (a * of_int (dec_mantissa D b')) div 10 ^ unat (dec_scale D b')"
    by (auto simp: scale_u256_def result_simps mantissa_to_u256_def u256_div_def Let_def
        split: if_splits)
  let ?m = "nat (dec_mantissa D b')"
  have m: "?m < 2 ^ 96" using assms(1) pos by (simp add: decimal_repr_def nat_less_iff abs_less_iff)
  have "(of_int (dec_mantissa D b') :: u256) = of_nat ?m" using pos by simp
  moreover have "unat (of_nat ?m :: u256) = ?m"
    using m by (intro unat_of_nat_256) simp
  ultimately have um: "unat (of_int (dec_mantissa D b') :: u256) = ?m" by simp
  have "unat a * ?m < 2 ^ 160 * 2 ^ 96" using assms(3) m by (intro mult_strict_mono) simp_all
  then have "unat (a * of_int (dec_mantissa D b')) = unat a * ?m"
    using unat_mult_lt [of a "of_int (dec_mantissa D b')"] by (simp add: um)
  moreover have "unat (10 ^ unat (dec_scale D b') :: u256) = 10 ^ unat (dec_scale D b')"
    using assms(1) by (intro pow10_u256) (simp add: decimal_repr_def)
  ultimately have "unat r = scaled D b' (unat a)" by (simp add: r unat_div scaled_def)
  with b' pos show ?thesis by blast
qed

lemma div_add_bounds:
  fixes x y d :: nat
  assumes "0 < d"
  shows "x div d + y div d \<le> (x + y) div d" "(x + y) div d \<le> x div d + y div d + 1"
proof -
  have "(x + y) div d = x div d + y div d + (x mod d + y mod d) div d"
    by (rule div_add1_eq)
  moreover have "x mod d + y mod d < 2 * d"
    using mod_less_divisor [OF assms, of x] mod_less_divisor [OF assms, of y] by linarith
  then have "(x mod d + y mod d) div d < 2" using assms by (simp add: div_less_iff_less_mult)
  ultimately show "x div d + y div d \<le> (x + y) div d" "(x + y) div d \<le> x div d + y div d + 1"
    by simp_all
qed

lemma scaled_add:
  "scaled D b x + scaled D b y \<le> scaled D b (x + y)"
  "scaled D b (x + y) \<le> scaled D b x + scaled D b y + 1"
  unfolding scaled_def distrib_right by (rule div_add_bounds, simp)+

lemma scaled_mono: "x \<le> y \<Longrightarrow> scaled D b x \<le> scaled D b y"
  unfolding scaled_def by (intro div_le_mono mult_le_mono1)

section \<open>Native costs\<close>

text \<open>The specification of the costs, over the naturals.\<close>

definition gas_cost :: "u256 \<Rightarrow> u64 \<Rightarrow> nat" where
  "gas_cost gas_price required_gas = unat required_gas * unat gas_price"

definition relayer_cost :: "u256 \<Rightarrow> u64 \<Rightarrow> u256 \<Rightarrow> nat" where
  "relayer_cost gas_price required_gas pocket_money = gas_cost gas_price required_gas + unat pocket_money"

definition commission_cost :: "u256 \<Rightarrow> u64 \<Rightarrow> u256 \<Rightarrow> u32 \<Rightarrow> nat" where
  "commission_cost gas_price required_gas pocket_money commission =
     relayer_cost gas_price required_gas pocket_money * unat commission div 100"

definition total_cost :: "u256 \<Rightarrow> u64 \<Rightarrow> u256 \<Rightarrow> u32 \<Rightarrow> nat" where
  "total_cost gas_price required_gas pocket_money commission =
     relayer_cost gas_price required_gas pocket_money +
     commission_cost gas_price required_gas pocket_money commission"

lemmas cost_defs = gas_cost_def relayer_cost_def commission_cost_def total_cost_def

lemma unat_ucast_up: "LENGTH('a::len) \<le> LENGTH('b::len) \<Longrightarrow> unat (ucast (w :: 'a word) :: 'b word) = unat w"
  by (simp add: unsigned_ucast_eq take_bit_nat_eq_self less_le_trans [OF unat_lt_pow])

lemma native_costs:
  assumes "total_cost gas_price gas pm commission < 2 ^ 160"
  shows "unat (ucast gas * gas_price :: u256) = gas_cost gas_price gas" (is ?g)
    and "unat (ucast gas * gas_price + pm) = relayer_cost gas_price gas pm" (is ?r)
    and "unat ((ucast gas * gas_price + pm) * ucast commission div 100) =
      commission_cost gas_price gas pm commission" (is ?c)
    and "unat (ucast gas * gas_price + pm + (ucast gas * gas_price + pm) * ucast commission div 100) =
      total_cost gas_price gas pm commission" (is ?t)
proof -
  have r: "relayer_cost gas_price gas pm < 2 ^ 160"
    and g: "unat gas * unat gas_price + unat pm < 2 ^ 160"
    using assms by (simp_all add: cost_defs)
  have gl: "unat (ucast gas :: u256) * unat gas_price < 2 ^ LENGTH(256)"
    using g by (simp add: unat_ucast_up)
  show G: ?g using unat_mult_lt [OF gl] by (simp add: unat_ucast_up gas_cost_def)
  have "unat (ucast gas * gas_price :: u256) + unat pm < 2 ^ LENGTH(256)"
    using r G by (simp add: relayer_cost_def)
  from unat_add_lt [OF this] show R: ?r using G by (simp add: relayer_cost_def)
  have "unat commission < 2 ^ 32" using unat_lt_pow [of commission] by simp
  with r have "relayer_cost gas_price gas pm * unat commission < 2 ^ 160 * 2 ^ 32"
    by (intro mult_strict_mono) simp_all
  then have "unat (ucast gas * gas_price + pm) * unat (ucast commission :: u256) < 2 ^ LENGTH(256)"
    by (simp add: R unat_ucast_up)
  from unat_mult_lt [OF this] show C: ?c
    by (simp add: unat_div R unat_ucast_up commission_cost_def)
  have "unat (ucast gas * gas_price + pm) +
      unat ((ucast gas * gas_price + pm) * ucast commission div 100) < 2 ^ LENGTH(256)"
    unfolding R C using assms by (simp add: total_cost_def)
  from unat_add_lt [OF this] show ?t unfolding R C by (simp add: total_cost_def)
qed

lemma compute_fee_OkD:
  assumes "compute_fee D gas_price gas pm commission native fee_price = Ok fd"
  obtains ratio where "dec_div D native fee_price = Some ratio"
    and "fd_gas_cost_native fd = ucast gas * gas_price"
    and "fd_pocket_money_native fd = pm"
    and "fd_relayer_cost_native fd = fd_gas_cost_native fd + pm"
    and "fd_commission_native fd = fd_relayer_cost_native fd * ucast commission div 100"
    and "fd_total_cost_native fd = fd_relayer_cost_native fd + fd_commission_native fd"
    and "scale_u256 D (fd_total_cost_native fd) ratio = Ok (fd_total_cost_fee_token fd)"
    and "scale_u256 D (fd_relayer_cost_native fd) ratio = Ok (fd_relayer_cost_fee_token fd)"
    and "scale_u256 D pm ratio = Ok (fd_pocket_money_fee_token fd)"
    and "scale_u256 D (fd_gas_cost_native fd) ratio = Ok (fd_gas_cost_fee_token fd)"
    and "scale_u256 D (fd_commission_native fd) ratio = Ok (fd_commission_fee_token fd)"
  using assms that by (auto simp: compute_fee_def Let_def result_simps)

lemma compute_fee_costs:
  assumes "decimal_repr D"
    and "total_cost gas_price gas pm commission < 2 ^ 160"
    and "compute_fee D gas_price gas pm commission native fee_price = Ok fd"
  shows "unat (fd_gas_cost_native fd) = gas_cost gas_price gas \<and>
    unat (fd_relayer_cost_native fd) = relayer_cost gas_price gas pm \<and>
    unat (fd_commission_native fd) = commission_cost gas_price gas pm commission \<and>
    unat (fd_total_cost_native fd) = total_cost gas_price gas pm commission \<and>
    (\<exists>quotient ratio. dec_div D native fee_price = Some quotient \<and>
      dec_round_sf D quotient RELATIVE_PRICE_DIGITS = Some ratio \<and> 0 \<le> dec_mantissa D ratio \<and>
      unat (fd_gas_cost_fee_token fd) = scaled D ratio (gas_cost gas_price gas) \<and>
      unat (fd_pocket_money_fee_token fd) = scaled D ratio (unat pm) \<and>
      unat (fd_relayer_cost_fee_token fd) = scaled D ratio (relayer_cost gas_price gas pm) \<and>
      unat (fd_commission_fee_token fd) = scaled D ratio (commission_cost gas_price gas pm commission) \<and>
      unat (fd_total_cost_fee_token fd) = scaled D ratio (total_cost gas_price gas pm commission))"
proof -
  from assms(3) obtain q where quotient: "dec_div D native fee_price = Some q"
    and fd: "fd_gas_cost_native fd = ucast gas * gas_price"
    "fd_relayer_cost_native fd = fd_gas_cost_native fd + pm"
    "fd_commission_native fd = fd_relayer_cost_native fd * ucast commission div 100"
    "fd_total_cost_native fd = fd_relayer_cost_native fd + fd_commission_native fd"
    and sc: "scale_u256 D (fd_total_cost_native fd) q = Ok (fd_total_cost_fee_token fd)"
    "scale_u256 D (fd_relayer_cost_native fd) q = Ok (fd_relayer_cost_fee_token fd)"
    "scale_u256 D pm q = Ok (fd_pocket_money_fee_token fd)"
    "scale_u256 D (fd_gas_cost_native fd) q = Ok (fd_gas_cost_fee_token fd)"
    "scale_u256 D (fd_commission_native fd) q = Ok (fd_commission_fee_token fd)"
    by (rule compute_fee_OkD)
  have native: "unat (fd_gas_cost_native fd) = gas_cost gas_price gas"
    "unat (fd_relayer_cost_native fd) = relayer_cost gas_price gas pm"
    "unat (fd_commission_native fd) = commission_cost gas_price gas pm commission"
    "unat (fd_total_cost_native fd) = total_cost gas_price gas pm commission"
    unfolding fd by (rule native_costs [OF assms(2)])+
  have small: "gas_cost gas_price gas < 2 ^ 160" "relayer_cost gas_price gas pm < 2 ^ 160"
    "unat pm < 2 ^ 160" "commission_cost gas_price gas pm commission < 2 ^ 160"
    using assms(2) unfolding total_cost_def relayer_cost_def by linarith+
  note ok = scale_u256_Ok [OF assms(1)]
  from ok [OF sc(3) small(3)] obtain ratio where ratio: "dec_round_sf D q RELATIVE_PRICE_DIGITS = Some ratio"
    "0 \<le> dec_mantissa D ratio" by blast
  have scaled_by: "unat r = scaled D ratio (unat a)" if "scale_u256 D a q = Ok r" "unat a < 2 ^ 160" for a r
    using ok [OF that] ratio(1) by auto
  show ?thesis
    using quotient ratio native scaled_by [OF sc(1)] scaled_by [OF sc(2)] scaled_by [OF sc(3)] scaled_by [OF sc(4)]
      scaled_by [OF sc(5)] small assms(2) by auto
qed

section \<open>Properties\<close>

text \<open>
  C31. A fee that does not overflow is exact: the native costs are gas times price, plus pocket money,
  plus the commission percentage rounded down; every cost in the fee token is the native cost times
  the ratio of the two unit prices, native by fee token, rounded to 20 significant digits, and then
  rounded down. The ratio is the same for all costs and not negative.
\<close>

theorem compute_fee_exact:
  assumes "decimal_repr D"
    and "total_cost gas_price gas pm commission < 2 ^ 160"
    and "compute_fee D gas_price gas pm commission native fee_price = Ok fd"
  shows "unat (fd_gas_cost_native fd) = gas_cost gas_price gas \<and>
    unat (fd_relayer_cost_native fd) = relayer_cost gas_price gas pm \<and>
    unat (fd_commission_native fd) = commission_cost gas_price gas pm commission \<and>
    unat (fd_total_cost_native fd) = total_cost gas_price gas pm commission \<and>
    (\<exists>quotient ratio. dec_div D native fee_price = Some quotient \<and>
      dec_round_sf D quotient RELATIVE_PRICE_DIGITS = Some ratio \<and> 0 \<le> dec_mantissa D ratio \<and>
      unat (fd_gas_cost_fee_token fd) = scaled D ratio (gas_cost gas_price gas) \<and>
      unat (fd_pocket_money_fee_token fd) = scaled D ratio (unat pm) \<and>
      unat (fd_relayer_cost_fee_token fd) = scaled D ratio (relayer_cost gas_price gas pm) \<and>
      unat (fd_commission_fee_token fd) = scaled D ratio (commission_cost gas_price gas pm commission) \<and>
      unat (fd_total_cost_fee_token fd) = scaled D ratio (total_cost gas_price gas pm commission))"
  by (rule compute_fee_costs [OF assms])

text \<open>Fixed-point numbers with two decimals, a decimal type with the documented representation.\<close>

definition cents :: "u64 decimal_api" where
  "cents = \<lparr>
     dec_mul = (\<lambda>a b. Some (of_nat (unat a * unat b div 100))),
     dec_div = (\<lambda>a b. if b = 0 then None else Some (of_nat (unat a * 100 div unat b))),
     dec_from_scale = (\<lambda>m s. if unat s \<le> 2 then Some (of_int (m * 10 ^ (2 - unat s))) else Some 0),
     dec_round_sf = (\<lambda>d n. Some d),
     dec_mantissa = (\<lambda>d. uint d),
     dec_scale = (\<lambda>d. 2) \<rparr>"

lemma decimal_repr_cents: "decimal_repr cents"
proof -
  have "uint (d :: u64) < 2 ^ 96" for d using uint_lt2p [of d] by (rule less_trans) simp
  then show ?thesis by (simp add: decimal_repr_def cents_def)
qed

definition sample_fee :: fee_details where
  "sample_fee = \<lparr> fd_total_cost_native = 2310, fd_total_cost_fee_token = 1155,
     fd_relayer_cost_native = 2100, fd_relayer_cost_fee_token = 1050, fd_pocket_money_native = 100,
     fd_pocket_money_fee_token = 50, fd_gas_cost_native = 2000, fd_gas_cost_fee_token = 1000,
     fd_commission_native = 210, fd_commission_fee_token = 105 \<rparr>"

lemma sample_fee_computed: "compute_fee cents 100 20 100 10 300 600 = Ok sample_fee"
  by (simp add: compute_fee_def sample_fee_def scale_u256_def mantissa_to_u256_def u256_div_def cents_def)

lemma sample_fee_small: "total_cost 100 20 100 10 < 2 ^ 160"
  by (simp add: cost_defs)

theorem compute_fee_exact_witness:
  "compute_fee cents 100 20 100 10 300 600 = Ok sample_fee \<and>
   unat (fd_total_cost_native sample_fee) = total_cost 100 20 100 10 \<and>
   unat (fd_total_cost_fee_token sample_fee) = scaled cents 50 (total_cost 100 20 100 10)"
  using compute_fee_exact [OF decimal_repr_cents sample_fee_small sample_fee_computed]
    sample_fee_computed by (auto simp: cents_def)

text \<open>
  The parts of a quoted fee add up: total is relayer cost plus commission and relayer cost is gas
  plus pocket money, exactly in the native token and up to one unit of rounding in the fee token, where
  the total never falls below the sum of its parts, so a relayer is never paid less than its costs.
\<close>

theorem fee_parts_add_up:
  assumes "decimal_repr D"
    and "total_cost gas_price gas pm commission < 2 ^ 160"
    and "compute_fee D gas_price gas pm commission native fee_price = Ok fd"
  shows "unat (fd_total_cost_native fd) =
      unat (fd_relayer_cost_native fd) + unat (fd_commission_native fd) \<and>
    unat (fd_relayer_cost_native fd) = unat (fd_gas_cost_native fd) + unat pm \<and>
    unat (fd_relayer_cost_fee_token fd) + unat (fd_commission_fee_token fd) \<le> unat (fd_total_cost_fee_token fd) \<and>
    unat (fd_total_cost_fee_token fd) \<le> unat (fd_relayer_cost_fee_token fd) + unat (fd_commission_fee_token fd) + 1 \<and>
    unat (fd_gas_cost_fee_token fd) + unat (fd_pocket_money_fee_token fd) \<le> unat (fd_relayer_cost_fee_token fd) \<and>
    unat (fd_relayer_cost_fee_token fd) \<le> unat (fd_gas_cost_fee_token fd) + unat (fd_pocket_money_fee_token fd) + 1"
  using compute_fee_costs [OF assms] scaled_add
  by (auto simp: total_cost_def relayer_cost_def)

theorem fee_parts_add_up_witness:
  "compute_fee cents 100 20 100 10 300 600 = Ok sample_fee \<and>
   unat (fd_relayer_cost_fee_token sample_fee) + unat (fd_commission_fee_token sample_fee)
     \<le> unat (fd_total_cost_fee_token sample_fee)"
  using fee_parts_add_up [OF decimal_repr_cents sample_fee_small sample_fee_computed]
    sample_fee_computed by blast

text \<open>
  The fee computation panics only when the price division does: with a quotient, it ends in fee
  details or in an arithmetic error.
\<close>

theorem compute_fee_panics_iff:
  assumes "decimal_repr D"
  shows "is_panic (compute_fee D gas_price gas pm commission native fee_price) \<longleftrightarrow>
    dec_div D native fee_price = None"
proof (cases "dec_div D native fee_price")
  case None
  then show ?thesis by (simp add: compute_fee_def Let_def)
next
  case (Some q)
  have "\<not> is_panic (and_then (scale_u256 D a q) f) \<longleftrightarrow>
      (\<forall>x. scale_u256 D a q = Ok x \<longrightarrow> \<not> is_panic (f x))" for a and f :: "u256 \<Rightarrow> (fee_details, string) result"
    using scale_u256_no_panic [OF assms, of a q] by (cases "scale_u256 D a q") auto
  with Some show ?thesis by (simp add: compute_fee_def Let_def)
qed

theorem compute_fee_panics_iff_witness: "is_panic (compute_fee cents 100 20 100 10 300 0)"
  using compute_fee_panics_iff [OF decimal_repr_cents, of 100 20 100 10 300 0] by (simp add: cents_def)

end
