(* ===== verification/QuoteCache.thy ===== *)
theory QuoteCache
  imports Fee
begin

text \<open>
  The quote cache of the relayer (\<open>quote_cache.rs\<close>): the quotes presented to users with the instant
  until which each is honoured. The clock is an argument (\<open>now\<close>, the value \<open>now_utc\<close> returned), and
  the lock makes every operation one step. The locale \<open>quote_store\<close> is the interface the quote and
  relay handlers rely on; the cache is its interpretation.
\<close>

section \<open>The cache\<close>

record 'd cached_quote =
  cq_fee_token :: token
  cq_gas_price :: u256
  cq_native_token_unit_price :: 'd
  cq_fee_token_unit_price :: 'd

record 'd quote_cache =
  qc_validity :: duration
  qc_cache :: "'d cached_quote \<rightharpoonup> datetime"

definition quote_cache_new :: "duration \<Rightarrow> 'd quote_cache" where
  "quote_cache_new quote_validity = \<lparr> qc_validity = quote_validity, qc_cache = Map.empty \<rparr>"

definition store_quote_response ::
  "'d quote_cache \<Rightarrow> 'd cached_quote \<Rightarrow> datetime \<Rightarrow> ('d quote_cache, 'e) result" where
  "store_quote_response c quote at =
     and_then (datetime_add at (int (qc_validity c))) (\<lambda>expiration.
       let entry = (case qc_cache c quote of
             Some previous_expiration \<Rightarrow> max expiration previous_expiration
           | None \<Rightarrow> expiration)
       in Ok (c\<lparr>qc_cache := (qc_cache c)(quote \<mapsto> entry)\<rparr>))"

definition is_quote_valid :: "'d quote_cache \<Rightarrow> 'd cached_quote \<Rightarrow> datetime \<Rightarrow> bool" where
  "is_quote_valid c quote now =
     (case qc_cache c quote of Some expiration \<Rightarrow> now < expiration | None \<Rightarrow> False)"

definition collect_garbage :: "'d quote_cache \<Rightarrow> datetime \<Rightarrow> 'd quote_cache" where
  "collect_garbage c now = c\<lparr>qc_cache := (\<lambda>quote. case qc_cache c quote of
       Some valid_until \<Rightarrow> if now < valid_until then Some valid_until else None
     | None \<Rightarrow> None)\<rparr>"

text \<open>
  The period of the garbage collector is ten times the validity: the multiplication panics beyond
  the largest \<open>Duration\<close>, and the timer panics on a period of zero. The worker then sweeps at each
  tick; \<open>ticks\<close> are the clock values it reads.
\<close>

definition duration_max :: duration where
  "duration_max = (2 ^ 64 - 1) * 10 ^ 9 + 999999999"

definition gc_period :: "'d quote_cache \<Rightarrow> (duration, 'e) result" where
  "gc_period c = (let period = qc_validity c * 10 in
     if duration_max < period then Panic ''overflow when multiplying duration by scalar''
     else if period = 0 then Panic ''period must be non-zero''
     else Ok period)"

definition garbage_collector_worker ::
  "'d quote_cache \<Rightarrow> datetime list \<Rightarrow> ('d quote_cache, 'e) result" where
  "garbage_collector_worker c ticks =
     and_then (gc_period c) (\<lambda>period. Ok (fold (\<lambda>now c. collect_garbage c now) ticks c))"

section \<open>The interface of the handlers\<close>

text \<open>What happens to a cache between two requests: quotes are stored, expired ones are swept.\<close>

datatype 'q cache_op = StoreOp 'q datetime | SweepOp datetime

fun run_op ::
  "('c \<Rightarrow> 'q \<Rightarrow> datetime \<Rightarrow> ('c, 'e) result) \<Rightarrow> ('c \<Rightarrow> datetime \<Rightarrow> 'c) \<Rightarrow> 'q cache_op \<Rightarrow> 'c \<Rightarrow> ('c, 'e) result"
where
  "run_op store sweep (StoreOp q at) c = store c q at"
| "run_op store sweep (SweepOp now) c = Ok (sweep c now)"

fun sweeps_before :: "datetime \<Rightarrow> 'q cache_op list \<Rightarrow> bool" where
  "sweeps_before now [] = True"
| "sweeps_before now (StoreOp q at # ops) = sweeps_before now ops"
| "sweeps_before now (SweepOp t # ops) = (t \<le> now \<and> sweeps_before now ops)"

fun stores_representable :: "duration \<Rightarrow> 'q cache_op list \<Rightarrow> bool" where
  "stores_representable v [] = True"
| "stores_representable v (StoreOp q at # ops) =
     (at + int v \<le> datetime_max \<and> stores_representable v ops)"
| "stores_representable v (SweepOp t # ops) = stores_representable v ops"

locale quote_store =
  fixes validity :: "'c \<Rightarrow> duration"
    and store :: "'c \<Rightarrow> 'q \<Rightarrow> datetime \<Rightarrow> ('c, 'e) result"
    and valid :: "'c \<Rightarrow> 'q \<Rightarrow> datetime \<Rightarrow> bool"
    and sweep :: "'c \<Rightarrow> datetime \<Rightarrow> 'c"
  assumes store_ok_iff: "is_ok (store c q at) \<longleftrightarrow> at + int (validity c) \<le> datetime_max"
    and store_validity: "store c q at = Ok c' \<Longrightarrow> validity c' = validity c"
    and sweep_validity: "validity (sweep c t) = validity c"
    and valid_store: "store c q at = Ok c' \<Longrightarrow>
      valid c' q' now \<longleftrightarrow> valid c q' now \<or> q' = q \<and> now < at + int (validity c)"
    and valid_sweep: "t \<le> now \<Longrightarrow> valid (sweep c t) q now \<longleftrightarrow> valid c q now"
begin

lemma run_validity:
  "try_fold (run_op store sweep) ops c = Ok c' \<Longrightarrow> validity c' = validity c"
proof (induction ops arbitrary: c)
  case Nil
  then show ?case by simp
next
  case (Cons op ops)
  then show ?case by (cases op) (auto simp: result_simps store_validity sweep_validity)
qed

lemma run_ok_iff:
  "is_ok (try_fold (run_op store sweep) ops c) \<longleftrightarrow> stores_representable (validity c) ops"
proof (induction ops arbitrary: c)
  case Nil
  then show ?case by simp
next
  case (Cons op ops)
  show ?case
  proof (cases op)
    case (StoreOp q at)
    with Cons.IH store_ok_iff [of c q at] show ?thesis
      by (cases "store c q at") (simp_all add: store_validity)
  next
    case (SweepOp t)
    then show ?thesis using Cons.IH by (simp add: sweep_validity)
  qed
qed

lemma run_valid_iff:
  assumes "try_fold (run_op store sweep) ops c = Ok c'" and "sweeps_before now ops"
  shows "valid c' q now \<longleftrightarrow>
    valid c q now \<or> (\<exists>at. StoreOp q at \<in> set ops \<and> now < at + int (validity c))"
  using assms
proof (induction ops arbitrary: c)
  case Nil
  then show ?case by simp
next
  case (Cons op ops)
  show ?case
  proof (cases op)
    case (StoreOp q' at)
    with Cons.prems obtain d where d: "store c q' at = Ok d"
      and rest: "try_fold (run_op store sweep) ops d = Ok c'" by (auto simp: result_simps)
    from Cons.IH [OF rest] Cons.prems(2) StoreOp show ?thesis
      using valid_store [OF d] store_validity [OF d] by auto
  next
    case (SweepOp t)
    with Cons.prems have t: "t \<le> now"
      and rest: "try_fold (run_op store sweep) ops (sweep c t) = Ok c'" by simp_all
    from Cons.IH [OF rest] Cons.prems(2) SweepOp show ?thesis
      using valid_sweep [OF t] sweep_validity by auto
  qed
qed

lemma store_then_valid:
  assumes "store c q at = Ok c'" and "try_fold (run_op store sweep) ops c' = Ok c''"
    and "sweeps_before now ops" and "now < at + int (validity c)"
  shows "valid c'' q now"
proof -
  have "valid c' q now" using valid_store [OF assms(1)] assms(4) by blast
  then show ?thesis using run_valid_iff [OF assms(2,3)] by blast
qed

end

section \<open>The cache implements the interface\<close>

lemma store_quote_response_cases:
  "store_quote_response c q at =
    (if at + int (qc_validity c) \<le> datetime_max
     then Ok (c\<lparr>qc_cache := (qc_cache c)(q \<mapsto> (case qc_cache c q of
         Some e \<Rightarrow> max (at + int (qc_validity c)) e | None \<Rightarrow> at + int (qc_validity c)))\<rparr>)
     else Panic ''resulting value is out of range'')"
  by (simp add: store_quote_response_def datetime_add_def)

interpretation cache: quote_store qc_validity store_quote_response is_quote_valid collect_garbage
proof unfold_locales
  fix c c' :: "'a quote_cache" and q q' :: "'a cached_quote" and at now t :: datetime
  show "is_ok (store_quote_response c q at :: ('a quote_cache, 'b) result) \<longleftrightarrow>
      at + int (qc_validity c) \<le> datetime_max"
    by (simp add: store_quote_response_cases)
  show "store_quote_response c q at = (Ok c' :: ('a quote_cache, 'b) result) \<Longrightarrow>
      qc_validity c' = qc_validity c"
    by (auto simp: store_quote_response_cases split: if_splits)
  show "qc_validity (collect_garbage c t) = qc_validity c"
    by (simp add: collect_garbage_def)
  show "store_quote_response c q at = (Ok c' :: ('a quote_cache, 'b) result) \<Longrightarrow>
      is_quote_valid c' q' now \<longleftrightarrow>
      is_quote_valid c q' now \<or> q' = q \<and> now < at + int (qc_validity c)"
    by (auto simp: store_quote_response_cases is_quote_valid_def split: if_splits option.splits)
  show "t \<le> now \<Longrightarrow> is_quote_valid (collect_garbage c t) q now \<longleftrightarrow> is_quote_valid c q now"
    by (auto simp: collect_garbage_def is_quote_valid_def split: option.splits if_splits)
qed

text \<open>A run of the cache from its creation.\<close>

definition run_cache :: "duration \<Rightarrow> 'd cached_quote cache_op list \<Rightarrow> ('d quote_cache, unit) result" where
  "run_cache v ops = try_fold (run_op store_quote_response collect_garbage) ops (quote_cache_new v)"

text \<open>
  C22. Validity of quotes. Start from an empty cache and run any interleaving of stores and garbage
  collections, none of the collections later than \<open>now\<close>. The run goes through exactly when every
  expiration is a representable date, and afterwards a quote is accepted at \<open>now\<close> if and only if it
  was stored at some instant less than the validity period before \<open>now\<close>: nothing else is accepted,
  a later store never shortens an earlier one, and the collector never drops a live quote.
\<close>

theorem quote_valid_iff_issued:
  fixes ops :: "'d cached_quote cache_op list"
  assumes "sweeps_before now ops"
  shows "(is_ok (run_cache v ops) \<longleftrightarrow> stores_representable v ops) \<and>
    (\<forall>c q. run_cache v ops = Ok c \<longrightarrow>
      (is_quote_valid c q now \<longleftrightarrow> (\<exists>at. StoreOp q at \<in> set ops \<and> now < at + int v)))"
proof -
  have new: "qc_validity (quote_cache_new v) = v" "\<not> is_quote_valid (quote_cache_new v) q now"
    for q :: "'d cached_quote"
    by (simp_all add: quote_cache_new_def is_quote_valid_def)
  show ?thesis
    unfolding run_cache_def
    using cache.run_ok_iff [where ?'b = unit and ops = ops and c = "quote_cache_new v"]
      cache.run_valid_iff [where ?'b = unit and c = "quote_cache_new v", OF _ assms]
    by (simp add: new)
qed

definition sample_quote :: "u256 \<Rightarrow> nat cached_quote" where
  "sample_quote gas_price = \<lparr> cq_fee_token = Native, cq_gas_price = gas_price,
     cq_native_token_unit_price = 1, cq_fee_token_unit_price = 1 \<rparr>"

definition sample_ops :: "nat cached_quote cache_op list" where
  "sample_ops = [StoreOp (sample_quote 1) 0, SweepOp 5, StoreOp (sample_quote 2) 6,
     StoreOp (sample_quote 1) 7, SweepOp 11]"

theorem quote_valid_iff_issued_witness:
  "\<exists>c. run_cache 10 sample_ops = Ok c \<and>
    is_quote_valid c (sample_quote 1) 16 \<and> \<not> is_quote_valid c (sample_quote 2) 16"
proof -
  have "sweeps_before 16 sample_ops" by (simp add: sample_ops_def)
  from quote_valid_iff_issued [OF this, of 10]
  have t: "is_ok (run_cache 10 sample_ops) \<longleftrightarrow> stores_representable 10 sample_ops"
    and v: "\<And>c q. run_cache 10 sample_ops = Ok c \<Longrightarrow>
      is_quote_valid c q 16 \<longleftrightarrow> (\<exists>at. StoreOp q at \<in> set sample_ops \<and> 16 < at + int 10)" by auto
  have "stores_representable 10 sample_ops" by (simp add: sample_ops_def datetime_max_def)
  with t obtain c where c: "run_cache 10 sample_ops = Ok c" by (meson is_ok.elims(2))
  have ne: "sample_quote 1 \<noteq> sample_quote 2" by (simp add: sample_quote_def)
  from c ne v [OF c] show ?thesis by (auto simp: sample_ops_def)
qed

text \<open>
  The garbage collector. With a validity between one nanosecond and a tenth of the longest
  duration the worker runs, and after any number of ticks the cache answers every later validity
  question as before, and holds no quote that had expired at its last tick.
\<close>

theorem garbage_collector_correct:
  fixes c :: "'d quote_cache"
  assumes "0 < qc_validity c" and "qc_validity c * 10 \<le> duration_max"
    and "\<forall>t \<in> set ticks. t \<le> final_tick"
  shows "\<exists>c'. garbage_collector_worker c (ticks @ [final_tick]) = (Ok c' :: ('d quote_cache, unit) result) \<and>
    (\<forall>q now. final_tick \<le> now \<longrightarrow> is_quote_valid c' q now = is_quote_valid c q now) \<and>
    (\<forall>q. q \<in> dom (qc_cache c') \<longleftrightarrow> is_quote_valid c q final_tick)"
proof -
  let ?sweep = "fold (\<lambda>now c. collect_garbage c now)"
  have keep: "is_quote_valid (?sweep ts d) q now = is_quote_valid d q now"
    if "\<forall>t \<in> set ts. t \<le> now" for ts and d :: "'d quote_cache" and q now
    using that by (induction ts arbitrary: d) (auto simp: cache.valid_sweep)
  have dom: "q \<in> dom (qc_cache (collect_garbage d t)) \<longleftrightarrow> is_quote_valid d q t"
    for d :: "'d quote_cache" and q t
    by (auto simp: collect_garbage_def is_quote_valid_def dom_def split: option.splits)
  have "garbage_collector_worker c (ticks @ [final_tick]) =
      (Ok (collect_garbage (?sweep ticks c) final_tick) :: ('d quote_cache, unit) result)"
    using assms(1,2) by (simp add: garbage_collector_worker_def gc_period_def Let_def)
  moreover have "is_quote_valid (collect_garbage (?sweep ticks c) final_tick) q now = is_quote_valid c q now"
    if "final_tick \<le> now" for q now
    using keep [of "ticks @ [final_tick]" now c q] assms(3) that by (fastforce dest: order_trans)
  ultimately show ?thesis using dom keep assms(3) by simp
qed

theorem garbage_collector_correct_witness:
  "\<exists>c'. garbage_collector_worker (quote_cache_new 10 :: nat quote_cache) ([1, 2] @ [3])
      = (Ok c' :: (nat quote_cache, unit) result) \<and> (\<forall>q. q \<notin> dom (qc_cache c'))"
  using garbage_collector_correct [of "quote_cache_new 10 :: nat quote_cache" "[1, 2]" 3]
  by (auto simp: quote_cache_new_def duration_max_def is_quote_valid_def)

end
