(* ===== verification/PriceFeed.thy ===== *)
theory PriceFeed
  imports QuoteCache
begin

text \<open>
  The price feed of the relayer (\<open>price_feed/price.rs\<close>, \<open>price_feed/mod.rs\<close>). The price of a token is
  either configured (and then never expires) or fetched from a URL and valid for a while. The handlers
  and the background task share the prices through one lock per token, so the shared prices are one
  state; the answers of the price provider are an argument, indexed by the token they were fetched for.
\<close>

section \<open>Prices\<close>

datatype expiration =
    Eternal
  | Timed datetime datetime  \<comment> \<open>expiration, fetched\<close>

record 'd price_t =
  pr_token_price :: 'd
  pr_unit_price :: 'd
  pr_expiration :: expiration

text \<open>What the provider answers.\<close>

record 'd price_info =
  pi_token_price :: 'd
  pi_time :: datetime

text \<open>Multiplication and \<open>from_i128_with_scale\<close> panic when the decimal cannot be represented.\<close>

definition unit_price_of :: "'d decimal_api \<Rightarrow> 'd \<Rightarrow> u32 \<Rightarrow> ('d, unit) result" where
  "unit_price_of D token_price decimals =
     and_then (expect (dec_from_scale D 1 decimals) ''Scale exceeds the maximum precision allowed'')
       (\<lambda>one_unit. expect (dec_mul D token_price one_unit) ''Multiplication overflowed'')"

definition static_price :: "'d decimal_api \<Rightarrow> 'd \<Rightarrow> u32 \<Rightarrow> ('d price_t, unit) result" where
  "static_price D token_price decimals =
     and_then (unit_price_of D token_price decimals) (\<lambda>unit_price.
       Ok \<lparr> pr_token_price = token_price, pr_unit_price = unit_price, pr_expiration = Eternal \<rparr>)"

text \<open>
  Adding a signed duration to a date panics on both ends of the calendar (the first instant is
  -9999-01-01T00:00:00Z).
\<close>

definition datetime_min :: datetime where
  "datetime_min = - 377705116800000000000"

definition datetime_add_signed :: "datetime \<Rightarrow> int \<Rightarrow> (datetime, 'e) result" where
  "datetime_add_signed t d = (if t + d < datetime_min then Panic ''resulting value is out of range''
     else datetime_add t d)"

definition from_price_info ::
  "'d decimal_api \<Rightarrow> 'd price_info \<Rightarrow> u32 \<Rightarrow> int \<Rightarrow> ('d price_t, unit) result" where
  "from_price_info D price_info decimals validity =
     and_then (unit_price_of D (pi_token_price price_info) decimals) (\<lambda>unit_price.
     and_then (datetime_add_signed (pi_time price_info) validity) (\<lambda>expiration.
       Ok \<lparr> pr_token_price = pi_token_price price_info, pr_unit_price = unit_price,
            pr_expiration = Timed expiration (pi_time price_info) \<rparr>))"

definition validate :: "'d price_t \<Rightarrow> datetime \<Rightarrow> 'd price_t option" where
  "validate p now = (case pr_expiration p of
       Eternal \<Rightarrow> Some p
     | Timed expiration fetched \<Rightarrow> if now < expiration then Some p else None)"

section \<open>The shared prices\<close>

record 'd prices =
  ps_validity :: int
  ps_refresh_interval :: duration
  ps_tokens :: "token_kind \<rightharpoonup> 'd token_info"
  ps_inner :: "token_kind \<rightharpoonup> 'd price_t option"

text \<open>
  The validity is converted to a signed duration: the seconds are cast from \<open>u64\<close> to \<open>i64\<close>, the
  nanoseconds are below one second.
\<close>

definition signed_duration :: "duration \<Rightarrow> int" where
  "signed_duration d = sint (of_nat (d div 10 ^ 9) :: u64) * 10 ^ 9 + int (d mod 10 ^ 9)"

definition insert_token ::
  "'d decimal_api \<Rightarrow> 'd token_info \<Rightarrow> 'd prices \<Rightarrow> ('d prices, unit) result" where
  "insert_token D token ps =
     map_ok (\<lambda>price. ps\<lparr>ps_tokens := (ps_tokens ps)(ti_kind token \<mapsto> token),
                        ps_inner := (ps_inner ps)(ti_kind token \<mapsto> price)\<rparr>)
       (case ti_price_provider token of
          Url url \<Rightarrow> Ok None
        | Static price \<Rightarrow> map_ok Some (static_price D price (token_decimals token)))"

definition prices_new ::
  "'d decimal_api \<Rightarrow> 'd token_info list \<Rightarrow> duration \<Rightarrow> duration \<Rightarrow> ('d prices, unit) result" where
  "prices_new D tokens validity refresh_interval =
     try_fold (insert_token D) tokens
       \<lparr> ps_validity = signed_duration validity, ps_refresh_interval = refresh_interval,
         ps_tokens = Map.empty, ps_inner = Map.empty \<rparr>"

definition price :: "'d prices \<Rightarrow> token_kind \<Rightarrow> datetime \<Rightarrow> 'd price_t option" where
  "price ps token now = (case ps_inner ps token of
       Some (Some p) \<Rightarrow> validate p now
     | _ \<Rightarrow> None)"

definition current_prices :: "'d prices \<Rightarrow> datetime \<Rightarrow> (token_kind \<rightharpoonup> 'd price_t option)" where
  "current_prices ps now = (\<lambda>k. map_option (\<lambda>info. price ps k now) (ps_tokens ps k))"

definition price_ages :: "'d prices \<Rightarrow> datetime \<Rightarrow> (token_kind \<rightharpoonup> int option)" where
  "price_ages ps now = (\<lambda>k. map_option (\<lambda>p. case p of
       None \<Rightarrow> None
     | Some p \<Rightarrow> (case pr_expiration p of
           Eternal \<Rightarrow> Some 0
         | Timed expiration fetched \<Rightarrow> Some (now - fetched))) (ps_inner ps k))"

text \<open>
  One round of updates. \<open>order\<close> is the order in which the hash map yields the tokens, \<open>fetch k url\<close>
  the answer for the token \<open>k\<close> (\<open>None\<close>: a failed request). The second component is the message of a
  panic that ended the round; the prices replaced before it stay replaced.
\<close>

type_synonym 'd fetcher = "token_kind \<Rightarrow> string \<Rightarrow> 'd price_info option"

fun update_prices ::
  "'d decimal_api \<Rightarrow> 'd fetcher \<Rightarrow> 'd token_info list \<Rightarrow> 'd prices \<Rightarrow> 'd prices \<times> string option" where
  "update_prices D fetch [] ps = (ps, None)"
| "update_prices D fetch (token # order) ps =
     (case ti_price_provider token of
        Static p \<Rightarrow> update_prices D fetch order ps
      | Url url \<Rightarrow>
          (case fetch (ti_kind token) url of
             None \<Rightarrow> update_prices D fetch order ps
           | Some info \<Rightarrow>
               (case from_price_info D info (token_decimals token) (ps_validity ps) of
                  Ok p \<Rightarrow>
                    (case ps_inner ps (ti_kind token) of
                       None \<Rightarrow> (ps, Some ''called unwrap on a None value'')
                     | Some previous \<Rightarrow> update_prices D fetch order
                         (ps\<lparr>ps_inner := (ps_inner ps)(ti_kind token \<mapsto> Some p)\<rparr>))
                | Err e \<Rightarrow> (ps, None)
                | Panic msg \<Rightarrow> (ps, Some msg))))"

text \<open>The background task: rounds of updates until one panics.\<close>

fun start_price_feed ::
  "'d decimal_api \<Rightarrow> ('d fetcher \<times> 'd token_info list) list \<Rightarrow> 'd prices \<Rightarrow> 'd prices \<times> string option" where
  "start_price_feed D [] ps = (ps, None)"
| "start_price_feed D ((fetch, order) # rounds) ps =
     (case update_prices D fetch order ps of
        (ps', None) \<Rightarrow> start_price_feed D rounds ps'
      | (ps', Some msg) \<Rightarrow> (ps', Some msg))"

section \<open>The invariant\<close>

text \<open>
  Both maps have the same tokens, each under its own kind; a token with a configured price has it,
  without expiration; a fetched price expires one validity period after the provider's timestamp.
\<close>

definition price_matches :: "'d decimal_api \<Rightarrow> int \<Rightarrow> 'd token_info \<Rightarrow> 'd price_t option \<Rightarrow> bool" where
  "price_matches D validity info p = (case ti_price_provider info of
       Static c \<Rightarrow> map_ok Some (static_price D c (token_decimals info)) = Ok p
     | Url url \<Rightarrow> p = None \<or>
         (\<exists>i. map_ok Some (from_price_info D i (token_decimals info) validity) = Ok p))"

definition prices_inv :: "'d decimal_api \<Rightarrow> 'd prices \<Rightarrow> bool" where
  "prices_inv D ps \<longleftrightarrow> dom (ps_inner ps) = dom (ps_tokens ps) \<and>
     (\<forall>k info. ps_tokens ps k = Some info \<longrightarrow> ti_kind info = k \<and>
        (\<forall>p. ps_inner ps k = Some p \<longrightarrow> price_matches D (ps_validity ps) info p))"

lemma prices_inv_entry:
  assumes "prices_inv D ps" and "ps_tokens ps k = Some info"
  obtains q where "ps_inner ps k = Some q" and "price_matches D (ps_validity ps) info q"
proof -
  from assms have "k \<in> dom (ps_inner ps)" by (auto simp: prices_inv_def)
  then obtain q where q: "ps_inner ps k = Some q" by auto
  then have "price_matches D (ps_validity ps) info q" using assms by (auto simp: prices_inv_def)
  with q show thesis by (rule that)
qed

lemma prices_inv_insert:
  assumes "prices_inv D ps" and "price_matches D (ps_validity ps) token p"
  shows "prices_inv D (ps\<lparr>ps_tokens := (ps_tokens ps)(ti_kind token \<mapsto> token),
    ps_inner := (ps_inner ps)(ti_kind token \<mapsto> p)\<rparr>)"
  using assms by (auto simp: prices_inv_def)

lemma insert_token_inv:
  assumes "prices_inv D ps" and "insert_token D token ps = Ok ps'"
  shows "prices_inv D ps'"
proof -
  from assms(2) obtain p where p: "price_matches D (ps_validity ps) token p"
    and ps': "ps' = ps\<lparr>ps_tokens := (ps_tokens ps)(ti_kind token \<mapsto> token),
      ps_inner := (ps_inner ps)(ti_kind token \<mapsto> p)\<rparr>"
    by (auto simp: insert_token_def price_matches_def result_simps split: price_provider.splits)
  show ?thesis unfolding ps' using assms(1) p by (rule prices_inv_insert)
qed

lemma prices_new_inv: "prices_new D tokens v r = Ok ps \<Longrightarrow> prices_inv D ps"
  unfolding prices_new_def
  by (erule try_fold_invariant [where P = "prices_inv D", rotated -1])
    (auto intro: insert_token_inv, simp add: prices_inv_def)

lemma unit_price_of_not_Err: "unit_price_of D p d \<noteq> Err e"
  by (cases "dec_from_scale D 1 d") (auto simp: unit_price_of_def elim: expect.elims)

lemma from_price_info_not_Err: "from_price_info D i d v \<noteq> Err e"
  by (cases "unit_price_of D (pi_token_price i) d")
    (auto simp: from_price_info_def unit_price_of_not_Err datetime_add_signed_def datetime_add_def)

section \<open>A round of updates\<close>

text \<open>What a round does for one token, and the round as a loop of such steps.\<close>

definition fetched_price ::
  "'d decimal_api \<Rightarrow> 'd fetcher \<Rightarrow> int \<Rightarrow> 'd token_info \<Rightarrow> ('d price_t, unit) result option" where
  "fetched_price D fetch validity token = (case ti_price_provider token of
       Static p \<Rightarrow> None
     | Url url \<Rightarrow> map_option (\<lambda>i. from_price_info D i (token_decimals token) validity)
         (fetch (ti_kind token) url))"

lemma fetched_price_not_Err [simp]: "fetched_price D fetch v t \<noteq> Some (Err e)"
  by (auto simp: fetched_price_def from_price_info_not_Err split: price_provider.splits)

abbreviation set_price :: "token_kind \<Rightarrow> 'd price_t \<Rightarrow> 'd prices \<Rightarrow> 'd prices" where
  "set_price k p ps \<equiv> ps\<lparr>ps_inner := (ps_inner ps)(k \<mapsto> Some p)\<rparr>"

lemma update_prices_Cons:
  assumes "ti_kind token \<in> dom (ps_inner ps)"
  shows "update_prices D fetch (token # order) ps =
    (case fetched_price D fetch (ps_validity ps) token of
       None \<Rightarrow> update_prices D fetch order ps
     | Some (Ok p) \<Rightarrow> update_prices D fetch order (set_price (ti_kind token) p ps)
     | Some (Err e) \<Rightarrow> (ps, None)
     | Some (Panic msg) \<Rightarrow> (ps, Some msg))"
  using assms
  by (auto simp: fetched_price_def dom_def split: price_provider.split option.split result.split)

lemma set_price_inv:
  assumes "prices_inv D ps" and "ps_tokens ps k = Some token"
    and "fetched_price D fetch (ps_validity ps) token = Some (Ok p)"
  shows "prices_inv D (set_price k p ps)"
proof -
  from assms(3) have "price_matches D (ps_validity ps) token (Some p)"
    by (auto simp: fetched_price_def price_matches_def split: price_provider.splits)
      (metis map_ok.simps(1))
  then show ?thesis using assms(1,2) by (auto simp: prices_inv_def)
qed

definition enumerates :: "'d token_info list \<Rightarrow> 'd prices \<Rightarrow> bool" where
  "enumerates order ps \<longleftrightarrow> distinct (map ti_kind order) \<and>
     (\<forall>token. token \<in> set order \<longleftrightarrow> ps_tokens ps (ti_kind token) = Some token)"

text \<open>
  The effect of a round that visits each of the given tokens at most once: the invariant and the
  configuration stay, the round panics exactly when the price of a visited token cannot be computed,
  and otherwise exactly the tokens with an answer have their price replaced.
\<close>

definition round_panics :: "'d decimal_api \<Rightarrow> 'd fetcher \<Rightarrow> int \<Rightarrow> 'd token_info list \<Rightarrow> bool" where
  "round_panics D fetch validity order \<longleftrightarrow>
     (\<exists>t \<in> set order. \<exists>msg. fetched_price D fetch validity t = Some (Panic msg))"

definition configured :: "'d prices \<Rightarrow> 'd token_info list \<Rightarrow> bool" where
  "configured ps order \<longleftrightarrow> (\<forall>t \<in> set order. ps_tokens ps (ti_kind t) = Some t)"

lemma update_prices_step:
  assumes "prices_inv D ps" and "configured ps (t # order)"
    and "update_prices D fetch (t # order) ps = (ps', m)"
  obtains (skip) "fetched_price D fetch (ps_validity ps) t = None"
      "update_prices D fetch order ps = (ps', m)" "configured ps order"
    | (replace) p where "fetched_price D fetch (ps_validity ps) t = Some (Ok p)"
      "update_prices D fetch order (set_price (ti_kind t) p ps) = (ps', m)"
      "prices_inv D (set_price (ti_kind t) p ps)" "configured (set_price (ti_kind t) p ps) order"
    | (panic) msg where "fetched_price D fetch (ps_validity ps) t = Some (Panic msg)"
      "ps' = ps" "m = Some msg"
proof -
  from assms(2) have t: "ps_tokens ps (ti_kind t) = Some t" and c: "configured ps order"
    by (simp_all add: configured_def)
  from t have "ti_kind t \<in> dom (ps_tokens ps)" by (rule domI)
  then have "ti_kind t \<in> dom (ps_inner ps)" using assms(1) unfolding prices_inv_def by simp
  note run = assms(3) [unfolded update_prices_Cons [OF this]]
  show thesis
  proof (cases "fetched_price D fetch (ps_validity ps) t")
    case None
    moreover from None run have "update_prices D fetch order ps = (ps', m)" by simp
    ultimately show thesis using c by (rule skip)
  next
    case (Some r)
    then show thesis
    proof (cases r)
      case (Ok p)
      with Some have f: "fetched_price D fetch (ps_validity ps) t = Some (Ok p)" by simp
      from f run have "update_prices D fetch order (set_price (ti_kind t) p ps) = (ps', m)" by simp
      moreover have "configured (set_price (ti_kind t) p ps) order" using c by (simp add: configured_def)
      ultimately show thesis using f set_price_inv [OF assms(1) t f] replace by blast
    next
      case (Err e)
      with Some show thesis by simp
    next
      case (Panic msg)
      with Some have f: "fetched_price D fetch (ps_validity ps) t = Some (Panic msg)" by simp
      from f run have "ps' = ps" "m = Some msg" by simp_all
      with f show thesis by (rule panic)
    qed
  qed
qed

lemma update_prices_keeps:
  assumes "prices_inv D ps" and "configured ps order"
    and "update_prices D fetch order ps = (ps', m)"
  shows "prices_inv D ps' \<and> ps_tokens ps' = ps_tokens ps \<and> ps_validity ps' = ps_validity ps"
  using assms
proof (induction order arbitrary: ps)
  case Nil
  then show ?case by simp
next
  case (Cons t order)
  from Cons.prems show ?case
    by (cases rule: update_prices_step) (use Cons in fastforce)+
qed

lemma update_prices_panics_iff:
  assumes "prices_inv D ps" and "configured ps order"
    and "update_prices D fetch order ps = (ps', m)"
  shows "m = None \<longleftrightarrow> \<not> round_panics D fetch (ps_validity ps) order"
  using assms
proof (induction order arbitrary: ps)
  case Nil
  then show ?case by (simp add: round_panics_def)
next
  case (Cons t order)
  from Cons.prems show ?case
  proof (cases rule: update_prices_step)
    case skip
    then show ?thesis using Cons.IH [OF Cons.prems(1)] by (simp add: round_panics_def)
  next
    case (replace p)
    then show ?thesis using Cons.IH [OF replace(3)] by (simp add: round_panics_def)
  next
    case (panic msg)
    then show ?thesis by (auto simp: round_panics_def)
  qed
qed

lemma update_prices_other:
  assumes "prices_inv D ps" and "configured ps order"
    and "update_prices D fetch order ps = (ps', m)" and "k \<notin> ti_kind ` set order"
  shows "ps_inner ps' k = ps_inner ps k"
  using assms
proof (induction order arbitrary: ps)
  case Nil
  then show ?case by simp
next
  case (Cons t order)
  from Cons.prems(1-3) show ?case
    by (cases rule: update_prices_step) (use Cons in \<open>auto dest: Cons.IH\<close>)
qed

lemma update_prices_token:
  assumes "prices_inv D ps" and "configured ps order"
    and "update_prices D fetch order ps = (ps', None)"
    and "distinct (map ti_kind order)" and "t \<in> set order"
  shows "ps_inner ps' (ti_kind t) =
    (case fetched_price D fetch (ps_validity ps) t of
       Some (Ok p) \<Rightarrow> Some (Some p) | _ \<Rightarrow> ps_inner ps (ti_kind t))"
  using assms
proof (induction order arbitrary: ps)
  case Nil
  then show ?case by simp
next
  case (Cons u order)
  from Cons.prems(4) have fresh: "ti_kind u \<notin> ti_kind ` set order" and d: "distinct (map ti_kind order)"
    by auto
  from Cons.prems(1-3) show ?case
  proof (cases rule: update_prices_step)
    case skip
    show ?thesis
    proof (cases "t = u")
      case True
      then show ?thesis using skip update_prices_other [OF Cons.prems(1) skip(3,2) fresh] by simp
    next
      case False
      then show ?thesis using Cons.IH [OF Cons.prems(1) skip(3,2) d] Cons.prems(5) by simp
    qed
  next
    case (replace p)
    show ?thesis
    proof (cases "t = u")
      case True
      then show ?thesis using replace update_prices_other [OF replace(3,4,2) fresh] by simp
    next
      case False
      with Cons.prems(5) fresh have "ti_kind t \<noteq> ti_kind u" by (metis image_eqI set_ConsD)
      then show ?thesis using Cons.IH [OF replace(3,4,2) d] Cons.prems(5) False
        by (simp cong: option.case_cong result.case_cong)
    qed
  qed simp
qed

section \<open>The feed\<close>

fun latest :: "('d fetcher \<times> 'd token_info list) list \<Rightarrow> token_kind \<Rightarrow> string \<Rightarrow> 'd price_info option" where
  "latest [] k url = None"
| "latest ((fetch, order) # rounds) k url =
     (case latest rounds k url of None \<Rightarrow> fetch k url | Some i \<Rightarrow> Some i)"

lemma enumerates_configured: "enumerates order ps \<Longrightarrow> configured ps order"
  by (simp add: enumerates_def configured_def)

lemma start_price_feed_step:
  assumes "prices_inv D ps" and "enumerates order ps"
    and "start_price_feed D ((fetch, order) # rounds) ps = (ps', m)"
  obtains (go) ps1 where "update_prices D fetch order ps = (ps1, None)" "prices_inv D ps1"
      "ps_tokens ps1 = ps_tokens ps" "ps_validity ps1 = ps_validity ps"
      "start_price_feed D rounds ps1 = (ps', m)" "\<not> round_panics D fetch (ps_validity ps) order"
    | (stop) msg where "update_prices D fetch order ps = (ps', Some msg)" "prices_inv D ps'"
      "ps_tokens ps' = ps_tokens ps" "ps_validity ps' = ps_validity ps"
      "m = Some msg" "round_panics D fetch (ps_validity ps) order"
proof -
  obtain ps1 m1 where u: "update_prices D fetch order ps = (ps1, m1)" by force
  note c = enumerates_configured [OF assms(2)]
  show thesis
    using update_prices_keeps [OF assms(1) c u] update_prices_panics_iff [OF assms(1) c u] assms(3) u
    by (cases m1) (auto intro: go stop)
qed

lemma start_price_feed_token:
  assumes "prices_inv D ps" and "\<forall>(fetch, order) \<in> set rounds. enumerates order ps"
    and "start_price_feed D rounds ps = (ps', None)"
    and "ps_tokens ps k = Some info"
  shows "ps_inner ps' k = (case ti_price_provider info of
      Static c \<Rightarrow> ps_inner ps k
    | Url url \<Rightarrow> (case latest rounds k url of
        None \<Rightarrow> ps_inner ps k
      | Some i \<Rightarrow> (case from_price_info D i (token_decimals info) (ps_validity ps) of
          Ok p \<Rightarrow> Some (Some p) | _ \<Rightarrow> None)))"
  using assms
proof (induction rounds arbitrary: ps)
  case Nil
  then show ?case by (simp split: price_provider.split)
next
  case (Cons r rounds)
  obtain fetch order where r: "r = (fetch, order)" by force
  have e: "enumerates order ps" using Cons.prems(2) r by auto
  have k: "ti_kind info = k" using Cons.prems(1,4) by (auto simp: prices_inv_def)
  have info: "info \<in> set order" using e k Cons.prems(4) by (auto simp: enumerates_def)
  from Cons.prems(1) e Cons.prems(3) [unfolded r] show ?case
  proof (cases rule: start_price_feed_step)
    case (go ps1)
    have e1: "\<forall>(fetch, order) \<in> set rounds. enumerates order ps1"
      using Cons.prems(2) go(3) by (auto simp: enumerates_def)
    note ih = Cons.IH [OF go(2) e1 go(5), unfolded go(3,4), OF Cons.prems(4)]
    note u = update_prices_token [OF Cons.prems(1) enumerates_configured [OF e] go(1) _ info]
    have "ps_inner ps1 k = (case fetched_price D fetch (ps_validity ps) info of
       Some (Ok p) \<Rightarrow> Some (Some p) | _ \<Rightarrow> ps_inner ps k)"
      using u e unfolding k enumerates_def by simp
    moreover have "\<And>msg. fetched_price D fetch (ps_validity ps) info \<noteq> Some (Panic msg)"
      using go(6) info by (auto simp: round_panics_def)
    ultimately show ?thesis using ih k
      by (auto simp: r fetched_price_def from_price_info_not_Err
          split: price_provider.splits option.splits result.splits)
  next
    case (stop msg)
    then show ?thesis using Cons.prems(3) by simp
  qed
qed

lemma start_price_feed_keeps:
  assumes "prices_inv D ps" and "\<forall>(fetch, order) \<in> set rounds. enumerates order ps"
    and "start_price_feed D rounds ps = (ps', m)"
  shows "prices_inv D ps' \<and> ps_tokens ps' = ps_tokens ps \<and>
    (m = None \<longleftrightarrow> (\<forall>(fetch, order) \<in> set rounds. \<not> round_panics D fetch (ps_validity ps) order))"
  using assms
proof (induction rounds arbitrary: ps)
  case Nil
  then show ?case by simp
next
  case (Cons r rounds)
  obtain fetch order where r: "r = (fetch, order)" by force
  have e: "enumerates order ps" using Cons.prems(2) r by auto
  from Cons.prems(1) e Cons.prems(3) [unfolded r] show ?case
  proof (cases rule: start_price_feed_step)
    case (go ps1)
    have e1: "\<forall>(fetch, order) \<in> set rounds. enumerates order ps1"
      using Cons.prems(2) go(3) by (auto simp: enumerates_def)
    from Cons.IH [OF go(2) e1 go(5)] go show ?thesis by (simp add: r)
  next
    case (stop msg)
    then show ?thesis by (auto simp: r)
  qed
qed

section \<open>Creation\<close>

definition unfetched :: "'d prices \<Rightarrow> bool" where
  "unfetched ps \<longleftrightarrow> (\<forall>k info url. ps_tokens ps k = Some info \<longrightarrow> ti_price_provider info = Url url \<longrightarrow>
     ps_inner ps k = Some None)"

lemma prices_new_unfetched: "prices_new D tokens v r = Ok ps \<Longrightarrow> unfetched ps"
  unfolding prices_new_def
  by (erule try_fold_invariant [where P = unfetched, rotated -1])
    (auto simp: insert_token_def unfetched_def result_simps split: price_provider.splits if_splits)

lemma insert_tokens_config:
  assumes "try_fold (insert_token D) tokens ps0 = Ok ps"
  shows "ps_tokens ps = ps_tokens ps0 ++ map_of (rev (map (\<lambda>t. (ti_kind t, t)) tokens)) \<and>
    ps_validity ps = ps_validity ps0 \<and> ps_refresh_interval ps = ps_refresh_interval ps0"
  using assms
  by (induction tokens arbitrary: ps0) (auto simp: insert_token_def result_simps map_add_upd_left fun_eq_iff map_add_def split: option.splits)

lemma price_of_inner:
  "ps_inner ps k = Some (Some p) \<Longrightarrow> price ps k now = validate p now"
  "ps_inner ps k = Some None \<Longrightarrow> price ps k now = None"
  by (simp_all add: price_def)

lemma validate_static: "static_price D c d = Ok p \<Longrightarrow> validate p now = Some p"
  by (auto simp: static_price_def validate_def result_simps)

lemma validate_fetched:
  "from_price_info D i d v = Ok p \<Longrightarrow> validate p now = (if now < pi_time i + v then Some p else None)"
  by (auto simp: from_price_info_def validate_def result_simps datetime_add_signed_def
      datetime_add_def split: if_splits)

text \<open>
  C32. The price feed. Create the prices from the configuration and run any number of update rounds
  (each visits the tokens in some order of its own, with arbitrary answers and failures). The feed
  stops only by a panic in the computation of a fetched price, never because a token has no entry.
  While it runs, a token with a configured price has that price at every instant, and a token with a
  URL has the price of its most recent successful answer, for as long as the validity period after the
  provider's timestamp lasts, and no price when it never got an answer.
\<close>

theorem price_feed_correct:
  assumes "prices_new D tokens validity refresh_interval = Ok ps"
    and "\<forall>(fetch, order) \<in> set rounds. enumerates order ps"
    and "start_price_feed D rounds ps = (ps', m)"
  shows "ps_tokens ps = map_of (rev (map (\<lambda>t. (ti_kind t, t)) tokens)) \<and>
    ps_validity ps = signed_duration validity \<and>
    (m = None \<longleftrightarrow> (\<forall>(fetch, order) \<in> set rounds. \<not> round_panics D fetch (ps_validity ps) order)) \<and>
    (m = None \<longrightarrow> (\<forall>k info. ps_tokens ps k = Some info \<longrightarrow>
      (case ti_price_provider info of
         Static c \<Rightarrow> \<exists>p. static_price D c (token_decimals info) = Ok p \<and> price ps' k now = Some p
       | Url url \<Rightarrow> (case latest rounds k url of
           None \<Rightarrow> price ps' k now = None
         | Some i \<Rightarrow> \<exists>p. from_price_info D i (token_decimals info) (ps_validity ps) = Ok p \<and>
             price ps' k now = (if now < pi_time i + ps_validity ps then Some p else None)))))"
proof -
  have inv: "prices_inv D ps" and unf: "unfetched ps"
    using assms(1) by (rule prices_new_inv, rule prices_new_unfetched)
  have token: "case ti_price_provider info of
         Static c \<Rightarrow> \<exists>p. static_price D c (token_decimals info) = Ok p \<and> price ps' k now = Some p
       | Url url \<Rightarrow> (case latest rounds k url of
           None \<Rightarrow> price ps' k now = None
         | Some i \<Rightarrow> \<exists>p. from_price_info D i (token_decimals info) (ps_validity ps) = Ok p \<and>
             price ps' k now = (if now < pi_time i + ps_validity ps then Some p else None))"
    if m: "m = None" and k: "ps_tokens ps k = Some info" for k info
  proof -
    note inner = start_price_feed_token [OF inv assms(2) assms(3) [unfolded m] k]
    from start_price_feed_keeps [OF inv assms(2,3)] k
    have "k \<in> dom (ps_inner ps')" by (auto simp: prices_inv_def)
    moreover obtain q where "ps_inner ps k = Some q" and "price_matches D (ps_validity ps) info q"
      using inv k by (rule prices_inv_entry)
    ultimately show ?thesis
    proof (cases "ti_price_provider info")
      case (Static c)
      with inner \<open>ps_inner ps k = Some q\<close> \<open>price_matches D (ps_validity ps) info q\<close> show ?thesis
        by (auto simp: price_matches_def price_of_inner validate_static result_simps)
    next
      case (Url url)
      then have "ps_inner ps k = Some None" using unf k by (auto simp: unfetched_def)
      with Url inner \<open>k \<in> dom (ps_inner ps')\<close> show ?thesis
        by (auto simp: price_of_inner validate_fetched split: option.splits result.splits)
    qed
  qed
  show ?thesis
    using insert_tokens_config [OF assms(1) [unfolded prices_new_def]] token
      start_price_feed_keeps [OF inv assms(2,3)] by simp
qed

definition sample_tokens :: "u64 token_info list" where
  "sample_tokens = [\<lparr> ti_kind = NativeKind, ti_price_provider = Url ''dia'' \<rparr>,
     \<lparr> ti_kind = ERC20Kind 7 2, ti_price_provider = Static 3 \<rparr>]"

definition sample_rounds :: "(u64 fetcher \<times> u64 token_info list) list" where
  "sample_rounds =
     [(\<lambda>k url. Some \<lparr> pi_token_price = 500, pi_time = 100 \<rparr>, sample_tokens),
      (\<lambda>k url. None, rev sample_tokens)]"

theorem price_feed_correct_witness:
  "\<exists>ps ps' p. prices_new cents sample_tokens 60 5 = Ok ps \<and>
    start_price_feed cents sample_rounds ps = (ps', None) \<and>
    price ps' NativeKind 159 = Some p \<and> price ps' NativeKind 160 = None"
proof -
  obtain ps where new: "prices_new cents sample_tokens 60 5 = Ok ps"
    by (auto simp: prices_new_def sample_tokens_def insert_token_def static_price_def unit_price_of_def
        cents_def token_decimals_def)
  then have tk: "ps_tokens ps = map_of (rev (map (\<lambda>t. (ti_kind t, t)) sample_tokens))"
    and v: "ps_validity ps = 60"
    using insert_tokens_config [OF new [unfolded prices_new_def]] by (auto simp: signed_duration_def)
  have e: "\<forall>(fetch, order) \<in> set sample_rounds. enumerates order ps"
    by (auto simp: sample_rounds_def enumerates_def tk sample_tokens_def split: if_splits)
  obtain ps' m where run: "start_price_feed cents sample_rounds ps = (ps', m)" by force
  note t = price_feed_correct [OF new e run]
  have "m = None"
    using t [of 0] by (simp add: round_panics_def sample_rounds_def sample_tokens_def fetched_price_def
        from_price_info_def unit_price_of_def cents_def token_decimals_def datetime_add_signed_def
        datetime_add_def datetime_min_def datetime_max_def v)
  moreover have k: "ps_tokens ps NativeKind = Some (hd sample_tokens)"
    "ti_price_provider (hd sample_tokens) = Url ''dia''"
    by (simp_all add: tk sample_tokens_def)
  moreover have l: "latest sample_rounds NativeKind ''dia'' = Some \<lparr> pi_token_price = 500, pi_time = 100 \<rparr>"
    by (simp add: sample_rounds_def)
  ultimately have "\<exists>p. price ps' NativeKind 159 = Some p"
    using t [of 159] v by fastforce
  then obtain p where "price ps' NativeKind 159 = Some p" ..
  moreover have "price ps' NativeKind 160 = None"
    using t [of 160] \<open>m = None\<close> k l v by fastforce
  ultimately show ?thesis using new run \<open>m = None\<close> by blast
qed

end
