(* ===== verification/Monitor.thy ===== *)
theory Monitor
  imports PriceFeed
begin

text \<open>
  The signers of the relayer and what watches over them: key handling and set-up (\<open>main.rs\<close>), the
  recharging of worker accounts (\<open>recharge.rs\<close>), the balance monitor
  (\<open>monitor/balance_monitor.rs\<close>) and the cached health check (\<open>monitor/rpc_monitor.rs\<close>).
  Keys and the node are other packages: a key type \<open>'s\<close> with its operations, and a node whose state
  \<open>'c\<close> is threaded through every request.
\<close>

section \<open>Signers\<close>

record 's key_api =
  key_from_str :: "string \<Rightarrow> 's option"
  key_address :: "'s \<Rightarrow> address"

record key_config =
  kc_fee_destination_key :: string
  kc_signing_keys :: "string list"

type_synonym balances = "address \<rightharpoonup> u256 option"

record 's signer_info =
  si_signer_keys :: "'s list"
  si_signer_addresses :: "address list"
  si_fee_destination_key :: 's
  si_fee_destination_address :: address
  si_balances :: balances

definition signer :: "'s key_api \<Rightarrow> string \<Rightarrow> ('s, string) result" where
  "signer K signing_key =
     ok_or (key_from_str K signing_key) ''Failed to create signer - invalid signing key''"

fun collect_signers :: "'s key_api \<Rightarrow> string list \<Rightarrow> ('s list, string) result" where
  "collect_signers K [] = Ok []"
| "collect_signers K (key # keys) =
     and_then (signer K key) (\<lambda>s. map_ok ((#) s) (collect_signers K keys))"

definition parse_keys :: "'s key_api \<Rightarrow> string list \<Rightarrow> ('s list \<times> address list, string) result" where
  "parse_keys K keys =
     and_then (collect_signers K keys) (\<lambda>signers. Ok (signers, map (key_address K) signers))"

definition initial_balances :: "address list \<Rightarrow> balances" where
  "initial_balances addresses = map_of (map (\<lambda>address. (address, None)) addresses)"

definition get_signer_info :: "'s key_api \<Rightarrow> key_config \<Rightarrow> ('s signer_info, string) result" where
  "get_signer_info K config =
     and_then (signer K (kc_fee_destination_key config)) (\<lambda>fee_destination_key.
     (let fee_destination_address = key_address K fee_destination_key in
     and_then (parse_keys K (kc_signing_keys config)) (\<lambda>(signer_keys, signer_addresses).
     (let all_addresses = signer_addresses @ [fee_destination_address];
          balances = initial_balances all_addresses
      in Ok \<lparr> si_signer_keys = signer_keys, si_signer_addresses = signer_addresses,
              si_fee_destination_key = fee_destination_key,
              si_fee_destination_address = fee_destination_address, si_balances = balances \<rparr>))))"

definition set_balance :: "balances \<Rightarrow> address \<Rightarrow> u256 option \<Rightarrow> (balances, string) result" where
  "set_balance balances address balance = (case balances address of
       None \<Rightarrow> Panic ''Map should be already intialized''
     | Some previous \<Rightarrow> Ok (balances(address \<mapsto> balance)))"

section \<open>The node\<close>

record transfer =
  tr_from :: address
  tr_value :: u256
  tr_to :: address

text \<open>
  \<open>node_send\<close> stands for sending a transaction and watching it: \<open>Ok\<close> once it is confirmed.
\<close>

record 'c node =
  node_balance :: "address \<Rightarrow> 'c \<Rightarrow> (u256, string) result \<times> 'c"
  node_send :: "transfer \<Rightarrow> 'c \<Rightarrow> (unit, string) result \<times> 'c"

section \<open>Recharging\<close>

definition recharge_relayer ::
  "'c node \<Rightarrow> address \<Rightarrow> address \<Rightarrow> u256 \<Rightarrow> 'c \<Rightarrow> (unit, string) result \<times> 'c" where
  "recharge_relayer N relayer cornucopia_address recharge_amount c =
     node_send N \<lparr> tr_from = cornucopia_address, tr_value = recharge_amount, tr_to = relayer \<rparr> c"

definition try_recharging_relayer ::
  "'c node \<Rightarrow> address \<Rightarrow> address \<Rightarrow> u256 \<Rightarrow> u256 \<Rightarrow> 'c \<Rightarrow> (u256, string) result \<times> 'c" where
  "try_recharging_relayer N relayer cornucopia_address recharge_threshold recharge_amount c =
     (case node_balance N relayer c of
        (Ok relayer_balance, c) \<Rightarrow>
          if relayer_balance < recharge_threshold then
            (case recharge_relayer N relayer cornucopia_address recharge_amount c of
               (r, c) \<Rightarrow> (and_then r (\<lambda>_. Ok (recharge_amount + relayer_balance)), c))
          else (Ok relayer_balance, c)
      | (Err err, c) \<Rightarrow> (Err ''Failed to retrieve relayer worker balance'', c)
      | (Panic msg, c) \<Rightarrow> (Panic msg, c))"

text \<open>The loop over the signers; the first failure stops it.\<close>

fun fund_signers ::
  "'c node \<Rightarrow> address \<Rightarrow> u256 \<Rightarrow> u256 \<Rightarrow> address list \<Rightarrow> balances \<Rightarrow> 'c
     \<Rightarrow> (balances, string) result \<times> 'c" where
  "fund_signers N corn threshold amount [] balances c = (Ok balances, c)"
| "fund_signers N corn threshold amount (relayer # relayers) balances c =
     (case try_recharging_relayer N relayer corn threshold amount c of
        (Ok relayer_balance, c) \<Rightarrow>
          (case set_balance balances relayer (Some relayer_balance) of
             Ok balances \<Rightarrow> fund_signers N corn threshold amount relayers balances c
           | Err e \<Rightarrow> (Err e, c)
           | Panic msg \<Rightarrow> (Panic msg, c))
      | (Err e, c) \<Rightarrow> (Err e, c)
      | (Panic msg, c) \<Rightarrow> (Panic msg, c))"

text \<open>
  \<open>ensure_signers_have_funds\<close> with the provider creation as an argument (an error ends it at once).
\<close>

definition ensure_signers_have_funds ::
  "'s key_api \<Rightarrow> ('c node, string) result \<Rightarrow> 's \<Rightarrow> 's signer_info \<Rightarrow> u256 \<Rightarrow> u256 \<Rightarrow> 'c
     \<Rightarrow> (balances, string) result \<times> 'c" where
  "ensure_signers_have_funds K create_provider cornucopia signers recharge_threshold recharge_amount c =
     (let cornucopia_address = key_address K cornucopia in
      case create_provider of
        Ok N \<Rightarrow> fund_signers N cornucopia_address recharge_threshold recharge_amount
          (si_signer_addresses signers) (si_balances signers) c
      | Err e \<Rightarrow> (Err e, c)
      | Panic msg \<Rightarrow> (Panic msg, c))"

text \<open>
  The recharging worker handles the reports of the relay workers one by one; a failure is logged and
  the next report is handled. When the channel is closed it ends with an error. The log holds, per
  report, whether the recharging failed.
\<close>

fun recharge_reports ::
  "'c node \<Rightarrow> address \<Rightarrow> u256 \<Rightarrow> u256 \<Rightarrow> address list \<Rightarrow> 'c \<Rightarrow> bool list \<times> 'c" where
  "recharge_reports N corn threshold amount [] c = ([], c)"
| "recharge_reports N corn threshold amount (relayer # reports) c =
     (case try_recharging_relayer N relayer corn threshold amount c of
        (r, c) \<Rightarrow> (case recharge_reports N corn threshold amount reports c of
          (log, c) \<Rightarrow> ((\<not> is_ok r) # log, c)))"

definition recharging_worker ::
  "'s key_api \<Rightarrow> ('c node, string) result \<Rightarrow> 's \<Rightarrow> u256 \<Rightarrow> u256 \<Rightarrow> address list \<Rightarrow> 'c
     \<Rightarrow> (unit, string) result \<times> bool list \<times> 'c" where
  "recharging_worker K create_provider cornucopia threshold amount reports c =
     (case create_provider of
        Ok N \<Rightarrow> (case recharge_reports N (key_address K cornucopia) threshold amount reports c of
          (log, c) \<Rightarrow> (Err ''Relay report channel closed'', log, c))
      | Err e \<Rightarrow> (Err e, [], c)
      | Panic msg \<Rightarrow> (Panic msg, [], c))"

text \<open>The channel from the relay workers has one slot per worker; no workers make it panic.\<close>

definition recharge_channel_capacity :: "address list \<Rightarrow> (nat, unit) result" where
  "recharge_channel_capacity relay_workers =
     (if relay_workers = [] then Panic ''mpsc bounded channel requires buffer > 0''
      else Ok (length relay_workers))"

section \<open>The balance monitor\<close>

text \<open>One tick: every key of the map (in the order \<open>keys\<close> of the hash map) is asked for.\<close>

fun monitor_balances ::
  "'c node \<Rightarrow> address list \<Rightarrow> balances \<Rightarrow> 'c \<Rightarrow> (balances, string) result \<times> 'c" where
  "monitor_balances N [] balances c = (Ok balances, c)"
| "monitor_balances N (account # keys) balances c =
     (case node_balance N account c of
        (r, c) \<Rightarrow>
          (case set_balance balances account (case r of Ok balance \<Rightarrow> Some balance | _ \<Rightarrow> None) of
             Ok balances \<Rightarrow> monitor_balances N keys balances c
           | Err e \<Rightarrow> (Err e, c)
           | Panic msg \<Rightarrow> (Panic msg, c)))"

section \<open>The health of the node\<close>

record rpc_monitor =
  rm_rpc_url :: string
  rm_is_healthy :: "(unit, string) result"
  rm_last_check_started :: nat
  rm_cache_validity :: duration

definition cannot_reach_rpc_node :: "string \<Rightarrow> (unit, string) result" where
  "cannot_reach_rpc_node err = Err (''Cannot reach RPC node: '' @ err)"

text \<open>The node is probed by creating a provider and asking for the chain id, within ten seconds.\<close>

definition healthy_no_timeout ::
  "(string \<Rightarrow> ('p, string) result) \<Rightarrow> ('p \<Rightarrow> (u64, string) result) \<Rightarrow> string \<Rightarrow> (unit, string) result" where
  "healthy_no_timeout create_simple_provider get_chain_id node_rpc_url =
     (case create_simple_provider node_rpc_url of
        Ok p \<Rightarrow> (case get_chain_id p of
            Ok chain_id \<Rightarrow> Ok ()
          | Err err \<Rightarrow> cannot_reach_rpc_node err
          | Panic msg \<Rightarrow> Panic msg)
      | Err err \<Rightarrow> cannot_reach_rpc_node err
      | Panic msg \<Rightarrow> Panic msg)"

definition healthy ::
  "bool \<Rightarrow> (string \<Rightarrow> ('p, string) result) \<Rightarrow> ('p \<Rightarrow> (u64, string) result) \<Rightarrow> string
     \<Rightarrow> (unit, string) result" where
  "healthy timed_out create_simple_provider get_chain_id node_rpc_url =
     (if timed_out then cannot_reach_rpc_node ''timeout while checking RPC node health''
      else healthy_no_timeout create_simple_provider get_chain_id node_rpc_url)"

definition rpc_monitor_new :: "duration \<Rightarrow> string \<Rightarrow> (unit, string) result \<Rightarrow> nat \<Rightarrow> rpc_monitor" where
  "rpc_monitor_new cache_validity rpc_url is_healthy now = \<lparr> rm_rpc_url = rpc_url,
     rm_is_healthy = is_healthy, rm_last_check_started = now, rm_cache_validity = cache_validity \<rparr>"

text \<open>
  \<open>is_healthy\<close> is three steps, each under the lock: decide whether to probe (the clock is read for the
  elapsed time and again for the new timestamp), store the outcome of the probe, read the outcome.
\<close>

definition begin_check :: "nat \<Rightarrow> nat \<Rightarrow> rpc_monitor \<Rightarrow> bool \<times> rpc_monitor" where
  "begin_check t_elapsed t_now rm =
     (if rm_cache_validity rm < t_elapsed - rm_last_check_started rm
      then (True, rm\<lparr>rm_last_check_started := t_now\<rparr>)
      else (False, rm))"

definition update_health :: "(string \<Rightarrow> (unit, string) result) \<Rightarrow> rpc_monitor \<Rightarrow> rpc_monitor" where
  "update_health probe rm = rm\<lparr>rm_is_healthy := probe (rm_rpc_url rm)\<rparr>"

definition rpc_health :: "rpc_monitor \<Rightarrow> (unit, string) result" where
  "rpc_health rm = rm_is_healthy rm"

definition is_healthy ::
  "nat \<Rightarrow> nat \<Rightarrow> (string \<Rightarrow> (unit, string) result) \<Rightarrow> rpc_monitor \<Rightarrow> (unit, string) result \<times> rpc_monitor" where
  "is_healthy t_elapsed t_now probe rm =
     (case begin_check t_elapsed t_now rm of
        (requires_update, rm) \<Rightarrow>
          (let rm = (if requires_update then update_health probe rm else rm)
           in (rpc_health rm, rm)))"

section \<open>Signer set-up\<close>

lemma collect_signers_Ok:
  "collect_signers K keys = Ok ss \<longleftrightarrow> map (key_from_str K) keys = map Some ss"
proof (induction keys arbitrary: ss)
  case Nil
  then show ?case by auto
next
  case (Cons key keys)
  then show ?case by (cases ss) (auto simp: signer_def result_simps)
qed

lemma initial_balances_apply [simp]:
  "initial_balances xs a = (if a \<in> set xs then Some None else None)"
  by (induction xs) (auto simp: initial_balances_def)

lemma get_signer_info_Ok:
  "get_signer_info K config = Ok si \<longleftrightarrow> (\<exists>fk ss.
     key_from_str K (kc_fee_destination_key config) = Some fk \<and>
     map (key_from_str K) (kc_signing_keys config) = map Some ss \<and>
     si = \<lparr> si_signer_keys = ss, si_signer_addresses = map (key_address K) ss,
       si_fee_destination_key = fk, si_fee_destination_address = key_address K fk,
       si_balances = initial_balances (map (key_address K) ss @ [key_address K fk]) \<rparr>)"
  unfolding get_signer_info_def parse_keys_def Let_def
  by (auto simp: result_simps signer_def collect_signers_Ok)

lemma map_eq_map_Some_iff: "(\<exists>ys. map f xs = map Some ys) \<longleftrightarrow> (\<forall>x \<in> set xs. f x \<noteq> None)"
proof
  assume "\<exists>ys. map f xs = map Some ys"
  then obtain ys where ys: "map f xs = map Some ys" ..
  show "\<forall>x \<in> set xs. f x \<noteq> None"
  proof
    fix x assume "x \<in> set xs"
    then have "f x \<in> set (map Some ys)" using ys [symmetric] by simp
    then show "f x \<noteq> None" by auto
  qed
next
  assume "\<forall>x \<in> set xs. f x \<noteq> None"
  then have "map f xs = map Some (map (the \<circ> f) xs)" by auto
  then show "\<exists>ys. map f xs = map Some ys" ..
qed

text \<open>
  Signer set-up. It succeeds exactly when the fee key and every signing key parse; then the
  addresses are those of the keys, in order, and the balance map has an (unknown) entry for every
  signer and for the fee destination, and for nobody else.
\<close>

theorem get_signer_info_correct:
  "(is_ok (get_signer_info K config) \<longleftrightarrow>
     (\<forall>k \<in> set (kc_fee_destination_key config # kc_signing_keys config). key_from_str K k \<noteq> None)) \<and>
   (\<forall>si. get_signer_info K config = Ok si \<longrightarrow>
     map (key_from_str K) (kc_signing_keys config) = map Some (si_signer_keys si) \<and>
     key_from_str K (kc_fee_destination_key config) = Some (si_fee_destination_key si) \<and>
     si_signer_addresses si = map (key_address K) (si_signer_keys si) \<and>
     si_fee_destination_address si = key_address K (si_fee_destination_key si) \<and>
     dom (si_balances si) = set (si_signer_addresses si) \<union> {si_fee_destination_address si} \<and>
     ran (si_balances si) \<subseteq> {None})"
proof -
  have "is_ok (get_signer_info K config) \<longleftrightarrow>
      key_from_str K (kc_fee_destination_key config) \<noteq> None \<and>
      (\<exists>ss. map (key_from_str K) (kc_signing_keys config) = map Some ss)"
    unfolding is_ok_iff get_signer_info_Ok by auto
  then have "is_ok (get_signer_info K config) \<longleftrightarrow>
     (\<forall>k \<in> set (kc_fee_destination_key config # kc_signing_keys config). key_from_str K k \<noteq> None)"
    unfolding map_eq_map_Some_iff by simp
  then show ?thesis
    by (rule conjI) (auto simp: get_signer_info_Ok dom_def ran_def split: if_splits)
qed

text \<open>A toy key type, for the witnesses.\<close>

definition sample_keys :: "nat key_api" where
  "sample_keys = \<lparr> key_from_str = (\<lambda>s. Some (length s)), key_address = of_nat \<rparr>"

theorem get_signer_info_correct_witness:
  "\<exists>si. get_signer_info sample_keys \<lparr> kc_fee_destination_key = ''abc'', kc_signing_keys = [''a'', ''ab''] \<rparr> = Ok si \<and>
    si_signer_addresses si = map (key_address sample_keys) (si_signer_keys si) \<and>
    dom (si_balances si) = set (si_signer_addresses si) \<union> {si_fee_destination_address si}"
proof -
  let ?config = "\<lparr> kc_fee_destination_key = ''abc'', kc_signing_keys = [''a'', ''ab''] \<rparr>"
  note t = get_signer_info_correct [of sample_keys ?config]
  have "is_ok (get_signer_info sample_keys ?config)"
    using t by (simp add: sample_keys_def)
  then obtain si where "get_signer_info sample_keys ?config = Ok si" by (meson is_ok.elims(2))
  with t show ?thesis by blast
qed

section \<open>Balances\<close>

lemma set_balance_Ok: "a \<in> dom b \<Longrightarrow> set_balance b a v = Ok (b(a \<mapsto> v))"
  by (auto simp: set_balance_def)

definition reported :: "'c node \<Rightarrow> 'c \<Rightarrow> address \<Rightarrow> u256 option" where
  "reported N c a = (case fst (node_balance N a c) of Ok v \<Rightarrow> Some v | _ \<Rightarrow> None)"

text \<open>
  A tick of the balance monitor, on a node whose state does not change meanwhile. Over the keys of
  the map (in any order, each once) it never panics, keeps the keys, and each entry becomes the balance
  the node reported for it, or unknown when the node did not answer.
\<close>

theorem monitor_balances_correct:
  assumes "set keys = dom b" and "distinct keys"
    and "\<forall>a. snd (node_balance N a c) = c"
  shows "monitor_balances N keys b c =
    (Ok (\<lambda>a. if a \<in> set keys then Some (reported N c a) else None), c)"
proof -
  have "monitor_balances N ks d c =
      (Ok (\<lambda>a. if a \<in> set ks then Some (reported N c a) else d a), c)"
    if "set ks \<subseteq> dom d" and "distinct ks" for ks and d :: balances
    using that
  proof (induction ks arbitrary: d)
    case Nil
    then show ?case by simp
  next
    case (Cons k ks)
    have r: "node_balance N k c = (fst (node_balance N k c), c)" using assms(3) by (metis prod.collapse)
    have set_k: "set_balance d k v = Ok (d(k \<mapsto> v))" for v
      using Cons.prems(1) by (intro set_balance_Ok) simp
    have "monitor_balances N (k # ks) d c = monitor_balances N ks (d(k \<mapsto> reported N c k)) c"
      by (subst monitor_balances.simps, subst r) (simp add: set_k flip: reported_def)
    moreover have "set ks \<subseteq> dom (d(k \<mapsto> reported N c k))" using Cons.prems by auto
    moreover have "(\<lambda>a. if a \<in> set ks then Some (reported N c a) else (d(k \<mapsto> reported N c k)) a)
        = (\<lambda>a. if a \<in> set (k # ks) then Some (reported N c a) else d a)" by auto
    ultimately show ?case using Cons.IH Cons.prems(2) by (simp only: distinct.simps)
  qed
  from this [of keys b] assms(1,2) have "monitor_balances N keys b c =
      (Ok (\<lambda>a. if a \<in> set keys then Some (reported N c a) else b a), c)" by simp
  moreover have "b a = None" if "a \<notin> set keys" for a using assms(1) that by auto
  ultimately show ?thesis by (simp add: fun_eq_iff cong: if_cong)
qed

text \<open>A node that is just a table of balances, for the witnesses.\<close>

definition ledger_sample :: "(address \<Rightarrow> u256) node" where
  "ledger_sample = \<lparr> node_balance = (\<lambda>a c. (Ok (c a), c)),
     node_send = (\<lambda>t c. (Ok (), c(tr_to t := c (tr_to t) + tr_value t))) \<rparr>"

lemma reported_ledger_sample [simp]: "reported ledger_sample c a = Some (c a)"
  by (simp add: reported_def ledger_sample_def)

theorem monitor_balances_correct_witness:
  "monitor_balances ledger_sample [1, 2] [1 \<mapsto> None, 2 \<mapsto> Some 4] (\<lambda>a. 10)
     = (Ok (\<lambda>a. if a \<in> set [1, 2] then Some (Some 10) else None), \<lambda>a. 10)"
  by (rule monitor_balances_correct [of "[1, 2]" "[1 \<mapsto> None, 2 \<mapsto> Some 4]" ledger_sample "\<lambda>a. 10",
        unfolded reported_ledger_sample]) (auto simp: ledger_sample_def)

section \<open>Funding\<close>

text \<open>
  What a node promises: balance queries answer the balance and change nothing; a confirmed transfer
  adds its value to the recipient and touches no other account but the sender's; the client reports
  failures as errors.
\<close>

definition ledger_node :: "'c node \<Rightarrow> ('c \<Rightarrow> address \<Rightarrow> u256) \<Rightarrow> bool" where
  "ledger_node N bal \<longleftrightarrow>
     (\<forall>a c. \<exists>c'. node_balance N a c = (Ok (bal c a), c') \<and> bal c' = bal c) \<and>
     (\<forall>t c. case node_send N t c of
        (Ok u, c') \<Rightarrow> \<forall>a. a \<noteq> tr_from t \<longrightarrow>
          bal c' a = (if a = tr_to t then tr_value t + bal c a else bal c a)
      | (Err e, c') \<Rightarrow> True
      | (Panic m, c') \<Rightarrow> False)"

definition topped_up :: "u256 \<Rightarrow> u256 \<Rightarrow> u256 \<Rightarrow> u256" where
  "topped_up threshold amount balance = (if balance < threshold then amount + balance else balance)"

lemma try_recharging_relayer_ledger:
  assumes "ledger_node N bal" and "relayer \<noteq> corn"
    and "try_recharging_relayer N relayer corn threshold amount c = (r, c')"
  shows "(\<forall>m. r \<noteq> Panic m) \<and> (\<forall>v. r = Ok v \<longrightarrow> v = topped_up threshold amount (bal c relayer) \<and>
    (\<forall>a. a \<noteq> corn \<longrightarrow> bal c' a = (if a = relayer then v else bal c a)))"
proof -
  obtain c1 where b: "node_balance N relayer c = (Ok (bal c relayer), c1)" and c1: "bal c1 = bal c"
    using assms(1) unfolding ledger_node_def by blast
  let ?t = "\<lparr> tr_from = corn, tr_value = amount, tr_to = relayer \<rparr>"
  obtain r2 c2 where s: "node_send N ?t c1 = (r2, c2)" by force
  have "case (r2, c2) of (Ok u, c') \<Rightarrow> \<forall>a. a \<noteq> corn \<longrightarrow>
          bal c' a = (if a = relayer then amount + bal c1 a else bal c1 a)
      | (Err e, c') \<Rightarrow> True | (Panic m, c') \<Rightarrow> False"
    using assms(1) [unfolded ledger_node_def, THEN conjunct2, rule_format, of ?t c1]
    unfolding s by (cases r2) simp_all
  then show ?thesis using assms(2,3) c1
    by (auto simp: try_recharging_relayer_def recharge_relayer_def b s topped_up_def
        split: if_splits result.splits)
qed

lemma fund_signers_ledger:
  assumes "ledger_node N bal" and "corn \<notin> set relayers" and "distinct relayers"
    and "set relayers \<subseteq> dom b"
    and "fund_signers N corn threshold amount relayers b c = (r, c')"
  shows "(\<forall>m. r \<noteq> Panic m) \<and> (\<forall>b'. r = Ok b' \<longrightarrow>
    (\<forall>a. a \<noteq> corn \<longrightarrow> bal c' a =
       (if a \<in> set relayers then topped_up threshold amount (bal c a) else bal c a)) \<and>
    (\<forall>a. b' a = (if a \<in> set relayers then Some (Some (topped_up threshold amount (bal c a))) else b a)))"
  using assms(2-5)
proof (induction relayers arbitrary: b c)
  case Nil
  then show ?case by auto
next
  case (Cons x xs)
  obtain rx cx where x: "try_recharging_relayer N x corn threshold amount c = (rx, cx)" by force
  from Cons.prems have ne: "x \<noteq> corn" by auto
  note tx = try_recharging_relayer_ledger [OF assms(1) ne x]
  show ?case
  proof (cases rx)
    case (Ok v)
    let ?b = "b(x \<mapsto> Some v)"
    have "fund_signers N corn threshold amount xs ?b cx = (r, c')"
      using Cons.prems(3,4) by (simp add: x Ok set_balance_Ok)
    moreover have "set xs \<subseteq> dom ?b" using Cons.prems(3) by auto
    moreover have "corn \<notin> set xs" "distinct xs" using Cons.prems(1,2) by simp_all
    ultimately have ih: "(\<forall>m. r \<noteq> Panic m) \<and> (\<forall>b'. r = Ok b' \<longrightarrow>
        (\<forall>a. a \<noteq> corn \<longrightarrow> bal c' a =
           (if a \<in> set xs then topped_up threshold amount (bal cx a) else bal cx a)) \<and>
        (\<forall>a. b' a = (if a \<in> set xs then Some (Some (topped_up threshold amount (bal cx a))) else ?b a)))"
      by (intro Cons.IH)
    have v: "v = topped_up threshold amount (bal c x)"
      and cx: "\<And>a. a \<noteq> corn \<Longrightarrow> bal cx a = (if a = x then v else bal c a)" using tx Ok by auto
    have neq: "a \<noteq> x" "a \<noteq> corn" if "a \<in> set xs" for a using Cons.prems(1,2) that by auto
    have "x \<notin> set xs" using Cons.prems(2) by simp
    with ih show ?thesis by (auto simp: cx neq v)
  next
    case (Err e)
    then show ?thesis using Cons.prems(4) x by auto
  next
    case (Panic m)
    then show ?thesis using tx by simp
  qed
qed

text \<open>
  Start-up funding. On a node that keeps its promises, with distinct signers none of which is the
  fee account, the funding of the signers never panics; when it ends well, each signer below the
  threshold received exactly one recharge amount, the others and every other account but the fee
  account kept their balance, and the balance map shows the signers' new balances.
\<close>

theorem signers_are_funded:
  assumes "ledger_node N bal" and "get_signer_info K config = Ok si"
    and "distinct (si_signer_addresses si)"
    and "si_fee_destination_address si \<notin> set (si_signer_addresses si)"
    and "ensure_signers_have_funds K (Ok N) (si_fee_destination_key si) si threshold amount c = (r, c')"
  shows "(\<forall>m. r \<noteq> Panic m) \<and> (\<forall>b. r = Ok b \<longrightarrow>
    (\<forall>a. a \<noteq> si_fee_destination_address si \<longrightarrow> bal c' a =
       (if a \<in> set (si_signer_addresses si) then topped_up threshold amount (bal c a) else bal c a)) \<and>
    (\<forall>a. b a = (if a \<in> set (si_signer_addresses si) then Some (Some (bal c' a)) else si_balances si a)))"
proof -
  have dom: "set (si_signer_addresses si) \<subseteq> dom (si_balances si)"
    and corn: "key_address K (si_fee_destination_key si) = si_fee_destination_address si"
    using assms(2) by (auto simp: get_signer_info_Ok)
  from assms(5) have "fund_signers N (si_fee_destination_address si) threshold amount
      (si_signer_addresses si) (si_balances si) c = (r, c')"
    by (simp add: ensure_signers_have_funds_def corn)
  from fund_signers_ledger [OF assms(1,4,3) dom this] show ?thesis
    by (elim conjE, intro conjI allI impI) (use assms(4) in \<open>auto, metis\<close>)
qed

lemma ledger_node_sample: "ledger_node ledger_sample (\<lambda>c. c)"
  by (simp add: ledger_node_def ledger_sample_def)

theorem signers_are_funded_witness:
  "\<exists>si r b c'. get_signer_info sample_keys \<lparr> kc_fee_destination_key = ''abc'', kc_signing_keys = [''a'', ''ab''] \<rparr> = Ok si \<and>
    ensure_signers_have_funds sample_keys (Ok ledger_sample) (si_fee_destination_key si) si 10 7
      (\<lambda>a. if a = 1 then 4 else 30) = (Ok b, c') \<and> c' 1 = 11 \<and> c' 2 = 30 \<and> b 1 = Some (Some 11)"
proof -
  let ?config = "\<lparr> kc_fee_destination_key = ''abc'', kc_signing_keys = [''a'', ''ab''] \<rparr>"
  let ?c = "\<lambda>a :: address. if a = 1 then 4 else 30 :: u256"
  let ?si = "\<lparr> si_signer_keys = [1, 2], si_signer_addresses = [1, 2], si_fee_destination_key = 3,
    si_fee_destination_address = 3, si_balances = initial_balances [1, 2, 3] \<rparr> :: nat signer_info"
  have si: "get_signer_info sample_keys ?config = Ok ?si"
    unfolding get_signer_info_Ok by (intro exI [of _ 3] exI [of _ "[1, 2]"]) (simp add: sample_keys_def)
  obtain r c' where run: "ensure_signers_have_funds sample_keys (Ok ledger_sample)
      (si_fee_destination_key ?si) ?si 10 7 ?c = (r, c')" by force
  then obtain b where b: "r = Ok b"
    by (auto simp: ensure_signers_have_funds_def ledger_sample_def try_recharging_relayer_def
        recharge_relayer_def set_balance_def initial_balances_def)
  have "(\<forall>a. a \<noteq> 3 \<longrightarrow> c' a = (if a \<in> set [1, 2] then topped_up 10 7 (?c a) else ?c a)) \<and>
    (\<forall>a. b a = (if a \<in> set [1, 2] then Some (Some (c' a)) else si_balances ?si a))"
    using signers_are_funded [OF ledger_node_sample si _ _ run] b by auto
  then have "c' 1 = 11 \<and> c' 2 = 30 \<and> b 1 = Some (Some 11)" by (simp add: topped_up_def)
  with si run b show ?thesis by blast
qed

section \<open>The rate of health checks\<close>

text \<open>
  The steps of concurrent \<open>is_healthy\<close> calls, in the order in which they take the lock, and the
  instants at which a probe of the node is started.
\<close>

datatype monitor_step =
    BeginCheck nat nat
  | StoreHealth "(unit, string) result"

fun probes :: "monitor_step list \<Rightarrow> rpc_monitor \<Rightarrow> nat list" where
  "probes [] rm = []"
| "probes (BeginCheck t_elapsed t_now # steps) rm =
     (case begin_check t_elapsed t_now rm of
        (True, rm) \<Rightarrow> t_now # probes steps rm
      | (False, rm) \<Rightarrow> probes steps rm)"
| "probes (StoreHealth r # steps) rm = probes steps (update_health (\<lambda>url. r) rm)"

text \<open>The clock does not run backwards.\<close>

fun clock_monotone :: "nat \<Rightarrow> monitor_step list \<Rightarrow> bool" where
  "clock_monotone t [] = True"
| "clock_monotone t (BeginCheck t1 t2 # steps) = (t \<le> t1 \<and> t1 \<le> t2 \<and> clock_monotone t2 steps)"
| "clock_monotone t (StoreHealth r # steps) = clock_monotone t steps"

fun spaced :: "duration \<Rightarrow> nat \<Rightarrow> nat list \<Rightarrow> bool" where
  "spaced v t [] = True"
| "spaced v t (x # xs) = (t + v < x \<and> spaced v x xs)"

text \<open>
  The health cache limits the probes. However many requests ask for the health of the node
  concurrently, two probes are started more than the cache validity apart, and the first one more than
  that after the monitor was last refreshed.
\<close>

theorem probes_are_spaced:
  assumes "clock_monotone t steps" and "rm_last_check_started rm \<le> t"
  shows "spaced (rm_cache_validity rm) (rm_last_check_started rm) (probes steps rm)"
  using assms
proof (induction steps arbitrary: rm t)
  case Nil
  then show ?case by simp
next
  case (Cons s steps)
  show ?case
  proof (cases s)
    case (BeginCheck t1 t2)
    show ?thesis
    proof (cases "rm_cache_validity rm < t1 - rm_last_check_started rm")
      case True
      with Cons.prems BeginCheck Cons.IH [of t2 "rm\<lparr>rm_last_check_started := t2\<rparr>"] show ?thesis
        by (simp add: begin_check_def less_diff_conv)
    next
      case False
      with Cons.prems BeginCheck Cons.IH [of t2 rm] show ?thesis by (simp add: begin_check_def)
    qed
  next
    case (StoreHealth r)
    with Cons.prems Cons.IH [of t "update_health (\<lambda>url. r) rm"] show ?thesis
      by (simp add: update_health_def)
  qed
qed

theorem probes_are_spaced_witness:
  "probes [BeginCheck 8 8, BeginCheck 11 12, BeginCheck 13 13, StoreHealth (Ok ()), BeginCheck 23 23]
     (rpc_monitor_new 10 ''rpc'' (Ok ()) 0) = [12, 23] \<and> spaced 10 0 [12, 23]"
proof -
  let ?steps = "[BeginCheck 8 8, BeginCheck 11 12, BeginCheck 13 13, StoreHealth (Ok ()), BeginCheck 23 23]"
  have p: "probes ?steps (rpc_monitor_new 10 ''rpc'' (Ok ()) 0) = [12, 23]"
    by (simp add: rpc_monitor_new_def begin_check_def update_health_def)
  have "spaced 10 0 (probes ?steps (rpc_monitor_new 10 ''rpc'' (Ok ()) 0))"
    using probes_are_spaced [of 0 ?steps "rpc_monitor_new 10 ''rpc'' (Ok ()) 0"]
    by (simp add: rpc_monitor_new_def)
  with p show ?thesis by simp
qed

end
