(* ===== verification/Quote.thy ===== *)
theory Quote
  imports Monitor
begin

text \<open>
  The state the request handlers of the relayer share (\<open>main.rs\<close>), the creation of the workers' users,
  the small endpoints (\<open>health_endpoint.rs\<close>, \<open>info_endpoints.rs\<close>) and the fee quotation
  (\<open>quote.rs\<close>). Clock readings are arguments, one per call of \<open>now_utc\<close>.
\<close>

section \<open>The application state\<close>

record ('d, 's) app_state =
  as_node_rpc_url :: string
  as_relay_gas :: u64
  as_signer_info :: "'s signer_info"
  as_rpc_monitor :: rpc_monitor
  as_prices :: "'d prices"
  as_token_config :: "'d token_info list"
  as_quote_cache :: "'d quote_cache"
  as_max_pocket_money :: u256
  as_service_fee_percent :: u32

datatype nonce_policy = Caching | Stateless

text \<open>The providers with cached nonces come from an argument.\<close>

definition user_policy ::
  "'s key_api \<Rightarrow> (string \<Rightarrow> 's \<Rightarrow> ('p, string) result) \<Rightarrow> string \<Rightarrow> nonce_policy \<Rightarrow> 's
     \<Rightarrow> (('p, 's) connection_policy, string) result" where
  "user_policy K create_provider node_rpc_url nonce_policy sk = (case nonce_policy of
       Caching \<Rightarrow> and_then (create_provider node_rpc_url sk) (\<lambda>p. Ok (Keep p (key_address K sk)))
     | Stateless \<Rightarrow> Ok (OnDemand node_rpc_url sk))"

fun build_shielder_users ::
  "'s key_api \<Rightarrow> (string \<Rightarrow> 's \<Rightarrow> ('p, string) result) \<Rightarrow> string \<Rightarrow> address \<Rightarrow> nonce_policy \<Rightarrow> 's list
     \<Rightarrow> (('p, 's) shielder_user list, string) result" where
  "build_shielder_users K create_provider node_rpc_url contract nonce_policy [] = Ok []"
| "build_shielder_users K create_provider node_rpc_url contract nonce_policy (sk # signers) =
     and_then (user_policy K create_provider node_rpc_url nonce_policy sk) (\<lambda>policy.
       map_ok ((#) (shielder_user_new contract policy))
         (build_shielder_users K create_provider node_rpc_url contract nonce_policy signers))"

section \<open>Small endpoints\<close>

definition health ::
  "nat \<Rightarrow> nat \<Rightarrow> (string \<Rightarrow> (unit, string) result) \<Rightarrow> ('d, 's) app_state
     \<Rightarrow> (unit response, unit) result \<times> ('d, 's) app_state" where
  "health t_elapsed t_now probe app =
     (case is_healthy t_elapsed t_now probe (as_rpc_monitor app) of
        (r, rm) \<Rightarrow> (case r of
            Ok u \<Rightarrow> Ok (success ''Healthy'')
          | Err err \<Rightarrow> Ok (temporary_failure err)
          | Panic msg \<Rightarrow> Panic msg, app\<lparr>as_rpc_monitor := rm\<rparr>))"

definition fee_address :: "('d, 's) app_state \<Rightarrow> address" where
  "fee_address app = si_fee_destination_address (as_signer_info app)"

definition supported_tokens :: "('d, 's) app_state \<Rightarrow> token_kind list" where
  "supported_tokens app = map ti_kind (as_token_config app)"

definition max_pocket_money :: "('d, 's) app_state \<Rightarrow> u256" where
  "max_pocket_money app = as_max_pocket_money app"

section \<open>Quoting\<close>

record ('d, 's, 'p) quote_env =
  qe_create_simple_provider :: "string \<Rightarrow> ('p, string) result"
  qe_get_gas_price :: "'p \<Rightarrow> (u128, string) result"
  qe_now_native :: datetime
  qe_now_fee :: datetime
  qe_now_store :: datetime

record 'd quote_prices =
  qp_fee_token_price :: "'d price_t"
  qp_native_token_price :: "'d price_t"

definition get_gas_price :: "('d, 's, 'p) quote_env \<Rightarrow> ('d, 's) app_state \<Rightarrow> (u128, string) result" where
  "get_gas_price env app =
     and_then (map_err (\<lambda>err. ''Failed to create provider: '' @ err)
        (qe_create_simple_provider env (as_node_rpc_url app)))
       (\<lambda>p. map_err (\<lambda>err. ''Failed to get gas price: '' @ err) (qe_get_gas_price env p))"

definition get_native_token_price ::
  "('d, 's, 'p) quote_env \<Rightarrow> ('d, 's) app_state \<Rightarrow> ('d price_t, string) result" where
  "get_native_token_price env app =
     ok_or (price (as_prices app) NativeKind (qe_now_native env)) ''Native token price not available''"

definition get_token_price ::
  "('d, 's, 'p) quote_env \<Rightarrow> ('d, 's) app_state \<Rightarrow> token \<Rightarrow> ('d quote_prices, string) result" where
  "get_token_price env app token =
     and_then (get_native_token_price env app) (\<lambda>native_token_price.
     and_then (ok_or (map_option ti_kind
         (find (\<lambda>info. token_of_kind (ti_kind info) = token) (as_token_config app)))
       ''Requested token fee is not supported'') (\<lambda>token_kind.
     and_then (ok_or (price (as_prices app) token_kind (qe_now_fee env)) ''Fee token price not available'')
       (\<lambda>fee_token_price.
     Ok \<lparr> qp_fee_token_price = fee_token_price, qp_native_token_price = native_token_price \<rparr>)))"

definition quote_prices_for ::
  "('d, 's, 'p) quote_env \<Rightarrow> ('d, 's) app_state \<Rightarrow> token \<Rightarrow> ('d quote_prices, string) result" where
  "quote_prices_for env app fee_token = (case fee_token of
       Native \<Rightarrow> and_then (get_native_token_price env app) (\<lambda>p.
         Ok \<lparr> qp_fee_token_price = p, qp_native_token_price = p \<rparr>)
     | ERC20 address \<Rightarrow> get_token_price env app fee_token)"

definition quote_fees_inner ::
  "'d decimal_api \<Rightarrow> ('d, 's, 'p) quote_env \<Rightarrow> ('d, 's) app_state \<Rightarrow> quote_fee_query
     \<Rightarrow> ('d quote_fee_response \<times> ('d, 's) app_state, string) result" where
  "quote_fees_inner D env app query =
     and_then (map_ok ucast (get_gas_price env app)) (\<lambda>gas_price.
     and_then (quote_prices_for env app (qq_fee_token query)) (\<lambda>prices.
     and_then (compute_fee D gas_price (as_relay_gas app) (qq_pocket_money query)
         (as_service_fee_percent app) (pr_unit_price (qp_native_token_price prices))
         (pr_unit_price (qp_fee_token_price prices))) (\<lambda>fee_details.
     (let price_details = \<lparr>
            pd_gas_price = gas_price,
            pd_native_token_price = pr_token_price (qp_native_token_price prices),
            pd_native_token_unit_price = pr_unit_price (qp_native_token_price prices),
            pd_fee_token_price = pr_token_price (qp_fee_token_price prices),
            pd_fee_token_unit_price = pr_unit_price (qp_fee_token_price prices) \<rparr>;
          cached_quote = \<lparr>
            cq_fee_token = qq_fee_token query,
            cq_gas_price = gas_price,
            cq_native_token_unit_price = pr_unit_price (qp_native_token_price prices),
            cq_fee_token_unit_price = pr_unit_price (qp_fee_token_price prices) \<rparr>
      in
      and_then (store_quote_response (as_quote_cache app) cached_quote (qe_now_store env)) (\<lambda>cache.
      Ok (\<lparr> qr_fee_details = fee_details, qr_price_details = price_details \<rparr>,
          app\<lparr>as_quote_cache := cache\<rparr>))))))"

text \<open>The endpoint: a panic of the handler drops the connection, the state stays as it was.\<close>

definition quote_fees ::
  "'d decimal_api \<Rightarrow> ('d, 's, 'p) quote_env \<Rightarrow> ('d, 's) app_state \<Rightarrow> quote_fee_query
     \<Rightarrow> ('d quote_fee_response response, unit) result \<times> ('d, 's) app_state" where
  "quote_fees D env app query = (case quote_fees_inner D env app query of
       Ok (response, app') \<Rightarrow> (Ok (success_response response), app')
     | Err err \<Rightarrow> (Ok (server_error err), app)
     | Panic msg \<Rightarrow> (Panic msg, app))"

section \<open>Properties\<close>

lemma build_shielder_users_Ok:
  assumes "build_shielder_users K create url contract policy signers = Ok users"
    and "ne_signer_address env = key_address K"
  shows "map (user_address env) users = map (key_address K) signers \<and>
    (\<forall>u \<in> set users. cn_contract_address (su_connection u) = contract)"
  using assms(1)
proof (induction signers arbitrary: users)
  case Nil
  then show ?case by simp
next
  case (Cons s signers)
  then obtain p us where p: "user_policy K create url policy s = Ok p"
    and us: "build_shielder_users K create url contract policy signers = Ok us"
    and users: "users = shielder_user_new contract p # us"
    by (auto simp: result_simps)
  have "policy_caller_address env p = key_address K s"
    using p assms(2) by (auto simp: user_policy_def result_simps split: nonce_policy.splits)
  then show ?case using Cons.IH [OF us]
    by (simp add: users user_address_def caller_address_def shielder_user_new_def)
qed

text \<open>
  Worker identities. Under both nonce policies, the users built for the relay workers call the
  configured contract and send from the addresses of the signing keys, in the order of the
  configuration, the addresses the signer information lists (and the recharging worker serves).
\<close>

theorem workers_use_signer_addresses:
  assumes "get_signer_info K config = Ok si"
    and "build_shielder_users K create url contract policy (si_signer_keys si) = Ok users"
    and "ne_signer_address env = key_address K"
  shows "map (user_address env) users = si_signer_addresses si \<and>
    (\<forall>u \<in> set users. cn_contract_address (su_connection u) = contract)"
  using build_shielder_users_Ok [OF assms(2,3)] assms(1) by (auto simp: get_signer_info_Ok)

definition sample_net_env :: "(unit, nat) net_env" where
  "sample_net_env = \<lparr> ne_signer_address = of_nat, ne_create_provider = (\<lambda>url s. Ok ()), ne_erc20 = True \<rparr>"

theorem workers_use_signer_addresses_witness:
  "\<exists>si users. get_signer_info sample_keys
      \<lparr> kc_fee_destination_key = ''abc'', kc_signing_keys = [''a'', ''ab''] \<rparr> = Ok si \<and>
    build_shielder_users sample_keys (\<lambda>url s. Ok ()) ''rpc'' 77 Stateless (si_signer_keys si) = Ok users \<and>
    map (user_address sample_net_env) users = [1, 2]"
proof -
  let ?config = "\<lparr> kc_fee_destination_key = ''abc'', kc_signing_keys = [''a'', ''ab''] \<rparr>"
  obtain si where si: "get_signer_info sample_keys ?config = Ok si"
    and k: "si_signer_keys si = [1, 2]" and a: "si_signer_addresses si = [1, 2]"
    by (auto simp: get_signer_info_def signer_def parse_keys_def sample_keys_def Let_def)
  obtain users where u: "build_shielder_users sample_keys (\<lambda>url s. Ok ()) ''rpc'' 77 Stateless
      (si_signer_keys si) = Ok users"
    by (simp add: k user_policy_def)
  have "ne_signer_address sample_net_env = key_address sample_keys"
    by (simp add: sample_net_env_def sample_keys_def)
  from workers_use_signer_addresses [OF si u this] si u a show ?thesis by auto
qed

text \<open>The entry of the cache that a relay query refers to.\<close>

definition referenced_quote :: "token \<Rightarrow> 'd relay_quote \<Rightarrow> 'd cached_quote" where
  "referenced_quote fee_token q = \<lparr> cq_fee_token = fee_token, cq_gas_price = rq_gas_price q,
     cq_native_token_unit_price = rq_native_token_unit_price q,
     cq_fee_token_unit_price = rq_fee_token_unit_price q \<rparr>"

lemma quote_fees_inner_Ok:
  assumes "quote_fees_inner D env app query = Ok (resp, app')"
  obtains gas prices cache where
    "get_gas_price env app = Ok gas" "quote_prices_for env app (qq_fee_token query) = Ok prices"
    "compute_fee D (ucast gas) (as_relay_gas app) (qq_pocket_money query) (as_service_fee_percent app)
       (pr_unit_price (qp_native_token_price prices)) (pr_unit_price (qp_fee_token_price prices))
       = Ok (qr_fee_details resp)"
    "store_quote_response (as_quote_cache app)
       (referenced_quote (qq_fee_token query) (relay_quote_from resp)) (qe_now_store env)
       = (Ok cache :: ('d quote_cache, string) result)"
    "app' = app\<lparr>as_quote_cache := cache\<rparr>"
    "rq_gas_price (relay_quote_from resp) = ucast gas"
    "rq_native_token_unit_price (relay_quote_from resp) = pr_unit_price (qp_native_token_price prices)"
    "rq_fee_token_unit_price (relay_quote_from resp) = pr_unit_price (qp_fee_token_price prices)"
  using assms
  by (auto simp: quote_fees_inner_def result_simps Let_def referenced_quote_def relay_quote_from_def)

lemma unat_ucast_gas_price: "unat (ucast (g :: u128) :: u256) = unat g"
proof -
  have "unat g < 2 ^ LENGTH(128)" by (rule unat_lt_pow)
  also have "\<dots> \<le> 2 ^ LENGTH(256)" by simp
  finally have "take_bit LENGTH(256) (unat g) = unat g" by (rule take_bit_nat_eq_self)
  then show ?thesis by (simp add: unsigned_ucast_eq)
qed

text \<open>
  A quote can be relied on. A successful quotation computed its fees from the gas price it
  reports (below 2 to the 128) and from prices of the feed that were valid when read (for a native fee
  token, one price for both); it changes nothing but the quote cache; and from then on the quote,
  as a client sends it back, is accepted until one validity period after it was stored.
\<close>

theorem quote_fees_correct:
  assumes "quote_fees_inner D env app query = Ok (resp, app')"
  shows "(\<exists>np fp. price (as_prices app) NativeKind (qe_now_native env) = Some np \<and>
      (case qq_fee_token query of
         Native \<Rightarrow> fp = np
       | ERC20 a \<Rightarrow> \<exists>info \<in> set (as_token_config app). token_of_kind (ti_kind info) = ERC20 a \<and>
           price (as_prices app) (ti_kind info) (qe_now_fee env) = Some fp) \<and>
      rq_native_token_unit_price (relay_quote_from resp) = pr_unit_price np \<and>
      rq_fee_token_unit_price (relay_quote_from resp) = pr_unit_price fp) \<and>
    compute_fee D (rq_gas_price (relay_quote_from resp)) (as_relay_gas app) (qq_pocket_money query)
      (as_service_fee_percent app) (rq_native_token_unit_price (relay_quote_from resp))
      (rq_fee_token_unit_price (relay_quote_from resp)) = Ok (qr_fee_details resp) \<and>
    unat (rq_gas_price (relay_quote_from resp)) < 2 ^ 128 \<and>
    (\<exists>cache. app' = app\<lparr>as_quote_cache := cache\<rparr> \<and> qc_validity cache = qc_validity (as_quote_cache app) \<and>
      (\<forall>q now. is_quote_valid cache q now \<longleftrightarrow> is_quote_valid (as_quote_cache app) q now \<or>
        q = referenced_quote (qq_fee_token query) (relay_quote_from resp) \<and>
        now < qe_now_store env + int (qc_validity (as_quote_cache app))))"
proof -
  from assms obtain gas prices cache where
    "get_gas_price env app = Ok gas" and
    p: "quote_prices_for env app (qq_fee_token query) = Ok prices" and
    fee: "compute_fee D (ucast gas) (as_relay_gas app) (qq_pocket_money query) (as_service_fee_percent app)
       (pr_unit_price (qp_native_token_price prices)) (pr_unit_price (qp_fee_token_price prices))
       = Ok (qr_fee_details resp)" and
    st: "store_quote_response (as_quote_cache app)
       (referenced_quote (qq_fee_token query) (relay_quote_from resp)) (qe_now_store env)
       = (Ok cache :: ('a quote_cache, string) result)" and
    app': "app' = app\<lparr>as_quote_cache := cache\<rparr>" and
    q: "rq_gas_price (relay_quote_from resp) = ucast gas"
      "rq_native_token_unit_price (relay_quote_from resp) = pr_unit_price (qp_native_token_price prices)"
      "rq_fee_token_unit_price (relay_quote_from resp) = pr_unit_price (qp_fee_token_price prices)"
    by (rule quote_fees_inner_Ok)
  have "unat gas < 2 ^ LENGTH(128)" by (rule unat_lt_pow)
  then have "unat (rq_gas_price (relay_quote_from resp)) < 2 ^ 128"
    unfolding q(1) unat_ucast_gas_price by simp
  moreover have "price (as_prices app) NativeKind (qe_now_native env) = Some (qp_native_token_price prices) \<and>
      (case qq_fee_token query of
         Native \<Rightarrow> qp_fee_token_price prices = qp_native_token_price prices
       | ERC20 a \<Rightarrow> \<exists>info \<in> set (as_token_config app). token_of_kind (ti_kind info) = ERC20 a \<and>
           price (as_prices app) (ti_kind info) (qe_now_fee env) = Some (qp_fee_token_price prices))"
    using p by (auto simp: quote_prices_for_def get_token_price_def get_native_token_price_def
        result_simps find_Some_iff set_conv_nth split: token.splits)
  ultimately show ?thesis
    using fee app' cache.valid_store [OF st] cache.store_validity [OF st] unfolding q by blast
qed

definition sample_price :: "u64 \<Rightarrow> u64 price_t" where
  "sample_price u = \<lparr> pr_token_price = u, pr_unit_price = u, pr_expiration = Eternal \<rparr>"

definition sample_app :: "(u64, nat) app_state" where
  "sample_app = \<lparr> as_node_rpc_url = ''rpc'', as_relay_gas = 20,
     as_signer_info = \<lparr> si_signer_keys = [1], si_signer_addresses = [1], si_fee_destination_key = 3,
       si_fee_destination_address = 3, si_balances = initial_balances [1, 3] \<rparr>,
     as_rpc_monitor = rpc_monitor_new 10 ''rpc'' (Ok ()) 0,
     as_prices = \<lparr> ps_validity = 60, ps_refresh_interval = 5, ps_tokens = Map.empty,
       ps_inner = [NativeKind \<mapsto> Some (sample_price 300), ERC20Kind 7 2 \<mapsto> Some (sample_price 600)] \<rparr>,
     as_token_config = [\<lparr> ti_kind = NativeKind, ti_price_provider = Static 300 \<rparr>,
       \<lparr> ti_kind = ERC20Kind 7 2, ti_price_provider = Static 600 \<rparr>],
     as_quote_cache = quote_cache_new 10, as_max_pocket_money = 1000, as_service_fee_percent = 10 \<rparr>"

definition sample_quote_env :: "(u64, nat, unit) quote_env" where
  "sample_quote_env = \<lparr> qe_create_simple_provider = (\<lambda>url. Ok ()), qe_get_gas_price = (\<lambda>p. Ok 100),
     qe_now_native = 4, qe_now_fee = 5, qe_now_store = 6 \<rparr>"

lemma sample_quote_computed:
  "\<exists>resp app'. quote_fees_inner cents sample_quote_env sample_app
     \<lparr> qq_fee_token = ERC20 7, qq_pocket_money = 100 \<rparr> = Ok (resp, app') \<and> qr_fee_details resp = sample_fee"
  by (simp add: quote_fees_inner_def sample_quote_env_def sample_app_def get_gas_price_def
      quote_prices_for_def get_token_price_def get_native_token_price_def price_def validate_def
      sample_price_def sample_fee_computed store_quote_response_cases quote_cache_new_def
      datetime_max_def Let_def)

theorem quote_fees_correct_witness:
  "\<exists>resp app'. quote_fees_inner cents sample_quote_env sample_app
     \<lparr> qq_fee_token = ERC20 7, qq_pocket_money = 100 \<rparr> = Ok (resp, app') \<and>
    qr_fee_details resp = sample_fee \<and>
    is_quote_valid (as_quote_cache app') (referenced_quote (ERC20 7) (relay_quote_from resp)) 15"
proof -
  let ?query = "\<lparr> qq_fee_token = ERC20 7, qq_pocket_money = 100 \<rparr>"
  from sample_quote_computed obtain resp app' where
    q: "quote_fees_inner cents sample_quote_env sample_app ?query = Ok (resp, app')"
    and f: "qr_fee_details resp = sample_fee" by blast
  have "(15 :: int) < qe_now_store sample_quote_env + int (qc_validity (as_quote_cache sample_app))"
    by (simp add: sample_quote_env_def sample_app_def quote_cache_new_def)
  with quote_fees_correct [OF q]
  have "is_quote_valid (as_quote_cache app') (referenced_quote (ERC20 7) (relay_quote_from resp)) 15"
    by auto
  with q f show ?thesis by blast
qed

text \<open>
  Quotation errors. The endpoint answers success or an internal server error; without a success the
  state is unchanged, and a panic can only come from the fee computation, from an unrepresentable
  expiration date, or from the node client.
\<close>

theorem quote_fees_errors:
  assumes "quote_fees D env app query = (r, app')"
  shows "(\<forall>resp. r = Ok resp \<longrightarrow> status_of resp \<in> {OK_200, INTERNAL_SERVER_ERROR}) \<and>
    (\<forall>e. r \<noteq> Err e) \<and>
    ((\<nexists>resp. r = Ok resp \<and> status_of resp = OK_200) \<longrightarrow> app' = app) \<and>
    (is_panic r \<longrightarrow> is_panic (get_gas_price env app) \<or>
      qe_now_store env + int (qc_validity (as_quote_cache app)) > datetime_max \<or>
      (\<exists>gas prices. get_gas_price env app = Ok gas \<and>
        quote_prices_for env app (qq_fee_token query) = Ok prices \<and>
        is_panic (compute_fee D (ucast gas) (as_relay_gas app) (qq_pocket_money query)
          (as_service_fee_percent app) (pr_unit_price (qp_native_token_price prices))
          (pr_unit_price (qp_fee_token_price prices)))))"
proof -
  have map_ok_Panic: "map_ok f x = Panic m \<longleftrightarrow> x = Panic m" for f :: "u128 \<Rightarrow> u256" and m
    and x :: "(u128, string) result" by (cases x) auto
  have np: "quote_prices_for env app t \<noteq> Panic m" for t m
    by (auto simp: quote_prices_for_def get_token_price_def get_native_token_price_def result_simps
        split: token.splits)
  show ?thesis
  proof (cases "quote_fees_inner D env app query")
    case (Ok x)
    then show ?thesis using assms
      by (cases x) (auto simp: quote_fees_def success_response_def)
  next
    case (Err e)
    then show ?thesis using assms by (auto simp: quote_fees_def server_error_def)
  next
    case (Panic m)
    from Panic have "is_panic (get_gas_price env app) \<or>
      qe_now_store env + int (qc_validity (as_quote_cache app)) > datetime_max \<or>
      (\<exists>gas prices. get_gas_price env app = Ok gas \<and>
        quote_prices_for env app (qq_fee_token query) = Ok prices \<and>
        is_panic (compute_fee D (ucast gas) (as_relay_gas app) (qq_pocket_money query)
          (as_service_fee_percent app) (pr_unit_price (qp_native_token_price prices))
          (pr_unit_price (qp_fee_token_price prices))))"
      by (auto simp: quote_fees_inner_def result_simps Let_def np map_ok_Panic store_quote_response_cases
          split: if_splits)
    with Panic show ?thesis using assms by (auto simp: quote_fees_def)
  qed
qed

theorem quote_fees_errors_witness:
  "\<exists>r. quote_fees cents sample_quote_env sample_app \<lparr> qq_fee_token = ERC20 8, qq_pocket_money = 0 \<rparr>
      = (Ok r, sample_app) \<and> status_of r = INTERNAL_SERVER_ERROR"
proof -
  let ?q = "\<lparr> qq_fee_token = ERC20 8, qq_pocket_money = 0 \<rparr>"
  have "\<exists>app'. quote_fees cents sample_quote_env sample_app ?q =
      (Ok (server_error ''Requested token fee is not supported''), app')"
    by (simp add: quote_fees_def quote_fees_inner_def quote_prices_for_def get_token_price_def
        get_native_token_price_def get_gas_price_def price_def validate_def sample_price_def
        sample_quote_env_def sample_app_def)
  then obtain app' where run: "quote_fees cents sample_quote_env sample_app ?q =
      (Ok (server_error ''Requested token fee is not supported''), app')" by blast
  from quote_fees_errors [OF run] have "app' = sample_app" by (auto simp: server_error_def)
  with run show ?thesis by (auto simp: server_error_def)
qed

end
