(* ===== verification/Relay.thy ===== *)
theory Relay
  imports Quote
begin

text \<open>
  The relay endpoint (\<open>relay/mod.rs\<close>) and the traces of its requests
  (\<open>relay/request_trace.rs\<close>). A trace reads the clock twice whenever it records a state; the two
  instants are an argument. The counters are the Prometheus counters the traces increment, the list of
  dropped traces is what their destructor logs. What the task queue and the workers do with a registered
  task is an argument here (its model is in the next theory).
\<close>

section \<open>Request traces\<close>

datatype trace_status =
    SUCCESS | VERSION_FAILURE | FEE_TOKEN_FAILURE | FEE_AMOUNT_FAILURE | POCKET_MONEY_FAILURE
  | QUOTE_VALIDITY_FAILURE | FAILURE | DRY_RUN_FAILURE

record request_trace =
  tc_created_note :: u256
  tc_measurements :: "(string \<times> duration) list"
  tc_last_timestamp :: nat
  tc_current_state :: string
  tc_relayer_address :: "address option"
  tc_status :: "trace_status option"
  tc_tx_hash :: "hash32 option"

type_synonym clock = "nat \<times> nat"

record counters =
  ct_withdraw_success :: u64
  ct_withdraw_failure :: u64
  ct_withdraw_dry_run_failure :: u64

definition trace_new :: "'d relay_query \<Rightarrow> nat \<Rightarrow> request_trace" where
  "trace_new relay_query now = \<lparr> tc_created_note = rc_new_note (rqy_calldata relay_query),
     tc_measurements = [], tc_last_timestamp = now, tc_current_state = ''created'',
     tc_relayer_address = None, tc_status = None, tc_tx_hash = None \<rparr>"

definition trace_record :: "clock \<Rightarrow> string \<Rightarrow> request_trace \<Rightarrow> request_trace" where
  "trace_record clk new_state tr = tr\<lparr>
     tc_measurements := tc_measurements tr @
       [(''['' @ tc_current_state tr @ '' -> '' @ new_state @ '']'', fst clk - tc_last_timestamp tr)],
     tc_current_state := new_state,
     tc_last_timestamp := snd clk \<rparr>"

definition set_relayer_address :: "address \<Rightarrow> request_trace \<Rightarrow> request_trace" where
  "set_relayer_address relayer tr = tr\<lparr>tc_relayer_address := Some relayer\<rparr>"

definition trace_finish :: "clock \<Rightarrow> trace_status \<Rightarrow> request_trace \<Rightarrow> request_trace" where
  "trace_finish clk status tr = (trace_record clk ''finished'' tr)\<lparr>tc_status := Some status\<rparr>"

definition count_failure :: "counters \<Rightarrow> counters" where
  "count_failure m = m\<lparr>ct_withdraw_failure := ct_withdraw_failure m + 1\<rparr>"

definition record_success :: "clock \<Rightarrow> hash32 \<Rightarrow> counters \<times> request_trace \<Rightarrow> counters \<times> request_trace" where
  "record_success clk tx_hash st = (case st of (m, tr) \<Rightarrow>
     (m\<lparr>ct_withdraw_success := ct_withdraw_success m + 1\<rparr>,
      trace_finish clk SUCCESS (tr\<lparr>tc_tx_hash := Some tx_hash\<rparr>)))"

definition record_version_mismatch :: "clock \<Rightarrow> counters \<times> request_trace \<Rightarrow> counters \<times> request_trace" where
  "record_version_mismatch clk st =
     (case st of (m, tr) \<Rightarrow> (count_failure m, trace_finish clk VERSION_FAILURE tr))"

definition record_incorrect_token_fee :: "clock \<Rightarrow> counters \<times> request_trace \<Rightarrow> counters \<times> request_trace" where
  "record_incorrect_token_fee clk st =
     (case st of (m, tr) \<Rightarrow> (count_failure m, trace_finish clk FEE_TOKEN_FAILURE tr))"

definition record_insufficient_fee :: "clock \<Rightarrow> counters \<times> request_trace \<Rightarrow> counters \<times> request_trace" where
  "record_insufficient_fee clk st =
     (case st of (m, tr) \<Rightarrow> (count_failure m, trace_finish clk FEE_AMOUNT_FAILURE tr))"

definition record_pocket_money_too_high :: "clock \<Rightarrow> counters \<times> request_trace \<Rightarrow> counters \<times> request_trace" where
  "record_pocket_money_too_high clk st =
     (case st of (m, tr) \<Rightarrow> (count_failure m, trace_finish clk POCKET_MONEY_FAILURE tr))"

definition record_pocket_money_native_withdrawal ::
  "clock \<Rightarrow> counters \<times> request_trace \<Rightarrow> counters \<times> request_trace" where
  "record_pocket_money_native_withdrawal clk st =
     (case st of (m, tr) \<Rightarrow> (count_failure m, trace_finish clk POCKET_MONEY_FAILURE tr))"

definition record_quote_invalidity :: "clock \<Rightarrow> counters \<times> request_trace \<Rightarrow> counters \<times> request_trace" where
  "record_quote_invalidity clk st =
     (case st of (m, tr) \<Rightarrow> (count_failure m, trace_finish clk QUOTE_VALIDITY_FAILURE tr))"

definition record_failure :: "clock \<Rightarrow> counters \<times> request_trace \<Rightarrow> counters \<times> request_trace" where
  "record_failure clk st = (case st of (m, tr) \<Rightarrow> (count_failure m, trace_finish clk FAILURE tr))"

definition record_dry_run_failure :: "clock \<Rightarrow> counters \<times> request_trace \<Rightarrow> counters \<times> request_trace" where
  "record_dry_run_failure clk st = (case st of (m, tr) \<Rightarrow>
     (m\<lparr>ct_withdraw_dry_run_failure := ct_withdraw_dry_run_failure m + 1\<rparr>,
      trace_finish clk DRY_RUN_FAILURE tr))"

lemmas record_defs = record_success_def record_version_mismatch_def record_pocket_money_too_high_def
  record_pocket_money_native_withdrawal_def record_quote_invalidity_def record_failure_def
  record_dry_run_failure_def

section \<open>Tasks\<close>

datatype task_result =
    DryRunFailed contract_error
  | RelayFailed contract_error
  | TaskOk hash32

record task =
  tk_payload :: withdraw_call
  tk_request_trace :: request_trace

record relay_response =
  rr_tx_hash :: hash32

definition create_call :: "relay_calldata \<Rightarrow> address \<Rightarrow> u256 \<Rightarrow> withdraw_call" where
  "create_call c relayer_address relayer_fee = \<lparr>
     wdc_amount = rc_amount c,
     wdc_token = rc_fee_token c,
     wdc_expected_contract_version = rc_expected_contract_version c,
     wdc_withdrawal_address = rc_withdraw_address c,
     wdc_relayer_address = relayer_address,
     wdc_merkle_root = rc_merkle_root c,
     wdc_old_nullifier_hash = rc_nullifier_hash c,
     wdc_new_note = rc_new_note c,
     wdc_relayer_fee = relayer_fee,
     wdc_mac_salt = rc_mac_salt c,
     wdc_mac_commitment = rc_mac_commitment c,
     wdc_proof = rc_proof c,
     wdc_pocket_money = rc_pocket_money c,
     wdc_memo = rc_memo c \<rparr>"

section \<open>Checks\<close>

type_synonym check_state = "counters \<times> request_trace"

definition check_expected_version ::
  "clock \<Rightarrow> relay_calldata \<Rightarrow> check_state \<Rightarrow> (unit, relay_response response) result \<times> check_state" where
  "check_expected_version clk calldata st =
     (let expected_by_client = version_from_bytes (rc_expected_contract_version calldata);
          expected_by_relayer = contract_version
      in if expected_by_client \<noteq> expected_by_relayer
         then (Err (bad_request ''Version mismatch''), record_version_mismatch clk st)
         else (Ok (), st))"

definition check_pocket_money ::
  "clock \<Rightarrow> ('d, 's) app_state \<Rightarrow> 'd relay_query \<Rightarrow> check_state
     \<Rightarrow> (unit, relay_response response) result \<times> check_state" where
  "check_pocket_money clk app query st =
     (let pocket_money = rc_pocket_money (rqy_calldata query)
      in if rc_fee_token (rqy_calldata query) = Native \<and> pocket_money \<noteq> 0
         then (Err (bad_request ''Pocket money is not supported for native token withdrawals.''),
               record_pocket_money_native_withdrawal clk st)
         else if as_max_pocket_money app < pocket_money
         then (Err (bad_request ''Pocket money too high.''), record_pocket_money_too_high clk st)
         else (Ok (), st))"

definition check_quote_validity ::
  "clock \<Rightarrow> datetime \<Rightarrow> ('d, 's) app_state \<Rightarrow> 'd relay_query \<Rightarrow> check_state
     \<Rightarrow> (unit, relay_response response) result \<times> check_state" where
  "check_quote_validity clk now app query st =
     (let cached_quote = \<lparr>
            cq_fee_token = rc_fee_token (rqy_calldata query),
            cq_gas_price = rq_gas_price (rqy_quote query),
            cq_native_token_unit_price = rq_native_token_unit_price (rqy_quote query),
            cq_fee_token_unit_price = rq_fee_token_unit_price (rqy_quote query) \<rparr>
      in if is_quote_valid (as_quote_cache app) cached_quote now then (Ok (), st)
         else (Err (bad_request ''Invalid quote (probably expired)''), record_quote_invalidity clk st))"

section \<open>The endpoint\<close>

text \<open>
  The surroundings of one request: its clock readings, whether the task channel is still open, and what
  the taskmaster reports for a registered task (\<open>None\<close>: its worker died).
\<close>

record relay_env =
  rv_created :: nat
  rv_check_clock :: clock
  rv_queue_clock :: clock
  rv_done_clock :: clock
  rv_now :: datetime
  rv_channel_open :: bool
  rv_report :: "task \<Rightarrow> (request_trace \<times> task_result) option"

definition register_new_task ::
  "bool \<Rightarrow> clock \<Rightarrow> withdraw_call \<Rightarrow> request_trace \<Rightarrow> (task, string) result \<times> task" where
  "register_new_task channel_open clk payload request_trace =
     (let task = \<lparr> tk_payload = payload,
            tk_request_trace = trace_record clk ''queued for relay'' request_trace \<rparr>
      in (if channel_open then Ok task else Err ''Failed to send task to relay'', task))"

text \<open>
  The part up to the registration of the task: the task, or the answer, with the counters and the traces
  dropped on the way.
\<close>

definition relay_admit ::
  "'d decimal_api \<Rightarrow> relay_env \<Rightarrow> ('d, 's) app_state \<Rightarrow> 'd relay_query \<Rightarrow> counters
     \<Rightarrow> (task, relay_response response) result \<times> counters \<times> request_trace list" where
  "relay_admit D env app query m =
     (let clk = rv_check_clock env; request_trace = trace_new query (rv_created env) in
      case check_expected_version clk (rqy_calldata query) (m, request_trace) of
        (Err r, m, tr) \<Rightarrow> (Err r, m, [tr]) | (Panic msg, m, tr) \<Rightarrow> (Panic msg, m, [tr])
      | (Ok u, st) \<Rightarrow>
      case check_pocket_money clk app query st of
        (Err r, m, tr) \<Rightarrow> (Err r, m, [tr]) | (Panic msg, m, tr) \<Rightarrow> (Panic msg, m, [tr])
      | (Ok u, st) \<Rightarrow>
      case check_quote_validity clk (rv_now env) app query st of
        (Err r, m, tr) \<Rightarrow> (Err r, m, [tr]) | (Panic msg, m, tr) \<Rightarrow> (Panic msg, m, [tr])
      | (Ok u, m, tr) \<Rightarrow>
      case compute_fee D (rq_gas_price (rqy_quote query)) (as_relay_gas app)
             (rc_pocket_money (rqy_calldata query)) (as_service_fee_percent app)
             (rq_native_token_unit_price (rqy_quote query)) (rq_fee_token_unit_price (rqy_quote query)) of
        Err e \<Rightarrow> (Err (server_error e), m, [tr]) | Panic msg \<Rightarrow> (Panic msg, m, [tr])
      | Ok fee_details \<Rightarrow>
      let withdraw_call = create_call (rqy_calldata query)
            (si_fee_destination_address (as_signer_info app)) (fd_total_cost_fee_token fee_details)
      in case register_new_task (rv_channel_open env) (rv_queue_clock env) withdraw_call tr of
        (Ok task, t) \<Rightarrow> (Ok task, m, [])
      | (Err e, t) \<Rightarrow> (Err (server_error (''Failed to register new task: '' @ e)), m, [tk_request_trace t])
      | (Panic msg, t) \<Rightarrow> (Panic msg, m, [tk_request_trace t]))"

text \<open>The part after the report.\<close>

definition relay_answer ::
  "clock \<Rightarrow> (request_trace \<times> task_result) option \<Rightarrow> counters
     \<Rightarrow> (relay_response, relay_response response) result \<times> counters \<times> request_trace list" where
  "relay_answer clk report m = (case report of
       Some (tr, TaskOk tx_hash) \<Rightarrow>
         (case record_success clk tx_hash (m, tr) of (m, tr) \<Rightarrow> (Ok \<lparr> rr_tx_hash = tx_hash \<rparr>, m, [tr]))
     | Some (tr, DryRunFailed err) \<Rightarrow>
         (case record_dry_run_failure clk (m, tr) of (m, tr) \<Rightarrow> (Err (bad_request ''Dry run failed''), m, [tr]))
     | Some (tr, RelayFailed err) \<Rightarrow>
         (case record_failure clk (m, tr) of (m, tr) \<Rightarrow> (Err (bad_request ''Relay failed''), m, [tr]))
     | None \<Rightarrow> (Err (server_error ''Relay task failed''), count_failure m, []))"

definition relay_inner ::
  "'d decimal_api \<Rightarrow> relay_env \<Rightarrow> ('d, 's) app_state \<Rightarrow> 'd relay_query \<Rightarrow> counters
     \<Rightarrow> (relay_response, relay_response response) result \<times> counters \<times> request_trace list" where
  "relay_inner D env app query m = (case relay_admit D env app query m of
       (Ok task, m, dropped) \<Rightarrow> relay_answer (rv_done_clock env) (rv_report env task) m
     | (Err r, m, dropped) \<Rightarrow> (Err r, m, dropped)
     | (Panic msg, m, dropped) \<Rightarrow> (Panic msg, m, dropped))"

definition relay ::
  "'d decimal_api \<Rightarrow> relay_env \<Rightarrow> ('d, 's) app_state \<Rightarrow> 'd relay_query \<Rightarrow> counters
     \<Rightarrow> (relay_response response, unit) result \<times> counters \<times> request_trace list" where
  "relay D env app query m = (case relay_inner D env app query m of
       (Ok response, rest) \<Rightarrow> (Ok (success_response response), rest)
     | (Err err, rest) \<Rightarrow> (Ok err, rest)
     | (Panic msg, rest) \<Rightarrow> (Panic msg, rest))"

section \<open>Admission\<close>

text \<open>The specification of the checks, and the fee a relayed withdrawal pays.\<close>

definition acceptable :: "datetime \<Rightarrow> ('d, 's) app_state \<Rightarrow> 'd relay_query \<Rightarrow> bool" where
  "acceptable now app query \<longleftrightarrow>
     version_from_bytes (rc_expected_contract_version (rqy_calldata query)) = contract_version \<and>
     (rc_fee_token (rqy_calldata query) = Native \<longrightarrow> rc_pocket_money (rqy_calldata query) = 0) \<and>
     rc_pocket_money (rqy_calldata query) \<le> as_max_pocket_money app \<and>
     is_quote_valid (as_quote_cache app)
       (referenced_quote (rc_fee_token (rqy_calldata query)) (rqy_quote query)) now"

definition relay_fee ::
  "'d decimal_api \<Rightarrow> ('d, 's) app_state \<Rightarrow> 'd relay_query \<Rightarrow> (fee_details, string) result" where
  "relay_fee D app query = compute_fee D (rq_gas_price (rqy_quote query)) (as_relay_gas app)
     (rc_pocket_money (rqy_calldata query)) (as_service_fee_percent app)
     (rq_native_token_unit_price (rqy_quote query)) (rq_fee_token_unit_price (rqy_quote query))"

lemmas check_defs = check_expected_version_def check_pocket_money_def check_quote_validity_def
  referenced_quote_def [symmetric]

lemma relay_admit_acceptable:
  assumes "acceptable (rv_now env) app query"
  shows "relay_admit D env app query m =
    (case relay_fee D app query of
       Err e \<Rightarrow> (Err (server_error e), m, [trace_new query (rv_created env)])
     | Panic msg \<Rightarrow> (Panic msg, m, [trace_new query (rv_created env)])
     | Ok fee_details \<Rightarrow>
         (let tr = trace_record (rv_queue_clock env) ''queued for relay'' (trace_new query (rv_created env))
          in if rv_channel_open env
             then (Ok \<lparr> tk_payload = create_call (rqy_calldata query)
                       (si_fee_destination_address (as_signer_info app)) (fd_total_cost_fee_token fee_details),
                     tk_request_trace = tr \<rparr>, m, [])
             else (Err (server_error (''Failed to register new task: '' @ ''Failed to send task to relay'')),
                   m, [tr])))"
  using assms
  by (auto simp: relay_admit_def acceptable_def check_defs relay_fee_def register_new_task_def Let_def
      split: result.split)

lemma relay_admit_rejected:
  assumes "\<not> acceptable (rv_now env) app query"
  shows "\<exists>msg tr. relay_admit D env app query m = (Err (bad_request msg), count_failure m, [tr]) \<and>
    tc_status tr \<noteq> None"
  using assms
  by (auto simp: relay_admit_def acceptable_def check_defs record_defs trace_finish_def Let_def not_le
      split: if_splits)

text \<open>
  C19. Admission to the relay queue. A request becomes a task exactly when it names the relayer's
  contract version, asks for no pocket money on a native withdrawal and for no more than the limit,
  refers to a quote that is still valid, has a computable fee, and the queue is open. The task is
  then the requested withdrawal, paying the fee of the quote (computed with the configured gas amount
  and commission) to the fee destination; no counter moves.
\<close>

theorem relay_admission:
  "(is_ok (fst (relay_admit D env app query m)) \<longleftrightarrow>
     acceptable (rv_now env) app query \<and> is_ok (relay_fee D app query) \<and> rv_channel_open env) \<and>
   (\<forall>task m' dropped. relay_admit D env app query m = (Ok task, m', dropped) \<longrightarrow>
     m' = m \<and> dropped = [] \<and> tc_status (tk_request_trace task) = None \<and>
     (\<exists>fee. relay_fee D app query = Ok fee \<and>
       tk_payload task = create_call (rqy_calldata query)
         (si_fee_destination_address (as_signer_info app)) (fd_total_cost_fee_token fee)))"
proof (cases "acceptable (rv_now env) app query")
  case True
  show ?thesis unfolding relay_admit_acceptable [OF True]
    by (cases "relay_fee D app query")
      (auto simp: True Let_def trace_record_def trace_new_def split: if_splits)
next
  case False
  then show ?thesis using relay_admit_rejected [OF False, of D m] by auto
qed

text \<open>
  Answers of the relay endpoint. It answers 200 exactly when the task was admitted and its worker
  reported a transaction; then the success counter, and nothing else, goes up by one and the logged
  trace carries the status and the transaction. A client error counts one failure or one failed dry
  run; an internal error counts at most one failure. No other status is ever returned: in particular
  never \<open>SERVICE_UNAVAILABLE\<close>, which the API description announces.
\<close>

theorem relay_answers:
  assumes "relay D env app query m = (r, m', dropped)"
  shows "(\<forall>e. r \<noteq> Err e) \<and> (is_panic r \<longrightarrow> m' = m \<and> is_panic (relay_fee D app query)) \<and>
    (\<forall>resp. r = Ok resp \<longrightarrow>
      (status_of resp = OK_200 \<and> m' = m\<lparr>ct_withdraw_success := ct_withdraw_success m + 1\<rparr> \<and>
         (\<exists>task tr tx. relay_admit D env app query m = (Ok task, m, []) \<and>
            rv_report env task = Some (tr, TaskOk tx) \<and> resp = success_response \<lparr> rr_tx_hash = tx \<rparr> \<and>
            dropped = [trace_finish (rv_done_clock env) SUCCESS (tr\<lparr>tc_tx_hash := Some tx\<rparr>)])) \<or>
      (status_of resp = BAD_REQUEST \<and> (m' = count_failure m \<or>
         m' = m\<lparr>ct_withdraw_dry_run_failure := ct_withdraw_dry_run_failure m + 1\<rparr>)) \<or>
      (status_of resp = INTERNAL_SERVER_ERROR \<and> m' \<in> {m, count_failure m}))"
proof (cases "acceptable (rv_now env) app query")
  case False
  then show ?thesis using relay_admit_rejected [OF False, of D m] assms
    by (auto simp: relay_def relay_inner_def bad_request_def)
next
  case True
  note adm = relay_admit_acceptable [OF True, of D m]
  show ?thesis
  proof (cases "\<exists>task. relay_admit D env app query m = (Ok task, m, [])")
    case False
    then show ?thesis using assms adm
      by (auto simp: relay_def relay_inner_def server_error_def Let_def split: result.splits if_splits)
  next
    case True
    then obtain task where t: "relay_admit D env app query m = (Ok task, m, [])" ..
    show ?thesis
      using assms t
      by (auto simp: relay_def relay_inner_def relay_answer_def record_defs success_response_def
          bad_request_def server_error_def split: option.splits prod.splits task_result.splits)
  qed
qed

definition sample_query :: "u64 relay_query" where
  "sample_query = \<lparr> rqy_calldata = \<lparr> rc_expected_contract_version = version_to_bytes contract_version,
       rc_amount = 5000, rc_withdraw_address = 99, rc_merkle_root = 1, rc_nullifier_hash = 2,
       rc_new_note = 3, rc_proof = [4], rc_fee_token = ERC20 7, rc_fee_amount = 1155, rc_mac_salt = 5,
       rc_mac_commitment = 6, rc_pocket_money = 100, rc_memo = [] \<rparr>,
     rqy_quote = \<lparr> rq_gas_price = 100, rq_native_token_unit_price = 300, rq_fee_token_unit_price = 600 \<rparr> \<rparr>"

definition sample_relay_env :: relay_env where
  "sample_relay_env = \<lparr> rv_created = 0, rv_check_clock = (1, 1), rv_queue_clock = (2, 2),
     rv_done_clock = (9, 9), rv_now = 15, rv_channel_open = True,
     rv_report = (\<lambda>task. Some (tk_request_trace task, TaskOk 42)) \<rparr>"

definition quoted_app :: "(u64, nat) app_state" where
  "quoted_app = sample_app\<lparr>as_quote_cache := \<lparr> qc_validity = 10,
     qc_cache = [referenced_quote (ERC20 7) (rqy_quote sample_query) \<mapsto> 16] \<rparr>\<rparr>"

lemma sample_query_acceptable: "acceptable (rv_now sample_relay_env) quoted_app sample_query"
  by (simp add: acceptable_def sample_relay_env_def quoted_app_def sample_query_def is_quote_valid_def
      sample_app_def version_from_bytes_def version_to_bytes_def contract_version_def)

lemma sample_query_fee: "relay_fee cents quoted_app sample_query = Ok sample_fee"
  by (simp add: relay_fee_def quoted_app_def sample_app_def sample_query_def sample_fee_computed)

definition no_counts :: counters where
  "no_counts = \<lparr> ct_withdraw_success = 0, ct_withdraw_failure = 0, ct_withdraw_dry_run_failure = 0 \<rparr>"

theorem relay_admission_witness:
  "\<exists>task. relay_admit cents sample_relay_env quoted_app sample_query no_counts = (Ok task, no_counts, []) \<and>
    wdc_relayer_fee (tk_payload task) = 1155 \<and> wdc_relayer_address (tk_payload task) = 3"
proof -
  note t = relay_admission [of cents sample_relay_env quoted_app sample_query no_counts]
  have "is_ok (fst (relay_admit cents sample_relay_env quoted_app sample_query no_counts))"
    using t sample_query_acceptable sample_query_fee by (simp add: sample_relay_env_def)
  then obtain task m' dropped where
    r: "relay_admit cents sample_relay_env quoted_app sample_query no_counts = (Ok task, m', dropped)"
    by (metis is_ok.elims(2) prod.collapse)
  with t sample_query_fee show ?thesis
    by (auto simp: create_call_def sample_fee_def quoted_app_def sample_app_def)
qed

theorem relay_answers_witness:
  "\<exists>resp m' dropped. relay cents sample_relay_env quoted_app sample_query
      \<lparr> ct_withdraw_success = 4, ct_withdraw_failure = 0, ct_withdraw_dry_run_failure = 0 \<rparr>
      = (Ok resp, m', dropped) \<and> status_of resp = OK_200 \<and> ct_withdraw_success m' = 5"
proof -
  let ?m = "\<lparr> ct_withdraw_success = 4, ct_withdraw_failure = 0, ct_withdraw_dry_run_failure = 0 \<rparr>"
  have "\<exists>resp m' dropped. relay cents sample_relay_env quoted_app sample_query ?m = (Ok resp, m', dropped) \<and>
      status_of resp = OK_200"
    by (simp add: relay_def relay_inner_def relay_admit_acceptable [OF sample_query_acceptable]
        sample_query_fee Let_def relay_answer_def record_defs success_response_def)
      (simp add: sample_relay_env_def record_success_def success_response_def)
  then obtain resp m' dropped where
    r: "relay cents sample_relay_env quoted_app sample_query ?m = (Ok resp, m', dropped)"
    and ok: "status_of resp = OK_200" by blast
  from relay_answers [OF r] ok have "ct_withdraw_success m' = 5" by auto
  with r ok show ?thesis by blast
qed

end
