(* ===== verification/Taskmaster.thy ===== *)
theory Taskmaster
  imports Relay "HOL-Library.Multiset"
begin

text \<open>
  The task queue and the relay workers (\<open>relay/taskmaster.rs\<close>) with the dry-run switch
  (\<open>relay/monitoring.rs\<close>). One worker runs per signer; all share a bounded queue and the switch. The
  workers interleave freely: a step of the system is one worker's step between two points where another
  task may run. The locale \<open>dry_run_manager\<close> is the interface of the switch to the workers; both
  implementations interpret it.
\<close>

section \<open>The dry-run switch\<close>

definition TASK_QUEUE_SIZE :: nat where "TASK_QUEUE_SIZE = 1024"

definition OPTIMISTIC_DRY_RUN_THRESHOLD :: u32 where "OPTIMISTIC_DRY_RUN_THRESHOLD = 32"

text \<open>The default methods of the traits, used by \<open>ObligatoryDryRun\<close>.\<close>

datatype obligatory_dry_run = ObligatoryDryRun

definition obligatory_should_dry_run_now :: "obligatory_dry_run \<Rightarrow> bool" where
  "obligatory_should_dry_run_now m = True"

definition obligatory_notice_relay_success :: "obligatory_dry_run \<Rightarrow> obligatory_dry_run" where
  "obligatory_notice_relay_success m = m"

definition obligatory_notice_relay_failure :: "obligatory_dry_run \<Rightarrow> obligatory_dry_run" where
  "obligatory_notice_relay_failure m = m"

text \<open>\<open>OptionalDryRun\<close>: an atomic counter of successes; \<open>fetch_add\<close> wraps around.\<close>

record optional_dry_run =
  od_success_counter :: u32

definition optional_dry_run_new :: optional_dry_run where
  "optional_dry_run_new = \<lparr> od_success_counter = OPTIMISTIC_DRY_RUN_THRESHOLD \<rparr>"

definition notice_relay_success :: "optional_dry_run \<Rightarrow> optional_dry_run" where
  "notice_relay_success m = m\<lparr>od_success_counter := od_success_counter m + 1\<rparr>"

definition notice_relay_failure :: "optional_dry_run \<Rightarrow> optional_dry_run" where
  "notice_relay_failure m = m\<lparr>od_success_counter := 0\<rparr>"

definition should_dry_run_now :: "optional_dry_run \<Rightarrow> bool" where
  "should_dry_run_now m \<longleftrightarrow> od_success_counter m < OPTIMISTIC_DRY_RUN_THRESHOLD"

datatype notice = NoticeSuccess | NoticeFailure

fun run_notices :: "('m \<Rightarrow> 'm) \<Rightarrow> ('m \<Rightarrow> 'm) \<Rightarrow> notice list \<Rightarrow> 'm \<Rightarrow> 'm" where
  "run_notices on_success on_failure [] m = m"
| "run_notices on_success on_failure (NoticeSuccess # ns) m = run_notices on_success on_failure ns (on_success m)"
| "run_notices on_success on_failure (NoticeFailure # ns) m = run_notices on_success on_failure ns (on_failure m)"

lemma run_notices_append:
  "run_notices on_success on_failure (ns @ ns') m = run_notices on_success on_failure ns' (run_notices on_success on_failure ns m)"
  by (induction on_success on_failure ns m rule: run_notices.induct) simp_all

locale dry_run_manager =
  fixes should :: "'m \<Rightarrow> bool" and on_success :: "'m \<Rightarrow> 'm" and on_failure :: "'m \<Rightarrow> 'm"
  assumes dry_run_after_failure:
    "n < unat OPTIMISTIC_DRY_RUN_THRESHOLD \<Longrightarrow> should ((on_success ^^ n) (on_failure m))"
begin

lemma run_successes: "run_notices on_success on_failure (replicate n NoticeSuccess) m = (on_success ^^ n) m"
  by (induction n arbitrary: m) (simp_all add: funpow_swap1)

lemma dry_run_until_enough_successes:
  assumes "set ns \<subseteq> {NoticeSuccess}" and "length ns < unat OPTIMISTIC_DRY_RUN_THRESHOLD"
  shows "should (run_notices on_success on_failure (past @ NoticeFailure # ns) m)"
proof -
  have ns: "ns = replicate (length ns) NoticeSuccess"
    using assms(1) by (auto simp: list_eq_iff_nth_eq) (meson nth_mem singletonD subsetD)
  have "run_notices on_success on_failure (past @ NoticeFailure # ns) m =
      (on_success ^^ length ns) (on_failure (run_notices on_success on_failure past m))"
    by (subst ns) (simp add: run_notices_append run_successes)
  then show ?thesis using dry_run_after_failure [OF assms(2)] by simp
qed

end

interpretation obligatory: dry_run_manager obligatory_should_dry_run_now
  obligatory_notice_relay_success obligatory_notice_relay_failure
  by unfold_locales (simp add: obligatory_should_dry_run_now_def)

lemma notice_successes: "(notice_relay_success ^^ n) m = m\<lparr>od_success_counter := od_success_counter m + of_nat n\<rparr>"
  by (induction n) (simp_all add: notice_relay_success_def add.assoc add.commute)

interpretation optional: dry_run_manager should_dry_run_now notice_relay_success notice_relay_failure
proof unfold_locales
  fix n and m :: optional_dry_run
  assume "n < unat OPTIMISTIC_DRY_RUN_THRESHOLD"
  then have "(of_nat n :: u32) < OPTIMISTIC_DRY_RUN_THRESHOLD"
    by (simp add: OPTIMISTIC_DRY_RUN_THRESHOLD_def word_less_nat_alt unat_of_nat_lt)
  then show "should_dry_run_now ((notice_relay_success ^^ n) (notice_relay_failure m))"
    by (simp add: notice_successes notice_relay_failure_def should_dry_run_now_def)
qed

section \<open>The workers\<close>

definition unwrap_result :: "('a, 'e) result \<Rightarrow> ('a, 'g) result" where
  "unwrap_result r = (case r of Ok x \<Rightarrow> Ok x
     | Err e \<Rightarrow> Panic ''called unwrap on an Err value'' | Panic msg \<Rightarrow> Panic msg)"

text \<open>
  A withdrawal through the worker's user, as a dry run or as a submission: the two call kinds (for the
  native and for the ERC20 call) say what the node does.
\<close>

definition worker_withdraw ::
  "('p, 's) net_env \<Rightarrow> ('p, 's) shielder_user \<Rightarrow> ('p, withdrawNativeCall, 'r) call_kind \<Rightarrow>
   ('p, withdrawERC20Call, 'r) call_kind \<Rightarrow> withdraw_call \<Rightarrow> ('r, contract_error) result" where
  "worker_withdraw env u CN CE payload = (case wdc_token payload of
       Native \<Rightarrow> and_then (unwrap_result (withdraw_native_try_from payload)) (withdraw_native env u CN)
     | ERC20 address \<Rightarrow> and_then (unwrap_result (withdraw_erc20_try_from payload))
         (\<lambda>call. withdraw_erc20 env u CE call (wdc_pocket_money payload)))"

text \<open>
  The points of a worker's loop: waiting for a task; holding a task whose trace was stamped; past the
  dry run; past the report, with the outcome still to be noticed; about to report to the recharging worker.
\<close>

datatype worker_phase =
    Idle
  | Received nat task
  | Cleared nat task
  | Reported bool
  | Noticed

text \<open>
  The recharging worker (\<open>recharge.rs\<close>) as the relay workers see it: it first creates its provider, and
  if that fails it returns, which closes the channel of reports; then it takes one report at a time and
  handles it to the end (what it does with it is \<open>recharge_reports\<close> of \<open>Monitor\<close>).
\<close>

datatype recharger_phase =
    Starting
  | Waiting
  | Recharging address
  | Stopped

text \<open>
  The system: the queue of numbered tasks, the phase of each worker, the switch, the bounded channel to
  the recharging worker with the phase of the latter, and the logs of what was sent: reports to the
  request handlers, transactions, successful dry runs.
\<close>

record 'm relay_system =
  sy_queue :: "(nat \<times> task) list"
  sy_workers :: "worker_phase list"
  sy_manager :: 'm
  sy_next :: nat
  sy_reports :: "(nat \<times> request_trace \<times> task_result) list"
  sy_submitted :: "nat list"
  sy_dry_runs :: "nat list"
  sy_recharge :: "address list"
  sy_recharger :: recharger_phase

definition taskmaster_new :: "'u list \<Rightarrow> 'm \<Rightarrow> 'm relay_system" where
  "taskmaster_new shielder_users manager = \<lparr> sy_queue = [],
     sy_workers = map (\<lambda>u. Idle) shielder_users, sy_manager = manager, sy_next = 0,
     sy_reports = [], sy_submitted = [], sy_dry_runs = [], sy_recharge = [],
     sy_recharger = Starting \<rparr>"

text \<open>The operations of the loop on a task.\<close>

definition receive_task :: "clock \<Rightarrow> address \<Rightarrow> task \<Rightarrow> task" where
  "receive_task clk worker_address task = task\<lparr>tk_request_trace :=
     set_relayer_address worker_address (trace_record clk ''received by worker'' (tk_request_trace task))\<rparr>"

definition after_dry_run :: "clock \<Rightarrow> task \<Rightarrow> task" where
  "after_dry_run clk task =
     task\<lparr>tk_request_trace := trace_record clk ''dry run completed'' (tk_request_trace task)\<rparr>"

definition submit_report :: "clock \<Rightarrow> task \<Rightarrow> (hash32, contract_error) result \<Rightarrow> request_trace \<times> task_result" where
  "submit_report clk task submit_result =
     (trace_record clk ''relay completed'' (tk_request_trace task),
      case submit_result of Ok tx_hash \<Rightarrow> TaskOk tx_hash | Err err \<Rightarrow> RelayFailed err
        | Panic msg \<Rightarrow> RelayFailed (OtherError msg))"

abbreviation set_phase :: "nat \<Rightarrow> worker_phase \<Rightarrow> 'm relay_system \<Rightarrow> 'm relay_system" where
  "set_phase w ph sys \<equiv> sys\<lparr>sy_workers := (sy_workers sys)[w := ph]\<rparr>"

text \<open>
  The steps. \<open>Register\<close> is the sender of a request handler, which waits while the queue is full. The
  next ones are worker \<open>w\<close>'s. A failed dry run is reported and skips the rest of the round; a dry run or
  a submission ends as the node (the call kinds \<open>CN\<close>, \<open>CE\<close>, of any behaviour) makes it end. At the end
  of the round the worker reports to the recharging worker, and waits while that channel is full: its
  capacity is the number of workers. When the receiver is gone the send fails, which is logged. The
  last four are the recharging worker's; one that never returns from recharging takes no more steps.
\<close>

inductive relay_step ::
  "('m \<Rightarrow> bool) \<Rightarrow> ('m \<Rightarrow> 'm) \<Rightarrow> ('m \<Rightarrow> 'm) \<Rightarrow> ('p, 's) net_env \<Rightarrow> ('p, 's) shielder_user list
     \<Rightarrow> 'm relay_system \<Rightarrow> 'm relay_system \<Rightarrow> bool"
  for should on_success on_failure env users
where
  Register:
    "length (sy_queue sys) < TASK_QUEUE_SIZE \<Longrightarrow>
     relay_step should on_success on_failure env users sys
       (sys\<lparr>sy_queue := sy_queue sys @ [(sy_next sys, task)], sy_next := Suc (sy_next sys)\<rparr>)"
| Receive:
    "sy_queue sys = (i, task) # rest \<Longrightarrow> w < length users \<Longrightarrow> sy_workers sys ! w = Idle \<Longrightarrow>
     relay_step should on_success on_failure env users sys
       (set_phase w (Received i (receive_task clk (user_address env (users ! w)) task)) (sys\<lparr>sy_queue := rest\<rparr>))"
| SkipDryRun:
    "w < length users \<Longrightarrow> sy_workers sys ! w = Received i task \<Longrightarrow> \<not> should (sy_manager sys) \<Longrightarrow>
     relay_step should on_success on_failure env users sys (set_phase w (Cleared i task) sys)"
| DryRunOk:
    "w < length users \<Longrightarrow> sy_workers sys ! w = Received i task \<Longrightarrow> should (sy_manager sys) \<Longrightarrow>
     worker_withdraw env (users ! w) CN CE (tk_payload task) = Ok () \<Longrightarrow>
     relay_step should on_success on_failure env users sys
       (set_phase w (Cleared i (after_dry_run clk task)) (sys\<lparr>sy_dry_runs := sy_dry_runs sys @ [i]\<rparr>))"
| DryRunErr:
    "w < length users \<Longrightarrow> sy_workers sys ! w = Received i task \<Longrightarrow> should (sy_manager sys) \<Longrightarrow>
     worker_withdraw env (users ! w) CN CE (tk_payload task) = (Err err :: (unit, contract_error) result) \<Longrightarrow>
     relay_step should on_success on_failure env users sys
       (set_phase w Idle (sys\<lparr>sy_reports := sy_reports sys @
          [(i, tk_request_trace (after_dry_run clk task), DryRunFailed err)]\<rparr>))"
| Submit:
    "w < length users \<Longrightarrow> sy_workers sys ! w = Cleared i task \<Longrightarrow>
     worker_withdraw env (users ! w) CN CE (tk_payload task) = r \<Longrightarrow> \<not> is_panic r \<Longrightarrow>
     relay_step should on_success on_failure env users sys
       (set_phase w (Reported (is_ok r)) (sys\<lparr>sy_reports := sy_reports sys @ [(i, submit_report clk task r)],
          sy_submitted := sy_submitted sys @ [i]\<rparr>))"
| Notice:
    "w < length users \<Longrightarrow> sy_workers sys ! w = Reported ok \<Longrightarrow>
     relay_step should on_success on_failure env users sys
       (set_phase w Noticed (sys\<lparr>sy_manager := (if ok then on_success else on_failure) (sy_manager sys)\<rparr>))"
| Recharge:
    "w < length users \<Longrightarrow> sy_workers sys ! w = Noticed \<Longrightarrow> sy_recharger sys \<noteq> Stopped \<Longrightarrow>
     length (sy_recharge sys) < length users \<Longrightarrow>
     relay_step should on_success on_failure env users sys
       (set_phase w Idle (sys\<lparr>sy_recharge := sy_recharge sys @ [user_address env (users ! w)]\<rparr>))"
| RechargeClosed:
    "w < length users \<Longrightarrow> sy_workers sys ! w = Noticed \<Longrightarrow> sy_recharger sys = Stopped \<Longrightarrow>
     relay_step should on_success on_failure env users sys (set_phase w Idle sys)"
| RechargerStarts:
    "sy_recharger sys = Starting \<Longrightarrow>
     relay_step should on_success on_failure env users sys (sys\<lparr>sy_recharger := Waiting\<rparr>)"
| RechargerFails:
    "sy_recharger sys = Starting \<Longrightarrow>
     relay_step should on_success on_failure env users sys (sys\<lparr>sy_recharge := [], sy_recharger := Stopped\<rparr>)"
| RechargerTakes:
    "sy_recharger sys = Waiting \<Longrightarrow> sy_recharge sys = relayer # reports \<Longrightarrow>
     relay_step should on_success on_failure env users sys
       (sys\<lparr>sy_recharge := reports, sy_recharger := Recharging relayer\<rparr>)"
| RechargerDone:
    "sy_recharger sys = Recharging relayer \<Longrightarrow>
     relay_step should on_success on_failure env users sys (sys\<lparr>sy_recharger := Waiting\<rparr>)"

section \<open>What a worker sends\<close>

lemma unwrap_conversion:
  "wdc_token w = Native \<Longrightarrow> \<exists>call. withdraw_native_try_from w = Ok call"
  "wdc_token w = ERC20 a \<Longrightarrow> \<exists>call. withdraw_erc20_try_from w = Ok call"
  by (simp_all add: withdraw_native_try_from_def withdraw_erc20_try_from_def)

lemma withdraw_requests:
  "withdraw_native env u CN call = user_request env u CN call 0"
  "withdraw_erc20 env u CE call' v = user_request env u CE call' v"
  by (simp_all add: withdraw_native_def withdraw_erc20_def connection_call_def
      connection_call_with_value_def connection_call_inner_request)

lemma worker_withdraw_cases:
  obtains (native) call where "wdc_token w = Native" "withdraw_native_try_from w = Ok call"
      "worker_withdraw env u CN CE w = user_request env u CN call 0"
    | (erc20) a call where "wdc_token w = ERC20 a" "withdraw_erc20_try_from w = Ok call"
      "worker_withdraw env u CN CE w = user_request env u CE call (wdc_pocket_money w)"
proof (cases "wdc_token w")
  case Native
  with unwrap_conversion(1) [OF Native] native show thesis
    by (auto simp: worker_withdraw_def unwrap_result_def withdraw_requests)
next
  case (ERC20 a)
  with unwrap_conversion(2) [OF ERC20] erc20 show thesis
    by (auto simp: worker_withdraw_def unwrap_result_def withdraw_requests)
qed

text \<open>
  What a worker sends. The conversions a worker unwraps never fail, for any task: a native task
  becomes one request with the native contract call and no value, an ERC20 task one request with the
  ERC20 call of that token and exactly the pocket money as value.
\<close>

theorem worker_sends_payload:
  "(wdc_token w = Native \<longrightarrow> (\<exists>call. withdraw_native_try_from w = Ok call \<and>
      worker_withdraw env u CN CE w = user_request env u CN call 0)) \<and>
   (\<forall>a. wdc_token w = ERC20 a \<longrightarrow> (\<exists>call. withdraw_erc20_try_from w = Ok call \<and> we_tokenAddress call = a \<and>
      worker_withdraw env u CN CE w = user_request env u CE call (wdc_pocket_money w)))"
  by (cases rule: worker_withdraw_cases [of w env u CN CE])
    (auto simp: withdraw_erc20_try_from_def)

definition sample_payload :: withdraw_call where
  "sample_payload = create_call (rqy_calldata sample_query) 3 1155"

theorem worker_sends_payload_witness:
  "worker_withdraw sample_net_env (shielder_user_new 77 (Keep () 1)) (\<lambda>p rq. Err WatchError)
     (\<lambda>p rq. Ok (rq_value rq)) sample_payload = Ok 100"
proof -
  let ?u = "shielder_user_new 77 (Keep () 1) :: (unit, nat) shielder_user"
  have "wdc_token sample_payload = ERC20 7" by (simp add: sample_payload_def create_call_def sample_query_def)
  with worker_sends_payload [of sample_payload sample_net_env ?u "\<lambda>p rq. Err WatchError" "\<lambda>p rq. Ok (rq_value rq)"]
  obtain call :: withdrawERC20Call where "worker_withdraw sample_net_env ?u (\<lambda>p rq. Err WatchError) (\<lambda>p rq. Ok (rq_value rq)) sample_payload
      = user_request sample_net_env ?u (\<lambda>p rq. Ok (rq_value rq)) call (wdc_pocket_money sample_payload)" by blast
  then show ?thesis
    by (simp add: user_request_def user_provider_def shielder_user_new_def sample_payload_def
        create_call_def sample_query_def)
qed

section \<open>Conservation of tasks\<close>

fun held :: "worker_phase \<Rightarrow> nat list" where
  "held (Received i task) = [i]"
| "held (Cleared i task) = [i]"
| "held _ = []"

definition task_ids :: "'m relay_system \<Rightarrow> nat multiset" where
  "task_ids sys = mset (map fst (sy_queue sys)) + mset (concat (map held (sy_workers sys))) +
     mset (map fst (sy_reports sys))"

fun relayed :: "nat \<times> request_trace \<times> task_result \<Rightarrow> bool" where
  "relayed (i, tr, DryRunFailed e) = False"
| "relayed (i, tr, RelayFailed e) = True"
| "relayed (i, tr, TaskOk h) = True"

text \<open>The workers whose current task has been submitted and not yet reported for recharging.\<close>

fun owes_recharge :: "worker_phase \<Rightarrow> nat" where
  "owes_recharge (Reported ok) = 1"
| "owes_recharge Noticed = 1"
| "owes_recharge _ = 0"

definition system_inv :: "'u list \<Rightarrow> 'm relay_system \<Rightarrow> bool" where
  "system_inv users sys \<longleftrightarrow> length (sy_workers sys) = length users \<and>
     length (sy_queue sys) \<le> TASK_QUEUE_SIZE \<and>
     task_ids sys = mset [0..<sy_next sys] \<and>
     sy_submitted sys = map fst (filter relayed (sy_reports sys)) \<and>
     length (sy_recharge sys) \<le> length users \<and>
     length (sy_recharge sys) + sum_list (map owes_recharge (sy_workers sys)) \<le> length (sy_submitted sys)"

lemma sum_list_update_nat:
  fixes f :: "'a \<Rightarrow> nat"
  assumes "w < length ws"
  shows "sum_list (map f (ws[w := x])) + f (ws ! w) = sum_list (map f ws) + f x"
  using assms
proof (induction ws arbitrary: w)
  case Nil
  then show ?case by simp
next
  case (Cons a ws)
  from Cons show ?case by (cases w) (auto simp: add.assoc)
qed

lemma owes_update:
  assumes "w < length ws" and "owes_recharge (ws ! w) = j" and "owes_recharge x = k"
  shows "sum_list (map owes_recharge (ws[w := x])) + j = sum_list (map owes_recharge ws) + k"
  using sum_list_update_nat [OF assms(1), of owes_recharge x] assms(2,3) by simp

lemma mset_concat_update:
  assumes "w < length ws"
  shows "mset (concat (map f (ws[w := x]))) + mset (f (ws ! w)) = mset (concat (map f ws)) + mset (f x)"
  using assms
proof (induction ws arbitrary: w)
  case Nil
  then show ?case by simp
next
  case (Cons a ws)
  then show ?case by (cases w) (auto simp: add.assoc add.left_commute)
qed

lemma held_update:
  assumes "w < length ws" and "held (ws ! w) = ids" and "held x = ids'"
  shows "mset (concat (map held (ws[w := x]))) + mset ids = mset (concat (map held ws)) + mset ids'"
  using mset_concat_update [OF assms(1), of held x] assms(2,3) by simp

lemma relayed_submit_report: "relayed (i, submit_report clk task r)"
  by (simp add: submit_report_def split: result.split)

lemma relay_step_inv:
  assumes "relay_step should s f env users sys sys'" and "system_inv users sys"
  shows "system_inv users sys'"
  using assms
proof (induction rule: relay_step.induct)
  case (Register sys task)
  then show ?case by (auto simp: system_inv_def task_ids_def)
next
  case (Receive sys i task rest w clk)
  let ?x = "Received i (receive_task clk (user_address env (users ! w)) task)"
  have w: "w < length (sy_workers sys)" using Receive by (simp add: system_inv_def)
  from held_update [OF w, of "[]" ?x "[i]"] owes_update [OF w, of 0 ?x 0]
  show ?case using Receive by (auto simp: system_inv_def task_ids_def)
next
  case (SkipDryRun w sys i task)
  have w: "w < length (sy_workers sys)" using SkipDryRun by (simp add: system_inv_def)
  from held_update [OF w, of "[i]" "Cleared i task" "[i]"] owes_update [OF w, of 0 "Cleared i task" 0]
  show ?case using SkipDryRun by (auto simp: system_inv_def task_ids_def)
next
  case (DryRunOk w sys i task CN CE clk)
  let ?x = "Cleared i (after_dry_run clk task)"
  have w: "w < length (sy_workers sys)" using DryRunOk by (simp add: system_inv_def)
  from held_update [OF w, of "[i]" ?x "[i]"] owes_update [OF w, of 0 ?x 0]
  show ?case using DryRunOk by (auto simp: system_inv_def task_ids_def)
next
  case (DryRunErr w sys i task CN CE err clk)
  have w: "w < length (sy_workers sys)" using DryRunErr by (simp add: system_inv_def)
  from held_update [OF w, of "[i]" Idle "[]", symmetric] owes_update [OF w, of 0 Idle 0]
  show ?case using DryRunErr by (auto simp: system_inv_def task_ids_def)
next
  case (Submit w sys i task CN CE r clk)
  let ?x = "Reported (is_ok r)"
  have w: "w < length (sy_workers sys)" using Submit by (simp add: system_inv_def)
  from held_update [OF w, of "[i]" ?x "[]", symmetric] owes_update [OF w, of 0 ?x 1]
  show ?case using Submit relayed_submit_report by (auto simp: system_inv_def task_ids_def)
next
  case (Notice w sys ok)
  have w: "w < length (sy_workers sys)" using Notice by (simp add: system_inv_def)
  from held_update [OF w, of "[]" Noticed "[]"] owes_update [OF w, of 1 Noticed 1]
  show ?case using Notice by (auto simp: system_inv_def task_ids_def)
next
  case (Recharge w sys)
  have w: "w < length (sy_workers sys)" using Recharge by (simp add: system_inv_def)
  from held_update [OF w, of "[]" Idle "[]"] owes_update [OF w, of 1 Idle 0]
  show ?case using Recharge by (auto simp: system_inv_def task_ids_def)
next
  case (RechargeClosed w sys)
  have w: "w < length (sy_workers sys)" using RechargeClosed by (simp add: system_inv_def)
  from held_update [OF w, of "[]" Idle "[]"] owes_update [OF w, of 1 Idle 0]
  show ?case using RechargeClosed by (auto simp: system_inv_def task_ids_def)
qed (auto simp: system_inv_def task_ids_def)

lemma taskmaster_new_inv: "system_inv users (taskmaster_new users m)"
  by (auto simp: system_inv_def taskmaster_new_def task_ids_def TASK_QUEUE_SIZE_def)

lemma relay_steps_inv:
  assumes "(relay_step should s f env users)\<^sup>*\<^sup>* sys sys'" and "system_inv users sys"
  shows "system_inv users sys'"
  using assms by (induction rule: rtranclp_induct) (auto intro: relay_step_inv)

text \<open>
  C4. No task is lost or answered twice. In every reachable state of the queue and its workers, under
  any interleaving and any behaviour of the node, each task registered so far is in exactly one place:
  in the queue (of at most 1024 tasks), held by one worker, or reported, once. The transactions
  submitted are, in order, those of the tasks reported as relayed or as failed to relay: each such task
  was submitted exactly once, and no task whose dry run failed was submitted.
\<close>

theorem tasks_conserved:
  assumes "(relay_step should s f env users)\<^sup>*\<^sup>* (taskmaster_new users m) sys"
  shows "length (sy_queue sys) \<le> 1024 \<and>
    mset (map fst (sy_queue sys)) + mset (concat (map held (sy_workers sys))) +
      mset (map fst (sy_reports sys)) = mset [0..<sy_next sys] \<and>
    distinct (map fst (sy_reports sys)) \<and>
    sy_submitted sys = map fst (filter relayed (sy_reports sys))"
proof -
  have inv: "system_inv users sys" using relay_steps_inv [OF assms taskmaster_new_inv] .
  then have ids: "mset (map fst (sy_queue sys)) + mset (concat (map held (sy_workers sys))) +
      mset (map fst (sy_reports sys)) = mset [0..<sy_next sys]"
    by (simp only: system_inv_def task_ids_def)
  then have "mset (map fst (sy_queue sys) @ concat (map held (sy_workers sys)) @ map fst (sy_reports sys))
      = mset [0..<sy_next sys]" by (simp add: add.assoc)
  from mset_eq_imp_distinct_iff [OF this] have "distinct (map fst (sy_reports sys))" by simp
  with inv ids show ?thesis by (simp add: system_inv_def TASK_QUEUE_SIZE_def)
qed

section \<open>Progress\<close>
















text \<open>A system with one worker and its first task, for the witnesses.\<close>

definition sample_user :: "(unit, nat) shielder_user" where
  "sample_user = shielder_user_new 77 (Keep () 1)"

definition sample_system :: "optional_dry_run relay_system" where
  "sample_system = (taskmaster_new [sample_user] optional_dry_run_new)\<lparr>
     sy_queue := [(0, \<lparr> tk_payload = sample_payload, tk_request_trace = trace_new sample_query 0 \<rparr>)],
     sy_next := 1 \<rparr>"

lemma sample_system_reachable:
  "(relay_step should_dry_run_now notice_relay_success notice_relay_failure sample_net_env [sample_user])\<^sup>*\<^sup>*
     (taskmaster_new [sample_user] optional_dry_run_new) sample_system"
proof -
  let ?new = "taskmaster_new [sample_user] optional_dry_run_new :: optional_dry_run relay_system"
  have "length (sy_queue ?new) < TASK_QUEUE_SIZE" by (simp add: taskmaster_new_def TASK_QUEUE_SIZE_def)
  from relay_step.Register [OF this, of should_dry_run_now notice_relay_success notice_relay_failure
      sample_net_env "[sample_user]" "\<lparr> tk_payload = sample_payload, tk_request_trace = trace_new sample_query 0 \<rparr>"]
  show ?thesis by (simp add: sample_system_def taskmaster_new_def r_into_rtranclp)
qed


theorem tasks_conserved_witness:
  "mset (map fst (sy_queue sample_system)) + mset (concat (map held (sy_workers sample_system))) +
     mset (map fst (sy_reports sample_system)) = mset [0..<1] \<and> length (sy_queue sample_system) = 1"
  using tasks_conserved [OF sample_system_reachable] by (simp add: sample_system_def)


section \<open>Dry runs\<close>

fun cleared :: "worker_phase \<Rightarrow> nat set" where
  "cleared (Cleared i task) = {i}"
| "cleared _ = {}"

definition dry_run_inv :: "'m relay_system \<Rightarrow> bool" where
  "dry_run_inv sys \<longleftrightarrow> (\<forall>ph \<in> set (sy_workers sys). cleared ph \<subseteq> set (sy_dry_runs sys)) \<and>
     set (sy_submitted sys) \<subseteq> set (sy_dry_runs sys)"

lemma dry_run_inv_phase:
  assumes "dry_run_inv sys" and "cleared ph \<subseteq> set ds" and "set (sy_dry_runs sys) \<subseteq> set ds"
  shows "\<forall>p \<in> set ((sy_workers sys)[w := ph]). cleared p \<subseteq> set ds"
  using assms set_update_subset_insert [of "sy_workers sys" w ph] unfolding dry_run_inv_def by blast

lemma relay_step_dry_run_inv:
  assumes "relay_step should s f env users sys sys'" and "\<forall>m. should m"
    and "dry_run_inv sys" and "length (sy_workers sys) = length users"
  shows "dry_run_inv sys'"
  using assms(1,3,4)
proof (induction rule: relay_step.induct)
  case (SkipDryRun w sys i task)
  then show ?case using assms(2) by simp
next
  case (DryRunOk w sys i task CN CE clk)
  then show ?case
    using dry_run_inv_phase [of sys "Cleared i (after_dry_run clk task)" "sy_dry_runs sys @ [i]" w]
    by (auto simp: dry_run_inv_def)
next
  case (Submit w sys i task CN CE r clk)
  then have "Cleared i task \<in> set (sy_workers sys)" by (metis nth_mem)
  then have "i \<in> set (sy_dry_runs sys)" using Submit by (auto simp: dry_run_inv_def)
  with Submit show ?case
    using dry_run_inv_phase [of sys "Reported (is_ok r)" "sy_dry_runs sys" w] by (auto simp: dry_run_inv_def)
next
  case (Receive sys i task rest w clk)
  then show ?case
    using dry_run_inv_phase [of sys "Received i (receive_task clk (user_address env (users ! w)) task)" "sy_dry_runs sys" w]
    by (auto simp: dry_run_inv_def)
next
  case (DryRunErr w sys i task CN CE err clk)
  then show ?case using dry_run_inv_phase [of sys Idle "sy_dry_runs sys" w] by (auto simp: dry_run_inv_def)
next
  case (Notice w sys ok)
  then show ?case using dry_run_inv_phase [of sys Noticed "sy_dry_runs sys" w] by (auto simp: dry_run_inv_def)
next
  case (Recharge w sys)
  then show ?case using dry_run_inv_phase [of sys Idle "sy_dry_runs sys" w] by (auto simp: dry_run_inv_def)
next
  case (RechargeClosed w sys)
  then show ?case using dry_run_inv_phase [of sys Idle "sy_dry_runs sys" w] by (auto simp: dry_run_inv_def)
qed (simp_all add: dry_run_inv_def)

text \<open>
  Dry runs. With the setting \<open>Always\<close>, no transaction is submitted without a successful dry run of
  its task before. With \<open>Optimistic\<close>, dry runs are off at the start, and once a relay failure has been
  noticed they stay on until 32 successes have been noticed since.
\<close>

theorem dry_run_policy:
  "(\<forall>sys. (relay_step obligatory_should_dry_run_now obligatory_notice_relay_success
        obligatory_notice_relay_failure env users)\<^sup>*\<^sup>* (taskmaster_new users ObligatoryDryRun) sys \<longrightarrow>
      set (sy_submitted sys) \<subseteq> set (sy_dry_runs sys)) \<and>
   \<not> should_dry_run_now optional_dry_run_new \<and>
   (\<forall>past n. n < 32 \<longrightarrow> should_dry_run_now (run_notices notice_relay_success notice_relay_failure
      (past @ NoticeFailure # replicate n NoticeSuccess) optional_dry_run_new)) \<and>
   (\<forall>past. \<not> should_dry_run_now (run_notices notice_relay_success notice_relay_failure
      (past @ NoticeFailure # replicate 32 NoticeSuccess) optional_dry_run_new))"
proof (intro conjI allI impI)
  fix sys
  let ?step = "relay_step obligatory_should_dry_run_now obligatory_notice_relay_success
    obligatory_notice_relay_failure env users"
  assume "?step\<^sup>*\<^sup>* (taskmaster_new users ObligatoryDryRun) sys"
  then have "dry_run_inv sys \<and> system_inv users sys"
  proof (induction rule: rtranclp_induct)
    case base
    then show ?case using taskmaster_new_inv by (auto simp: dry_run_inv_def taskmaster_new_def)
  next
    case (step y z)
    then have "length (sy_workers y) = length users" by (simp add: system_inv_def)
    then show ?case using step relay_step_inv relay_step_dry_run_inv [OF step(2)]
      by (auto simp: obligatory_should_dry_run_now_def)
  qed
  then show "set (sy_submitted sys) \<subseteq> set (sy_dry_runs sys)" by (simp add: dry_run_inv_def)
next
  show "\<not> should_dry_run_now optional_dry_run_new"
    by (simp add: should_dry_run_now_def optional_dry_run_new_def)
next
  fix past n assume "n < (32 :: nat)"
  then show "should_dry_run_now (run_notices notice_relay_success notice_relay_failure
      (past @ NoticeFailure # replicate n NoticeSuccess) optional_dry_run_new)"
    by (intro optional.dry_run_until_enough_successes) (auto simp: OPTIMISTIC_DRY_RUN_THRESHOLD_def)
next
  fix past
  show "\<not> should_dry_run_now (run_notices notice_relay_success notice_relay_failure
      (past @ NoticeFailure # replicate 32 NoticeSuccess) optional_dry_run_new)"
    unfolding run_notices_append run_notices.simps optional.run_successes notice_successes
    by (simp add: notice_relay_failure_def should_dry_run_now_def OPTIMISTIC_DRY_RUN_THRESHOLD_def)
qed

theorem dry_run_policy_witness:
  "should_dry_run_now (run_notices notice_relay_success notice_relay_failure
     [NoticeSuccess, NoticeFailure, NoticeSuccess] optional_dry_run_new)"
  using dry_run_policy [of sample_net_env "[sample_user]", THEN conjunct2, THEN conjunct2, THEN conjunct1,
      rule_format, of 1 "[NoticeSuccess]"] by simp

end
