(* ===== verification/Config.thy ===== *)
theory Config
  imports Taskmaster
begin

text \<open>
  The configuration of the relayer (\<open>config/mod.rs\<close>, \<open>config/cli.rs\<close>, \<open>config/enums.rs\<close>,
  \<open>config/defaults.rs\<close>, \<open>environment_variables.rs\<close>): every value comes from the command line, else from
  an environment variable, else from a default. The environment is a map; reading a 256-bit number, an
  address and the JSON token list is the work of other packages and a parameter (\<open>config_api\<close>).
\<close>

section \<open>Enumerations\<close>

datatype logging_format = Text | Json
datatype dry_running = Always | Optimistic

definition to_lowercase :: "string \<Rightarrow> string" where
  "to_lowercase s =
     map (\<lambda>c. let n = of_char c :: nat in if 65 \<le> n \<and> n \<le> 90 then char_of (n + 32) else c) s"

definition logging_format_from_str :: "string \<Rightarrow> logging_format option" where
  "logging_format_from_str s =
     (if to_lowercase s = ''text'' then Some Text else if to_lowercase s = ''json'' then Some Json else None)"

definition nonce_policy_from_str :: "string \<Rightarrow> nonce_policy option" where
  "nonce_policy_from_str s = (if to_lowercase s = ''caching'' then Some Caching
     else if to_lowercase s = ''stateless'' then Some Stateless else None)"

definition dry_running_from_str :: "string \<Rightarrow> dry_running option" where
  "dry_running_from_str s = (if to_lowercase s = ''always'' then Some Always
     else if to_lowercase s = ''optimistic'' then Some Optimistic else None)"

section \<open>Parsing\<close>

text \<open>
  The standard parser of unsigned integers: an optional plus sign, then at least one digit, the value
  within the width.
\<close>

definition digit_value :: "char \<Rightarrow> nat option" where
  "digit_value c = (let n = of_char c :: nat in if 48 \<le> n \<and> n \<le> 57 then Some (n - 48) else None)"

fun parse_digits :: "nat \<Rightarrow> string \<Rightarrow> nat option" where
  "parse_digits acc [] = Some acc"
| "parse_digits acc (c # cs) = (case digit_value c of None \<Rightarrow> None | Some d \<Rightarrow> parse_digits (10 * acc + d) cs)"

definition parse_uint :: "nat \<Rightarrow> string \<Rightarrow> nat option" where
  "parse_uint width s =
     (let digits = (if s \<noteq> [] \<and> hd s = CHR ''+'' then tl s else s)
      in if digits = [] then None
         else Option.bind (parse_digits 0 digits) (\<lambda>n. if n < 2 ^ width then Some n else None))"

definition parse_u16 :: "string \<Rightarrow> u16 option" where
  "parse_u16 s = map_option of_nat (parse_uint 16 s)"

definition parse_u32 :: "string \<Rightarrow> u32 option" where
  "parse_u32 s = map_option of_nat (parse_uint 32 s)"

definition parse_u64 :: "string \<Rightarrow> u64 option" where
  "parse_u64 s = map_option of_nat (parse_uint 64 s)"

definition parse_seconds :: "string \<Rightarrow> duration option" where
  "parse_seconds s = map_option from_secs (parse_u64 s)"

fun split_comma :: "string \<Rightarrow> string list" where
  "split_comma [] = [[]]"
| "split_comma (c # cs) = (if c = CHR '','' then [] # split_comma cs
     else (case split_comma cs of [] \<Rightarrow> [[c]] | w # ws \<Rightarrow> (c # w) # ws))"

record 'd config_api =
  ca_u256_from_str :: "string \<Rightarrow> u256 option"
  ca_address_from_str :: "string \<Rightarrow> address option"
  ca_token_config_from_json :: "string \<Rightarrow> 'd token_info list option"

definition parse_u256 :: "'d config_api \<Rightarrow> string \<Rightarrow> u256 option" where
  "parse_u256 A s = ca_u256_from_str A s"

section \<open>Configurations\<close>

record network_config =
  nc_host :: string
  nc_port :: u16
  nc_metrics_port :: u16

record chain_config =
  cc_node_rpc_url :: string
  cc_shielder_contract_address :: address
  cc_relay_gas :: u64

record 'd operational_config =
  oc_balance_monitor_interval :: duration
  oc_rpc_health_cache_validity :: duration
  oc_nonce_policy :: nonce_policy
  oc_dry_running :: dry_running
  oc_recharge_threshold :: u256
  oc_recharge_amount :: u256
  oc_token_config :: "'d token_info list"
  oc_price_feed_validity :: duration
  oc_price_feed_refresh_interval :: duration
  oc_service_fee_percent :: u32
  oc_quote_validity :: duration
  oc_max_pocket_money :: u256

record 'd server_config =
  sc_logging_format :: logging_format
  sc_network :: network_config
  sc_chain :: chain_config
  sc_operations :: "'d operational_config"
  sc_keys :: key_config

record cli_config =
  cli_logging_format :: "logging_format option"
  cli_host :: "string option"
  cli_port :: "u16 option"
  cli_metrics_port :: "u16 option"
  cli_balance_monitor_interval :: "duration option"
  cli_node_rpc_url :: "string option"
  cli_shielder_contract_address :: "string option"
  cli_fee_destination_key :: "string option"
  cli_signing_keys :: "string list option"
  cli_nonce_policy :: "nonce_policy option"
  cli_dry_running :: "dry_running option"
  cli_recharge_threshold :: "u256 option"
  cli_recharge_amount :: "u256 option"
  cli_relay_gas :: "u64 option"
  cli_token_config :: "string option"
  cli_price_feed_refresh_interval :: "duration option"
  cli_price_feed_validity :: "duration option"
  cli_service_fee_percent :: "u32 option"
  cli_quote_validity :: "duration option"
  cli_max_pocket_money :: "u256 option"

text \<open>
  The debug view of the keys shows the first five and the last three bytes; slicing a shorter key panics.
\<close>

definition fmt_key :: "string \<Rightarrow> (string, unit) result" where
  "fmt_key key = (if length key < 5 then Panic ''byte index 5 is out of bounds''
     else Ok (take 5 key @ ''...'' @ drop (length key - 3) key))"

section \<open>Defaults\<close>

definition DEFAULT_LOGGING_FORMAT :: logging_format where "DEFAULT_LOGGING_FORMAT = Text"
definition DEFAULT_HOST :: string where "DEFAULT_HOST = ''0.0.0.0''"
definition DEFAULT_PORT :: u16 where "DEFAULT_PORT = 4141"
definition DEFAULT_METRICS_PORT :: u16 where "DEFAULT_METRICS_PORT = 9615"
definition DEFAULT_BALANCE_MONITOR_INTERVAL :: duration where
  "DEFAULT_BALANCE_MONITOR_INTERVAL = from_secs 15"
definition DEFAULT_RPC_HEALTH_CACHE_VALIDITY :: duration where
  "DEFAULT_RPC_HEALTH_CACHE_VALIDITY = from_secs 10"
definition DEFAULT_NONCE_POLICY :: nonce_policy where "DEFAULT_NONCE_POLICY = Caching"
definition DEFAULT_DRY_RUNNING :: dry_running where "DEFAULT_DRY_RUNNING = Always"
definition DEFAULT_RECHARGE_THRESHOLD :: string where
  "DEFAULT_RECHARGE_THRESHOLD = ''2_000_000_000_000_000_000''"
definition DEFAULT_RECHARGE_AMOUNT :: string where
  "DEFAULT_RECHARGE_AMOUNT = ''20_000_000_000_000_000_000''"
definition DEFAULT_RELAY_GAS :: u64 where "DEFAULT_RELAY_GAS = 2000000"
definition DEFAULT_PRICE_FEED_VALIDITY :: duration where "DEFAULT_PRICE_FEED_VALIDITY = from_secs 600"
definition DEFAULT_PRICE_FEED_REFRESH_INTERVAL :: duration where
  "DEFAULT_PRICE_FEED_REFRESH_INTERVAL = from_secs 60"
definition DEFAULT_SERVICE_FEE_PERCENT :: u32 where "DEFAULT_SERVICE_FEE_PERCENT = 15"
definition DEFAULT_QUOTE_VALIDITY :: duration where "DEFAULT_QUOTE_VALIDITY = from_secs 15"
definition DEFAULT_MAX_POCKET_MONEY :: string where
  "DEFAULT_MAX_POCKET_MONEY = ''100_000_000_000_000_000''"

section \<open>Resolution\<close>

type_synonym environment = "string \<rightharpoonup> string"

text \<open>An environment variable that does not parse counts as absent.\<close>

definition resolve_value_map ::
  "environment \<Rightarrow> 't option \<Rightarrow> string \<Rightarrow> (string \<Rightarrow> 't option) \<Rightarrow> 't option \<Rightarrow> ('t, unit) result" where
  "resolve_value_map env value env_var parse dflt = (case value of
       Some v \<Rightarrow> Ok v
     | None \<Rightarrow> expect (case Option.bind (env env_var) parse of Some v \<Rightarrow> Some v | None \<Rightarrow> dflt)
         ''Missing required configuration'')"

text \<open>\<open>resolve_value\<close> with the standard parser of the type, for each type it is used at.\<close>

definition resolve_value ::
  "(string \<Rightarrow> 't option) \<Rightarrow> environment \<Rightarrow> 't option \<Rightarrow> string \<Rightarrow> 't option \<Rightarrow> ('t, unit) result" where
  "resolve_value from_str env value env_var dflt = resolve_value_map env value env_var from_str dflt"

definition resolve_key_config :: "environment \<Rightarrow> cli_config \<Rightarrow> (key_config, unit) result" where
  "resolve_key_config env cli =
     and_then (case cli_signing_keys cli of
         Some keys \<Rightarrow> Ok keys
       | None \<Rightarrow> map_ok split_comma
           (expect (env ''RELAYER_SIGNING_KEYS'') ''Missing required configuration'')) (\<lambda>signing_keys.
     and_then (resolve_value Some env (cli_fee_destination_key cli) ''FEE_DESTINATION_KEY'' None)
       (\<lambda>fee_destination_key.
     Ok \<lparr> kc_fee_destination_key = fee_destination_key, kc_signing_keys = signing_keys \<rparr>))"

definition resolve_network_config :: "environment \<Rightarrow> cli_config \<Rightarrow> (network_config, unit) result" where
  "resolve_network_config env cli =
     and_then (resolve_value Some env (cli_host cli) ''RELAYER_HOST'' (Some DEFAULT_HOST)) (\<lambda>host.
     and_then (resolve_value parse_u16 env (cli_port cli) ''RELAYER_PORT'' (Some DEFAULT_PORT)) (\<lambda>port.
     and_then (resolve_value parse_u16 env (cli_metrics_port cli) ''RELAYER_METRICS_PORT''
       (Some DEFAULT_METRICS_PORT)) (\<lambda>metrics_port.
     Ok \<lparr> nc_host = host, nc_port = port, nc_metrics_port = metrics_port \<rparr>)))"

definition resolve_chain_config ::
  "'d config_api \<Rightarrow> environment \<Rightarrow> cli_config \<Rightarrow> (chain_config, unit) result" where
  "resolve_chain_config A env cli =
     and_then (resolve_value Some env (cli_node_rpc_url cli) ''NODE_RPC_URL'' None) (\<lambda>node_rpc_url.
     and_then (resolve_value Some env (cli_shielder_contract_address cli) ''SHIELDER_CONTRACT_ADDRESS'' None)
       (\<lambda>contract.
     and_then (expect (ca_address_from_str A contract) ''Invalid address'') (\<lambda>contract_address.
     and_then (resolve_value parse_u64 env (cli_relay_gas cli) ''RELAY_GAS'' (Some DEFAULT_RELAY_GAS)) (\<lambda>relay_gas.
     Ok \<lparr> cc_node_rpc_url = node_rpc_url, cc_shielder_contract_address = contract_address,
          cc_relay_gas = relay_gas \<rparr>))))"

definition resolve_token_config ::
  "'d config_api \<Rightarrow> environment \<Rightarrow> cli_config \<Rightarrow> ('d token_info list, unit) result" where
  "resolve_token_config A env cli =
     and_then (expect (case cli_token_config cli of Some s \<Rightarrow> Some s | None \<Rightarrow> env ''TOKEN_CONFIG'')
       ''Missing token configuration'') (\<lambda>s.
     expect (ca_token_config_from_json A s) ''Invalid token configuration'')"

definition unwrap_u256 :: "'d config_api \<Rightarrow> string \<Rightarrow> (u256, unit) result" where
  "unwrap_u256 A s = expect (parse_u256 A s) ''called unwrap on an Err value''"

definition resolve_operational_config ::
  "'d config_api \<Rightarrow> environment \<Rightarrow> cli_config \<Rightarrow> 'd token_info list \<Rightarrow> ('d operational_config, unit) result" where
  "resolve_operational_config A env cli token_config =
     and_then (resolve_value_map env (cli_balance_monitor_interval cli) ''BALANCE_MONITOR_INTERVAL''
       parse_seconds (Some DEFAULT_BALANCE_MONITOR_INTERVAL)) (\<lambda>balance_monitor_interval.
     and_then (resolve_value_map env None ''RPC_HEALTH_CACHE_VALIDITY''
       parse_seconds (Some DEFAULT_RPC_HEALTH_CACHE_VALIDITY)) (\<lambda>rpc_health_cache_validity.
     and_then (resolve_value nonce_policy_from_str env (cli_nonce_policy cli) ''NONCE_POLICY''
       (Some DEFAULT_NONCE_POLICY)) (\<lambda>nonce_policy.
     and_then (resolve_value dry_running_from_str env (cli_dry_running cli) ''DRY_RUNNING''
       (Some DEFAULT_DRY_RUNNING)) (\<lambda>dry_running.
     and_then (unwrap_u256 A DEFAULT_RECHARGE_THRESHOLD) (\<lambda>default_threshold.
     and_then (resolve_value_map env (cli_recharge_threshold cli) ''RECHARGE_THRESHOLD''
       (parse_u256 A) (Some default_threshold)) (\<lambda>recharge_threshold.
     and_then (unwrap_u256 A DEFAULT_RECHARGE_AMOUNT) (\<lambda>default_amount.
     and_then (resolve_value_map env (cli_recharge_amount cli) ''RECHARGE_AMOUNT''
       (parse_u256 A) (Some default_amount)) (\<lambda>recharge_amount.
     and_then (resolve_value_map env (cli_price_feed_validity cli) ''PRICE_FEED_VALIDITY''
       parse_seconds (Some DEFAULT_PRICE_FEED_VALIDITY)) (\<lambda>price_feed_validity.
     and_then (resolve_value_map env (cli_price_feed_refresh_interval cli) ''PRICE_FEED_REFRESH_INTERVAL''
       parse_seconds (Some DEFAULT_PRICE_FEED_REFRESH_INTERVAL)) (\<lambda>price_feed_refresh_interval.
     and_then (resolve_value parse_u32 env (cli_service_fee_percent cli) ''SERVICE_FEE_PERCENT''
       (Some DEFAULT_SERVICE_FEE_PERCENT)) (\<lambda>service_fee_percent.
     and_then (resolve_value_map env (cli_quote_validity cli) ''QUOTE_VALIDITY''
       parse_seconds (Some DEFAULT_QUOTE_VALIDITY)) (\<lambda>quote_validity.
     and_then (unwrap_u256 A DEFAULT_MAX_POCKET_MONEY) (\<lambda>default_pocket_money.
     and_then (resolve_value_map env (cli_max_pocket_money cli) ''MAX_POCKET_MONEY''
       (parse_u256 A) (Some default_pocket_money)) (\<lambda>max_pocket_money.
     Ok \<lparr> oc_balance_monitor_interval = balance_monitor_interval,
          oc_rpc_health_cache_validity = rpc_health_cache_validity, oc_nonce_policy = nonce_policy,
          oc_dry_running = dry_running, oc_recharge_threshold = recharge_threshold,
          oc_recharge_amount = recharge_amount, oc_token_config = token_config,
          oc_price_feed_validity = price_feed_validity,
          oc_price_feed_refresh_interval = price_feed_refresh_interval,
          oc_service_fee_percent = service_fee_percent, oc_quote_validity = quote_validity,
          oc_max_pocket_money = max_pocket_money \<rparr>))))))))))))))"

definition resolve_config_from_cli_config ::
  "'d config_api \<Rightarrow> environment \<Rightarrow> cli_config \<Rightarrow> ('d server_config, unit) result" where
  "resolve_config_from_cli_config A env cli =
     and_then (resolve_key_config env cli) (\<lambda>key_config.
     and_then (resolve_network_config env cli) (\<lambda>network_config.
     and_then (resolve_chain_config A env cli) (\<lambda>chain_config.
     and_then (resolve_token_config A env cli) (\<lambda>token_config.
     and_then (resolve_operational_config A env cli token_config) (\<lambda>operational_config.
     and_then (resolve_value logging_format_from_str env (cli_logging_format cli) ''LOGGING_FORMAT''
       (Some DEFAULT_LOGGING_FORMAT)) (\<lambda>logging_format.
     Ok \<lparr> sc_logging_format = logging_format, sc_network = network_config, sc_chain = chain_config,
          sc_operations = operational_config, sc_keys = key_config \<rparr>))))))"

section \<open>Properties\<close>

text \<open>The specification of one value: command line, then a parsable variable, then the default.\<close>

definition setting :: "environment \<Rightarrow> 't option \<Rightarrow> string \<Rightarrow> (string \<Rightarrow> 't option) \<Rightarrow> 't \<Rightarrow> 't" where
  "setting env value env_var parse d = (case value of Some v \<Rightarrow> v
     | None \<Rightarrow> (case Option.bind (env env_var) parse of Some v \<Rightarrow> v | None \<Rightarrow> d))"

definition given :: "environment \<Rightarrow> string option \<Rightarrow> string \<Rightarrow> string option" where
  "given env value env_var = (case value of Some v \<Rightarrow> Some v | None \<Rightarrow> env env_var)"

lemma resolve_with_default:
  "resolve_value_map env value env_var parse (Some d) = Ok (setting env value env_var parse d)"
  "resolve_value parse env value env_var (Some d) = Ok (setting env value env_var parse d)"
  by (auto simp: resolve_value_def resolve_value_map_def setting_def split: option.split)

lemma resolve_required:
  "resolve_value Some env value env_var None = expect (given env value env_var) ''Missing required configuration''"
  by (auto simp: resolve_value_def resolve_value_map_def given_def split: option.split)

lemmas resolve_simps = resolve_with_default resolve_required

definition default_literals_parse :: "'d config_api \<Rightarrow> bool" where
  "default_literals_parse A \<longleftrightarrow> parse_u256 A DEFAULT_RECHARGE_THRESHOLD \<noteq> None \<and>
     parse_u256 A DEFAULT_RECHARGE_AMOUNT \<noteq> None \<and> parse_u256 A DEFAULT_MAX_POCKET_MONEY \<noteq> None"

lemma resolve_operational_config_Ok:
  assumes "default_literals_parse A"
  obtains oc where "resolve_operational_config A env cli tokens = Ok oc"
proof -
  from assms obtain a b c where
    "unwrap_u256 A DEFAULT_RECHARGE_THRESHOLD = Ok a" "unwrap_u256 A DEFAULT_RECHARGE_AMOUNT = Ok b"
    "unwrap_u256 A DEFAULT_MAX_POCKET_MONEY = Ok c"
    by (auto simp: default_literals_parse_def unwrap_u256_def)
  then show thesis using that by (simp add: resolve_operational_config_def resolve_simps)
qed

lemma resolve_network_config_Ok: "\<exists>nc. resolve_network_config env cli = Ok nc"
  by (simp add: resolve_network_config_def resolve_simps)

lemma resolve_key_config_ok:
  "is_ok (resolve_key_config env cli) \<longleftrightarrow>
    (cli_signing_keys cli \<noteq> None \<or> env ''RELAYER_SIGNING_KEYS'' \<noteq> None) \<and>
    given env (cli_fee_destination_key cli) ''FEE_DESTINATION_KEY'' \<noteq> None"
  by (auto simp: resolve_key_config_def resolve_simps result_simps split: option.splits)

lemma resolve_chain_config_ok:
  "is_ok (resolve_chain_config A env cli) \<longleftrightarrow>
    given env (cli_node_rpc_url cli) ''NODE_RPC_URL'' \<noteq> None \<and>
    Option.bind (given env (cli_shielder_contract_address cli) ''SHIELDER_CONTRACT_ADDRESS'')
      (ca_address_from_str A) \<noteq> None"
  by (auto simp: resolve_chain_config_def resolve_simps result_simps bind_eq_Some_conv)

lemma resolve_token_config_ok:
  "is_ok (resolve_token_config A env cli) \<longleftrightarrow>
    Option.bind (given env (cli_token_config cli) ''TOKEN_CONFIG'') (ca_token_config_from_json A) \<noteq> None"
  by (auto simp: resolve_token_config_def given_def result_simps bind_eq_Some_conv split: option.splits)

lemma is_ok_and_then: "is_ok (and_then r f) \<longleftrightarrow> (\<exists>x. r = Ok x \<and> is_ok (f x))"
  by (cases r) auto

text \<open>
  When the configuration resolves. Given that the built-in default amounts parse, the relayer gets
  a configuration exactly when signing keys, fee key and node URL are given (on the command line or in
  the environment), and a contract address and a token list are given and valid; every other setting,
  missing or unparsable, falls back to its default and never stops the relayer.
\<close>

theorem config_resolves_iff:
  assumes "default_literals_parse A"
  shows "is_ok (resolve_config_from_cli_config A env cli) \<longleftrightarrow>
    (cli_signing_keys cli \<noteq> None \<or> env ''RELAYER_SIGNING_KEYS'' \<noteq> None) \<and>
    given env (cli_fee_destination_key cli) ''FEE_DESTINATION_KEY'' \<noteq> None \<and>
    given env (cli_node_rpc_url cli) ''NODE_RPC_URL'' \<noteq> None \<and>
    Option.bind (given env (cli_shielder_contract_address cli) ''SHIELDER_CONTRACT_ADDRESS'')
      (ca_address_from_str A) \<noteq> None \<and>
    Option.bind (given env (cli_token_config cli) ''TOKEN_CONFIG'') (ca_token_config_from_json A) \<noteq> None"
proof -
  obtain nc where nc: "resolve_network_config env cli = Ok nc" using resolve_network_config_Ok by blast
  have oc: "\<exists>oc. resolve_operational_config A env cli t = Ok oc" for t
    using resolve_operational_config_Ok [OF assms] by blast
  have "is_ok (resolve_config_from_cli_config A env cli) \<longleftrightarrow>
      is_ok (resolve_key_config env cli) \<and> is_ok (resolve_chain_config A env cli) \<and>
      is_ok (resolve_token_config A env cli)"
    unfolding resolve_config_from_cli_config_def is_ok_and_then nc resolve_simps
    using oc by (fastforce simp: is_ok_iff)
  then show ?thesis
    unfolding resolve_key_config_ok resolve_chain_config_ok resolve_token_config_ok by blast
qed

definition sample_config_api :: "nat config_api" where
  "sample_config_api = \<lparr>
     ca_u256_from_str = (\<lambda>s. map_option of_nat (parse_digits 0 (filter (\<lambda>c. c \<noteq> CHR ''_'') s))),
     ca_address_from_str = (\<lambda>s. map_option of_nat (parse_digits 0 s)),
     ca_token_config_from_json = (\<lambda>s. if s = ''[]'' then Some [] else None) \<rparr>"

definition sample_environment :: environment where
  "sample_environment = [''RELAYER_SIGNING_KEYS'' \<mapsto> ''key1,key2'', ''FEE_DESTINATION_KEY'' \<mapsto> ''key3'',
     ''NODE_RPC_URL'' \<mapsto> ''http://node'', ''SHIELDER_CONTRACT_ADDRESS'' \<mapsto> ''77'',
     ''TOKEN_CONFIG'' \<mapsto> ''[]'', ''RELAYER_PORT'' \<mapsto> ''99999'', ''RELAY_GAS'' \<mapsto> ''123'']"

definition no_cli :: cli_config where
  "no_cli = \<lparr> cli_logging_format = None, cli_host = None, cli_port = None, cli_metrics_port = None,
     cli_balance_monitor_interval = None, cli_node_rpc_url = None, cli_shielder_contract_address = None,
     cli_fee_destination_key = None, cli_signing_keys = None, cli_nonce_policy = None,
     cli_dry_running = None, cli_recharge_threshold = None, cli_recharge_amount = None,
     cli_relay_gas = None, cli_token_config = None, cli_price_feed_refresh_interval = None,
     cli_price_feed_validity = None, cli_service_fee_percent = None, cli_quote_validity = None,
     cli_max_pocket_money = None \<rparr>"

lemma sample_default_literals: "default_literals_parse sample_config_api"
  by (simp add: default_literals_parse_def parse_u256_def sample_config_api_def digit_value_def
      DEFAULT_RECHARGE_THRESHOLD_def DEFAULT_RECHARGE_AMOUNT_def DEFAULT_MAX_POCKET_MONEY_def)

theorem config_resolves_iff_witness:
  "is_ok (resolve_config_from_cli_config sample_config_api sample_environment no_cli)"
  unfolding config_resolves_iff [OF sample_default_literals]
  by (simp add: given_def no_cli_def sample_environment_def sample_config_api_def digit_value_def)

definition cli_complete :: "cli_config \<Rightarrow> bool" where
  "cli_complete cli \<longleftrightarrow> cli_logging_format cli \<noteq> None \<and> cli_host cli \<noteq> None \<and> cli_port cli \<noteq> None \<and>
     cli_metrics_port cli \<noteq> None \<and> cli_balance_monitor_interval cli \<noteq> None \<and> cli_node_rpc_url cli \<noteq> None \<and>
     cli_shielder_contract_address cli \<noteq> None \<and> cli_fee_destination_key cli \<noteq> None \<and>
     cli_signing_keys cli \<noteq> None \<and> cli_nonce_policy cli \<noteq> None \<and> cli_dry_running cli \<noteq> None \<and>
     cli_recharge_threshold cli \<noteq> None \<and> cli_recharge_amount cli \<noteq> None \<and> cli_relay_gas cli \<noteq> None \<and>
     cli_token_config cli \<noteq> None \<and> cli_price_feed_refresh_interval cli \<noteq> None \<and>
     cli_price_feed_validity cli \<noteq> None \<and> cli_service_fee_percent cli \<noteq> None \<and>
     cli_quote_validity cli \<noteq> None \<and> cli_max_pocket_money cli \<noteq> None"

lemma given_Some [simp]: "value \<noteq> None \<Longrightarrow> given env value env_var = value"
  by (auto simp: given_def)

lemma setting_Some [simp]: "value \<noteq> None \<Longrightarrow> setting env value env_var parse d = the value"
  by (auto simp: setting_def)

lemma setting_cong: "env env_var = env' env_var \<Longrightarrow> setting env value env_var parse d = setting env' value env_var parse d"
  unfolding setting_def by (cases "value") simp_all

text \<open>
  The command line wins. When every option is given on the command line, the environment has no
  influence, with one exception: the validity of the health cache, which has no option.
\<close>

theorem cli_overrides_environment:
  assumes "cli_complete cli" and "env ''RPC_HEALTH_CACHE_VALIDITY'' = env' ''RPC_HEALTH_CACHE_VALIDITY''"
  shows "resolve_config_from_cli_config A env cli = resolve_config_from_cli_config A env' cli"
proof -
  note c = assms(1) [unfolded cli_complete_def]
  have "resolve_key_config env cli = resolve_key_config env' cli"
    "resolve_network_config env cli = resolve_network_config env' cli"
    "resolve_chain_config A env cli = resolve_chain_config A env' cli"
    "resolve_token_config A env cli = resolve_token_config A env' cli"
    using c by (auto simp: resolve_key_config_def resolve_network_config_def resolve_chain_config_def
        resolve_token_config_def resolve_simps)
  moreover have "resolve_operational_config A env cli t = resolve_operational_config A env' cli t" for t
    unfolding resolve_operational_config_def resolve_simps
    using c by (simp add: setting_cong [where env = env and env' = env', OF assms(2)])
  ultimately show ?thesis
    using c by (simp add: resolve_config_from_cli_config_def resolve_simps)
qed

definition full_cli :: cli_config where
  "full_cli = \<lparr> cli_logging_format = Some Json, cli_host = Some ''h'', cli_port = Some 1,
     cli_metrics_port = Some 2, cli_balance_monitor_interval = Some 3, cli_node_rpc_url = Some ''n'',
     cli_shielder_contract_address = Some ''77'', cli_fee_destination_key = Some ''k'',
     cli_signing_keys = Some [''a''], cli_nonce_policy = Some Stateless, cli_dry_running = Some Optimistic,
     cli_recharge_threshold = Some 4, cli_recharge_amount = Some 5, cli_relay_gas = Some 6,
     cli_token_config = Some ''[]'', cli_price_feed_refresh_interval = Some 7,
     cli_price_feed_validity = Some 8, cli_service_fee_percent = Some 9, cli_quote_validity = Some 10,
     cli_max_pocket_money = Some 11 \<rparr>"

theorem cli_overrides_environment_witness:
  "resolve_config_from_cli_config sample_config_api sample_environment full_cli =
   resolve_config_from_cli_config sample_config_api Map.empty full_cli"
  by (rule cli_overrides_environment) (simp_all add: cli_complete_def full_cli_def sample_environment_def)

text \<open>The names of the enumerations are read in any case.\<close>

lemma enum_names_parse:
  "logging_format_from_str ''TeXt'' = Some Text" "nonce_policy_from_str ''STATELESS'' = Some Stateless"
  "dry_running_from_str ''Optimistic'' = Some Optimistic" "dry_running_from_str ''never'' = None"
  by code_simp+

end
