(* ===== verification/ShielderCli.thy ===== *)
theory ShielderCli
  imports CallData Fee MemoScan
begin

text \<open>
  The crate \<open>shielder-cli\<close>: the wallet. Its state keeps one Shielder account per token; the operations
  create an account, deposit, withdraw through a relayer, and recover an account from the chain. The
  node, the relayer (an HTTP service), the prover and random salts are parameters, gathered in
  \<open>cli_env\<close>. An operation returns the new state or an error; the program writes the state file only
  after success, so after an error the stored state is the old one. \<open>HashMap\<close> indexing with a
  missing key panics.
\<close>

section \<open>State and environment\<close>

datatype cli_error = CliContract contract_error | CliMsg string

record cli_protocol_fees =
  pf_deposit_fee :: "u256 option"
  pf_withdraw_fee :: "u256 option"

record cli_state =
  cs_accounts :: "address \<rightharpoonup> shielder_account"
  cs_node_rpc_url :: string
  cs_contract_address :: address
  cs_relayer_rpc_url :: string
  cs_signing_key :: string
  cs_protocol_fees :: cli_protocol_fees

text \<open>An answer of the relayer: whether its status is a success, and the decoded body, if it decodes.\<close>

type_synonym 'b http_reply = "bool \<times> 'b option"

record ('f, 'p, 's, 'd, 'l) cli_env =
  ce_circuits :: "'f circuits"
  ce_poseidon :: "'f list \<Rightarrow> 'f"
  ce_generate_user_id :: "bytes \<Rightarrow> 'f"
  ce_parse_u256 :: "string \<Rightarrow> u256 option"
  ce_parse_signer :: "string \<Rightarrow> 's option"
  ce_net :: "('p, 's) net_env"
  ce_simple_provider :: "string \<Rightarrow> (unit, contract_error) result"
  ce_chain_id :: "(u64, string) result"
  ce_get_logs :: "hash32 \<Rightarrow> ('l chain_log list, string) result"
  ce_receipt :: "nat \<Rightarrow> hash32 \<Rightarrow> (hash32 option option, string) result"
  ce_get_block_by_number :: "u64 \<Rightarrow> (chain_tx list option option, string) result"
  ce_dry_nullifiers :: "('p, nullifiersCall, u256) call_kind"
  ce_abi :: "'l abi"
  ce_dry_merkle_path :: "('p, getMerklePathCall, u256 list) call_kind"
  ce_dry_deposit_fee :: "('p, protocolDepositFeeBpsCall, u256) call_kind"
  ce_dry_withdraw_fee :: "('p, protocolWithdrawFeeBpsCall, u256) call_kind"
  ce_dry_ar_pubkey :: "('p, anonymityRevokerPubkeyCall, u256 grumpkin_point) call_kind"
  ce_call_new_account_native :: "('p, newAccountNativeCall, hash32 \<times> hash32) call_kind"
  ce_call_new_account_erc20 :: "('p, newAccountERC20Call, hash32 \<times> hash32) call_kind"
  ce_call_deposit_native :: "('p, depositNativeCall, hash32 \<times> hash32) call_kind"
  ce_call_deposit_erc20 :: "('p, depositERC20Call, hash32 \<times> hash32) call_kind"
  ce_call_approve :: "('p, approveCall, hash32 \<times> hash32) call_kind"
  ce_prove_new_account :: "('f new_account_knowledge \<Rightarrow> bytes, string) result"
  ce_prove_deposit :: "('f deposit_knowledge \<Rightarrow> bytes, string) result"
  ce_prove_withdraw :: "('f withdraw_knowledge \<Rightarrow> bytes, string) result"
  ce_mac_salt :: u256
  ce_encryption_salt :: u256
  ce_http_get_health :: "string \<Rightarrow> (bool, string) result"
  ce_http_quote :: "string \<Rightarrow> quote_fee_query \<Rightarrow> ('d quote_fee_response http_reply, string) result"
  ce_http_relay :: "string \<Rightarrow> 'd relay_query \<Rightarrow> (hash32 http_reply, string) result"
  ce_http_fee_address :: "string \<Rightarrow> (address http_reply, string) result"

definition default_cli_state :: cli_state where
  "default_cli_state = \<lparr> cs_accounts = Map.empty, cs_node_rpc_url = [], cs_contract_address = 0,
     cs_relayer_rpc_url = [], cs_signing_key = [],
     cs_protocol_fees = \<lparr> pf_deposit_fee = None, pf_withdraw_fee = None \<rparr> \<rparr>"

definition cli_state_new :: "string \<Rightarrow> cli_state" where
  "cli_state_new signing_key = default_cli_state\<lparr> cs_signing_key := signing_key \<rparr>"

definition healthcheck_url :: "string \<Rightarrow> string" where
  "healthcheck_url base_url = base_url @ ''/health''"

definition relay_url :: "string \<Rightarrow> string" where
  "relay_url base_url = base_url @ ''/relay''"

definition fees_url :: "string \<Rightarrow> string" where
  "fees_url base_url = base_url @ ''/quote_fees''"

definition fee_address_url :: "string \<Rightarrow> string" where
  "fee_address_url base_url = base_url @ ''/fee_address''"

definition check_connection ::
  "('f, 'p, 's, 'd, 'l) cli_env \<Rightarrow> string \<Rightarrow> (unit, cli_error) result" where
  "check_connection E base_url =
     and_then (map_err CliMsg (ce_http_get_health E (healthcheck_url base_url))) (\<lambda>is_success.
       if is_success then Ok () else Err (CliMsg ''Relayer healthcheck failed.''))"

abbreviation cli_field :: "('f, 'p, 's, 'd, 'l) cli_env \<Rightarrow> 'f field_api" where
  "cli_field E \<equiv> c_field (ce_circuits E)"

definition default_zkid_seed ::
  "('f, 'p, 's, 'd, 'l) cli_env \<Rightarrow> cli_state \<Rightarrow> token \<Rightarrow> (u256, cli_error) result" where
  "default_zkid_seed E app_state token =
     and_then (expect (ce_parse_u256 E (cs_signing_key app_state)) ''Invalid key format - cannot cast to U256'')
       (\<lambda>seed. Ok (field_to_u256 (cli_field E) (ce_poseidon E
          [u256_to_field (cli_field E) seed,
           address_to_field (cli_field E) (token_address (cli_field E) token)])))"

definition ensure_account_exist ::
  "('f, 'p, 's, 'd, 'l) cli_env \<Rightarrow> token \<Rightarrow> u256 option \<Rightarrow> cli_state \<Rightarrow> (cli_state, cli_error) result" where
  "ensure_account_exist E token zkid_seed app_state =
     and_then (case zkid_seed of Some seed \<Rightarrow> Ok seed | None \<Rightarrow> default_zkid_seed E app_state token)
       (\<lambda>seed.
        let address = token_address (cli_field E) token
        in Ok (if cs_accounts app_state address = None
               then app_state\<lparr> cs_accounts := (cs_accounts app_state)(address \<mapsto>
                      account_new (cli_field E) (ce_generate_user_id E) seed token) \<rparr>
               else app_state))"

definition create_shielder_user ::
  "('f, 'p, 's, 'd, 'l) cli_env \<Rightarrow> cli_state \<Rightarrow> (('p, 's) shielder_user, cli_error) result" where
  "create_shielder_user E app_state =
     and_then (expect (ce_parse_signer E (cs_signing_key app_state))
         ''Invalid key format - cannot cast to PrivateKeySigner'')
       (\<lambda>signer. Ok (shielder_user_new (cs_contract_address app_state)
          (OnDemand (cs_node_rpc_url app_state) signer)))"

definition cli_create_simple_provider ::
  "('f, 'p, 's, 'd, 'l) cli_env \<Rightarrow> cli_state \<Rightarrow> (unit, cli_error) result" where
  "cli_create_simple_provider E app_state =
     map_err CliContract (ce_simple_provider E (cs_node_rpc_url app_state))"

text \<open>\<open>app_state.accounts[&token.address()]\<close>\<close>

definition account_of ::
  "('f, 'p, 's, 'd, 'l) cli_env \<Rightarrow> cli_state \<Rightarrow> token \<Rightarrow> (shielder_account, cli_error) result" where
  "account_of E app_state token =
     expect (cs_accounts app_state (token_address (cli_field E) token)) ''no entry found for key''"

text \<open>Registering an action panics or succeeds; \<open>unwrap\<close> turns an error into a panic.\<close>

definition cli_register ::
  "('f, 'p, 's, 'd, 'l) cli_env \<Rightarrow> token \<Rightarrow> shielder_action \<Rightarrow> cli_state \<Rightarrow> (cli_state, cli_error) result" where
  "cli_register E token action app_state =
     and_then (account_of E app_state token) (\<lambda>account.
     and_then (map_err (\<lambda>_. CliMsg []) (register_action account action)) (\<lambda>account'.
     Ok (app_state\<lparr> cs_accounts := (cs_accounts app_state)(token_address (cli_field E) token \<mapsto> account') \<rparr>)))"

fun cli_unwrap :: "('a, 'x) result \<Rightarrow> ('a, cli_error) result" where
  "cli_unwrap (Ok x) = Ok x"
| "cli_unwrap (Err e) = Panic ''called Result::unwrap() on an Err value''"
| "cli_unwrap (Panic m) = Panic m"

text \<open>The cached protocol fee, or the contract's, which is then cached.\<close>

definition deposit_fee_bps ::
  "('f, 'p, 's, 'd, 'l) cli_env \<Rightarrow> ('p, 's) shielder_user \<Rightarrow> cli_state \<Rightarrow> (u256 \<times> cli_state, cli_error) result" where
  "deposit_fee_bps E user app_state =
     (case pf_deposit_fee (cs_protocol_fees app_state) of
        Some bps \<Rightarrow> Ok (bps, app_state)
      | None \<Rightarrow>
          and_then (map_err CliContract (protocol_deposit_fee_bps (ce_net E) user (ce_dry_deposit_fee E)))
            (\<lambda>bps. Ok (bps, app_state\<lparr> cs_protocol_fees :=
               (cs_protocol_fees app_state)\<lparr> pf_deposit_fee := Some bps \<rparr> \<rparr>)))"

section \<open>New account and deposit\<close>

definition prepare_new_account_call ::
  "('f, 'p, 's, 'd, 'l) cli_env \<Rightarrow> cli_state \<Rightarrow> u256 \<Rightarrow> token \<Rightarrow> u256 grumpkin_point \<Rightarrow> address \<Rightarrow> u256 \<Rightarrow> bytes
     \<Rightarrow> (new_account_call, cli_error) result" where
  "prepare_new_account_call E app_state amount token anonymity_revoker_public_key caller protocol_fee memo =
     and_then (map_err CliMsg (ce_prove_new_account E)) (\<lambda>prove.
       let extra = \<lparr> nx_anonymity_revoker_public_key = anonymity_revoker_public_key,
             nx_encryption_salt = ce_encryption_salt E, nx_mac_salt = ce_mac_salt E,
             nx_caller_address = caller, nx_protocol_fee = protocol_fee, nx_memo = memo \<rparr>
       in and_then (account_of E app_state token) (\<lambda>account.
            Ok (prepare_call (new_account_call_type (ce_circuits E)) prove account token amount extra)))"

definition send_new_account ::
  "('f, 'p, 's, 'd, 'l) cli_env \<Rightarrow> ('p, 's) shielder_user \<Rightarrow> cli_state \<Rightarrow> token \<Rightarrow> new_account_call \<Rightarrow> u256
     \<Rightarrow> (hash32 \<times> hash32, cli_error) result" where
  "send_new_account E user app_state token call amount =
     (case token of
        Native \<Rightarrow>
          and_then (cli_unwrap (new_account_native_try_from call)) (\<lambda>c.
            map_err CliContract (new_account_native (ce_net E) user (ce_call_new_account_native E) c amount))
      | ERC20 address \<Rightarrow>
          and_then (map_err CliContract
              (approve_erc20 (ce_net E) user (ce_call_approve E) address (cs_contract_address app_state) (- 1)))
            (\<lambda>_. and_then (cli_unwrap (new_account_erc20_try_from call)) (\<lambda>c.
              map_err CliContract (new_account_erc20 (ce_net E) user (ce_call_new_account_erc20 E) c))))"

definition cli_new_account ::
  "('f, 'p, 's, 'd, 'l) cli_env \<Rightarrow> u128 \<Rightarrow> token \<Rightarrow> bytes \<Rightarrow> cli_state \<Rightarrow> (cli_state, cli_error) result" where
  "cli_new_account E amount token memo app_state =
     and_then (create_shielder_user E app_state) (\<lambda>user.
     and_then (map_err CliContract (anonymity_revoker_pubkey (ce_net E) user (ce_dry_ar_pubkey E))) (\<lambda>pubkey.
     and_then (deposit_fee_bps E user app_state) (\<lambda>(protocol_fee_bps, app_state).
     and_then (compute_protocol_fee_from_net (ucast amount) protocol_fee_bps) (\<lambda>protocol_fee.
       let amount = ucast amount + protocol_fee
       in and_then (prepare_new_account_call E app_state amount token pubkey (user_address (ce_net E) user)
              protocol_fee memo) (\<lambda>call.
          and_then (send_new_account E user app_state token call amount) (\<lambda>(tx_hash, block_hash).
          and_then (cli_create_simple_provider E app_state) (\<lambda>_.
          and_then (map_err CliContract (get_event (ce_get_logs E) (abi_NewAccount (ce_abi E)) tx_hash block_hash))
            (\<lambda>new_account_event.
             cli_register E token
               (new_account_action amount (ena_newNoteIndex new_account_event) tx_hash token protocol_fee)
               app_state))))))))"

definition prepare_deposit_call ::
  "('f, 'p, 's, 'd, 'l) cli_env \<Rightarrow> cli_state \<Rightarrow> u256 \<Rightarrow> token \<Rightarrow> u256 list list \<Rightarrow> address \<Rightarrow> u256 \<Rightarrow> bytes
     \<Rightarrow> (deposit_call, cli_error) result" where
  "prepare_deposit_call E app_state amount token merkle_path caller protocol_fee memo =
     and_then (map_err CliMsg (ce_prove_deposit E)) (\<lambda>prove.
       let extra = \<lparr> dx_merkle_path = merkle_path, dx_mac_salt = ce_mac_salt E,
             dx_caller_address = caller, dx_protocol_fee = protocol_fee, dx_memo = memo \<rparr>
       in and_then (account_of E app_state token) (\<lambda>account.
            Ok (prepare_call (deposit_call_type (ce_circuits E)) prove account token amount extra)))"

definition send_deposit ::
  "('f, 'p, 's, 'd, 'l) cli_env \<Rightarrow> ('p, 's) shielder_user \<Rightarrow> token \<Rightarrow> deposit_call \<Rightarrow> u256
     \<Rightarrow> (hash32 \<times> hash32, cli_error) result" where
  "send_deposit E user token call amount =
     (case token of
        Native \<Rightarrow>
          and_then (cli_unwrap (deposit_native_try_from call)) (\<lambda>c.
            map_err CliContract (deposit_native (ce_net E) user (ce_call_deposit_native E) c amount))
      | ERC20 _ \<Rightarrow>
          and_then (cli_unwrap (deposit_erc20_try_from call)) (\<lambda>c.
            map_err CliContract (deposit_erc20 (ce_net E) user (ce_call_deposit_erc20 E) c)))"

definition cli_deposit ::
  "('f, 'p, 's, 'd, 'l) cli_env \<Rightarrow> u128 \<Rightarrow> token \<Rightarrow> bytes \<Rightarrow> cli_state \<Rightarrow> (cli_state, cli_error) result" where
  "cli_deposit E amount token memo app_state =
     and_then (account_of E app_state token) (\<lambda>account.
     and_then (expect (current_leaf_index account) ''Deposit mustn't be the first action'') (\<lambda>leaf_index.
     and_then (create_shielder_user E app_state) (\<lambda>user.
     and_then (map_err CliContract (get_current_merkle_path (ce_net E) (ce_dry_merkle_path E) leaf_index user))
       (\<lambda>(merkle_root, merkle_path).
     and_then (deposit_fee_bps E user app_state) (\<lambda>(protocol_fee_bps, app_state).
     and_then (compute_protocol_fee_from_net (ucast amount) protocol_fee_bps) (\<lambda>protocol_fee.
       let amount = ucast amount + protocol_fee
       in and_then (prepare_deposit_call E app_state amount token merkle_path (user_address (ce_net E) user)
              protocol_fee memo) (\<lambda>call.
          and_then (send_deposit E user token call amount) (\<lambda>(tx_hash, block_hash).
          and_then (cli_create_simple_provider E app_state) (\<lambda>_.
          and_then (map_err CliContract (get_event (ce_get_logs E) (abi_Deposit (ce_abi E)) tx_hash block_hash))
            (\<lambda>deposit_event.
             cli_register E token
               (deposit_action amount (ed_newNoteIndex deposit_event) tx_hash token protocol_fee)
               app_state))))))))))"

section \<open>Withdrawal\<close>

definition get_relayer_total_fee ::
  "('f, 'p, 's, 'd, 'l) cli_env \<Rightarrow> cli_state \<Rightarrow> token \<Rightarrow> u256 \<Rightarrow> ('d quote_fee_response, cli_error) result" where
  "get_relayer_total_fee E app_state token pocket_money =
     and_then (map_err CliMsg (ce_http_quote E (fees_url (cs_relayer_rpc_url app_state))
         \<lparr> qq_fee_token = token, qq_pocket_money = pocket_money \<rparr>)) (\<lambda>(is_success, body).
       if \<not> is_success then Err (CliMsg ''Relayer failed to quote fees'')
       else ok_or body (CliMsg ''error decoding response body''))"

definition get_relayer_address ::
  "('f, 'p, 's, 'd, 'l) cli_env \<Rightarrow> string \<Rightarrow> (address, cli_error) result" where
  "get_relayer_address E relayer_rpc_url =
     and_then (map_err CliMsg (ce_http_fee_address E (fee_address_url relayer_rpc_url))) (\<lambda>(is_success, body).
       if \<not> is_success then Err (CliMsg ''Failed to get relayer fee address'')
       else ok_or body (CliMsg ''error decoding response body''))"

text \<open>Five attempts to read the receipt, one second apart.\<close>

fun get_block_hash_attempts ::
  "('f, 'p, 's, 'd, 'l) cli_env \<Rightarrow> hash32 \<Rightarrow> nat list \<Rightarrow> (hash32, cli_error) result" where
  "get_block_hash_attempts E tx_hash [] = Err (CliMsg ''Couldn't fetch transaction receipt'')"
| "get_block_hash_attempts E tx_hash (i # rest) =
     and_then (map_err CliMsg (ce_receipt E i tx_hash)) (\<lambda>receipt.
       case receipt of
         Some (Some block_hash) \<Rightarrow> Ok block_hash
       | Some None \<Rightarrow> Err (CliMsg ''Transaction not included in any block'')
       | None \<Rightarrow> get_block_hash_attempts E tx_hash rest)"

definition get_block_hash ::
  "('f, 'p, 's, 'd, 'l) cli_env \<Rightarrow> hash32 \<Rightarrow> (hash32, cli_error) result" where
  "get_block_hash E tx_hash = get_block_hash_attempts E tx_hash [0 ..< 5]"

definition withdraw_fee_bps ::
  "('f, 'p, 's, 'd, 'l) cli_env \<Rightarrow> cli_state \<Rightarrow> (u256 \<times> cli_state, cli_error) result" where
  "withdraw_fee_bps E app_state =
     (case pf_withdraw_fee (cs_protocol_fees app_state) of
        Some bps \<Rightarrow> Ok (bps, app_state)
      | None \<Rightarrow>
          and_then (create_shielder_user E app_state) (\<lambda>user.
          and_then (map_err CliContract (protocol_withdraw_fee_bps (ce_net E) user (ce_dry_withdraw_fee E)))
            (\<lambda>bps. Ok (bps, app_state\<lparr> cs_protocol_fees :=
               (cs_protocol_fees app_state)\<lparr> pf_withdraw_fee := Some bps \<rparr> \<rparr>))))"

definition prepare_relayer_query ::
  "('f, 'p, 's, 'd, 'l) cli_env \<Rightarrow> cli_state \<Rightarrow> u256 \<Rightarrow> address \<Rightarrow> token \<Rightarrow> 'd quote_fee_response \<Rightarrow> u256 \<Rightarrow> u256 \<Rightarrow> bytes
     \<Rightarrow> ('d relay_query, cli_error) result" where
  "prepare_relayer_query E app_state amount to token quoted_fee pocket_money protocol_fee memo =
     and_then (map_err CliMsg (ce_prove_withdraw E)) (\<lambda>prove.
     and_then (account_of E app_state token) (\<lambda>account.
     and_then (expect (current_leaf_index account) ''Deposit mustn't be the first action'') (\<lambda>leaf_index.
     and_then (create_shielder_user E app_state) (\<lambda>user.
     and_then (map_err CliContract (get_current_merkle_path (ce_net E) (ce_dry_merkle_path E) leaf_index user))
       (\<lambda>(merkle_root, merkle_path).
     and_then (cli_create_simple_provider E app_state) (\<lambda>_.
     and_then (map_err CliMsg (ce_chain_id E)) (\<lambda>chain_id.
     and_then (get_relayer_address E (cs_relayer_rpc_url app_state)) (\<lambda>relayer_address.
       let calldata = prepare_call (withdraw_call_type (ce_circuits E)) prove account token amount
             \<lparr> wx_merkle_path = merkle_path, wx_to = to, wx_relayer_address = relayer_address,
               wx_relayer_fee = fd_total_cost_fee_token (qr_fee_details quoted_fee),
               wx_contract_version = contract_version, wx_chain_id = ucast chain_id,
               wx_mac_salt = ce_mac_salt E, wx_pocket_money = pocket_money,
               wx_protocol_fee = protocol_fee, wx_memo = memo \<rparr>
       in Ok \<lparr> rqy_calldata = \<lparr>
                 rc_expected_contract_version = version_to_bytes contract_version,
                 rc_amount = amount,
                 rc_withdraw_address = to,
                 rc_merkle_root = merkle_root,
                 rc_nullifier_hash = wdc_old_nullifier_hash calldata,
                 rc_new_note = wdc_new_note calldata,
                 rc_proof = wdc_proof calldata,
                 rc_fee_token = token,
                 rc_fee_amount = wdc_relayer_fee calldata,
                 rc_mac_salt = wdc_mac_salt calldata,
                 rc_mac_commitment = wdc_mac_commitment calldata,
                 rc_pocket_money = pocket_money,
                 rc_memo = memo \<rparr>,
               rqy_quote = relay_quote_from quoted_fee \<rparr>))))))))"

definition cli_withdraw ::
  "('f, 'p, 's, 'd, 'l) cli_env \<Rightarrow> u128 \<Rightarrow> address \<Rightarrow> token \<Rightarrow> u128 \<Rightarrow> bytes \<Rightarrow> cli_state
     \<Rightarrow> (cli_state, cli_error) result" where
  "cli_withdraw E amount to token pocket_money memo app_state =
     and_then (check_connection E (cs_relayer_rpc_url app_state)) (\<lambda>_.
     and_then (get_relayer_total_fee E app_state token (ucast pocket_money)) (\<lambda>quoted_fee.
     and_then (withdraw_fee_bps E app_state) (\<lambda>(protocol_fee_bps, app_state).
       let amount = ucast amount + fd_total_cost_fee_token (qr_fee_details quoted_fee)
       in and_then (compute_protocol_fee_from_net amount protocol_fee_bps) (\<lambda>protocol_fee.
            let amount = amount + protocol_fee
            in and_then (account_of E app_state token) (\<lambda>account.
                 if sa_shielded_amount account < amount then Err (CliMsg ''Not enough funds to withdraw'')
                 else
                   and_then (prepare_relayer_query E app_state amount to token quoted_fee (ucast pocket_money)
                       protocol_fee memo) (\<lambda>query.
                   and_then (map_err CliMsg (ce_http_relay E (relay_url (cs_relayer_rpc_url app_state)) query))
                     (\<lambda>(is_success, body).
                      if \<not> is_success then Err (CliMsg ''Relayer failed to process the request'')
                      else
                        and_then (ok_or body (CliMsg ''error decoding response body'')) (\<lambda>tx_hash.
                        and_then (cli_create_simple_provider E app_state) (\<lambda>_.
                        and_then (get_block_hash E tx_hash) (\<lambda>block_hash.
                        and_then (map_err CliContract
                            (get_event (ce_get_logs E) (abi_Withdraw (ce_abi E)) tx_hash block_hash))
                          (\<lambda>withdraw_event.
                           cli_register E token
                             (withdraw_action amount (ew_newNoteIndex withdraw_event) tx_hash to token protocol_fee)
                             app_state)))))))))))"

section \<open>Recovery\<close>

definition lookup_action ::
  "('f, 'p, 's, 'd, 'l) cli_env \<Rightarrow> ('p, 's) shielder_user \<Rightarrow> shielder_account
     \<Rightarrow> (shielder_action option, cli_error) result" where
  "lookup_action E user account =
     (let FF = cli_field E;
          expected_nullifier = previous_nullifier (c_keccak (ce_circuits E)) account;
          expected_nullifier_hash = field_to_u256 FF (ce_poseidon E [u256_to_field FF expected_nullifier])
      in map_ok (map_option (action_from_event FF)) (map_err CliContract
           (get_shielder_action (ce_abi E) (ce_get_logs E) (ce_get_block_by_number E)
              (user_nullifiers (ce_net E) user (ce_dry_nullifiers E)) expected_nullifier_hash)))"

text \<open>
  The loop ends by itself: every registered action increments the nonce, whose overflow panics. The
  query for the next action is an argument.
\<close>

function recover_loop ::
  "(shielder_account \<Rightarrow> (shielder_action option, cli_error) result) \<Rightarrow> shielder_account
     \<Rightarrow> (shielder_account, cli_error) result" where
  "recover_loop lookup account =
     and_then (lookup account) (\<lambda>found.
       case found of
         Some action \<Rightarrow>
           and_then (map_err (\<lambda>_. CliMsg []) (register_action account action)) (recover_loop lookup)
       | None \<Rightarrow> Ok account)"
  by pat_completeness auto
termination
proof (relation "measure (\<lambda>(lookup, account). 2 ^ 32 - unat (sa_nonce account))", goal_cases)
  case 1
  then show ?case by simp
next
  case (2 lookup account found action account')
  then have "unat (sa_nonce account') = unat (sa_nonce account) + 1"
    using register_action_Ok(5) [of account action account'] by (simp add: result_simps)
  moreover have "unat (sa_nonce account') < 2 ^ 32" using unat_lt_pow [of "sa_nonce account'"] by simp
  ultimately show ?case by simp
qed

declare recover_loop.simps [simp del]

definition recover_state ::
  "('f, 'p, 's, 'd, 'l) cli_env \<Rightarrow> token \<Rightarrow> u256 option \<Rightarrow> cli_state \<Rightarrow> (cli_state, cli_error) result" where
  "recover_state E token zkid_seed app_state =
     and_then (create_shielder_user E app_state) (\<lambda>user.
     and_then (ensure_account_exist E token zkid_seed app_state) (\<lambda>app_state.
     and_then (cli_create_simple_provider E app_state) (\<lambda>_.
     and_then (expect (cs_accounts app_state (token_address (cli_field E) token))
         ''We have just ensured the account exists'') (\<lambda>account.
     and_then (recover_loop (lookup_action E user) account) (\<lambda>account'.
     Ok (app_state\<lparr> cs_accounts := (cs_accounts app_state)(token_address (cli_field E) token \<mapsto> account') \<rparr>))))))"

section \<open>Commands\<close>

datatype contract_interaction_command =
    NewAccountCmd u128 "bytes option" "u256 option"
  | NewAccountERC20Cmd u128 address "bytes option" "u256 option"
  | DepositCmd u128 "bytes option"
  | DepositERC20Cmd u128 address "bytes option"
  | WithdrawCmd u128 address "bytes option"
  | WithdrawERC20Cmd u128 address address u128 "bytes option"

datatype state_write_command =
    Initialize string
  | NodeUrl string
  | SetContractAddress address
  | RelayerUrl string
  | RecoverState token "u256 option"

datatype state_read_command = DisplayAccount | History | AppConfig

datatype cli_command =
    StateWrite state_write_command
  | StateRead state_read_command
  | ContractInteraction contract_interaction_command

fun interaction_token :: "contract_interaction_command \<Rightarrow> token" where
  "interaction_token (NewAccountCmd _ _ _) = Native"
| "interaction_token (DepositCmd _ _) = Native"
| "interaction_token (WithdrawCmd _ _ _) = Native"
| "interaction_token (NewAccountERC20Cmd _ token_addr _ _) = ERC20 token_addr"
| "interaction_token (DepositERC20Cmd _ token_addr _) = ERC20 token_addr"
| "interaction_token (WithdrawERC20Cmd _ _ token_addr _ _) = ERC20 token_addr"

fun command_token :: "cli_command \<Rightarrow> token option" where
  "command_token (ContractInteraction cmd) = Some (interaction_token cmd)"
| "command_token _ = None"

fun command_zkid_seed :: "cli_command \<Rightarrow> u256 option" where
  "command_zkid_seed (ContractInteraction (NewAccountCmd _ _ zkid_seed)) = zkid_seed"
| "command_zkid_seed (ContractInteraction (NewAccountERC20Cmd _ _ _ zkid_seed)) = zkid_seed"
| "command_zkid_seed (StateWrite (RecoverState _ zkid_seed)) = zkid_seed"
| "command_zkid_seed _ = None"

definition memo_or_empty :: "bytes option \<Rightarrow> bytes" where
  "memo_or_empty memo = (case memo of Some m \<Rightarrow> m | None \<Rightarrow> [])"

fun perform_contract_action ::
  "('f, 'p, 's, 'd, 'l) cli_env \<Rightarrow> contract_interaction_command \<Rightarrow> cli_state \<Rightarrow> (cli_state, cli_error) result" where
  "perform_contract_action E (NewAccountCmd amount memo _) =
     cli_new_account E amount Native (memo_or_empty memo)"
| "perform_contract_action E (NewAccountERC20Cmd amount token_addr memo _) =
     cli_new_account E amount (ERC20 token_addr) (memo_or_empty memo)"
| "perform_contract_action E (DepositCmd amount memo) =
     cli_deposit E amount Native (memo_or_empty memo)"
| "perform_contract_action E (DepositERC20Cmd amount token_addr memo) =
     cli_deposit E amount (ERC20 token_addr) (memo_or_empty memo)"
| "perform_contract_action E (WithdrawCmd amount to memo) =
     cli_withdraw E amount to Native 0 (memo_or_empty memo)"
| "perform_contract_action E (WithdrawERC20Cmd amount to token_addr pocket_money memo) =
     cli_withdraw E amount to (ERC20 token_addr) pocket_money (memo_or_empty memo)"

fun perform_state_write_action ::
  "('f, 'p, 's, 'd, 'l) cli_env \<Rightarrow> state_write_command \<Rightarrow> cli_state \<Rightarrow> (cli_state, cli_error) result" where
  "perform_state_write_action E (Initialize _) app_state =
     Panic ''State initialization should have been handled in a different context''"
| "perform_state_write_action E (NodeUrl node) app_state = Ok (app_state\<lparr> cs_node_rpc_url := node \<rparr>)"
| "perform_state_write_action E (SetContractAddress address) app_state =
     Ok (app_state\<lparr> cs_contract_address := address \<rparr>)"
| "perform_state_write_action E (RelayerUrl url) app_state =
     and_then (check_connection E url) (\<lambda>_. Ok (app_state\<lparr> cs_relayer_rpc_url := url \<rparr>))"
| "perform_state_write_action E (RecoverState token zkid_seed) app_state =
     recover_state E token zkid_seed app_state"

text \<open>
  The body of \<open>main\<close>: the state file holds the encrypted state, of some type \<open>'b\<close> of contents that
  \<open>load\<close> and \<open>save\<close> read and write. The outcome carries the state file; reading commands only print.
\<close>

definition cli_main ::
  "('f, 'p, 's, 'd, 'l) cli_env \<Rightarrow> (cli_state \<Rightarrow> 'b) \<Rightarrow> ('b \<Rightarrow> (cli_state, string) result) \<Rightarrow>
   cli_command \<Rightarrow> 'b option \<Rightarrow> ('b option, cli_error) result" where
  "cli_main E save load command state_file =
     (case command of
        StateWrite (Initialize private_key) \<Rightarrow> Ok (Some (save (cli_state_new private_key)))
      | _ \<Rightarrow>
          and_then (ok_or state_file (CliMsg ''File with state not found.'')) (\<lambda>contents.
          and_then (map_err CliMsg (load contents)) (\<lambda>app_state.
          and_then (case command_token command of
              Some token \<Rightarrow> ensure_account_exist E token (command_zkid_seed command) app_state
            | None \<Rightarrow> Ok app_state) (\<lambda>app_state.
            case command of
              StateWrite cmd \<Rightarrow>
                map_ok (\<lambda>s. Some (save s)) (perform_state_write_action E cmd app_state)
            | StateRead cmd \<Rightarrow> Ok state_file
            | ContractInteraction cmd \<Rightarrow>
                map_ok (\<lambda>s. Some (save s)) (perform_contract_action E cmd app_state)))))"

section \<open>What a successful operation has done\<close>

text \<open>Which part of the state a fee lookup and a registration change.\<close>

lemma deposit_fee_bps_Ok:
  "deposit_fee_bps E user st = Ok (bps, st') \<Longrightarrow> cs_accounts st' = cs_accounts st \<and>
     pf_deposit_fee (cs_protocol_fees st') = Some bps \<and>
     pf_deposit_fee (cs_protocol_fees st) \<in> {None, Some bps}"
  by (auto simp: deposit_fee_bps_def result_simps split: option.splits)

lemma withdraw_fee_bps_Ok:
  "withdraw_fee_bps E st = Ok (bps, st') \<Longrightarrow> cs_accounts st' = cs_accounts st \<and>
     cs_relayer_rpc_url st' = cs_relayer_rpc_url st \<and>
     pf_withdraw_fee (cs_protocol_fees st') = Some bps \<and>
     pf_withdraw_fee (cs_protocol_fees st) \<in> {None, Some bps}"
  by (auto simp: withdraw_fee_bps_def result_simps split: option.splits)

lemma account_of_Ok [result_simps]:
  "account_of E st token = Ok account \<longleftrightarrow> cs_accounts st (token_address (cli_field E) token) = Some account"
  by (simp add: account_of_def result_simps)

text \<open>
  One more action in the account of the token; every other account is as before. The shielded amount
  moves by the net value of the action.
\<close>

definition registered ::
  "('f, 'p, 's, 'd, 'l) cli_env \<Rightarrow> token \<Rightarrow> shielder_action \<Rightarrow> cli_state \<Rightarrow> cli_state \<Rightarrow> bool" where
  "registered E token action st st' \<longleftrightarrow>
     (\<exists>account account'.
        cs_accounts st (token_address (cli_field E) token) = Some account \<and>
        register_action account action = Ok account' \<and>
        cs_accounts st' = (cs_accounts st)(token_address (cli_field E) token \<mapsto> account'))"

lemma cli_register_Ok:
  assumes "cli_register E token action st1 = Ok st'"
  shows "registered E token action st1 st' \<and> cs_protocol_fees st' = cs_protocol_fees st1"
  using assms by (auto simp: cli_register_def registered_def result_simps)

lemma registered_balance:
  assumes "registered E token action st st'"
  shows "\<exists>account account'. cs_accounts st (token_address (cli_field E) token) = Some account \<and>
     cs_accounts st' = (cs_accounts st)(token_address (cli_field E) token \<mapsto> account') \<and>
     sa_history account' = sa_history account @ [action] \<and>
     uint (sa_shielded_amount account') = uint (sa_shielded_amount account) + action_delta action"
  using assms by (auto simp: registered_def dest: register_action_Ok(4,6))

lemma cli_new_account_Ok:
  assumes "cli_new_account E amount token memo st = Ok st'"
  shows "\<exists>bps fee index tx_hash. compute_protocol_fee_from_net (ucast amount) bps = (Ok fee :: (u256, cli_error) result) \<and>
     pf_deposit_fee (cs_protocol_fees st) \<in> {None, Some bps} \<and>
     pf_deposit_fee (cs_protocol_fees st') = Some bps \<and>
     registered E token (new_account_action (ucast amount + fee) index tx_hash token fee) st st'"
proof -
  from assms obtain user bps st1 fee index tx_hash where st1: "deposit_fee_bps E user st = Ok (bps, st1)"
    and fee: "compute_protocol_fee_from_net (ucast amount) bps = (Ok fee :: (u256, cli_error) result)"
    and reg: "cli_register E token (new_account_action (ucast amount + fee) index tx_hash token fee) st1 = Ok st'"
    unfolding cli_new_account_def Let_def by (auto simp: result_simps)
  note st1 = deposit_fee_bps_Ok [OF st1]
  from cli_register_Ok [OF reg] st1
  have "registered E token (new_account_action (ucast amount + fee) index tx_hash token fee) st st'"
    "pf_deposit_fee (cs_protocol_fees st') = Some bps" by (simp_all add: registered_def)
  with fee st1 show ?thesis by blast
qed

lemma cli_deposit_Ok:
  assumes "cli_deposit E amount token memo st = Ok st'"
  shows "\<exists>bps fee index tx_hash. compute_protocol_fee_from_net (ucast amount) bps = (Ok fee :: (u256, cli_error) result) \<and>
     pf_deposit_fee (cs_protocol_fees st) \<in> {None, Some bps} \<and>
     pf_deposit_fee (cs_protocol_fees st') = Some bps \<and>
     registered E token (deposit_action (ucast amount + fee) index tx_hash token fee) st st'"
proof -
  from assms obtain user bps st1 fee index tx_hash where st1: "deposit_fee_bps E user st = Ok (bps, st1)"
    and fee: "compute_protocol_fee_from_net (ucast amount) bps = (Ok fee :: (u256, cli_error) result)"
    and reg: "cli_register E token (deposit_action (ucast amount + fee) index tx_hash token fee) st1 = Ok st'"
    unfolding cli_deposit_def Let_def by (auto simp: result_simps)
  note st1 = deposit_fee_bps_Ok [OF st1]
  from cli_register_Ok [OF reg] st1
  have "registered E token (deposit_action (ucast amount + fee) index tx_hash token fee) st st'"
    "pf_deposit_fee (cs_protocol_fees st') = Some bps" by (simp_all add: registered_def)
  with fee st1 show ?thesis by blast
qed

lemma cli_withdraw_Ok:
  assumes "cli_withdraw E amount to token pocket_money memo st = Ok st'"
  shows "\<exists>quote bps fee index tx_hash.
     get_relayer_total_fee E st token (ucast pocket_money) = Ok quote \<and>
     compute_protocol_fee_from_net (ucast amount + fd_total_cost_fee_token (qr_fee_details quote)) bps =
       (Ok fee :: (u256, cli_error) result) \<and>
     pf_withdraw_fee (cs_protocol_fees st) \<in> {None, Some bps} \<and>
     pf_withdraw_fee (cs_protocol_fees st') = Some bps \<and>
     registered E token (withdraw_action (ucast amount + fd_total_cost_fee_token (qr_fee_details quote) + fee)
       index tx_hash to token fee) st st'"
proof -
  let ?total = "\<lambda>quote fee. ucast amount + fd_total_cost_fee_token (qr_fee_details quote) + fee"
  from assms obtain quote bps st1 fee index tx_hash where st1: "withdraw_fee_bps E st = Ok (bps, st1)"
    and quote: "get_relayer_total_fee E st token (ucast pocket_money) = Ok quote"
    and fee: "compute_protocol_fee_from_net (ucast amount + fd_total_cost_fee_token (qr_fee_details quote)) bps =
       (Ok fee :: (u256, cli_error) result)"
    and reg: "cli_register E token (withdraw_action (?total quote fee) index tx_hash to token fee) st1 = Ok st'"
    unfolding cli_withdraw_def Let_def by (auto simp: result_simps split: if_splits)
  note st1 = withdraw_fee_bps_Ok [OF st1]
  from cli_register_Ok [OF reg] st1
  have "registered E token (withdraw_action (?total quote fee) index tx_hash to token fee) st st'"
    "pf_withdraw_fee (cs_protocol_fees st') = Some bps" by (simp_all add: registered_def)
  with quote fee st1 show ?thesis by blast
qed

section \<open>Properties of shielding and withdrawing\<close>



text \<open>
  What a withdrawal charges, as the \<open>U256\<close> the wallet computes: the wallet refuses when the account holds
  less, and on success the account has lost it.
\<close>

lemma withdrawal_charge:
  assumes "check_connection E (cs_relayer_rpc_url st) = Ok ()"
    and "get_relayer_total_fee E st token (ucast pocket_money) = Ok quote"
    and "withdraw_fee_bps E st = Ok (bps, st1)"
    and "compute_protocol_fee_from_net (ucast amount + fd_total_cost_fee_token (qr_fee_details quote)) bps =
       (Ok fee :: (u256, cli_error) result)"
    and "cs_accounts st (token_address (cli_field E) token) = Some account"
  defines "cost \<equiv> ucast amount + fd_total_cost_fee_token (qr_fee_details quote) + fee"
  shows "(sa_shielded_amount account < cost \<longrightarrow>
       cli_withdraw E amount to token pocket_money memo st = Err (CliMsg ''Not enough funds to withdraw'')) \<and>
     (cli_withdraw E amount to token pocket_money memo st = Ok st' \<longrightarrow>
       cost \<le> sa_shielded_amount account \<and>
       (\<exists>account' index tx_hash. cs_accounts st' = (cs_accounts st)(token_address (cli_field E) token \<mapsto> account') \<and>
          sa_history account' = sa_history account @ [withdraw_action cost index tx_hash to token fee] \<and>
          uint (sa_shielded_amount account') = uint (sa_shielded_amount account) - uint cost))"
proof (intro conjI impI)
  note acc = withdraw_fee_bps_Ok [OF assms(3)]
  have account: "account_of E st1 token = Ok account" using acc assms(5) by (simp add: account_of_Ok)
  have cost: "ucast amount + fd_total_cost_fee_token (qr_fee_details quote) + fee = cost"
    by (simp add: cost_def)
  assume "sa_shielded_amount account < cost"
  then show "cli_withdraw E amount to token pocket_money memo st = Err (CliMsg ''Not enough funds to withdraw'')"
    by (simp add: cli_withdraw_def Let_def assms(1-4) account cost)
next
  assume ok: "cli_withdraw E amount to token pocket_money memo st = Ok st'"
  note acc = withdraw_fee_bps_Ok [OF assms(3)]
  have account: "account_of E st1 token = Ok account" using acc assms(5) by (simp add: account_of_Ok)
  from ok show "cost \<le> sa_shielded_amount account"
    by (auto simp: cli_withdraw_def Let_def assms(1-4) account cost_def not_less split: if_splits)
  from ok obtain index tx_hash where
    reg: "cli_register E token (withdraw_action cost index tx_hash to token fee) st1 = Ok st'"
    unfolding cli_withdraw_def Let_def
    by (auto simp: assms(1-4) account cost_def result_simps split: if_splits)
  from cli_register_Ok [OF reg] acc
  have "registered E token (withdraw_action cost index tx_hash to token fee) st st'"
    by (simp add: registered_def)
  from registered_balance [OF this] assms(5)
  show "\<exists>account' index tx_hash. cs_accounts st' = (cs_accounts st)(token_address (cli_field E) token \<mapsto> account') \<and>
          sa_history account' = sa_history account @ [withdraw_action cost index tx_hash to token fee] \<and>
          uint (sa_shielded_amount account') = uint (sa_shielded_amount account) - uint cost"
    by (auto simp: withdraw_action_def)
qed

lemma uint_sum_wraps:
  fixes b c :: u256
  shows "uint (ucast (a :: u128) + b + c) = (uint a + uint b + uint c) mod 2 ^ 256"
  by (simp add: uint_word_ariths uint_up_ucast is_up mod_simps)

text \<open>
  C20. Withdrawing debits exactly what is sent. Let the relayer be reachable, quote its fee, and let
  the protocol fee be known; what is due is amount, relayer fee and protocol fee, over the integers. When
  it fits 256 bits, the wallet refuses if the account holds less than the total, and on success the
  account of the token has lost exactly the total in one new action and no other account has changed;
  so the subtraction of the account does not underflow. The wallet does not check that it fits: a
  relayer whose quote makes the total overflow is charged, and compared with the balance, only
  modulo \<open>2 ^ 256\<close>.
\<close>

theorem withdrawal_debits_total:
  fixes to :: address and st' :: cli_state
  assumes "check_connection E (cs_relayer_rpc_url st) = Ok ()"
    and "get_relayer_total_fee E st token (ucast pocket_money) = Ok quote"
    and "withdraw_fee_bps E st = Ok (bps, st1)"
    and "compute_protocol_fee_from_net (ucast amount + fd_total_cost_fee_token (qr_fee_details quote)) bps =
       (Ok fee :: (u256, cli_error) result)"
    and "cs_accounts st (token_address (cli_field E) token) = Some account"
  defines "due \<equiv> uint amount + uint (fd_total_cost_fee_token (qr_fee_details quote)) + uint fee"
    and "debited \<equiv> \<lambda>cost. \<exists>account' index tx_hash.
       cs_accounts st' = (cs_accounts st)(token_address (cli_field E) token \<mapsto> account') \<and>
       sa_history account' = sa_history account @ [withdraw_action (word_of_int cost) index tx_hash to token fee] \<and>
       uint (sa_shielded_amount account') = uint (sa_shielded_amount account) - cost"
  shows "(due < 2 ^ 256 \<longrightarrow>
       (uint (sa_shielded_amount account) < due \<longrightarrow>
          cli_withdraw E amount to token pocket_money memo st = Err (CliMsg ''Not enough funds to withdraw'')) \<and>
       (cli_withdraw E amount to token pocket_money memo st = Ok st' \<longrightarrow>
          due \<le> uint (sa_shielded_amount account) \<and> debited due)) \<and>
     (2 ^ 256 \<le> due \<longrightarrow> cli_withdraw E amount to token pocket_money memo st = Ok st' \<longrightarrow>
        due mod 2 ^ 256 \<le> uint (sa_shielded_amount account) \<and> debited (due mod 2 ^ 256))"
proof -
  let ?cost = "ucast amount + fd_total_cost_fee_token (qr_fee_details quote) + fee"
  have cost: "uint ?cost = due mod 2 ^ 256" unfolding due_def by (rule uint_sum_wraps)
  then have word: "word_of_int (due mod 2 ^ 256) = ?cost" by (metis word_of_int_uint)
  note charge = withdrawal_charge [OF assms(1-5), of to memo st', unfolded word_less_def word_le_def cost]
  have ok: "due mod 2 ^ 256 \<le> uint (sa_shielded_amount account) \<and> debited (due mod 2 ^ 256)"
    if "cli_withdraw E amount to token pocket_money memo st = Ok st'"
    using charge that unfolding debited_def word by blast
  have "0 \<le> due" by (simp add: due_def)
  then have "due mod 2 ^ 256 = due" if "due < 2 ^ 256" using that by simp
  then show ?thesis using charge ok by auto
qed

section \<open>Properties of recovery\<close>

text \<open>
  The chain knows the actions \<open>hs\<close> of an account: before each of them the query returns it, and after
  the last one the query returns nothing.
\<close>

fun chain_knows ::
  "(shielder_account \<Rightarrow> (shielder_action option, cli_error) result) \<Rightarrow> shielder_account \<Rightarrow> shielder_action list
     \<Rightarrow> bool" where
  "chain_knows lookup account [] \<longleftrightarrow> lookup account = Ok None"
| "chain_knows lookup account (h # hs) \<longleftrightarrow> lookup account = Ok (Some h) \<and>
     (\<forall>account'. register_action account h = Ok account' \<longrightarrow> chain_knows lookup account' hs)"

lemma recover_loop_iff:
  "recover_loop lookup account = Ok account' \<longleftrightarrow>
     (\<exists>hs. chain_knows lookup account hs \<and> register_all account hs = Ok account')"
proof
  show "recover_loop lookup account = Ok account' \<Longrightarrow>
      \<exists>hs. chain_knows lookup account hs \<and> register_all account hs = Ok account'"
  proof (induction lookup account rule: recover_loop.induct)
    case (1 lookup account)
    from 1(2) obtain found where found: "lookup account = Ok found"
      and rest: "(case found of
         Some action \<Rightarrow>
           and_then (map_err (\<lambda>_. CliMsg []) (register_action account action)) (recover_loop lookup)
       | None \<Rightarrow> Ok account) = Ok account'"
      unfolding recover_loop.simps [of lookup account] and_then_Ok by blast
    show ?case
    proof (cases found)
      case None
      with found rest show ?thesis by (intro exI [of _ "[]"]) (simp add: register_all_def)
    next
      case (Some action)
      with rest obtain b where b: "register_action account action = Ok b"
        and "recover_loop lookup b = Ok account'" by (auto simp: result_simps)
      then obtain hs where "chain_knows lookup b hs" "register_all b hs = Ok account'"
        using 1(1) [OF found Some, of b] by auto
      with b found Some show ?thesis
        by (intro exI [of _ "action # hs"]) (auto simp: register_all_def)
    qed
  qed
next
  assume "\<exists>hs. chain_knows lookup account hs \<and> register_all account hs = Ok account'"
  then obtain hs where "chain_knows lookup account hs" "register_all account hs = Ok account'" by blast
  then show "recover_loop lookup account = Ok account'"
  proof (induction hs arbitrary: account)
    case Nil
    then show ?case by (simp add: recover_loop.simps register_all_def)
  next
    case (Cons h hs)
    then obtain b where "register_action account h = Ok b" "register_all b hs = Ok account'"
      by (auto simp: register_all_def result_simps)
    with Cons show ?case by (subst recover_loop.simps) auto
  qed
qed

text \<open>
  C15. Recovery replays the chain. For a token without an account in the wallet, \<open>recover_state\<close>
  succeeds with account \<open>b\<close> exactly when the chain knows some list of actions of the fresh account of
  the seed and registering them gives \<open>b\<close>: every action found by following the nullifiers is
  registered, in order, until the last nullifier is unspent. Hence a wallet that lost its state and
  whose actions all reached the chain gets the same account back.
\<close>

theorem recovery_replays_chain:
  assumes "create_shielder_user E st = Ok user" "ce_simple_provider E (cs_node_rpc_url st) = Ok ()"
    and "(case zkid_seed of Some seed \<Rightarrow> Ok seed | None \<Rightarrow> default_zkid_seed E st token) = Ok seed"
    and "cs_accounts st (token_address (cli_field E) token) = None"
  defines "fresh \<equiv> account_new (cli_field E) (ce_generate_user_id E) seed token"
  shows "recover_state E token zkid_seed st =
      Ok (st\<lparr> cs_accounts := (cs_accounts st)(token_address (cli_field E) token \<mapsto> b) \<rparr>) \<longleftrightarrow>
    (\<exists>hs. chain_knows (lookup_action E user) fresh hs \<and> register_all fresh hs = Ok b)"
proof -
  let ?a = "token_address (cli_field E) token"
  have "ensure_account_exist E token zkid_seed st = Ok (st\<lparr> cs_accounts := (cs_accounts st)(?a \<mapsto> fresh) \<rparr>)"
    using assms(3,4) by (simp add: ensure_account_exist_def fresh_def)
  then have "recover_state E token zkid_seed st =
      map_ok (\<lambda>b. st\<lparr> cs_accounts := (cs_accounts st)(?a \<mapsto> b) \<rparr>) (recover_loop (lookup_action E user) fresh)"
    using assms(1,2)
    by (cases "recover_loop (lookup_action E user) fresh")
      (simp_all add: recover_state_def cli_create_simple_provider_def)
  moreover have "st\<lparr> cs_accounts := (cs_accounts st)(?a \<mapsto> b) \<rparr> = st\<lparr> cs_accounts := (cs_accounts st)(?a \<mapsto> b') \<rparr>
      \<longleftrightarrow> b = b'" for b b'
    by (cases st) (auto dest: fun_cong [of _ _ ?a])
  ultimately show ?thesis by (auto simp: map_ok_Ok recover_loop_iff)
qed

section \<open>The invariant of the wallet\<close>

text \<open>
  Every account is stored under its token's address, and satisfies the account invariant: the nonce
  counts the history and the shielded amount is the sum of what the history credits and debits.
\<close>

definition wallet_inv :: "'f field_api \<Rightarrow> cli_state \<Rightarrow> bool" where
  "wallet_inv FF st \<longleftrightarrow>
     (\<forall>a account. cs_accounts st a = Some account \<longrightarrow>
        account_inv account \<and> token_address FF (sa_token account) = a)"

lemma wallet_inv_update:
  assumes "wallet_inv FF st" "account_inv account" "token_address FF (sa_token account) = a"
    and "cs_accounts st' = (cs_accounts st)(a \<mapsto> account)"
  shows "wallet_inv FF st'"
  using assms by (auto simp: wallet_inv_def)

lemma registered_inv:
  assumes "wallet_inv (cli_field E) st" "registered E token action st st'"
  shows "wallet_inv (cli_field E) st'"
proof -
  from assms(2) obtain account account' where
    "cs_accounts st (token_address (cli_field E) token) = Some account"
    and reg: "register_action account action = Ok account'"
    and acc: "cs_accounts st' = (cs_accounts st)(token_address (cli_field E) token \<mapsto> account')"
    by (auto simp: registered_def)
  with assms(1) have "account_inv account" "token_address (cli_field E) (sa_token account) =
      token_address (cli_field E) token" by (auto simp: wallet_inv_def)
  then show ?thesis using wallet_inv_update [OF assms(1) _ _ acc] register_action_inv [OF _ reg]
      register_action_Ok(2) [OF reg] by simp
qed

lemma ensure_account_inv:
  assumes "wallet_inv (cli_field E) st" "ensure_account_exist E token zkid_seed st = Ok st'"
  shows "wallet_inv (cli_field E) st'"
proof (cases "cs_accounts st (token_address (cli_field E) token)")
  case None
  with assms(2) obtain seed where "cs_accounts st' = (cs_accounts st)(token_address (cli_field E) token \<mapsto>
      account_new (cli_field E) (ce_generate_user_id E) seed token)"
    by (auto simp: ensure_account_exist_def result_simps)
  then show ?thesis
    by (rule wallet_inv_update [OF assms(1) account_inv_new, rotated])
      (simp add: account_new_def default_account_def)
next
  case (Some account)
  with assms show ?thesis by (auto simp: ensure_account_exist_def result_simps)
qed

lemma recover_state_inv:
  assumes "wallet_inv (cli_field E) st" "recover_state E token zkid_seed st = Ok st'"
  shows "wallet_inv (cli_field E) st'"
proof -
  let ?a = "token_address (cli_field E) token"
  from assms(2) obtain user st1 account account' where
    st1: "ensure_account_exist E token zkid_seed st = Ok st1" and acc: "cs_accounts st1 ?a = Some account"
    and rec: "recover_loop (lookup_action E user) account = Ok account'"
    and st': "cs_accounts st' = (cs_accounts st1)(?a \<mapsto> account')"
    unfolding recover_state_def by (auto simp: result_simps)
  note inv = ensure_account_inv [OF assms(1) st1]
  from rec obtain hs where hs: "register_all account hs = Ok account'" by (auto simp: recover_loop_iff)
  from inv acc have "account_inv account" "token_address (cli_field E) (sa_token account) = ?a"
    by (auto simp: wallet_inv_def)
  with register_all_inv [OF _ hs] show ?thesis using wallet_inv_update [OF inv _ _ st'] by auto
qed

lemma perform_contract_action_inv:
  assumes "wallet_inv (cli_field E) st" "perform_contract_action E cmd st = Ok st'"
  shows "wallet_inv (cli_field E) st'"
proof -
  have "\<exists>token action. registered E token action st st'"
    using assms(2) by (cases cmd) (auto dest!: cli_new_account_Ok cli_deposit_Ok cli_withdraw_Ok)
  then show ?thesis using registered_inv [OF assms(1)] by blast
qed

lemma perform_state_write_inv:
  assumes "wallet_inv (cli_field E) st" "perform_state_write_action E cmd st = Ok st'"
  shows "wallet_inv (cli_field E) st'"
proof (cases cmd)
  case (RecoverState token zkid_seed)
  with assms show ?thesis by (auto intro: recover_state_inv)
qed (use assms in \<open>auto simp: result_simps wallet_inv_def\<close>)

text \<open>A session of commands; the surroundings may change from one command to the next.\<close>

fun run_commands ::
  "(cli_state \<Rightarrow> 'b) \<Rightarrow> ('b \<Rightarrow> (cli_state, string) result) \<Rightarrow> (('f, 'p, 's, 'd, 'l) cli_env \<times> cli_command) list
     \<Rightarrow> 'b option \<Rightarrow> 'b option" where
  "run_commands save load [] stored = stored"
| "run_commands save load ((E, command) # rest) stored =
     run_commands save load rest (case cli_main E save load command stored of Ok stored' \<Rightarrow> stored' | _ \<Rightarrow> stored)"

definition stored_inv :: "'f field_api \<Rightarrow> ('b \<Rightarrow> (cli_state, string) result) \<Rightarrow> 'b option \<Rightarrow> bool" where
  "stored_inv FF load stored \<longleftrightarrow> (\<forall>contents. stored = Some contents \<longrightarrow> (\<exists>st. load contents = Ok st \<and> wallet_inv FF st))"

lemma cli_main_inv:
  assumes "\<forall>s. load (save s) = Ok s" "stored_inv (cli_field E) load stored"
    and "cli_main E save load command stored = Ok stored'"
  shows "stored_inv (cli_field E) load stored'"
proof (cases "\<exists>key. command = StateWrite (Initialize key)")
  case True
  then obtain key where "stored' = Some (save (cli_state_new key))"
    using assms(3) by (auto simp: cli_main_def)
  then show ?thesis using assms(1)
    by (simp add: stored_inv_def wallet_inv_def cli_state_new_def default_cli_state_def)
next
  case False
  let ?ensured = "\<lambda>st. case command_token command of
      Some token \<Rightarrow> ensure_account_exist E token (command_zkid_seed command) st | None \<Rightarrow> Ok st"
  from False assms(3) obtain contents st st1 where
    stored: "stored = Some contents" "load contents = Ok st" and st1: "?ensured st = Ok st1" and
    run: "(case command of
        StateWrite cmd \<Rightarrow> map_ok (\<lambda>s. Some (save s)) (perform_state_write_action E cmd st1)
      | StateRead cmd \<Rightarrow> Ok stored
      | ContractInteraction cmd \<Rightarrow> map_ok (\<lambda>s. Some (save s)) (perform_contract_action E cmd st1)) = Ok stored'"
    unfolding cli_main_def
    by (auto simp: result_simps split: cli_command.splits state_write_command.splits)
  from stored assms(2) have "wallet_inv (cli_field E) st" by (auto simp: stored_inv_def)
  then have inv: "wallet_inv (cli_field E) st1"
    using st1 ensure_account_inv [of E st] by (auto split: option.splits)
  show ?thesis using run assms(1,2) perform_state_write_inv [OF inv] perform_contract_action_inv [OF inv]
    by (cases command) (auto simp: result_simps stored_inv_def)
qed

text \<open>
  C14. The wallet invariant. Whatever sequence of commands is run from an empty start, with any node
  and relayer answers and whether the commands succeed or fail, the state file, once it exists,
  decodes to a state in which every account is stored under its token's address, its nonce is the
  length of its history and its shielded amount is the sum of what its history credits and debits. Saving and loading are
  assumed to be inverse.
\<close>

theorem wallet_invariant:
  assumes "\<forall>s. load (save s) = Ok s" and "\<forall>(E, command) \<in> set commands. cli_field E = FF"
  shows "stored_inv FF load (run_commands save load commands None)"
proof -
  have "stored_inv FF load stored \<Longrightarrow> stored_inv FF load (run_commands save load commands stored)" for stored
    using assms(2)
  proof (induction commands arbitrary: stored)
    case Nil
    then show ?case by simp
  next
    case (Cons c commands)
    obtain E command where c: "c = (E, command)" by (cases c)
    with Cons.prems have FF: "FF = cli_field E" by auto
    have "stored_inv FF load (case cli_main E save load command stored of Ok stored' \<Rightarrow> stored' | _ \<Rightarrow> stored)"
      using cli_main_inv [of load save E stored command] assms(1) Cons.prems(1) by (auto simp: FF split: result.splits)
    from Cons.IH [OF this] Cons.prems(2) show ?case by (simp add: c)
  qed
  moreover have "stored_inv FF load None" by (simp add: stored_inv_def)
  ultimately show ?thesis by blast
qed

section \<open>A concrete wallet\<close>

definition wallet_new_account_call :: newAccountNativeCall where
  "wallet_new_account_call = \<lparr> nan_expectedContractVersion = (0, 1, 1), nan_newNote = 1, nan_prenullifier = 42,
     nan_symKeyEncryptionC1X = 0, nan_symKeyEncryptionC1Y = 0, nan_symKeyEncryptionC2X = 0,
     nan_symKeyEncryptionC2Y = 0, nan_macSalt = 0, nan_macCommitment = 0, nan_proof = [], nan_memo = [] \<rparr>"

definition wallet_abi :: "nat abi" where
  "wallet_abi = \<lparr>
     abi_newAccountNative = (\<lambda>bs. if bs = [1] then Some wallet_new_account_call else None),
     abi_newAccountERC20 = (\<lambda>_. None), abi_depositNative = (\<lambda>_. None), abi_depositERC20 = (\<lambda>_. None),
     abi_withdrawNative = (\<lambda>_. None), abi_withdrawERC20 = (\<lambda>_. None),
     abi_NewAccount = (\<lambda>_. Some \<lparr> ena_contractVersion = (0, 1, 1), ena_prenullifier = 42, ena_tokenAddress = 0,
       ena_amount = 100, ena_newNote = 1, ena_newNoteIndex = 4, ena_macSalt = 0, ena_macCommitment = 0,
       ena_protocolFee = 1, ena_memo = [] \<rparr>),
     abi_Deposit = (\<lambda>_. Some sample_deposit_event),
     abi_Withdraw = (\<lambda>_. Some \<lparr> ew_contractVersion = (0, 1, 1), ew_tokenAddress = 0, ew_amount = 99,
       ew_withdrawalAddress = 8, ew_newNote = 2, ew_newNoteIndex = 5, ew_relayerAddress = 3, ew_fee = 10,
       ew_macSalt = 0, ew_macCommitment = 0, ew_pocketMoney = 0, ew_protocolFee = 1, ew_memo = [] \<rparr>) \<rparr>"

definition wallet_circuits :: "fr circuits" where
  "wallet_circuits = fr_circuits (\<lambda>bs. replicate 32 0) (\<lambda>x. []) (\<lambda>k i. nk_id k) (\<lambda>k i. dk_id k) (\<lambda>k i. wk_id k)"

definition wallet_quote :: "nat quote_fee_response" where
  "wallet_quote = \<lparr> qr_fee_details = sample_fee\<lparr> fd_total_cost_fee_token := 10 \<rparr>,
     qr_price_details = \<lparr> pd_gas_price = 1, pd_native_token_price = 1, pd_native_token_unit_price = 1,
       pd_fee_token_price = 1, pd_fee_token_unit_price = 1 \<rparr> \<rparr>"

definition wallet_env_for :: "'d quote_fee_response \<Rightarrow> (fr, unit, unit, 'd, nat) cli_env" where
  "wallet_env_for quote = \<lparr>
     ce_circuits = wallet_circuits,
     ce_poseidon = hd,
     ce_generate_user_id = (\<lambda>_. fr_of_nat 42),
     ce_parse_u256 = (\<lambda>_. Some 9),
     ce_parse_signer = (\<lambda>_. Some ()),
     ce_net = \<lparr> ne_signer_address = (\<lambda>_. 3), ne_create_provider = (\<lambda>_ _. Ok ()), ne_erc20 = True \<rparr>,
     ce_simple_provider = (\<lambda>_. Ok ()),
     ce_chain_id = Ok 1,
     ce_get_logs = (\<lambda>_. Ok [\<lparr> log_transaction_hash = Some 21, log_data = 0 \<rparr>]),
     ce_receipt = (\<lambda>i _. Ok (if i = 0 then None else Some (Some 5))),
     ce_get_block_by_number = (\<lambda>_. Ok (Some (Some
       [\<lparr> tx_info_hash = Some 21, tx_block_hash = Some 5, tx_input = [1], tx_hash_of = 21 \<rparr>]))),
     ce_dry_nullifiers = (\<lambda>_ rq. Ok (if nc_nullifierHash (rq_call rq) = 42 then 6 else 0)),
     ce_abi = wallet_abi,
     ce_dry_merkle_path = (\<lambda>_ _. Ok (replicate (ARITY * TREE_HEIGHT + 1) 0)),
     ce_dry_deposit_fee = (\<lambda>_ _. Ok 100),
     ce_dry_withdraw_fee = (\<lambda>_ _. Ok 100),
     ce_dry_ar_pubkey = (\<lambda>_ _. Ok \<lparr> gp_x = 1, gp_y = 2 \<rparr>),
     ce_call_new_account_native = (\<lambda>_ _. Ok (21, 5)),
     ce_call_new_account_erc20 = (\<lambda>_ _. Ok (21, 5)),
     ce_call_deposit_native = (\<lambda>_ _. Ok (21, 5)),
     ce_call_deposit_erc20 = (\<lambda>_ _. Ok (21, 5)),
     ce_call_approve = (\<lambda>_ _. Ok (20, 5)),
     ce_prove_new_account = Ok (\<lambda>_. [9]),
     ce_prove_deposit = Ok (\<lambda>_. [9]),
     ce_prove_withdraw = Ok (\<lambda>_. [9]),
     ce_mac_salt = 6,
     ce_encryption_salt = 7,
     ce_http_get_health = (\<lambda>_. Ok True),
     ce_http_quote = (\<lambda>_ _. Ok (True, Some quote)),
     ce_http_relay = (\<lambda>_ _. Ok (True, Some 21)),
     ce_http_fee_address = (\<lambda>_. Ok (True, Some 3)) \<rparr>"

abbreviation wallet_env :: "(fr, unit, unit, nat, nat) cli_env" where
  "wallet_env \<equiv> wallet_env_for wallet_quote"

text \<open>The fresh account of the wallet, and the account after its creation with 100 gross.\<close>

definition wallet_fresh :: shielder_account where
  "wallet_fresh = \<lparr> sa_id = 42, sa_token = Native, sa_nonce = 0, sa_shielded_amount = 0, sa_history = [] \<rparr>"

definition wallet_action :: shielder_action where
  "wallet_action = new_account_action 100 4 21 Native 1"

definition wallet_funded :: shielder_account where
  "wallet_funded = \<lparr> sa_id = 42, sa_token = Native, sa_nonce = 1, sa_shielded_amount = 99,
     sa_history = [wallet_action] \<rparr>"

lemma wallet_field [simp]: "cli_field (wallet_env_for quote) = Fr"
  by (simp add: wallet_env_for_def wallet_circuits_def fr_circuits_def)

lemma wallet_fresh_new: "account_new Fr (ce_generate_user_id wallet_env) seed Native = wallet_fresh"
proof -
  have "unat (field_to_u256 Fr (fr_of_nat 42)) = unat (42 :: u256)"
    by (simp add: bn254.field_to_u256_val fr_modulus_def)
  then have "field_to_u256 Fr (fr_of_nat 42) = 42" by (simp only: word_unat_eq_iff)
  then show ?thesis by (simp add: account_new_def wallet_env_for_def wallet_fresh_def default_account_def)
qed

lemma wallet_register: "register_action wallet_fresh wallet_action = Ok wallet_funded"
  by (simp add: register_action_def wallet_fresh_def wallet_action_def wallet_funded_def
      new_account_action_def action_token_def checked_add_def)

lemma wallet_fee: "compute_protocol_fee_from_net 99 100 = Ok 1"
  "compute_protocol_fee_from_net 98 100 = Ok 1"
  by (simp_all add: compute_protocol_fee_from_net_alt ceil_div_def)

definition wallet_state :: "shielder_account \<Rightarrow> cli_state" where
  "wallet_state account = (cli_state_new ''0x9'')\<lparr> cs_accounts := [0 \<mapsto> account] \<rparr>"

lemmas wallet_calls = create_shielder_user_def shielder_user_new_def user_address_def caller_address_def
  anonymity_revoker_pubkey_def protocol_deposit_fee_bps_def protocol_withdraw_fee_bps_def
  new_account_native_def user_get_merkle_path_def user_nullifiers_def connection_call_def
  connection_call_with_value_def connection_call_inner_def call_with_resolved_provider_def
  cli_create_simple_provider_def get_event_def



lemma wallet_withdraw_facts:
  "check_connection wallet_env (cs_relayer_rpc_url (wallet_state wallet_funded)) = Ok ()"
  "get_relayer_total_fee wallet_env (wallet_state wallet_funded) Native 0 = Ok wallet_quote"
  "\<exists>st1. withdraw_fee_bps wallet_env (wallet_state wallet_funded) = Ok (100, st1)"
  "cs_accounts (wallet_state wallet_funded) 0 = Some wallet_funded"
  "fd_total_cost_fee_token (qr_fee_details wallet_quote) = 10"
  by (simp_all add: check_connection_def get_relayer_total_fee_def withdraw_fee_bps_def wallet_calls
      wallet_env_for_def wallet_state_def cli_state_new_def default_cli_state_def wallet_quote_def)

lemma wallet_query:
  assumes E: "E = wallet_env_for q" and "cs_accounts st (token_address Fr token) = Some wallet_funded"
  shows "is_ok (prepare_relayer_query E st amount to token quote pocket fee memo)"
proof -
  have "account_of E st token = Ok wallet_funded" using assms by (simp add: account_of_Ok E)
  moreover have "current_leaf_index wallet_funded = Some 4"
    by (simp add: current_leaf_index_def wallet_funded_def wallet_action_def new_account_action_def)
  moreover have "create_shielder_user E st =
      Ok (shielder_user_new (cs_contract_address st) (OnDemand (cs_node_rpc_url st) ()))"
    by (simp add: create_shielder_user_def E wallet_env_for_def)
  moreover have "\<exists>root path. get_current_merkle_path (ce_net E) (ce_dry_merkle_path E) 4
      (shielder_user_new (cs_contract_address st) (OnDemand (cs_node_rpc_url st) ())) = Ok (root, path)"
    by (simp add: get_current_merkle_path_def wallet_calls E wallet_env_for_def reorganize_merkle_path_def Let_def)
  moreover have "ce_prove_withdraw E = Ok (\<lambda>_. [9])" "cli_create_simple_provider E st = Ok ()"
    "ce_chain_id E = Ok 1" "get_relayer_address E (cs_relayer_rpc_url st) = Ok 3"
    by (simp_all add: E wallet_env_for_def cli_create_simple_provider_def get_relayer_address_def)
  ultimately show ?thesis by (auto simp: prepare_relayer_query_def Let_def)
qed

lemma wallet_withdraw: "\<exists>st'. cli_withdraw wallet_env 88 8 Native 0 [] (wallet_state wallet_funded) = Ok st'"
proof -
  obtain st1 where st1: "withdraw_fee_bps wallet_env (wallet_state wallet_funded) = Ok (100, st1)"
    using wallet_withdraw_facts(3) by blast
  then have acc: "cs_accounts st1 0 = Some wallet_funded"
    using withdraw_fee_bps_Ok [OF st1] wallet_withdraw_facts(4) by simp
  then have account: "account_of wallet_env st1 Native = Ok wallet_funded" by (simp add: account_of_Ok)
  have "is_ok (prepare_relayer_query wallet_env st1 99 8 Native wallet_quote 0 1 [])"
    by (rule wallet_query [OF refl]) (simp add: acc)
  then obtain query where
    query: "prepare_relayer_query wallet_env st1 99 8 Native wallet_quote 0 1 [] = Ok query"
    by (auto simp: is_ok_iff)
  have relay: "ce_http_relay wallet_env url query = Ok (True, Some 21)" for url by (simp add: wallet_env_for_def)
  have block: "get_block_hash wallet_env 21 = Ok 5"
    by (simp add: get_block_hash_def upt_rec wallet_env_for_def)
  obtain e where ev: "get_event (ce_get_logs wallet_env) (abi_Withdraw (ce_abi wallet_env)) 21 5 = Ok e"
    by (auto simp: get_event_def wallet_env_for_def wallet_abi_def List.map_filter_def)
  have "\<exists>a. register_action wallet_funded (withdraw_action 99 (ew_newNoteIndex e) 21 8 Native 1) = Ok a"
    by (simp add: register_action_def wallet_funded_def withdraw_action_def action_token_def checked_add_def
        checked_sub_def)
  then have "\<exists>st'. cli_register wallet_env Native (withdraw_action 99 (ew_newNoteIndex e) 21 8 Native 1) st1 = Ok st'"
    by (auto simp: cli_register_def account)
  moreover have "\<not> sa_shielded_amount wallet_funded < 99" "ce_simple_provider wallet_env url = Ok ()" for url
    by (simp_all add: wallet_funded_def wallet_env_for_def)
  ultimately show ?thesis
    by (simp add: cli_withdraw_def wallet_withdraw_facts(1,2,5) st1 wallet_fee account query relay
        cli_create_simple_provider_def block ev)
qed

theorem withdrawal_debits_total_witness:
  "\<exists>st' account'. cli_withdraw wallet_env 88 8 Native 0 [] (wallet_state wallet_funded) = Ok st' \<and>
     cs_accounts st' 0 = Some account' \<and> sa_shielded_amount account' = 0 \<and>
   cli_withdraw wallet_env 89 8 Native 0 [] (wallet_state wallet_funded) =
     Err (CliMsg ''Not enough funds to withdraw'')"
proof -
  obtain st1 where st1: "withdraw_fee_bps wallet_env (wallet_state wallet_funded) = Ok (100, st1)"
    using wallet_withdraw_facts(3) by blast
  obtain st' where st': "cli_withdraw wallet_env 88 8 Native 0 [] (wallet_state wallet_funded) = Ok st'"
    using wallet_withdraw by blast
  have fees: "compute_protocol_fee_from_net 99 100 = (Ok 1 :: (u256, cli_error) result)"
    "compute_protocol_fee_from_net 98 100 = (Ok 1 :: (u256, cli_error) result)" by (rule wallet_fee)+
  have balance: "sa_shielded_amount wallet_funded = 99" by (simp add: wallet_funded_def)
  note facts = wallet_withdraw_facts(1,2,4,5) st1 fees
  have "\<exists>account'. cs_accounts st' = (cs_accounts (wallet_state wallet_funded))(0 \<mapsto> account') \<and>
      uint (sa_shielded_amount account') = uint (sa_shielded_amount wallet_funded) - uint (99 :: u256)"
    using withdrawal_debits_total [where st' = st' and to = 8 and memo = "[]", of wallet_env "wallet_state wallet_funded" Native 0 wallet_quote 100 st1 88 1
        wallet_funded] facts st' by auto
  moreover have "cli_withdraw wallet_env 89 8 Native 0 [] (wallet_state wallet_funded) =
     Err (CliMsg ''Not enough funds to withdraw'')"
    using withdrawal_debits_total [where st' = st' and to = 8 and memo = "[]", of wallet_env "wallet_state wallet_funded" Native 0 wallet_quote 100 st1 89 1
        wallet_funded] facts by (simp add: balance)
  ultimately show ?thesis using st' by (auto simp: balance word_uint_eq_iff)
qed

lemma wallet_nullifier:
  "previous_nullifier (c_keccak (ce_circuits wallet_env)) wallet_fresh = 42"
  "previous_nullifier (c_keccak (ce_circuits wallet_env)) wallet_funded = 0"
  by (simp_all add: previous_nullifier_def checked_sub_def wallet_fresh_def wallet_funded_def prenullifier_def
      derive_nullifier_def finalize_hash_def from_be_bytes_def be_nat_def wallet_env_for_def wallet_circuits_def
      fr_circuits_def)

lemma wallet_hash: "n < 100 \<Longrightarrow>
  field_to_u256 Fr (ce_poseidon wallet_env [u256_to_field Fr (of_nat n)]) = of_nat n"
proof -
  assume "n < 100"
  then have "unat (of_nat n :: u256) < fr_modulus" by (simp add: unat_of_nat_256 fr_modulus_def)
  then show ?thesis by (simp add: wallet_env_for_def bn254.u256_field_roundtrip)
qed

lemma wallet_lookup:
  fixes user :: "(unit, unit) shielder_user"
  assumes "user = shielder_user_new a (OnDemand url ())"
  shows "lookup_action wallet_env user wallet_fresh = Ok (Some wallet_action)"
    "lookup_action wallet_env user wallet_funded = Ok None"
proof -
  define nullifiers where "nullifiers = user_nullifiers (ce_net wallet_env) user (ce_dry_nullifiers wallet_env)"
  have stored: "nullifiers n = Ok (if n = 42 then 6 else 0)" for n
    by (simp add: nullifiers_def assms wallet_calls wallet_env_for_def)
  have "get_block_of_nullifier_spending nullifiers 42 = Ok (Some 5)"
    "get_block_of_nullifier_spending nullifiers 0 = Ok None"
    by (simp_all add: get_block_of_nullifier_spending_def stored as_limbs_0 ucast_max_u64)
  then have "get_shielder_action (ce_abi wallet_env) (ce_get_logs wallet_env) (ce_get_block_by_number wallet_env)
      nullifiers 42 = Ok (Some (21, NewAccountEvent (the (abi_NewAccount wallet_abi 0))))"
    "get_shielder_action (ce_abi wallet_env) (ce_get_logs wallet_env) (ce_get_block_by_number wallet_env)
      nullifiers 0 = Ok None"
    by (simp_all add: get_shielder_action_def wallet_env_for_def check_if_tx_is_shielder_action_def wallet_abi_def
        wallet_new_account_call_def get_event_def List.map_filter_def)
  moreover have "action_from_event Fr (21, NewAccountEvent (the (abi_NewAccount wallet_abi 0))) = wallet_action"
    by (simp add: wallet_abi_def wallet_action_def token_from_address_def)
  ultimately show "lookup_action wallet_env user wallet_fresh = Ok (Some wallet_action)"
    "lookup_action wallet_env user wallet_funded = Ok None"
    using wallet_hash [of 42] wallet_hash [of 0]
    by (simp_all add: lookup_action_def wallet_nullifier nullifiers_def Let_def)
qed

theorem recovery_replays_chain_witness:
  "recover_state wallet_env Native (Some 9) (cli_state_new ''0x9'') = Ok (wallet_state wallet_funded)"
proof -
  let ?st = "cli_state_new ''0x9''"
  let ?user = "shielder_user_new 0 (OnDemand [] ()) :: (unit, unit) shielder_user"
  have "create_shielder_user wallet_env ?st = Ok ?user" "ce_simple_provider wallet_env (cs_node_rpc_url ?st) = Ok ()"
    by (simp_all add: create_shielder_user_def wallet_env_for_def cli_state_new_def default_cli_state_def)
  moreover have "cs_accounts ?st 0 = None" by (simp add: cli_state_new_def default_cli_state_def)
  moreover have "chain_knows (lookup_action wallet_env ?user) wallet_fresh [wallet_action]"
    using wallet_lookup [of ?user 0 "[]"] by (simp add: wallet_register)
  moreover have "register_all wallet_fresh [wallet_action] = Ok wallet_funded"
    by (simp add: register_all_def wallet_register)
  ultimately have "recover_state wallet_env Native (Some 9) ?st =
      Ok (?st\<lparr> cs_accounts := (cs_accounts ?st)(0 \<mapsto> wallet_funded) \<rparr>)"
    using recovery_replays_chain [where E = wallet_env and st = ?st and user = ?user and zkid_seed = "Some 9" and token = Native and seed = 9 and b = wallet_funded]
    by (auto simp: wallet_fresh_new)
  then show ?thesis by (simp add: wallet_state_def cli_state_new_def default_cli_state_def)
qed

theorem wallet_invariant_witness:
  "stored_inv Fr Ok (run_commands id Ok
     [(wallet_env, StateWrite (Initialize ''0x9'')), (wallet_env, ContractInteraction (DepositCmd 5 None)),
      (wallet_env, ContractInteraction (NewAccountCmd 99 None None))] None)"
  using wallet_invariant [of Ok id "[(wallet_env, StateWrite (Initialize ''0x9'')),
      (wallet_env, ContractInteraction (DepositCmd 5 None)),
      (wallet_env, ContractInteraction (NewAccountCmd 99 None None))]" Fr] by simp

end
