(* ===== verification/HaloQuotient.thy ===== *)
theory HaloQuotient
  imports HaloGenerator
begin

text \<open>
  The generated evaluation of the constraints (\<open>quotient_eval_numer_computations\<close> of
  \<open>halo2-verifier/src/lib/codegen.rs\<close>), put together from the lemmas on gates, permutations and
  lookups: the blocks run in order, each in a scope of its own, and compute the numerator of the
  quotient.
\<close>

section \<open>The numerator of the quotient\<close>

definition block_lines :: "string list list \<Rightarrow> string list" where
  "block_lines blocks = concat (map (\<lambda>ls. [''{''] @ ls @ [''}'']) blocks)"

lemma run_block_lines_Cons:
  "run_lines (block_lines (b # bs)) cfg =
    Option.bind (run_lines ([''{''] @ b @ [''}'']) cfg) (run_lines (block_lines bs))"
  by (simp only: block_lines_def list.map concat.simps run_lines_append)

definition numer_state :: "yul_state \<Rightarrow> fr \<Rightarrow> yul_state \<Rightarrow> bool" where
  "numer_state st0 v st \<longleftrightarrow> between_blocks st0 st \<and> holds_var st numer v"

lemma ident_ok_numer: "ident_ok numer" "numer \<noteq> ''let''"
  by (simp_all add: numer_def ident_ok_def word_ok_def ident_char_def starts_with_digit_def)

lemma numer_step:
  assumes st: "between_blocks st0 st" and no_numer: "ys_vars st0 numer = None"
    and run: "run_lines ls (st, ys_vars st # sc) = Some (st1, ys_vars st # sc)"
    and st1: "later st st1" and v: "denotes st1 t v"
  shows "\<exists>st'. run_lines ([''{''] @ (ls @ [fmt_set numer t]) @ [''}'']) (st, sc) = Some (st', sc)
    \<and> numer_state st0 v st' \<and> ys_memory st' = ys_memory st1"
proof -
  from st obtain w where w: "field_env st" "later st0 st" "ys_vars st = (ys_vars st0)(numer \<mapsto> w)"
    by (auto simp: between_blocks_def)
  from v obtain u where u: "eval_text st1 t = Some u" "reduced u" "felt u = v" by (auto simp: denotes_def)
  have "ys_vars st1 numer = Some w" using later_vars [OF st1] w(3) by simp
  then have set_line: "run_line (fmt_set numer t) (st1, sc') =
      Some (st1\<lparr>ys_vars := (ys_vars st1)(numer \<mapsto> u)\<rparr>, sc')" for sc'
    using run_line_set ident_ok_numer u(1) by blast
  let ?st = "leave_scope (ys_vars st) (st1\<lparr>ys_vars := (ys_vars st1)(numer \<mapsto> u)\<rparr>)"
  have vars: "ys_vars ?st = (ys_vars st0)(numer \<mapsto> u)"
    using w(3) later_vars [OF st1] by (auto simp: leave_scope_def fun_eq_iff split: option.splits)
  have rest: "ys_memory ?st = ys_memory st1" "ys_calldata ?st = ys_calldata st1"
    by (simp_all add: leave_scope_def)
  have "later st0 st1" by (rule later_trans [OF w(2) st1])
  then have "later st0 ?st"
    using vars rest no_numer by (auto simp: later_def extends_def map_le_def)
  moreover have "field_env ?st"
    using vars w(1,3) by (simp add: field_env_def numer_def)
  ultimately have "numer_state st0 v ?st"
    using vars u by (auto simp: numer_state_def between_blocks_def holds_var_def)
  moreover have "run_lines ([''{''] @ (ls @ [fmt_set numer t]) @ [''}'']) (st, sc) = Some (?st, sc)"
    using run set_line by (simp add: run_lines_append run_line_open run_line_close)
  ultimately show ?thesis using rest by blast
qed

lemma holds_scratch_memory: "ys_memory st' = ys_memory st \<Longrightarrow> holds_scratch st' m = holds_scratch st m"
  by (simp add: holds_scratch_def denotes_def scratch_def eval_scratch)

definition horner_line :: "computation \<Rightarrow> string list" where
  "horner_line c = fst c @ [fmt_set numer (add_r (mul_r numer ''y'') (snd c))]"

lemma horner_lines_run:
  assumes "computes_list st0 m cs vs m'" and "ys_vars st0 numer = None" and "holds_var st0 ''y'' y"
    and "numer_state st0 acc st" and "holds_scratch st m"
  shows "\<exists>st'. run_lines (block_lines (map horner_line cs)) (st, sc) = Some (st', sc)
    \<and> numer_state st0 (foldl (\<lambda>acc v. acc * y + v) acc vs) st'"
  using assms
proof (induction arbitrary: st acc rule: computes_list.induct)
  case (Nil m)
  then show ?case by (simp add: block_lines_def)
next
  case (Cons m c v m' cs vs m'')
  from Cons.prems(3) have bb: "between_blocks st0 st" and acc: "holds_var st numer acc"
    by (simp_all add: numer_state_def)
  let ?sc = "ys_vars st # sc"
  obtain st1 where st1: "run_lines (fst c) (st, ?sc) = Some (st1, ?sc)" "later st st1"
    "denotes st1 (snd c) v" "holds_scratch st1 m'"
    using Cons.hyps(1) bb Cons.prems(4) unfolding block_computes_def by blast
  have "field_env st1" using bb later_field_env [OF st1(2)] by (simp add: between_blocks_def)
  moreover have "denotes st1 numer acc"
    using acc later_vars [OF st1(2)] by (auto simp: holds_var_def intro!: denotes_var ident_ok_numer)
  moreover have "denotes st1 ''y'' y"
  proof -
    obtain w where "ys_vars st0 ''y'' = Some w" "reduced w" "felt w = y"
      using Cons.prems(2) by (auto simp: holds_var_def)
    moreover from this bb have "ys_vars st1 ''y'' = Some w"
      using later_vars [OF st1(2)] later_vars [of st0 st] by (simp add: between_blocks_def)
    moreover have "ident_ok ''y''"
      by (simp add: ident_ok_def word_ok_def ident_char_def starts_with_digit_def)
    ultimately show ?thesis using denotes_var by blast
  qed
  ultimately have "denotes st1 (add_r (mul_r numer ''y'') (snd c)) (acc * y + v)"
    using st1(3) by (intro denotes_add denotes_mul)
  from numer_step [OF bb Cons.prems(1) st1(1,2) this] obtain st' where
    st': "run_lines ([''{''] @ horner_line c @ [''}'']) (st, sc) = Some (st', sc)"
    "numer_state st0 (acc * y + v) st'" "ys_memory st' = ys_memory st1"
    unfolding horner_line_def by blast
  have "holds_scratch st' m'" using st1(4) holds_scratch_memory [OF st'(3)] by simp
  from Cons.IH [OF Cons.prems(1,2) st'(2) this] show ?case
    unfolding list.map run_block_lines_Cons st'(1) by simp
qed

lemma numer_lines_Cons:
  "numer_lines (c # cs) = (fst c @ [fmt_set numer (snd c)]) # map horner_line cs"
proof -
  have "zip [0..<length (c # cs)] (c # cs) = (0, c) # zip (map Suc [0..<length cs]) cs"
    by (simp add: upt_conv_Cons map_Suc_upt del: upt_Suc)
  moreover have "map (\<lambda>(idx, ls, var). ls @ [if idx = 0 then ''quotient_eval_numer := '' @ var
       else ''quotient_eval_numer := '' @ add_r (mul_r ''quotient_eval_numer'' ''y'') var])
     (zip (map Suc ns) cs) = map horner_line cs" if "length ns = length cs" for ns
    using that by (induction ns cs rule: list_induct2)
      (auto simp: horner_line_def fmt_set_def numer_def split: prod.splits)
  ultimately show ?thesis
    by (cases c) (simp add: numer_lines_def fmt_set_def numer_def)
qed

lemma numer_lines_run:
  assumes "computes_list st0 None cs vs m'" and "ys_vars st0 numer = None" and "holds_var st0 ''y'' y"
    and "numer_state st0 0 st"
  shows "\<exists>st'. run_lines (block_lines (numer_lines cs)) (st, sc) = Some (st', sc)
    \<and> numer_state st0 (foldl (\<lambda>acc v. acc * y + v) 0 vs) st'"
  using assms(1)
proof (cases rule: computes_list.cases)
  case Nil
  with assms(4) show ?thesis by (simp add: block_lines_def numer_lines_def)
next
  case (Cons c v m1 cs' vs')
  from assms(4) have bb: "between_blocks st0 st" by (simp add: numer_state_def)
  let ?sc = "ys_vars st # sc"
  obtain st1 where st1: "run_lines (fst c) (st, ?sc) = Some (st1, ?sc)" "later st st1"
    "denotes st1 (snd c) v" "holds_scratch st1 m1"
    using Cons(3) bb holds_scratch_None unfolding block_computes_def by blast
  from numer_step [OF bb assms(2) st1(1-3)] obtain st' where
    st': "run_lines ([''{''] @ (fst c @ [fmt_set numer (snd c)]) @ [''}'']) (st, sc) = Some (st', sc)"
    "numer_state st0 v st'" "ys_memory st' = ys_memory st1" by blast
  have "holds_scratch st' m1" using st1(4) holds_scratch_memory [OF st'(3)] by simp
  from horner_lines_run [OF Cons(4) assms(2,3) st'(2) this, of sc] show ?thesis
    unfolding Cons(1,2) numer_lines_Cons run_block_lines_Cons st'(1) by simp
qed

text \<open>The values of all constraints at the evaluation point, in the order of the protocol.\<close>

definition constraint_values ::
  "fr constraint_system \<Rightarrow> constraint_system_meta \<Rightarrow> argument_values \<Rightarrow> evals \<Rightarrow> (column \<Rightarrow> fr) \<Rightarrow>
     (column \<Rightarrow> fr) \<Rightarrow> fr3 list \<Rightarrow> fr5 list \<Rightarrow> fr list" where
  "constraint_values cs m A E colv permv zs ls =
     map (expr_value E) (concat (cs_gates cs))
     @ permutation_values A colv permv (chunks_of (cm_permutation_chunk_len m) (cm_permutation_columns m)) zs
     @ all_lookup_values A E (cs_lookups cs) ls"

definition holds_proof ::
  "yul_state \<Rightarrow> data \<Rightarrow> argument_values \<Rightarrow> evals \<Rightarrow> (column \<Rightarrow> fr) \<Rightarrow> (column \<Rightarrow> fr) \<Rightarrow> fr3 list \<Rightarrow>
     fr5 list \<Rightarrow> bool" where
  "holds_proof st d A E colv permv zs ls \<longleftrightarrow> holds_values st A \<and> holds_evals_any st d E
     \<and> holds_columns st d colv permv \<and> list_all2 (holds3 st) (da_permutation_z_evals d) zs
     \<and> list_all2 (holds5 st) (da_lookup_evals d) ls"

lemma gate_computations_compute:
  assumes "free_names st0" and "holds_evals_any st0 d E"
    and "gate_computations Fr cs d evaluator_reset = Some (gates, s)"
  shows "s = evaluator_reset \<and> list_all2 (\<lambda>c v. block_computes st0 None c v None) gates
    (map (expr_value E) (concat (cs_gates cs)))"
  using gate_computations_each [where FF = Fr and cs = cs and d = d] assms(3)
    gate_block [OF assms(1,2)]
  by (auto simp: list_all2_map2 simp del: map_concat elim!: list_all2_mono)

text \<open>
  C2. The generated code computes the numerator of the quotient: run from a state that holds the
  evaluations of a proof and the challenges, the declaration of \<open>quotient_eval_numer\<close> and the blocks
  of all computations never get stuck, and in the end the variable holds the values of all gate,
  permutation and lookup constraints folded with powers of \<open>y\<close> by Horner's rule, in the order of the
  protocol.
\<close>

theorem quotient_numerator_correct:
  assumes "meta_new cs = Some m"
    and "data_new m vk (Ptr Memory (Integer v)) (Ptr Calldata (Integer p)) = Some d"
    and "quotient_eval_numer_computations cs m d = Some blocks"
    and "field_env st0" and "fresh_locals st0" and "free_names st0"
    and "ys_vars st0 ''quotient_eval_numer'' = None" and "holds_var st0 ''y'' y"
    and "holds_proof st0 d A E colv permv zs ls"
  shows "\<exists>st. run_lines (''let quotient_eval_numer'' # block_lines blocks) (st0, []) = Some (st, [])
    \<and> holds_var st ''quotient_eval_numer''
        (foldl (\<lambda>acc v. acc * y + v) 0 (constraint_values cs m A E colv permv zs ls))"
proof -
  from assms(3) obtain gates s perms lookups s' where parts:
    "gate_computations Fr cs d evaluator_reset = Some (gates, s)"
    "permutation_computations m d = Some perms" "lookup_computations Fr cs d s = Some (lookups, s')"
    "blocks = numer_lines (gates @ perms @ lookups)"
    by (auto simp: quotient_eval_numer_computations_def bind_eq_Some_conv)
  have data: "holds_values st0 A" "holds_evals_any st0 d E" "holds_columns st0 d colv permv"
    "list_all2 (holds3 st0) (da_permutation_z_evals d) zs" "list_all2 (holds5 st0) (da_lookup_evals d) ls"
    using assms(9) by (simp_all add: holds_proof_def)
  note gates = gate_computations_compute [OF assms(6) data(2) parts(1)]
  have "length (da_permutation_z_evals d) \<le> cm_num_permutation_zs m"
    using assms(2) by (auto simp: data_new_Integer triples_of_upt)
  from permutation_computations_compute [OF assms(5) data(1,3,4) this parts(2)] obtain m' where
    perms: "computes_list st0 None perms (permutation_values A colv permv
      (chunks_of (cm_permutation_chunk_len m) (cm_permutation_columns m)) zs) m'" by blast
  have "list_all2 (\<lambda>c v. block_computes st0 None c v None) lookups (all_lookup_values A E (cs_lookups cs) ls)"
    using lookup_computations_compute [OF assms(5,6) data(1,2,5)] parts(3) gates by blast
  then have "computes_list st0 None (gates @ perms @ lookups) (constraint_values cs m A E colv permv zs ls) None"
    unfolding constraint_values_def
    using computes_append [OF computes_map2 computes_append [OF perms computes_map2]] gates by blast
  moreover let ?st = "st0\<lparr>ys_vars := (ys_vars st0)(numer \<mapsto> 0)\<rparr>"
  have none: "ys_vars st0 numer = None" using assms(7) by (simp add: numer_def)
  have "later st0 ?st" using none by (intro extends_later) (auto simp: extends_def map_le_def)
  then have "numer_state st0 0 ?st"
    using assms(4) by (auto simp: numer_state_def between_blocks_def holds_var_def field_env_def numer_def felt_simps)
  ultimately obtain st where "run_lines (block_lines blocks) (?st, []) = Some (st, [])"
    "numer_state st0 (foldl (\<lambda>acc v. acc * y + v) 0 (constraint_values cs m A E colv permv zs ls)) st"
    using numer_lines_run [OF _ none assms(8)] parts(4) by blast
  moreover have "run_line ''let quotient_eval_numer'' (st0, []) = Some (?st, [])"
    using run_line_decl [OF ident_ok_numer(1) none] by (simp add: fmt_decl_def numer_def)
  ultimately show ?thesis by (auto simp: numer_state_def numer_def)
qed

definition sample_verifier :: yul_state where
  "sample_verifier = \<lparr>
     ys_vars = [''r'' \<mapsto> of_nat fr_modulus, ''delta'' \<mapsto> 1, ''y'' \<mapsto> 1, ''INSTANCE_EVAL_MPTR'' \<mapsto> 0x40,
       ''BETA_MPTR'' \<mapsto> 0x40, ''GAMMA_MPTR'' \<mapsto> 0x40, ''THETA_MPTR'' \<mapsto> 0x40, ''X_MPTR'' \<mapsto> 0x40,
       ''L_0_MPTR'' \<mapsto> 0x40, ''L_LAST_MPTR'' \<mapsto> 0x40, ''L_BLIND_MPTR'' \<mapsto> 0x40],
     ys_memory = (\<lambda>_. 1), ys_calldata = (\<lambda>_. 1) \<rparr>"

definition sample_values :: argument_values where
  "sample_values = \<lparr>av_beta = 1, av_gamma = 1, av_theta = 1, av_x = 1, av_delta = 1, av_l_0 = 1,
     av_l_last = 1, av_l_blind = 1\<rparr>"

lemma sample_calldata:
  "a < 2 ^ 64 \<Longrightarrow> denotes_any sample_verifier (show_word (word_at Calldata a)) 1"
  using denotes_any_calldata [where a = a and st = sample_verifier] by (simp add: sample_verifier_def felt_simps)

lemma sample_mload:
  "ident_ok x \<Longrightarrow> ys_vars sample_verifier x = Some 0x40 \<Longrightarrow>
    denotes_any sample_verifier (''mload('' @ x @ '')'') 1"
  using denotes_any_mload [where x = x and st = sample_verifier and a = "0x40"] by (simp add: sample_verifier_def felt_simps)

lemma sample_verifier_env:
  "field_env sample_verifier" "fresh_locals sample_verifier" "free_names sample_verifier"
  "ys_vars sample_verifier ''quotient_eval_numer'' = None" "holds_var sample_verifier ''y'' 1"
  "holds_values sample_verifier sample_values"
proof -
  have ident: "ident_ok x" if "list_all ident_char x" "\<not> starts_with_digit x" "x \<noteq> []" for x
    using that by (simp add: ident_ok_def word_ok_def)
  show "field_env sample_verifier" by (simp add: field_env_def sample_verifier_def)
  show "fresh_locals sample_verifier" by (simp add: fresh_locals_def local_names_def sample_verifier_def)
  show "free_names sample_verifier"
    by (auto simp: free_names_def sample_verifier_def generated_name_def fixed_eval_var_def
        advice_eval_var_def column_eval_var_suffix)
  show "ys_vars sample_verifier ''quotient_eval_numer'' = None" by (simp add: sample_verifier_def)
  show "holds_var sample_verifier ''y'' 1" by (simp add: holds_var_def sample_verifier_def felt_simps)
  have "denotes_any sample_verifier ''delta'' 1"
    by (simp add: denotes_any_def denotes_def eval_atom word_ok_def ident_char_def starts_with_digit_def
        sample_verifier_def felt_simps)
  then show "holds_values sample_verifier sample_values"
    using sample_mload [of "''BETA_MPTR''"] sample_mload [of "''GAMMA_MPTR''"]
      sample_mload [of "''THETA_MPTR''"] sample_mload [of "''X_MPTR''"] sample_mload [of "''L_0_MPTR''"]
      sample_mload [of "''L_LAST_MPTR''"] sample_mload [of "''L_BLIND_MPTR''"]
    by (simp add: holds_values_def sample_values_def sample_verifier_def ident ident_char_def starts_with_digit_def)
qed

lemma sample_data_words:
  "da_permutation_z_evals sample_data = [(word_at Calldata 0x3e4, word_at Calldata 0x404, word_at Calldata 0x424),
     (word_at Calldata 0x444, word_at Calldata 0x464, word_at Calldata 0x484)]"
  "da_lookup_evals sample_data = [(word_at Calldata 0x484, word_at Calldata 0x4a4, word_at Calldata 0x4c4,
     word_at Calldata 0x4e4, word_at Calldata 0x504)]"
  "da_permutation_evals sample_data = [Column 0 (AnyAdvice 0) \<mapsto> word_at Calldata 0x3a4,
     Column 1 (AnyAdvice 0) \<mapsto> word_at Calldata 0x3c4]"
  unfolding sample_data_def data_new_Integer
  by (simp_all add: sample_meta_eq(2) lookup_eval_start_def z_eval_start_def eval_start_def proof_points_def
      hash_map_def upt_rec fun_upd_twist)

lemma sample_proof:
  "holds_proof sample_verifier sample_data sample_values sample_evals (\<lambda>_. 1) (\<lambda>_. 1)
    [(1, 1, 1), (1, 1, 1)] [(1, 1, 1, 1, 1)]"
proof -
  have inst: "denotes_any sample_verifier ''mload(INSTANCE_EVAL_MPTR)'' 1"
    using sample_mload [of "''INSTANCE_EVAL_MPTR''"]
    by (simp add: sample_verifier_def ident_ok_def word_ok_def ident_char_def starts_with_digit_def)
  have evals: "holds_evals_any sample_verifier sample_data sample_evals"
    using sample_calldata inst
    by (auto simp: holds_evals_any_def holds_evals_def sample_data_evals sample_evals_def
        show_word_def word_loc_def denotes_any_def)
  have cols: "holds_columns sample_verifier sample_data (\<lambda>_. 1) (\<lambda>_. 1)"
    using sample_calldata inst
    by (auto simp: holds_columns_def eval_column_def sample_data_words sample_data_evals show_word_def word_loc_def
        split: any.splits if_splits)
  show ?thesis
    using evals cols sample_verifier_env(6) sample_calldata
    by (simp add: holds_proof_def sample_data_words holds3_def holds5_def)
qed

lemma sample_sides:
  "\<exists>r. evaluate_side Fr sample_data [AdviceQ 0 0, AdviceQ 1 0] evaluator_reset = Some (r, evaluator_reset)
    \<and> snd r \<noteq> []"
  "\<exists>r. evaluate_side Fr sample_data [FixedQ 0 0, InstanceQ 0 0] evaluator_reset = Some (r, evaluator_reset)
    \<and> snd r \<noteq> []"
  by (simp_all add: evaluate_side_def evaluator_evaluate_def evaluator_handlers_def eval_column_def
      sample_data_evals init_var_def next_var_def evaluator_reset_def extend_lines_def Let_def)

lemma sample_blocks:
  obtains blocks where "quotient_eval_numer_computations sample_circuit sample_meta sample_data = Some blocks"
proof -
  obtain gates s where gates: "gate_computations Fr sample_circuit sample_data evaluator_reset = Some (gates, s)"
    using sample_gate_lines by (cases "gate_computations Fr sample_circuit sample_data evaluator_reset") auto
  then have s: "s = evaluator_reset"
    using gate_computations_each [where FF = Fr and cs = sample_circuit and d = sample_data] by simp
  obtain i t where sides: "evaluate_side Fr sample_data [AdviceQ 0 0, AdviceQ 1 0] evaluator_reset = Some (i, evaluator_reset)"
    "evaluate_side Fr sample_data [FixedQ 0 0, InstanceQ 0 0] evaluator_reset = Some (t, evaluator_reset)"
    "snd i \<noteq> []" "snd t \<noteq> []"
    using sample_sides by blast
  then obtain c where lookups: "lookup_computations Fr sample_circuit sample_data evaluator_reset = Some c"
    by (auto simp: lookup_computations_def sample_circuit_def sample_data_words lookup_lines_def
        lookup_product_def Let_def neq_Nil_conv)
  have "\<exists>c. permutation_computations sample_meta sample_data = Some c"
    by (simp add: permutation_computations_def sample_meta_eq(2) usize_sub_def chunks_def chunks_of.simps
        sample_data_words permutation_chunk_def enumerate_eq_zip upt_rec permutation_column_lhs_def
        permutation_column_rhs_def eval_column_def sample_data_evals)
  then have "\<exists>blocks. quotient_eval_numer_computations sample_circuit sample_meta sample_data = Some blocks"
    using gates lookups s by (cases c) (auto simp: quotient_eval_numer_computations_def)
  with that show ?thesis by blast
qed

lemma sample_constraint_values:
  "constraint_values sample_circuit sample_meta sample_values sample_evals (\<lambda>_. 1) (\<lambda>_. 1)
    [(1, 1, 1), (1, 1, 1)] [(1, 1, 1, 1, 1)] = [0, 0, 0, 0, 0, 0, 0, 0, 5, 0, 0]"
  by (simp add: constraint_values_def sample_circuit_def sample_meta_eq(2) sample_values_def sample_evals_def
      permutation_values_def chunks_of.simps chunk_value_def all_lookup_values_def lookup_values_def)

theorem quotient_numerator_correct_witness:
  "\<exists>blocks st. quotient_eval_numer_computations sample_circuit sample_meta sample_data = Some blocks
    \<and> run_lines (''let quotient_eval_numer'' # block_lines blocks) (sample_verifier, []) = Some (st, [])
    \<and> holds_var st ''quotient_eval_numer'' 5"
proof -
  obtain blocks where "quotient_eval_numer_computations sample_circuit sample_meta sample_data = Some blocks"
    by (rule sample_blocks)
  moreover from quotient_numerator_correct [OF sample_meta_eq(1) sample_data_eq this sample_verifier_env(1-5) sample_proof]
  show ?thesis using calculation by (auto simp: sample_constraint_values)
qed

end
