(* ===== verification/HaloScratch.thy ===== *)
theory HaloScratch
  imports HaloQuotient
begin

text \<open>
  The scratch memory of the BDFG21 scheme in front of the verifying key: the size that
  \<open>static_working_memory_size\<close> computes from data laid out for a key at another place
  (\<open>mock_vk_mptr\<close>) is right for the real place, because grouping the queries only asks which
  commitments are equal.
\<close>

section \<open>Moving the verifying key\<close>

fun shift_word :: "nat \<Rightarrow> evm_word \<Rightarrow> evm_word" where
  "shift_word k (EvmWord (Ptr Memory (Integer b))) = EvmWord (Ptr Memory (Integer (b + k)))"
| "shift_word k w = w"

definition shift_ec :: "nat \<Rightarrow> ec_point \<Rightarrow> ec_point" where
  "shift_ec k e = EcPoint (shift_word k (ec_x e)) (shift_word k (ec_y e))"

definition map_query :: "(ec_point \<Rightarrow> ec_point) \<Rightarrow> query \<Rightarrow> query" where
  "map_query f q = Query (f (q_comm q)) (q_rot q) (q_eval q)"

lemma map_query_sel [simp]:
  "q_comm (map_query f q) = f (q_comm q)" "q_rot (map_query f q) = q_rot q"
  "q_eval (map_query f q) = q_eval q"
  by (simp_all add: map_query_def)

lemma shift_word_inj: "shift_word k v = shift_word k w \<Longrightarrow> v = w"
  by (cases "(k, v)" rule: shift_word.cases; cases "(k, w)" rule: shift_word.cases) auto

lemma inj_shift_ec: "inj (shift_ec k)"
  by (rule injI) (metis ec_point.expand ec_point.inject shift_ec_def shift_word_inj)

lemma shift_ec_at [simp]:
  "shift_ec k (ec_at Calldata b) = ec_at Calldata b" "shift_ec k (ec_at Memory b) = ec_at Memory (b + k)"
  by (simp_all add: shift_ec_def ec_at_def word_at_def)

lemma those_map_query:
  assumes "\<And>x. f' x = map_option g (f x)"
  shows "those (map f' xs) = map_option (map g) (those (map f xs))"
  using assms by (induction xs) (auto simp: option.map_comp o_def split: option.splits)

lemma hash_map_map: "hash_map (zip ks (map f vs)) k = map_option f (hash_map (zip ks vs) k)"
proof -
  have "rev (zip ks (map f vs)) = map (\<lambda>(k, v). (k, f v)) (rev (zip ks vs))"
    by (simp add: zip_map2 rev_map)
  then show ?thesis by (simp add: hash_map_def map_of_map)
qed

definition moved_data :: "(ec_point \<Rightarrow> ec_point) \<Rightarrow> data \<Rightarrow> data \<Rightarrow> bool" where
  "moved_data f d d' \<longleftrightarrow> da_advice_comms d' = map f (da_advice_comms d)
     \<and> da_fixed_comms d' = map f (da_fixed_comms d)
     \<and> (\<forall>c. da_permutation_comms d' c = map_option f (da_permutation_comms d c))
     \<and> da_permutation_z_comms d' = map f (da_permutation_z_comms d)
     \<and> da_lookup_z_comms d' = map f (da_lookup_z_comms d)
     \<and> da_lookup_permuted_comms d' = map (map_prod f f) (da_lookup_permuted_comms d)
     \<and> da_random_comm d' = f (da_random_comm d)
     \<and> da_computed_quotient_comm d' = f (da_computed_quotient_comm d)
     \<and> da_advice_evals d' = da_advice_evals d \<and> da_fixed_evals d' = da_fixed_evals d
     \<and> da_permutation_evals d' = da_permutation_evals d
     \<and> da_permutation_z_evals d' = da_permutation_z_evals d
     \<and> da_lookup_evals d' = da_lookup_evals d \<and> da_random_eval d' = da_random_eval d
     \<and> da_computed_quotient_eval d' = da_computed_quotient_eval d"

lemma pairs_of_map: "pairs_of (map f xs) = map (map_prod f f) (pairs_of xs)"
  by (induction xs rule: pairs_of.induct) auto

lemma data_new_moved:
  assumes "data_new m vk (Ptr Memory (Integer v)) (Ptr Calldata (Integer p)) = Some d"
    and "data_new m vk (Ptr Memory (Integer (v + k))) (Ptr Calldata (Integer p)) = Some d'"
  shows "moved_data (shift_ec k) d d'"
proof -
  have "shift_ec k (EcPoint (EvmWord (Ptr Memory (Identifier x))) (EvmWord (Ptr Memory (Identifier y))))
      = EcPoint (EvmWord (Ptr Memory (Identifier x))) (EvmWord (Ptr Memory (Identifier y)))" for x y
    by (simp add: shift_ec_def)
  then show ?thesis
    using assms
    by (auto simp: moved_data_def data_new_Integer hash_map_map [symmetric] pairs_of_map [symmetric] o_def
        fixed_start_def algebra_simps)
qed

lemma at_index_map: "at_index (map f xs) i = map_option f (at_index xs i)"
  by (simp add: at_index_def)

lemma moved_dataD:
  assumes "moved_data f d d'"
  shows "da_advice_comms d' = map f (da_advice_comms d)" "da_fixed_comms d' = map f (da_fixed_comms d)"
    "da_permutation_comms d' c = map_option f (da_permutation_comms d c)"
    "da_permutation_z_comms d' = map f (da_permutation_z_comms d)"
    "da_lookup_z_comms d' = map f (da_lookup_z_comms d)"
    "da_lookup_permuted_comms d' = map (map_prod f f) (da_lookup_permuted_comms d)"
    "da_random_comm d' = f (da_random_comm d)"
    "da_computed_quotient_comm d' = f (da_computed_quotient_comm d)"
    "da_advice_evals d' = da_advice_evals d" "da_fixed_evals d' = da_fixed_evals d"
    "da_permutation_evals d' = da_permutation_evals d"
    "da_permutation_z_evals d' = da_permutation_z_evals d" "da_lookup_evals d' = da_lookup_evals d"
    "da_random_eval d' = da_random_eval d" "da_computed_quotient_eval d' = da_computed_quotient_eval d"
  using assms by (simp_all add: moved_data_def)

lemma column_query_moved:
  "(\<And>k. c' k = map_option f (c k)) \<Longrightarrow>
    column_query c' r e k = map_option (map_query f) (column_query c r e k)"
  by (cases "c k"; cases "e k") (simp_all add: column_query_def map_query_def)

lemma queries_moved:
  assumes "moved_data f d d'"
  shows "queries m d' = map_option (map (map_query f)) (queries m d)"
proof -
  note d = moved_dataD [OF assms]
  have advice: "those (map (column_query (\<lambda>q. at_index (da_advice_comms d') (fst q)) snd (da_advice_evals d')) ks)
      = map_option (map (map_query f))
        (those (map (column_query (\<lambda>q. at_index (da_advice_comms d) (fst q)) snd (da_advice_evals d)) ks))" for ks
    unfolding d by (intro those_map_query column_query_moved) (simp add: at_index_map)
  have fixed: "those (map (column_query (\<lambda>q. at_index (da_fixed_comms d') (fst q)) snd (da_fixed_evals d')) ks)
      = map_option (map (map_query f))
        (those (map (column_query (\<lambda>q. at_index (da_fixed_comms d) (fst q)) snd (da_fixed_evals d)) ks))" for ks
    unfolding d by (intro those_map_query column_query_moved) (simp add: at_index_map)
  have permutation: "those (map (column_query (da_permutation_comms d') (\<lambda>_. 0) (da_permutation_evals d')) ks)
      = map_option (map (map_query f))
        (those (map (column_query (da_permutation_comms d) (\<lambda>_. 0) (da_permutation_evals d)) ks))" for ks
    unfolding d(11) by (intro those_map_query column_query_moved) (rule d(3))
  show ?thesis
    unfolding queries_def those_column_queries Let_def unfolding advice fixed permutation unfolding d
    by (simp add: bind_map_option map_option_bind o_def zip_map1 zip_map2 map_concat split_def rev_map drop_map
        lookup_queries_def map_query_def cong: Option.bind_cong)
qed

section \<open>The shape of the rotation sets does not depend on the places of the commitments\<close>

definition map_comms :: "(ec_point \<Rightarrow> ec_point) \<Rightarrow> comm_queries \<Rightarrow> comm_queries" where
  "map_comms f = map (\<lambda>(c, qs). (f c, qs))"

lemma add_comm_query_moved:
  assumes "inj f"
  shows "add_comm_query (map_query f q) (map_comms f cqs) = map_option (map_comms f) (add_comm_query q cqs)"
  using injD [OF assms]
  by (induction q cqs rule: add_comm_query.induct)
    (auto simp: map_comms_def option.map_comp o_def)

definition map_set_comms :: "(ec_point \<Rightarrow> ec_point) \<Rightarrow> rotation_set \<Rightarrow> rotation_set" where
  "map_set_comms f s = s\<lparr>rs_comms := map f (rs_comms s)\<rparr>"

lemma add_rotation_set_moved:
  assumes "inj f"
  shows "add_rotation_set superset (map (map_set_comms f) sets) (f c, qs) =
    map (map_set_comms f) (add_rotation_set superset sets (c, qs))"
  using injD [OF assms]
  by (induction superset sets "(c, qs)" rule: add_rotation_set.induct)
    (auto simp: map_set_comms_def)

lemma try_foldl_map:
  assumes "\<And>s x. f' (h s) (g x) = map_option h (f s x)"
  shows "try_foldl f' (h s) (map g xs) = map_option h (try_foldl f s xs)"
  using assms by (induction xs arbitrary: s) (auto split: Option.bind_split)

lemma foldl_rotation_sets_moved:
  assumes "inj f"
  shows "foldl (add_rotation_set superset) (map (map_set_comms f) sets) (map_comms f cqs)
    = map (map_set_comms f) (foldl (add_rotation_set superset) sets cqs)"
  using add_rotation_set_moved [OF assms] by (induction cqs arbitrary: sets) (auto simp: map_comms_def)

lemma bdfg21_rotation_sets_moved:
  assumes "inj f"
  shows "bdfg21_rotation_sets (map (map_query f) qs)
    = map_option (\<lambda>(superset, sets). (superset, map (map_set_comms f) sets)) (bdfg21_rotation_sets qs)"
proof -
  have superset: "rotation_superset (map (map_query f) qs) = rotation_superset qs"
    by (simp add: rotation_superset_def foldl_map)
  have "try_foldl (\<lambda>cqs q. add_comm_query q cqs) (map_comms f []) (map (map_query f) qs)
      = map_option (map_comms f) (try_foldl (\<lambda>cqs q. add_comm_query q cqs) [] qs)"
    by (rule try_foldl_map) (rule add_comm_query_moved [OF assms])
  then have cqs: "try_foldl (\<lambda>cqs q. add_comm_query q cqs) [] (map (map_query f) qs)
      = map_option (map_comms f) (try_foldl (\<lambda>cqs q. add_comm_query q cqs) [] qs)"
    by (simp add: map_comms_def)
  show ?thesis
    using foldl_rotation_sets_moved [OF assms, of _ "[]"]
    by (cases "try_foldl (\<lambda>cqs q. add_comm_query q cqs) [] qs")
      (simp_all add: bdfg21_rotation_sets_def Let_def superset cqs)
qed

lemma static_size_moved:
  assumes "data_new m vk (Ptr Memory (Integer v)) (Ptr Calldata (Integer p)) = Some d"
    and "data_new m vk (Ptr Memory (Integer (v + k))) (Ptr Calldata (Integer p)) = Some d'"
  shows "pcs_static_working_memory_size scheme m d' = pcs_static_working_memory_size scheme m d"
proof -
  have qs: "queries m d' = map_option (map (map_query (shift_ec k))) (queries m d)"
    by (rule queries_moved [OF data_new_moved [OF assms]])
  have "num_coeffs (map (map_set_comms f) sets) = num_coeffs sets" for f sets
    by (simp add: num_coeffs_def map_set_comms_def o_def)
  then have "bdfg21_static_working_memory_size m d' = bdfg21_static_working_memory_size m d"
    unfolding bdfg21_static_working_memory_size_def qs
    by (cases "queries m d") (auto simp: bdfg21_rotation_sets_moved [OF inj_shift_ec]
        bind_map_option o_def split_def split: Option.bind_split)
  then show ?thesis
    by (cases scheme) (simp_all add: pcs_static_working_memory_size_def gwc19_static_working_memory_size_def)
qed

lemma static_size_any_place:
  assumes "data_new m vk (Ptr Memory (Integer v)) (Ptr Calldata (Integer p)) = Some d"
    and "data_new m vk (Ptr Memory (Integer v')) (Ptr Calldata (Integer p)) = Some d'"
  shows "pcs_static_working_memory_size scheme m d' = pcs_static_working_memory_size scheme m d"
  using static_size_moved [of m vk v p d "v' - v" d'] static_size_moved [of m vk v' p d' "v - v'" d] assms
  by (cases "v \<le> v'") auto

section \<open>The scratch memory of the BDFG21 scheme\<close>

definition words_from :: "nat \<Rightarrow> nat \<Rightarrow> evm_word list" where
  "words_from a n = map (\<lambda>i. word_at Memory (a + 32 * i)) [0..<n]"

lemma length_words_from [simp]: "length (words_from a n) = n"
  by (simp add: words_from_def)

lemma words_from_append: "words_from a m @ words_from (a + 32 * m) n = words_from a (m + n)"
  by (simp add: words_from_def words_append)

lemma set_words_from: "w \<in> set (words_from a n) \<Longrightarrow> \<exists>b. w = word_at Memory b \<and> a \<le> b \<and> b + 32 \<le> a + 32 * n"
  by (auto simp: words_from_def)

lemma distinct_words_from: "distinct (words_from a n)"
  by (simp add: words_from_def distinct_map inj_on_def)

lemma word_range_from: "word_range (Ptr Memory (Integer a)) n = Some (words_from a n)"
  by (simp add: words_from_def)

lemma coeff_words_from:
  "\<exists>cs. coeff_words (Ptr Memory (Integer a)) sets = Some cs \<and> concat cs = words_from a (num_coeffs sets)
    \<and> map length cs = map (length \<circ> rs_rots) sets"
proof (induction sets arbitrary: a)
  case Nil
  then show ?case by (simp add: num_coeffs_def words_from_def)
next
  case (Cons s sets)
  from Cons [of "a + 32 * length (rs_rots s)"] obtain cs where
    "coeff_words (Ptr Memory (Integer (a + 32 * length (rs_rots s)))) sets = Some cs"
    "concat cs = words_from (a + 32 * length (rs_rots s)) (num_coeffs sets)"
    "map length cs = map (length \<circ> rs_rots) sets" by blast
  moreover have "num_coeffs (s # sets) = length (rs_rots s) + num_coeffs sets" by (simp add: num_coeffs_def)
  ultimately show ?case
    by (simp add: word_range_from words_from_append del: word_range_Integer)
qed

text \<open>The words behind the ones that are inverted.\<close>

definition later_words :: "bdfg21_locals \<Rightarrow> evm_word list" where
  "later_words l = map snd (bl_points l) @ map snd (bl_mu_minus_points l) @ [bl_vanishing_0 l]
     @ bl_diffs l @ bl_r_evals l @ bl_sums l"

lemma bdfg21_locals_layout:
  assumes "bdfg21_locals_of m d = Some l" and "queries m d = Some qs"
    and "bdfg21_rotation_sets qs = Some (superset, sets)"
  shows "bl_superset l = superset" "bl_sets l = sets"
    "bl_diff_0 l # concat (bl_coeffs l) = words_from 0 (1 + num_coeffs sets)"
    "bl_first_batch_invert_end l = Ptr Memory (Integer (32 * (1 + num_coeffs sets)))"
    "bl_second_batch_invert_end l = Ptr Memory (Integer (32 * length sets))"
    "bl_free_mptr l = Ptr Memory (Integer (32 * (2 * (1 + num_coeffs sets) + 6)))"
    "later_words l = words_from (32 * (2 * (1 + num_coeffs sets) + 6))
      (2 * length superset + 1 + 3 * length sets)"
    "map length (bl_coeffs l) = map (length \<circ> rs_rots) sets"
proof -
  let ?f = "32 * (2 * (1 + num_coeffs sets) + 6)"
  obtain cs where cs: "coeff_words (Ptr Memory (Integer 32)) sets = Some cs"
    "concat cs = words_from 32 (num_coeffs sets)" "map length cs = map (length \<circ> rs_rots) sets"
    using coeff_words_from by blast
  have sel: "bl_superset l = superset \<and> bl_sets l = sets \<and> bl_diff_0 l = word_at Memory 0
     \<and> bl_coeffs l = cs \<and> bl_first_batch_invert_end l = Ptr Memory (Integer (32 * (1 + num_coeffs sets)))
     \<and> bl_second_batch_invert_end l = Ptr Memory (Integer (32 * length sets))
     \<and> bl_free_mptr l = Ptr Memory (Integer ?f)
     \<and> map snd (bl_points l) = words_from ?f (length superset)
     \<and> map snd (bl_mu_minus_points l) = words_from (?f + 32 * length superset) (length superset)
     \<and> bl_vanishing_0 l = word_at Memory (?f + 32 * (length superset + length superset))
     \<and> bl_diffs l = words_from (?f + 32 * (length superset + length superset + 1)) (length sets)
     \<and> bl_r_evals l = words_from (?f + 32 * (length superset + length superset + 1 + length sets)) (length sets)
     \<and> bl_sums l = words_from (?f + 32 * (length superset + length superset + 1 + length sets + length sets)) (length sets)"
    using assms cs(1)
    by (auto simp: bdfg21_locals_of_def bind_eq_Some_conv word_range_from word_at_def algebra_simps simp del: word_range_Integer)
  show "bl_superset l = superset" "bl_sets l = sets"
    "bl_first_batch_invert_end l = Ptr Memory (Integer (32 * (1 + num_coeffs sets)))"
    "bl_second_batch_invert_end l = Ptr Memory (Integer (32 * length sets))"
    "bl_free_mptr l = Ptr Memory (Integer ?f)"
    "map length (bl_coeffs l) = map (length \<circ> rs_rots) sets"
    using sel cs(3) by simp_all
  have "words_from ?f (2 * length superset + 1 + 3 * length sets)
      = words_from ?f (length superset + (length superset + (1 + (length sets + (length sets + length sets)))))"
    by (rule arg_cong [of _ _ "words_from ?f"]) simp
  also have "\<dots> = later_words l"
    unfolding later_words_def words_from_append [symmetric] using sel
    by (simp add: words_from_def add.assoc distrib_left)
  finally show "later_words l = words_from ?f (2 * length superset + 1 + 3 * length sets)" by simp
  have "bl_diff_0 l # concat (bl_coeffs l) = words_from 0 1 @ words_from (0 + 32 * 1) (num_coeffs sets)"
    using sel cs(2) by (simp add: words_from_def)
  then show "bl_diff_0 l # concat (bl_coeffs l) = words_from 0 (1 + num_coeffs sets)"
    unfolding words_from_append .
qed

lemma num_sets_le: "\<forall>s\<in>set sets. rs_rots s \<noteq> [] \<Longrightarrow> length sets \<le> num_coeffs sets"
proof (induction sets)
  case (Cons s sets)
  then have "1 \<le> length (rs_rots s)" by (cases "rs_rots s") auto
  with Cons show ?case by (simp add: num_coeffs_def)
qed (simp add: num_coeffs_def)

lemma bdfg21_sets_not_empty:
  assumes "bdfg21_rotation_sets qs = Some (superset, sets)"
  shows "\<forall>s\<in>set sets. rs_rots s \<noteq> []"
proof -
  obtain cqs where cqs: "try_foldl (\<lambda>cqs q. add_comm_query q cqs) [] qs = Some cqs"
    "sets = foldl (add_rotation_set superset) [] cqs"
    using assms by (auto simp: bdfg21_rotation_sets_def Let_def bind_eq_Some_conv)
  have "comm_queries_ok cqs" using comm_queries_correct [of qs] cqs(1) by simp
  moreover have "rotation_sets_ok superset []" by (simp add: rotation_sets_ok_def)
  ultimately have "rotation_sets_ok superset sets"
    unfolding cqs(2) using rotation_sets_of_comms [of cqs superset "[]"] by simp
  then show ?thesis by (auto simp: rotation_sets_ok_def rotation_set_ok_def)
qed

text \<open>
  C5. The scratch memory of the BDFG21 scheme fits in front of the verifying key: although its size
  is computed for a key that lies elsewhere, the words the generated code uses are pairwise
  different and end below the key. The words to be inverted are exactly those below the end that is
  given to \<open>batch_invert\<close>, and in both uses of it the room it takes behind that end (as much again
  and six words) ends before the first word that is still needed.
\<close>

theorem bdfg21_scratch_memory:
  assumes "static_working_memory_size g vk (Ptr Calldata (Integer p)) = Some vk_start"
    and "sg_scheme g = Bdfg21"
    and "data_new (sg_meta g) vk (Ptr Memory (Integer vk_start)) (Ptr Calldata (Integer p)) = Some d"
    and "bdfg21_locals_of (sg_meta g) d = Some l"
  shows "\<exists>a e1 e2. bl_free_mptr l = Ptr Memory (Integer a)
    \<and> bl_first_batch_invert_end l = Ptr Memory (Integer e1)
    \<and> bl_second_batch_invert_end l = Ptr Memory (Integer e2)
    \<and> bl_diff_0 l # concat (bl_coeffs l) = map (\<lambda>i. word_at Memory (0x20 * i)) [0..<e1 div 0x20]
    \<and> e2 \<le> e1 \<and> 2 * e1 + 6 * 0x20 \<le> a
    \<and> distinct (later_words l)
    \<and> (\<forall>w\<in>set (later_words l). \<exists>b. w = word_at Memory b \<and> a \<le> b \<and> b + 0x20 \<le> vk_start)"
proof -
  obtain mock n where mock: "data_new (sg_meta g) vk (Ptr Memory (Integer 0x100000)) (Ptr Calldata (Integer p)) = Some mock"
    "pcs_static_working_memory_size Bdfg21 (sg_meta g) mock = Some n" "n * 32 \<le> vk_start"
    using assms(1,2) by (auto simp: static_working_memory_size_def bind_eq_Some_conv max_of_def)
  then have n: "pcs_static_working_memory_size Bdfg21 (sg_meta g) d = Some n"
    using static_size_any_place [OF mock(1) assms(3)] by simp
  obtain qs superset sets where qs: "queries (sg_meta g) d = Some qs"
    "bdfg21_rotation_sets qs = Some (superset, sets)"
    using assms(4) by (auto simp: bdfg21_locals_of_def bind_eq_Some_conv)
  then have size: "2 * (1 + num_coeffs sets) + 6 + 2 * length superset + 1 + 3 * length sets = n"
    using n by (simp add: pcs_static_working_memory_size_def bdfg21_static_working_memory_size_def)
  note l = bdfg21_locals_layout [OF assms(4) qs]
  have "length sets \<le> num_coeffs sets" by (rule num_sets_le [OF bdfg21_sets_not_empty [OF qs(2)]])
  moreover have "\<exists>b. w = word_at Memory b \<and> 32 * (2 * (1 + num_coeffs sets) + 6) \<le> b \<and> b + 0x20 \<le> vk_start"
    if "w \<in> set (later_words l)" for w
    using set_words_from [OF that [unfolded l(7)]] size mock(3) by fastforce
  ultimately show ?thesis
  proof (intro exI conjI)
    show "bl_free_mptr l = Ptr Memory (Integer (32 * (2 * (1 + num_coeffs sets) + 6)))" by (rule l(6))
    show "bl_first_batch_invert_end l = Ptr Memory (Integer (32 * (1 + num_coeffs sets)))" by (rule l(4))
    show "bl_second_batch_invert_end l = Ptr Memory (Integer (32 * length sets))" by (rule l(5))
    show "bl_diff_0 l # concat (bl_coeffs l) =
        map (\<lambda>i. word_at Memory (0x20 * i)) [0..<32 * (1 + num_coeffs sets) div 0x20]"
      unfolding l(3) words_from_def by simp
    show "distinct (later_words l)" unfolding l(7) by (rule distinct_words_from)
  qed simp_all
qed

definition sample_generator :: "(unit, unit) solidity_generator" where
  "sample_generator = \<lparr>
     sg_params = \<lparr>kp_g = [()], kp_g2 = (), kp_s_g2 = ()\<rparr>,
     sg_vk = \<lparr>vkey_cs = sample_circuit, vkey_domain = \<lparr>ed_k = 6, ed_omega = 1, ed_omega_inv = 1\<rparr>,
       vkey_transcript_repr = 0, vkey_fixed_commitments = [()], vkey_permutation_commitments = [(), ()]\<rparr>,
     sg_scheme = Bdfg21, sg_num_instances = 1, sg_acc_encoding = None, sg_meta = sample_meta\<rparr>"

lemma sample_rotation_sets:
  assumes "data_new sample_meta sample_vk (Ptr Memory (Integer v)) (Ptr Calldata (Integer 0x84)) = Some d"
  shows "\<exists>qs sets. queries sample_meta d = Some qs \<and> bdfg21_rotation_sets qs = Some ([-6, -1, 0, 1], sets)
    \<and> map (length \<circ> rs_rots) sets = [2, 1, 3, 2]"
proof -
  have v: "fixed_start sample_vk v = v + 672" "length (vk_fixed_comms sample_vk) = 1"
    by (simp_all add: fixed_start_def sample_vk_def)
  show ?thesis
    using assms unfolding queries_def data_new_Integer
    by (clarsimp simp: sample_meta_eq(2) hash_map_def at_index_def upt_rec v eval_start_def proof_points_def
        z_eval_start_def lookup_eval_start_def lookup_queries_def)
      (simp add: bdfg21_rotation_sets_def rotation_superset_def insort_insert_key_def ec_at_def word_at_def)
qed

lemma sample_static_size:
  "static_working_memory_size sample_generator sample_vk (Ptr Calldata (Integer 0x84)) = Some 0x5a0"
proof -
  obtain mock where mock: "data_new sample_meta sample_vk (Ptr Memory (Integer 0x100000)) (Ptr Calldata (Integer 0x84)) = Some mock"
    by (simp add: data_new_Integer)
  from sample_rotation_sets [OF mock] have
    "pcs_static_working_memory_size Bdfg21 sample_meta mock = Some 45"
    by (auto simp: pcs_static_working_memory_size_def bdfg21_static_working_memory_size_def num_coeffs_def o_def)
  with mock show ?thesis
    by (simp add: static_working_memory_size_def sample_generator_def max_of_def sample_meta_eq(2)
        num_advices_def vk_len_def sample_vk_def)
qed

lemma sample_locals:
  obtains d l where
    "data_new sample_meta sample_vk (Ptr Memory (Integer 0x5a0)) (Ptr Calldata (Integer 0x84)) = Some d"
    "bdfg21_locals_of sample_meta d = Some l" "bl_superset l = [-6, -1, 0, 1]" "length (bl_sets l) = 4"
    "num_coeffs (bl_sets l) = 8"
proof -
  obtain d where d: "data_new sample_meta sample_vk (Ptr Memory (Integer 0x5a0)) (Ptr Calldata (Integer 0x84)) = Some d"
    "\<exists>a. da_w_cptr d = Ptr Calldata (Integer a)"
    by (simp add: data_new_Integer)
  from sample_rotation_sets [OF d(1)] obtain qs sets where qs: "queries sample_meta d = Some qs"
    "bdfg21_rotation_sets qs = Some ([-6, -1, 0, 1], sets)" "map (length \<circ> rs_rots) sets = [2, 1, 3, 2]"
    by (elim exE conjE)
  obtain cs where "coeff_words (Ptr Memory (Integer 32)) sets = Some cs"
    using coeff_words_from [of 32 sets] by auto
  with d(2) qs(1,2) obtain l where l: "bdfg21_locals_of sample_meta d = Some l"
    by (auto simp: bdfg21_locals_of_def first_of_def last_of_def)
  moreover from qs(3) have "length sets = 4" "num_coeffs sets = 8"
    by (auto dest: arg_cong [of _ _ length] simp: num_coeffs_def o_def)
  ultimately show ?thesis
    using that [OF d(1) l] bdfg21_locals_layout [OF l qs(1,2)] by simp
qed

theorem bdfg21_scratch_memory_witness:
  "\<exists>d l a. static_working_memory_size sample_generator sample_vk (Ptr Calldata (Integer 0x84)) = Some 0x5a0
    \<and> data_new sample_meta sample_vk (Ptr Memory (Integer 0x5a0)) (Ptr Calldata (Integer 0x84)) = Some d
    \<and> bdfg21_locals_of sample_meta d = Some l \<and> bl_free_mptr l = Ptr Memory (Integer a)
    \<and> (\<forall>w\<in>set (later_words l). \<exists>b. w = word_at Memory b \<and> a \<le> b \<and> b + 0x20 \<le> 0x5a0)"
proof -
  obtain d l where dl:
    "data_new sample_meta sample_vk (Ptr Memory (Integer 0x5a0)) (Ptr Calldata (Integer 0x84)) = Some d"
    "bdfg21_locals_of sample_meta d = Some l" by (rule sample_locals)
  have g: "sg_scheme sample_generator = Bdfg21" "sg_meta sample_generator = sample_meta"
    by (simp_all add: sample_generator_def)
  from bdfg21_scratch_memory [OF sample_static_size g(1), unfolded g(2), OF dl] sample_static_size dl
  show ?thesis by blast
qed

end
