(* ===== verification/Bindings.thy ===== *)
theory Bindings
  imports CallData
begin

text \<open>
  The crate \<open>shielder_bindings\<close>: what JavaScript and mobile clients call. Arguments and results are byte
  vectors; the circuits, their constants, Poseidon, the proof system and its keys belong to other packages
  and are parameters, gathered in \<open>bindings_env\<close> and, per circuit, in \<open>prover_api\<close>. The locale
  \<open>circuit_binding\<close> is the contract of a circuit's wrapper: the public inputs it hands out as bytes are read
  back by its verifier. Randomness is part of \<open>pa_generate_proof\<close>.
\<close>

section \<open>Environment\<close>

record 'f bindings_env =
  be_circuits :: "'f circuits"
  be_arity :: nat
  be_note_tree_height :: nat
  be_poseidon_rate :: nat
  be_poseidon :: "'f list \<Rightarrow> 'f"
  be_generate_user_id :: "bytes \<Rightarrow> 'f"
  be_parse_u256 :: "string \<Rightarrow> u256 option"

abbreviation be_field :: "'f bindings_env \<Rightarrow> 'f field_api" where
  "be_field B \<equiv> c_field (be_circuits B)"

text \<open>One circuit of the circuits package: its instances in the order of serialisation, its keys and proofs.\<close>

record ('f, 'k, 'i, 'params, 'pk, 'vk) prover_api =
  pa_instances :: "'i list"
  pa_unmarshall_params :: "bytes \<Rightarrow> 'params option"
  pa_unmarshall_pk :: "bytes \<Rightarrow> (u32 \<times> 'pk) option"
  pa_get_vk :: "'pk \<Rightarrow> 'vk"
  pa_setup_params :: 'params
  pa_generate_keys :: "'params \<Rightarrow> ('params \<times> u32 \<times> 'pk \<times> 'vk) option"
  pa_generate_proof :: "'params \<Rightarrow> 'pk \<Rightarrow> 'k \<Rightarrow> 'f list \<Rightarrow> bytes"
  pa_verify :: "'params \<Rightarrow> 'vk \<Rightarrow> bytes \<Rightarrow> 'f list \<Rightarrow> (unit, string) result"

section \<open>Reading field elements and paths\<close>

definition vec_to_f :: "'f field_api \<Rightarrow> bytes \<Rightarrow> ('f, 'e) result" where
  "vec_to_f FF v = expect_ok (bytes_to_field FF v) ''failed to convert to F''"

text \<open>\<open>chunks_exact\<close>: full chunks only; a remainder is left out.\<close>

function chunks_exact :: "nat \<Rightarrow> 'a list \<Rightarrow> 'a list list" where
  "chunks_exact n xs =
     (if n = 0 \<or> length xs < n then [] else take n xs # chunks_exact n (drop n xs))"
  by pat_completeness auto
termination
  by (relation "measure (length \<circ> snd)") auto

declare chunks_exact.simps [simp del]

text \<open>The nested loops of \<open>vec_to_path\<close>: each element takes the next chunk, or keeps
  the default when none is left.\<close>

fun read_row :: "'f field_api \<Rightarrow> 'f list \<Rightarrow> bytes list \<Rightarrow> ('f list \<times> bytes list, 'e) result" where
  "read_row FF [] iter = Ok ([], iter)"
| "read_row FF (elem # row) [] = map_ok (\<lambda>(row', iter). (elem # row', iter)) (read_row FF row [])"
| "read_row FF (elem # row) (chunk # iter) =
     and_then (expect (ff_from_repr FF chunk) ''failed to convert to F'') (\<lambda>x.
     map_ok (\<lambda>(row', iter). (x # row', iter)) (read_row FF row iter))"

fun read_rows :: "'f field_api \<Rightarrow> 'f list list \<Rightarrow> bytes list \<Rightarrow> ('f list list, 'e) result" where
  "read_rows FF [] iter = Ok []"
| "read_rows FF (row # rows) iter =
     and_then (read_row FF row iter) (\<lambda>(row', iter). map_ok (\<lambda>rows'. row' # rows') (read_rows FF rows iter))"

definition vec_to_path :: "'f bindings_env \<Rightarrow> bytes \<Rightarrow> ('f list list, 'e) result" where
  "vec_to_path B v =
     (if be_note_tree_height B * be_arity B * 32 \<noteq> length v
      then Panic ''Vector length must be divisible by TREE_HEIGHT * ARITY * F::size()''
      else
        let result = replicate (be_note_tree_height B) (replicate (be_arity B) (u256_to_field (be_field B) 0))
        in read_rows (be_field B) result (chunks_exact 32 v))"

section \<open>Keys, proving and verifying\<close>

record ('params, 'pk, 'vk) circuit =
  cc_params :: 'params
  cc_pk :: 'pk
  cc_vk :: 'vk
  cc_k :: u32

datatype verification_error = VerificationFailed string

definition decode_from_bytes ::
  "('f, 'k, 'i, 'params, 'pk, 'vk) prover_api \<Rightarrow> bytes \<Rightarrow> bytes \<Rightarrow> ('params \<times> 'pk \<times> u32, 'e) result" where
  "decode_from_bytes P params_buf pk_buf =
     and_then (expect (pa_unmarshall_params P params_buf) ''Failed to unmarshall params'') (\<lambda>params.
     and_then (expect (pa_unmarshall_pk P pk_buf) ''Failed to unmarshall pk'') (\<lambda>(k, pk).
     Ok (params, pk, k)))"

definition circuit_new ::
  "('f, 'k, 'i, 'params, 'pk, 'vk) prover_api \<Rightarrow> (('params, 'pk, 'vk) circuit, 'e) result" where
  "circuit_new P =
     and_then (expect (pa_generate_keys P (pa_setup_params P)) ''keys should not fail to generate'')
       (\<lambda>(params, k, pk, vk). Ok \<lparr> cc_params = params, cc_pk = pk, cc_vk = vk, cc_k = k \<rparr>)"

definition new_pronto ::
  "('f, 'k, 'i, 'params, 'pk, 'vk) prover_api \<Rightarrow> bytes \<Rightarrow> bytes \<Rightarrow> (('params, 'pk, 'vk) circuit, 'e) result" where
  "new_pronto P params_buf pk_buf =
     and_then (decode_from_bytes P params_buf pk_buf) (\<lambda>(params, pk, k).
       let vk = pa_get_vk P pk
       in Ok \<lparr> cc_params = params, cc_pk = pk, cc_vk = vk, cc_k = k \<rparr>)"

text \<open>The public inputs \<open>inp\<close> of the values are serialised in the order of the instances.\<close>

definition circuit_prove ::
  "('f, 'k, 'i, 'params, 'pk, 'vk) prover_api \<Rightarrow> ('k \<Rightarrow> 'i \<Rightarrow> 'f) \<Rightarrow> ('params, 'pk, 'vk) circuit \<Rightarrow> 'k \<Rightarrow> bytes" where
  "circuit_prove P inp c values =
     pa_generate_proof P (cc_params c) (cc_pk c) values (map (inp values) (pa_instances P))"

definition circuit_verify ::
  "('f, 'k, 'i, 'params, 'pk, 'vk) prover_api \<Rightarrow> ('params, 'pk, 'vk) circuit \<Rightarrow> ('i \<Rightarrow> ('f, string) result)
     \<Rightarrow> bytes \<Rightarrow> (unit, string) result" where
  "circuit_verify P c pub_input_provider prf =
     and_then (try_map pub_input_provider (pa_instances P)) (\<lambda>inputs.
       pa_verify P (cc_params c) (cc_vk c) prf inputs)"

section \<open>The new account circuit\<close>

text \<open>The arguments of the exported functions are gathered in records, in their order; a conversion
  that fails panics.\<close>

record new_account_args =
  naa_id :: bytes
  naa_nullifier :: bytes
  naa_initial_deposit :: bytes
  naa_commitment :: bytes
  naa_token_address :: bytes
  naa_encryption_salt :: bytes
  naa_mac_salt :: bytes
  naa_anonymity_revoker_public_key_x :: bytes
  naa_anonymity_revoker_public_key_y :: bytes

record new_account_pub_inputs_bytes =
  nap_hashed_note :: bytes
  nap_prenullifier :: bytes
  nap_initial_deposit :: bytes
  nap_commitment :: bytes
  nap_token_address :: bytes
  nap_anonymity_revoker_public_key_x :: bytes
  nap_anonymity_revoker_public_key_y :: bytes
  nap_sym_key_encryption_1_x :: bytes
  nap_sym_key_encryption_1_y :: bytes
  nap_sym_key_encryption_2_x :: bytes
  nap_sym_key_encryption_2_y :: bytes
  nap_mac_salt :: bytes
  nap_mac_commitment :: bytes

definition new_account_of_args ::
  "'f bindings_env \<Rightarrow> new_account_args \<Rightarrow> ('f new_account_knowledge, unit) result" where
  "new_account_of_args B a =
     and_then (vec_to_f (be_field B) (naa_id a)) (\<lambda>uid.
     and_then (vec_to_f (be_field B) (naa_nullifier a)) (\<lambda>nullifier.
     and_then (vec_to_f (be_field B) (naa_initial_deposit a)) (\<lambda>initial_deposit.
     and_then (vec_to_f (be_field B) (naa_commitment a)) (\<lambda>commitment.
     and_then (vec_to_f (be_field B) (naa_token_address a)) (\<lambda>token_address.
     and_then (vec_to_f (be_field B) (naa_encryption_salt a)) (\<lambda>encryption_salt.
     and_then (vec_to_f (be_field B) (naa_mac_salt a)) (\<lambda>mac_salt.
     and_then (vec_to_f (be_field B) (naa_anonymity_revoker_public_key_x a)) (\<lambda>anonymity_revoker_public_key_x.
     and_then (vec_to_f (be_field B) (naa_anonymity_revoker_public_key_y a)) (\<lambda>anonymity_revoker_public_key_y.
     Ok \<lparr>
       nk_id = uid,
       nk_nullifier = nullifier,
       nk_initial_deposit = initial_deposit,
       nk_commitment = commitment,
       nk_token_address = token_address,
       nk_encryption_salt = c_le_bits (be_circuits B) encryption_salt,
       nk_anonymity_revoker_public_key =
         \<lparr> gp_x = anonymity_revoker_public_key_x, gp_y = anonymity_revoker_public_key_y \<rparr>,
       nk_mac_salt = mac_salt \<rparr>)))))))))"

definition new_account_bytes_of ::
  "'f field_api \<Rightarrow> (new_account_instance \<Rightarrow> 'f) \<Rightarrow> new_account_pub_inputs_bytes" where
  "new_account_bytes_of FF public_input = \<lparr>
     nap_hashed_note = field_to_bytes FF (public_input NA_HashedNote),
     nap_prenullifier = field_to_bytes FF (public_input NA_Prenullifier),
     nap_initial_deposit = field_to_bytes FF (public_input NA_InitialDeposit),
     nap_commitment = field_to_bytes FF (public_input NA_Commitment),
     nap_token_address = field_to_bytes FF (public_input NA_TokenAddress),
     nap_anonymity_revoker_public_key_x = field_to_bytes FF (public_input NA_AnonymityRevokerPublicKeyX),
     nap_anonymity_revoker_public_key_y = field_to_bytes FF (public_input NA_AnonymityRevokerPublicKeyY),
     nap_sym_key_encryption_1_x = field_to_bytes FF (public_input NA_EncryptedKeyCiphertext1X),
     nap_sym_key_encryption_1_y = field_to_bytes FF (public_input NA_EncryptedKeyCiphertext1Y),
     nap_sym_key_encryption_2_x = field_to_bytes FF (public_input NA_EncryptedKeyCiphertext2X),
     nap_sym_key_encryption_2_y = field_to_bytes FF (public_input NA_EncryptedKeyCiphertext2Y),
     nap_mac_salt = field_to_bytes FF (public_input NA_MacSalt),
     nap_mac_commitment = field_to_bytes FF (public_input NA_MacCommitment) \<rparr>"

definition new_account_prove ::
  "'f bindings_env \<Rightarrow> ('f, 'f new_account_knowledge, new_account_instance, 'params, 'pk, 'vk) prover_api
     \<Rightarrow> ('params, 'pk, 'vk) circuit \<Rightarrow> new_account_args \<Rightarrow> (bytes, unit) result" where
  "new_account_prove B P c a =
     map_ok (circuit_prove P (c_new_account (be_circuits B)) c) (new_account_of_args B a)"

fun new_account_input_bytes :: "new_account_pub_inputs_bytes \<Rightarrow> new_account_instance \<Rightarrow> bytes" where
  "new_account_input_bytes p NA_HashedNote = nap_hashed_note p"
| "new_account_input_bytes p NA_Prenullifier = nap_prenullifier p"
| "new_account_input_bytes p NA_InitialDeposit = nap_initial_deposit p"
| "new_account_input_bytes p NA_Commitment = nap_commitment p"
| "new_account_input_bytes p NA_TokenAddress = nap_token_address p"
| "new_account_input_bytes p NA_AnonymityRevokerPublicKeyX = nap_anonymity_revoker_public_key_x p"
| "new_account_input_bytes p NA_AnonymityRevokerPublicKeyY = nap_anonymity_revoker_public_key_y p"
| "new_account_input_bytes p NA_EncryptedKeyCiphertext1X = nap_sym_key_encryption_1_x p"
| "new_account_input_bytes p NA_EncryptedKeyCiphertext1Y = nap_sym_key_encryption_1_y p"
| "new_account_input_bytes p NA_EncryptedKeyCiphertext2X = nap_sym_key_encryption_2_x p"
| "new_account_input_bytes p NA_EncryptedKeyCiphertext2Y = nap_sym_key_encryption_2_y p"
| "new_account_input_bytes p NA_MacSalt = nap_mac_salt p"
| "new_account_input_bytes p NA_MacCommitment = nap_mac_commitment p"

definition new_account_verify ::
  "'f bindings_env \<Rightarrow> ('f, 'f new_account_knowledge, new_account_instance, 'params, 'pk, 'vk) prover_api
     \<Rightarrow> ('params, 'pk, 'vk) circuit \<Rightarrow> new_account_pub_inputs_bytes \<Rightarrow> bytes \<Rightarrow> (unit, verification_error) result" where
  "new_account_verify B P c p prf =
     map_err VerificationFailed (circuit_verify P c (\<lambda>i. vec_to_f (be_field B) (new_account_input_bytes p i)) prf)"

definition new_account_pub_inputs ::
  "'f bindings_env \<Rightarrow> new_account_args \<Rightarrow> (new_account_pub_inputs_bytes, unit) result" where
  "new_account_pub_inputs B a =
     map_ok (\<lambda>knowledge. new_account_bytes_of (be_field B) (c_new_account (be_circuits B) knowledge))
       (new_account_of_args B a)"

section \<open>The deposit circuit\<close>

record deposit_args =
  dpa_id :: bytes
  dpa_nullifier_old :: bytes
  dpa_account_balance_old :: bytes
  dpa_token_address :: bytes
  dpa_path :: bytes
  dpa_value :: bytes
  dpa_commitment :: bytes
  dpa_nullifier_new :: bytes
  dpa_mac_salt :: bytes

record deposit_pub_inputs_bytes =
  dpp_merkle_root :: bytes
  dpp_h_nullifier_old :: bytes
  dpp_h_note_new :: bytes
  dpp_value :: bytes
  dpp_commitment :: bytes
  dpp_token_address :: bytes
  dpp_mac_salt :: bytes
  dpp_mac_commitment :: bytes

definition deposit_of_args ::
  "'f bindings_env \<Rightarrow> deposit_args \<Rightarrow> ('f deposit_knowledge, unit) result" where
  "deposit_of_args B a =
     and_then (vec_to_f (be_field B) (dpa_id a)) (\<lambda>uid.
     and_then (vec_to_f (be_field B) (dpa_nullifier_old a)) (\<lambda>nullifier_old.
     and_then (vec_to_f (be_field B) (dpa_account_balance_old a)) (\<lambda>account_old_balance.
     and_then (vec_to_f (be_field B) (dpa_token_address a)) (\<lambda>token_address.
     and_then (vec_to_path B (dpa_path a)) (\<lambda>merkle_path.
     and_then (vec_to_f (be_field B) (dpa_value a)) (\<lambda>deposit_value.
     and_then (vec_to_f (be_field B) (dpa_commitment a)) (\<lambda>commitment.
     and_then (vec_to_f (be_field B) (dpa_nullifier_new a)) (\<lambda>nullifier_new.
     and_then (vec_to_f (be_field B) (dpa_mac_salt a)) (\<lambda>mac_salt.
     Ok \<lparr>
       dk_id = uid,
       dk_nullifier_old = nullifier_old,
       dk_account_old_balance = account_old_balance,
       dk_commitment = commitment,
       dk_token_address = token_address,
       dk_path = merkle_path,
       dk_deposit_value = deposit_value,
       dk_nullifier_new = nullifier_new,
       dk_mac_salt = mac_salt \<rparr>)))))))))"

definition deposit_bytes_of ::
  "'f field_api \<Rightarrow> (deposit_instance \<Rightarrow> 'f) \<Rightarrow> deposit_pub_inputs_bytes" where
  "deposit_bytes_of FF public_input = \<lparr>
     dpp_merkle_root = field_to_bytes FF (public_input D_MerkleRoot),
     dpp_h_nullifier_old = field_to_bytes FF (public_input D_HashedOldNullifier),
     dpp_h_note_new = field_to_bytes FF (public_input D_HashedNewNote),
     dpp_value = field_to_bytes FF (public_input D_DepositValue),
     dpp_commitment = field_to_bytes FF (public_input D_Commitment),
     dpp_token_address = field_to_bytes FF (public_input D_TokenAddress),
     dpp_mac_salt = field_to_bytes FF (public_input D_MacSalt),
     dpp_mac_commitment = field_to_bytes FF (public_input D_MacCommitment) \<rparr>"

definition deposit_prove ::
  "'f bindings_env \<Rightarrow> ('f, 'f deposit_knowledge, deposit_instance, 'params, 'pk, 'vk) prover_api
     \<Rightarrow> ('params, 'pk, 'vk) circuit \<Rightarrow> deposit_args \<Rightarrow> (bytes, unit) result" where
  "deposit_prove B P c a =
     map_ok (circuit_prove P (c_deposit (be_circuits B)) c) (deposit_of_args B a)"

fun deposit_input_bytes :: "deposit_pub_inputs_bytes \<Rightarrow> deposit_instance \<Rightarrow> bytes" where
  "deposit_input_bytes p D_MerkleRoot = dpp_merkle_root p"
| "deposit_input_bytes p D_HashedOldNullifier = dpp_h_nullifier_old p"
| "deposit_input_bytes p D_HashedNewNote = dpp_h_note_new p"
| "deposit_input_bytes p D_DepositValue = dpp_value p"
| "deposit_input_bytes p D_Commitment = dpp_commitment p"
| "deposit_input_bytes p D_TokenAddress = dpp_token_address p"
| "deposit_input_bytes p D_MacSalt = dpp_mac_salt p"
| "deposit_input_bytes p D_MacCommitment = dpp_mac_commitment p"

definition deposit_verify ::
  "'f bindings_env \<Rightarrow> ('f, 'f deposit_knowledge, deposit_instance, 'params, 'pk, 'vk) prover_api
     \<Rightarrow> ('params, 'pk, 'vk) circuit \<Rightarrow> deposit_pub_inputs_bytes \<Rightarrow> bytes \<Rightarrow> (unit, verification_error) result" where
  "deposit_verify B P c p prf =
     map_err VerificationFailed (circuit_verify P c (\<lambda>i. vec_to_f (be_field B) (deposit_input_bytes p i)) prf)"

definition deposit_pub_inputs ::
  "'f bindings_env \<Rightarrow> deposit_args \<Rightarrow> (deposit_pub_inputs_bytes, unit) result" where
  "deposit_pub_inputs B a =
     map_ok (\<lambda>knowledge. deposit_bytes_of (be_field B) (c_deposit (be_circuits B) knowledge))
       (deposit_of_args B a)"

section \<open>The withdrawal circuit\<close>

record withdraw_args =
  wda_id :: bytes
  wda_nullifier_old :: bytes
  wda_account_balance_old :: bytes
  wda_token_address :: bytes
  wda_path :: bytes
  wda_value :: bytes
  wda_nullifier_new :: bytes
  wda_commitment :: bytes
  wda_mac_salt :: bytes

record withdraw_pub_inputs_bytes =
  wdp_merkle_root :: bytes
  wdp_h_nullifier_old :: bytes
  wdp_h_note_new :: bytes
  wdp_withdrawal_value :: bytes
  wdp_token_address :: bytes
  wdp_commitment :: bytes
  wdp_mac_salt :: bytes
  wdp_mac_commitment :: bytes

definition withdraw_of_args ::
  "'f bindings_env \<Rightarrow> withdraw_args \<Rightarrow> ('f withdraw_knowledge, unit) result" where
  "withdraw_of_args B a =
     and_then (vec_to_f (be_field B) (wda_id a)) (\<lambda>uid.
     and_then (vec_to_f (be_field B) (wda_nullifier_old a)) (\<lambda>nullifier_old.
     and_then (vec_to_f (be_field B) (wda_account_balance_old a)) (\<lambda>account_old_balance.
     and_then (vec_to_f (be_field B) (wda_token_address a)) (\<lambda>token_address.
     and_then (vec_to_path B (wda_path a)) (\<lambda>merkle_path.
     and_then (vec_to_f (be_field B) (wda_value a)) (\<lambda>withdrawal_value.
     and_then (vec_to_f (be_field B) (wda_nullifier_new a)) (\<lambda>nullifier_new.
     and_then (vec_to_f (be_field B) (wda_commitment a)) (\<lambda>commitment.
     and_then (vec_to_f (be_field B) (wda_mac_salt a)) (\<lambda>mac_salt.
     Ok \<lparr>
       wk_id = uid,
       wk_nullifier_old = nullifier_old,
       wk_account_old_balance = account_old_balance,
       wk_token_address = token_address,
       wk_path = merkle_path,
       wk_withdrawal_value = withdrawal_value,
       wk_nullifier_new = nullifier_new,
       wk_commitment = commitment,
       wk_mac_salt = mac_salt \<rparr>)))))))))"

definition withdraw_bytes_of ::
  "'f field_api \<Rightarrow> (withdraw_instance \<Rightarrow> 'f) \<Rightarrow> withdraw_pub_inputs_bytes" where
  "withdraw_bytes_of FF public_input = \<lparr>
     wdp_merkle_root = field_to_bytes FF (public_input W_MerkleRoot),
     wdp_h_nullifier_old = field_to_bytes FF (public_input W_HashedOldNullifier),
     wdp_h_note_new = field_to_bytes FF (public_input W_HashedNewNote),
     wdp_withdrawal_value = field_to_bytes FF (public_input W_WithdrawalValue),
     wdp_token_address = field_to_bytes FF (public_input W_TokenAddress),
     wdp_commitment = field_to_bytes FF (public_input W_Commitment),
     wdp_mac_salt = field_to_bytes FF (public_input W_MacSalt),
     wdp_mac_commitment = field_to_bytes FF (public_input W_MacCommitment) \<rparr>"

definition withdraw_prove ::
  "'f bindings_env \<Rightarrow> ('f, 'f withdraw_knowledge, withdraw_instance, 'params, 'pk, 'vk) prover_api
     \<Rightarrow> ('params, 'pk, 'vk) circuit \<Rightarrow> withdraw_args \<Rightarrow> (bytes, unit) result" where
  "withdraw_prove B P c a =
     map_ok (circuit_prove P (c_withdraw (be_circuits B)) c) (withdraw_of_args B a)"

fun withdraw_input_bytes :: "withdraw_pub_inputs_bytes \<Rightarrow> withdraw_instance \<Rightarrow> bytes" where
  "withdraw_input_bytes p W_MerkleRoot = wdp_merkle_root p"
| "withdraw_input_bytes p W_HashedOldNullifier = wdp_h_nullifier_old p"
| "withdraw_input_bytes p W_HashedNewNote = wdp_h_note_new p"
| "withdraw_input_bytes p W_WithdrawalValue = wdp_withdrawal_value p"
| "withdraw_input_bytes p W_TokenAddress = wdp_token_address p"
| "withdraw_input_bytes p W_Commitment = wdp_commitment p"
| "withdraw_input_bytes p W_MacSalt = wdp_mac_salt p"
| "withdraw_input_bytes p W_MacCommitment = wdp_mac_commitment p"

definition withdraw_verify ::
  "'f bindings_env \<Rightarrow> ('f, 'f withdraw_knowledge, withdraw_instance, 'params, 'pk, 'vk) prover_api
     \<Rightarrow> ('params, 'pk, 'vk) circuit \<Rightarrow> withdraw_pub_inputs_bytes \<Rightarrow> bytes \<Rightarrow> (unit, verification_error) result" where
  "withdraw_verify B P c p prf =
     map_err VerificationFailed (circuit_verify P c (\<lambda>i. vec_to_f (be_field B) (withdraw_input_bytes p i)) prf)"

definition withdraw_pub_inputs ::
  "'f bindings_env \<Rightarrow> withdraw_args \<Rightarrow> (withdraw_pub_inputs_bytes, unit) result" where
  "withdraw_pub_inputs B a =
     map_ok (\<lambda>knowledge. withdraw_bytes_of (be_field B) (c_withdraw (be_circuits B) knowledge))
       (withdraw_of_args B a)"

section \<open>Secrets, hashing and constants\<close>

definition get_action_secrets :: "(bytes \<Rightarrow> bytes) \<Rightarrow> bytes \<Rightarrow> u32 \<Rightarrow> (bytes, 'e) result" where
  "get_action_secrets keccak uid nonce =
     and_then (expect_ok (bytes_to_u256 uid) ''Expecting a 32-byte vector'') (\<lambda>uid.
     Ok (u256_to_bytes (derive_nullifier keccak uid nonce)))"

definition bindings_derive_id ::
  "'f bindings_env \<Rightarrow> string \<Rightarrow> u64 \<Rightarrow> u32 \<Rightarrow> (bytes, 'e) result" where
  "bindings_derive_id B private_key_hex chain_id account_nonce =
     and_then (expect_ok (hex_to_u256 (be_parse_u256 B) private_key_hex)
         ''called Result::unwrap() on an Err value'') (\<lambda>private_key.
       let id_seed_u256 = derive_id (c_keccak (be_circuits B)) private_key chain_id account_nonce;
           id_seed_fr = u256_to_field (be_field B) id_seed_u256;
           on_curve_id = be_generate_user_id B (ff_to_repr (be_field B) id_seed_fr)
       in Ok (field_to_bytes (be_field B) on_curve_id))"

definition hash_variable_length :: "'f bindings_env \<Rightarrow> 'f list \<Rightarrow> ('f, 'e) result" where
  "hash_variable_length B input =
     (if length input \<in> {1 .. 7} then Ok (be_poseidon B input)
      else Panic ''Invalid input length to hash function'')"

definition poseidon_hash :: "'f bindings_env \<Rightarrow> bytes \<Rightarrow> (bytes, 'e) result" where
  "poseidon_hash B inputs =
     (if length inputs mod 32 \<noteq> 0 then Panic ''Input length must be divisible by F::size()''
      else and_then (try_map (vec_to_f (be_field B)) (chunks_exact 32 inputs)) (\<lambda>vec.
           map_ok (ff_to_repr (be_field B)) (hash_variable_length B vec)))"

text \<open>\<open>usize\<close> constants are handed out as \<open>u32\<close>.\<close>

definition usize_to_u32 :: "nat \<Rightarrow> (u32, 'e) result" where
  "usize_to_u32 n =
     (if n < 2 ^ 32 then Ok (of_nat n) else Panic ''called Result::unwrap() on an Err value'')"

definition poseidon_rate :: "'f bindings_env \<Rightarrow> (u32, 'e) result" where
  "poseidon_rate B = usize_to_u32 (be_poseidon_rate B)"

definition note_tree_arity :: "'f bindings_env \<Rightarrow> (u32, 'e) result" where
  "note_tree_arity B = usize_to_u32 (be_arity B)"

definition note_tree_height :: "'f bindings_env \<Rightarrow> (u32, 'e) result" where
  "note_tree_height B = usize_to_u32 (be_note_tree_height B)"

definition bindings_hex_32_to_f :: "'f bindings_env \<Rightarrow> string \<Rightarrow> (bytes, 'e) result" where
  "bindings_hex_32_to_f B hex =
     map_ok (ff_to_repr (be_field B)) (expect_ok (hex_32_to_f (be_field B) (be_parse_u256 B) hex)
       ''called Result::unwrap() on an Err value'')"

section \<open>Reading back what is written\<close>

lemma vec_to_f_Ok [result_simps]: "vec_to_f Fr v = Ok x \<longleftrightarrow> v = field_to_bytes Fr x"
  by (simp add: vec_to_f_def result_simps bn254.bytes_to_field_Ok_iff)

lemma vec_to_f_field_to_bytes [simp]: "vec_to_f Fr (field_to_bytes Fr x) = Ok x"
  by (simp add: vec_to_f_Ok)

lemma vec_to_f_no_Err [result_simps]: "vec_to_f FF v \<noteq> Err e"
  by (simp add: vec_to_f_def result_simps)

lemma length_field_to_bytes [simp]: "length (field_to_bytes Fr x) = 32"
  by (simp add: field_to_bytes_def Fr_def)

lemma from_repr_iff: "length c = 32 \<Longrightarrow> ff_from_repr Fr c = Some x \<longleftrightarrow> c = field_to_bytes Fr x"
  using bn254.bytes_to_field_Ok_iff [of c x]
  by (auto simp: bytes_to_field_def byte_vec_to_array_def split: option.splits)

lemma chunks_exact_Nil [simp]: "chunks_exact n [] = []"
  by (subst chunks_exact.simps) auto

lemma chunks_exact_append:
  "length c = n \<Longrightarrow> 0 < n \<Longrightarrow> chunks_exact n (c @ cs) = c # chunks_exact n cs"
  by (subst chunks_exact.simps) auto

lemma chunks_exact_concat:
  assumes "\<forall>c \<in> set cs. length c = n" and "0 < n"
  shows "chunks_exact n (concat cs) = cs"
  using assms by (induction cs) (auto simp: chunks_exact_append)

lemma chunks_exact_all:
  assumes "length xs = k * n" and "0 < n"
  shows "length (chunks_exact n xs) = k \<and> concat (chunks_exact n xs) = xs \<and>
    (\<forall>c \<in> set (chunks_exact n xs). length c = n)"
  using assms
proof (induction k arbitrary: xs)
  case 0
  then show ?case by simp
next
  case (Suc k)
  then have drop: "length (drop n xs) = k * n" and n: "n \<le> length xs" by simp_all
  obtain cs where cs: "cs = chunks_exact n (drop n xs)" by simp
  have "chunks_exact n xs = take n xs # cs"
    unfolding cs using n Suc.prems by (subst chunks_exact.simps) simp
  moreover have "length cs = k" "concat cs = drop n xs" "\<forall>c \<in> set cs. length c = n"
    using Suc.IH [OF drop Suc.prems(2)] cs by simp_all
  ultimately show ?case using n by simp
qed

lemma read_row_Ok:
  assumes "length row \<le> length iter" and "\<forall>c \<in> set iter. length c = 32"
  shows "read_row Fr row iter = Ok (xs, rest) \<longleftrightarrow>
    length xs = length row \<and> iter = map (field_to_bytes Fr) xs @ rest"
  using assms
proof (induction Fr row iter arbitrary: xs rule: read_row.induct)
  case (3 elem row chunk iter)
  then show ?case by (cases xs) (auto simp: result_simps from_repr_iff)
qed auto

lemma map_ok_Err [result_simps]: "map_ok f r = Err e \<longleftrightarrow> r = Err e"
  by (cases r) auto

lemma expect_no_Err [result_simps]: "expect r m \<noteq> Err e"
  by (cases r) auto

lemma read_row_no_Err: "read_row FF row iter \<noteq> Err e"
  by (induction FF row iter rule: read_row.induct) (auto simp: result_simps)

lemma read_rows_no_Err: "read_rows FF rows iter \<noteq> Err e"
  by (induction FF rows iter rule: read_rows.induct) (auto simp: result_simps read_row_no_Err)

lemma vec_to_path_no_Err [result_simps]: "vec_to_path B v \<noteq> Err e"
  by (simp add: vec_to_path_def read_rows_no_Err)

text \<open>Paths have \<open>height\<close> rows of \<open>arity\<close> elements.\<close>

definition is_path :: "'f bindings_env \<Rightarrow> 'a list list \<Rightarrow> bool" where
  "is_path B path \<longleftrightarrow> length path = be_note_tree_height B \<and> (\<forall>row \<in> set path. length row = be_arity B)"

definition path_bytes :: "fr list list \<Rightarrow> bytes" where
  "path_bytes path = concat (map (field_to_bytes Fr) (concat path))"

lemma read_rows_Ok:
  assumes "\<forall>row \<in> set rows. length row = n" and "length iter = n * length rows"
    and "\<forall>c \<in> set iter. length c = 32"
  shows "(read_rows Fr rows iter :: (fr list list, 'e) result) = Ok path \<longleftrightarrow>
    length path = length rows \<and> (\<forall>row \<in> set path. length row = n) \<and>
    iter = map (field_to_bytes Fr) (concat path)"
  using assms
proof (induction rows arbitrary: iter path)
  case Nil
  then show ?case by auto
next
  case (Cons row rows)
  have row: "(read_row Fr row iter :: (fr list \<times> bytes list, 'e) result) = Ok (xs, rest) \<longleftrightarrow>
      length xs = n \<and> iter = map (field_to_bytes Fr) xs @ rest" for xs rest
    using read_row_Ok [of row iter xs rest] Cons.prems by simp
  have rows: "(read_rows Fr rows rest :: (fr list list, 'e) result) = Ok path' \<longleftrightarrow>
      length path' = length rows \<and> (\<forall>row \<in> set path'. length row = n) \<and>
      rest = map (field_to_bytes Fr) (concat path')"
    if "iter = map (field_to_bytes Fr) xs @ rest" "length xs = n" for xs rest path'
    by (rule Cons.IH; use that Cons.prems in auto)
  show ?case
  proof
    assume "(read_rows Fr (row # rows) iter :: (fr list list, 'e) result) = Ok path"
    then have "\<exists>p. (read_row Fr row iter :: (fr list \<times> bytes list, 'e) result) = Ok p \<and>
        map_ok (\<lambda>rows'. fst p # rows') (read_rows Fr rows (snd p) :: (fr list list, 'e) result) = Ok path"
      by (simp add: and_then_Ok split_def)
    then obtain xs rest path' where
      "(read_row Fr row iter :: (fr list \<times> bytes list, 'e) result) = Ok (xs, rest)"
      and "(read_rows Fr rows rest :: (fr list list, 'e) result) = Ok path'" and "path = xs # path'"
      unfolding map_ok_Ok by (metis prod.collapse)
    then show "length path = length (row # rows) \<and> (\<forall>row \<in> set path. length row = n) \<and>
        iter = map (field_to_bytes Fr) (concat path)"
      using row rows by auto
  next
    assume R: "length path = length (row # rows) \<and> (\<forall>row \<in> set path. length row = n) \<and>
        iter = map (field_to_bytes Fr) (concat path)"
    then obtain xs path' where path: "path = xs # path'" by (cases path) auto
    with R row have "(read_row Fr row iter :: (fr list \<times> bytes list, 'e) result) = Ok (xs, map (field_to_bytes Fr) (concat path'))" by simp
    moreover have "(read_rows Fr rows (map (field_to_bytes Fr) (concat path')) :: (fr list list, 'e) result) = Ok path'"
      using R path rows [of xs "map (field_to_bytes Fr) (concat path')" path'] by simp
    ultimately show "(read_rows Fr (row # rows) iter :: (fr list list, 'e) result) = Ok path" using path by simp
  qed
qed

lemma length_path_bytes: "length (path_bytes path) = 32 * sum_list (map length path)"
proof (induction path)
  case (Cons row path)
  have "length (concat (map (field_to_bytes Fr) row)) = 32 * length row" by (induction row) auto
  with Cons show ?case by (simp add: path_bytes_def)
qed (simp add: path_bytes_def)

lemma vec_to_path_Ok:
  assumes "be_field B = Fr"
  shows "vec_to_path B v = Ok path \<longleftrightarrow> is_path B path \<and> v = path_bytes path"
proof (cases "length v = be_note_tree_height B * be_arity B * 32")
  case True
  let ?cs = "chunks_exact 32 v"
  from chunks_exact_all [OF True] have cs: "length ?cs = be_arity B * be_note_tree_height B"
    "concat ?cs = v" "\<forall>c \<in> set ?cs. length c = 32" by simp_all
  have "vec_to_path B v = Ok path \<longleftrightarrow> is_path B path \<and> ?cs = map (field_to_bytes Fr) (concat path)"
    using True cs assms
    by (simp add: vec_to_path_def is_path_def read_rows_Ok [where n = "be_arity B"])
  moreover have "?cs = map (field_to_bytes Fr) (concat path) \<longleftrightarrow> v = path_bytes path"
    using cs(2) chunks_exact_concat [of "map (field_to_bytes Fr) (concat path)" 32]
    by (auto simp: path_bytes_def)
  ultimately show ?thesis by simp
next
  case False
  have "sum_list (map length path) = be_note_tree_height B * be_arity B" if "is_path B path"
  proof -
    have "sum_list (map length path) = sum_list (map (\<lambda>_. be_arity B) path)"
      using that by (intro arg_cong [where f = sum_list] map_cong) (auto simp: is_path_def)
    then show ?thesis using that by (simp add: is_path_def sum_list_triv)
  qed
  then show ?thesis using False by (auto simp: vec_to_path_def length_path_bytes)
qed

section \<open>The contract of a wrapper\<close>

locale circuit_binding =
  fixes inp :: "'k \<Rightarrow> 'i \<Rightarrow> fr"
    and to_bytes :: "('i \<Rightarrow> fr) \<Rightarrow> 'p"
    and input_bytes :: "'p \<Rightarrow> 'i \<Rightarrow> bytes"
  assumes reads_back: "input_bytes (to_bytes g) i = field_to_bytes Fr (g i)"
begin

lemma verify_reads:
  "circuit_verify P c (\<lambda>i. vec_to_f Fr (input_bytes (to_bytes (inp k)) i)) prf =
     pa_verify P (cc_params c) (cc_vk c) prf (map (inp k) (pa_instances P))"
proof -
  have "(try_map (\<lambda>i. vec_to_f Fr (input_bytes (to_bytes (inp k)) i)) (pa_instances P) :: (fr list, string) result) =
      Ok (map (inp k) (pa_instances P))"
    by (simp add: try_map_Ok reads_back)
  then show ?thesis by (simp add: circuit_verify_def)
qed

lemma proof_accepted:
  assumes "pa_verify P (cc_params c) (cc_vk c) (circuit_prove P inp c k) (map (inp k) (pa_instances P)) = Ok ()"
  shows "circuit_verify P c (\<lambda>i. vec_to_f Fr (input_bytes (to_bytes (inp k)) i)) (circuit_prove P inp c k) = Ok ()"
  using assms by (simp add: verify_reads)

end

interpretation na_binding: circuit_binding "c_new_account C" "new_account_bytes_of Fr" new_account_input_bytes
  for C
proof unfold_locales
  show "new_account_input_bytes (new_account_bytes_of Fr g) i = field_to_bytes Fr (g i)" for g i
    by (cases i) (simp_all add: new_account_bytes_of_def)
qed

interpretation dp_binding: circuit_binding "c_deposit C" "deposit_bytes_of Fr" deposit_input_bytes for C
proof unfold_locales
  show "deposit_input_bytes (deposit_bytes_of Fr g) i = field_to_bytes Fr (g i)" for g i
    by (cases i) (simp_all add: deposit_bytes_of_def)
qed

interpretation wd_binding: circuit_binding "c_withdraw C" "withdraw_bytes_of Fr" withdraw_input_bytes for C
proof unfold_locales
  show "withdraw_input_bytes (withdraw_bytes_of Fr g) i = field_to_bytes Fr (g i)" for g i
    by (cases i) (simp_all add: withdraw_bytes_of_def)
qed

section \<open>Properties\<close>

text \<open>
  C12. Proofs pass the byte interface. Over the scalar field, for each of the three circuits: if the proof
  system accepts the proof \<open>prove\<close> makes of some knowledge, then the wrapper's \<open>verify\<close> accepts the
  bytes of the proof together with the bytes of the public inputs computed from the same arguments.
\<close>

theorem bindings_verify_own_proofs:
  assumes "be_field B = Fr"
  shows "(new_account_of_args B na = Ok nk \<and> pa_verify PN (cc_params cn) (cc_vk cn)
        (circuit_prove PN (c_new_account (be_circuits B)) cn nk)
        (map (c_new_account (be_circuits B) nk) (pa_instances PN)) = Ok () \<longrightarrow>
      (\<exists>prf p. new_account_prove B PN cn na = Ok prf \<and> new_account_pub_inputs B na = Ok p \<and>
        new_account_verify B PN cn p prf = Ok ())) \<and>
    (deposit_of_args B da = Ok dk \<and> pa_verify PD (cc_params cd) (cc_vk cd)
        (circuit_prove PD (c_deposit (be_circuits B)) cd dk)
        (map (c_deposit (be_circuits B) dk) (pa_instances PD)) = Ok () \<longrightarrow>
      (\<exists>prf p. deposit_prove B PD cd da = Ok prf \<and> deposit_pub_inputs B da = Ok p \<and>
        deposit_verify B PD cd p prf = Ok ())) \<and>
    (withdraw_of_args B wa = Ok wk \<and> pa_verify PW (cc_params cw) (cc_vk cw)
        (circuit_prove PW (c_withdraw (be_circuits B)) cw wk)
        (map (c_withdraw (be_circuits B) wk) (pa_instances PW)) = Ok () \<longrightarrow>
      (\<exists>prf p. withdraw_prove B PW cw wa = Ok prf \<and> withdraw_pub_inputs B wa = Ok p \<and>
        withdraw_verify B PW cw p prf = Ok ()))"
  using assms
  by (simp add: new_account_prove_def new_account_pub_inputs_def new_account_verify_def
      deposit_prove_def deposit_pub_inputs_def deposit_verify_def withdraw_prove_def
      withdraw_pub_inputs_def withdraw_verify_def na_binding.proof_accepted dp_binding.proof_accepted
      wd_binding.proof_accepted)

text \<open>The canonical arguments of a knowledge.\<close>

definition deposit_args_of :: "fr deposit_knowledge \<Rightarrow> deposit_args" where
  "deposit_args_of k = \<lparr>
     dpa_id = field_to_bytes Fr (dk_id k),
     dpa_nullifier_old = field_to_bytes Fr (dk_nullifier_old k),
     dpa_account_balance_old = field_to_bytes Fr (dk_account_old_balance k),
     dpa_token_address = field_to_bytes Fr (dk_token_address k),
     dpa_path = path_bytes (dk_path k),
     dpa_value = field_to_bytes Fr (dk_deposit_value k),
     dpa_commitment = field_to_bytes Fr (dk_commitment k),
     dpa_nullifier_new = field_to_bytes Fr (dk_nullifier_new k),
     dpa_mac_salt = field_to_bytes Fr (dk_mac_salt k) \<rparr>"

definition withdraw_args_of :: "fr withdraw_knowledge \<Rightarrow> withdraw_args" where
  "withdraw_args_of k = \<lparr>
     wda_id = field_to_bytes Fr (wk_id k),
     wda_nullifier_old = field_to_bytes Fr (wk_nullifier_old k),
     wda_account_balance_old = field_to_bytes Fr (wk_account_old_balance k),
     wda_token_address = field_to_bytes Fr (wk_token_address k),
     wda_path = path_bytes (wk_path k),
     wda_value = field_to_bytes Fr (wk_withdrawal_value k),
     wda_nullifier_new = field_to_bytes Fr (wk_nullifier_new k),
     wda_commitment = field_to_bytes Fr (wk_commitment k),
     wda_mac_salt = field_to_bytes Fr (wk_mac_salt k) \<rparr>"

text \<open>
  C11. The byte interface is exact. The wrappers of deposits and withdrawals accept exactly the canonical
  little-endian encodings of a knowledge whose path has the tree's shape, recover that knowledge, and
  panic on everything else: two different byte strings never stand for the same proof request.
\<close>

theorem bindings_accept_canonical:
  assumes "be_field B = Fr"
  shows "(deposit_of_args B da = Ok dk \<longleftrightarrow> da = deposit_args_of dk \<and> is_path B (dk_path dk)) \<and>
    (withdraw_of_args B wa = Ok wk \<longleftrightarrow> wa = withdraw_args_of wk \<and> is_path B (wk_path wk)) \<and>
    deposit_of_args B da \<noteq> Err e \<and> withdraw_of_args B wa \<noteq> Err e"
proof (intro conjI)
  show "deposit_of_args B da = Ok dk \<longleftrightarrow> da = deposit_args_of dk \<and> is_path B (dk_path dk)"
    using assms by (cases da, cases dk)
      (auto simp: deposit_of_args_def deposit_args_of_def result_simps vec_to_path_Ok)
  show "withdraw_of_args B wa = Ok wk \<longleftrightarrow> wa = withdraw_args_of wk \<and> is_path B (wk_path wk)"
    using assms by (cases wa, cases wk)
      (auto simp: withdraw_of_args_def withdraw_args_of_def result_simps vec_to_path_Ok)
  show "deposit_of_args B da \<noteq> Err e" "withdraw_of_args B wa \<noteq> Err e"
    by (simp_all add: deposit_of_args_def withdraw_of_args_def result_simps vec_to_path_no_Err)
qed

lemma field_bytes_u256: "field_to_bytes Fr x = u256_to_bytes (field_to_u256 Fr x)"
  by (simp add: field_to_bytes_def u256_to_bytes_def field_to_u256_def bytes_simps Fr_def)

text \<open>
  The bindings derive the secrets of the account library. For an account, the exported
  \<open>get_action_secrets\<close> returns the bytes of the nullifier the account would use next, and the exported
  \<open>derive_id\<close> returns exactly when the key parses, with the bytes of the id of the account that
  \<open>ShielderAccount::new\<close> makes from the derived seed.
\<close>

theorem bindings_agree_with_account:
  assumes "be_field B = Fr"
  shows "get_action_secrets keccak (u256_to_bytes (sa_id a)) (sa_nonce a) =
      Ok (u256_to_bytes (next_nullifier keccak a)) \<and>
    (bindings_derive_id B hex chain_id nonce = Ok bs \<longleftrightarrow>
      (\<exists>key. be_parse_u256 B hex = Some key \<and>
        bs = u256_to_bytes (sa_id (account_new Fr (be_generate_user_id B)
          (derive_id (c_keccak (be_circuits B)) key chain_id nonce) t))))"
proof
  show "get_action_secrets keccak (u256_to_bytes (sa_id a)) (sa_nonce a) =
      Ok (u256_to_bytes (next_nullifier keccak a))"
    by (simp add: get_action_secrets_def next_nullifier_def bytes_to_u256_roundtrip)
  show "bindings_derive_id B hex chain_id nonce = Ok bs \<longleftrightarrow>
      (\<exists>key. be_parse_u256 B hex = Some key \<and>
        bs = u256_to_bytes (sa_id (account_new Fr (be_generate_user_id B)
          (derive_id (c_keccak (be_circuits B)) key chain_id nonce) t)))"
    using assms
    by (auto simp: bindings_derive_id_def hex_to_u256_def account_new_def result_simps field_bytes_u256)
qed

section \<open>Witnesses\<close>

definition sample_bindings :: "fr bindings_env" where
  "sample_bindings = \<lparr>
     be_circuits = fr_circuits (\<lambda>bs. replicate 32 1) (\<lambda>x. []) (\<lambda>k i. nk_id k) (\<lambda>k i. dk_id k) (\<lambda>k i. wk_id k),
     be_arity = 7, be_note_tree_height = 13, be_poseidon_rate = 7, be_poseidon = hd,
     be_generate_user_id = (\<lambda>_. fr_of_nat 42), be_parse_u256 = (\<lambda>_. Some 9) \<rparr>"

definition sample_prover ::
  "'i list \<Rightarrow> (fr, 'k, 'i, unit, unit, unit) prover_api" where
  "sample_prover instances = \<lparr>
     pa_instances = instances, pa_unmarshall_params = (\<lambda>_. Some ()), pa_unmarshall_pk = (\<lambda>_. Some (11, ())),
     pa_get_vk = id, pa_setup_params = (), pa_generate_keys = (\<lambda>_. Some ((), 11, (), ())),
     pa_generate_proof = (\<lambda>_ _ _ inputs. concat (map (field_to_bytes Fr) inputs)),
     pa_verify = (\<lambda>_ _ prf inputs. if prf = concat (map (field_to_bytes Fr) inputs) then Ok ()
                    else Err ''ConstraintSystemFailure'') \<rparr>"

definition sample_keys :: "(unit, unit, unit) circuit" where
  "sample_keys = \<lparr> cc_params = (), cc_pk = (), cc_vk = (), cc_k = 11 \<rparr>"

definition sample_deposit_knowledge :: "fr deposit_knowledge" where
  "sample_deposit_knowledge = \<lparr> dk_id = fr_of_nat 1, dk_nullifier_old = fr_of_nat 2,
     dk_account_old_balance = fr_of_nat 3, dk_commitment = fr_of_nat 4, dk_token_address = fr_of_nat 5,
     dk_path = replicate 13 (replicate 7 (fr_of_nat 6)), dk_deposit_value = fr_of_nat 7,
     dk_nullifier_new = fr_of_nat 8, dk_mac_salt = fr_of_nat 9 \<rparr>"

definition sample_withdraw_knowledge :: "fr withdraw_knowledge" where
  "sample_withdraw_knowledge = \<lparr> wk_id = fr_of_nat 1, wk_nullifier_old = fr_of_nat 2,
     wk_account_old_balance = fr_of_nat 3, wk_token_address = fr_of_nat 5,
     wk_path = replicate 13 (replicate 7 (fr_of_nat 6)), wk_withdrawal_value = fr_of_nat 7,
     wk_nullifier_new = fr_of_nat 8, wk_commitment = fr_of_nat 4, wk_mac_salt = fr_of_nat 9 \<rparr>"

definition sample_new_account_args :: new_account_args where
  "sample_new_account_args =
     (let x = field_to_bytes Fr (fr_of_nat 5)
      in \<lparr> naa_id = x, naa_nullifier = x, naa_initial_deposit = x, naa_commitment = x, naa_token_address = x,
           naa_encryption_salt = x, naa_mac_salt = x, naa_anonymity_revoker_public_key_x = x,
           naa_anonymity_revoker_public_key_y = x \<rparr>)"

lemma sample_bindings_field [simp]: "be_field sample_bindings = Fr"
  by (simp add: sample_bindings_def fr_circuits_def)

lemma sample_of_args:
  "deposit_of_args sample_bindings (deposit_args_of sample_deposit_knowledge) = Ok sample_deposit_knowledge"
  "withdraw_of_args sample_bindings (withdraw_args_of sample_withdraw_knowledge) = Ok sample_withdraw_knowledge"
proof -
  have "is_path sample_bindings (replicate 13 (replicate 7 x))" for x
    by (simp add: is_path_def sample_bindings_def)
  then have "(vec_to_path sample_bindings (path_bytes (replicate 13 (replicate 7 x))) :: (fr list list, unit) result) =
      Ok (replicate 13 (replicate 7 x))" for x
    by (simp only: vec_to_path_Ok [OF sample_bindings_field] simp_thms)
  then show
    "deposit_of_args sample_bindings (deposit_args_of sample_deposit_knowledge) = Ok sample_deposit_knowledge"
    "withdraw_of_args sample_bindings (withdraw_args_of sample_withdraw_knowledge) = Ok sample_withdraw_knowledge"
    by (simp_all only: deposit_of_args_def deposit_args_of_def withdraw_of_args_def withdraw_args_of_def
        sample_deposit_knowledge_def sample_withdraw_knowledge_def deposit_args.simps withdraw_args.simps
        deposit_knowledge.simps withdraw_knowledge.simps sample_bindings_field vec_to_f_field_to_bytes
        and_then.simps)
qed

lemma sample_new_account_of_args:
  "\<exists>k. new_account_of_args sample_bindings sample_new_account_args = Ok k"
  by (simp add: new_account_of_args_def sample_new_account_args_def Let_def)

lemma sample_prover_accepts:
  "pa_verify (sample_prover is) u v (circuit_prove (sample_prover is) inp c k) (map (inp k) (pa_instances (sample_prover is))) = Ok ()"
  by (simp add: sample_prover_def circuit_prove_def)

theorem bindings_verify_own_proofs_witness:
  "\<exists>prf p. deposit_prove sample_bindings (sample_prover [D_MerkleRoot, D_DepositValue]) sample_keys
       (deposit_args_of sample_deposit_knowledge) = Ok prf \<and>
     deposit_pub_inputs sample_bindings (deposit_args_of sample_deposit_knowledge) = Ok p \<and>
     deposit_verify sample_bindings (sample_prover [D_MerkleRoot, D_DepositValue]) sample_keys p prf = Ok ()"
  using bindings_verify_own_proofs [where B = sample_bindings and da = "deposit_args_of sample_deposit_knowledge"
      and dk = sample_deposit_knowledge and PD = "sample_prover [D_MerkleRoot, D_DepositValue]" and cd = sample_keys,
      OF sample_bindings_field, THEN conjunct2, THEN conjunct1, THEN mp, OF conjI,
      OF sample_of_args(1) sample_prover_accepts] .

theorem bindings_accept_canonical_witness:
  "deposit_of_args sample_bindings (deposit_args_of sample_deposit_knowledge) = Ok sample_deposit_knowledge \<and>
   withdraw_of_args sample_bindings (withdraw_args_of sample_withdraw_knowledge) = Ok sample_withdraw_knowledge \<and>
   deposit_of_args sample_bindings ((deposit_args_of sample_deposit_knowledge)\<lparr> dpa_path := [] \<rparr>)
     \<noteq> Ok sample_deposit_knowledge"
proof -
  have paths: "is_path sample_bindings (dk_path sample_deposit_knowledge)"
    "is_path sample_bindings (wk_path sample_withdraw_knowledge)"
    by (simp_all add: is_path_def sample_bindings_def sample_deposit_knowledge_def sample_withdraw_knowledge_def)
  note canonical = bindings_accept_canonical [where B = sample_bindings and e = "()", OF sample_bindings_field]
  have "length (path_bytes (dk_path sample_deposit_knowledge)) \<noteq> 0"
    by (simp add: length_path_bytes sample_deposit_knowledge_def sum_list_replicate)
  then show ?thesis
    using paths canonical [where da = "deposit_args_of sample_deposit_knowledge" and dk = sample_deposit_knowledge
        and wa = "withdraw_args_of sample_withdraw_knowledge" and wk = sample_withdraw_knowledge]
      canonical [where da = "(deposit_args_of sample_deposit_knowledge)\<lparr> dpa_path := [] \<rparr>"
        and dk = sample_deposit_knowledge]
    by (simp add: deposit_args_of_def)
qed

theorem bindings_agree_with_account_witness:
  "bindings_derive_id sample_bindings ''0x9'' 1 0 = Ok (field_to_bytes Fr (fr_of_nat 42))"
  using bindings_agree_with_account [where B = sample_bindings and hex = "''0x9''" and chain_id = 1 and nonce = 0
      and bs = "field_to_bytes Fr (fr_of_nat 42)", OF sample_bindings_field, THEN conjunct2]
  by (simp add: account_new_def field_bytes_u256 sample_bindings_def)

end
