(* ===== verification/Tee.thy ===== *)
theory Tee
  imports Bindings
begin

text \<open>
  The prover service: the server inside the enclave (\<open>shielder-prover-tee\<close>), the protocol it shares with
  the host (\<open>shielder-prover-common\<close>), and the host's HTTP server (\<open>shielder-prover-server\<close>). A client
  encrypts a proof request for the enclave's key; the enclave decrypts it, computes the proof and encrypts
  proof and public inputs for the client. JSON, ECIES, the attestation driver, the circuits and the transport
  of frames belong to other packages and are parameters, gathered in \<open>tee_env\<close>. A connection is the list of
  frames still to be read and the list of frames written.
\<close>

section \<open>Protocol\<close>

datatype circuit_type = NewAccountType | DepositType | WithdrawType

record proof_payload =
  pl_circuit_type :: circuit_type
  pl_user_public_key :: bytes
  pl_circuit_inputs :: bytes

datatype tee_request = Ping | TeePublicKeyRequest | GenerateProof bytes

datatype tee_response =
    Pong
  | TeePublicKey string bytes
  | EncryptedProof bytes bytes

datatype vsock_error =
    VsockIO string
  | VsockSerde string
  | VsockProtocol string
  | VsockClosed

definition VSOCK_PORT :: u16 where
  "VSOCK_PORT = 5000"

record ('f, 'sk, 'pub, 'params, 'pk, 'vk) tee_env =
  te_bindings :: "'f bindings_env"
  te_new_account :: "('f, 'f new_account_knowledge, new_account_instance, 'params, 'pk, 'vk) prover_api"
  te_deposit :: "('f, 'f deposit_knowledge, deposit_instance, 'params, 'pk, 'vk) prover_api"
  te_withdraw :: "('f, 'f withdraw_knowledge, withdraw_instance, 'params, 'pk, 'vk) prover_api"
  te_artifacts :: "circuit_type \<Rightarrow> bytes \<times> bytes"
  te_parse_new_account :: "bytes \<Rightarrow> (new_account_args, string) result"
  te_parse_deposit :: "bytes \<Rightarrow> (deposit_args, string) result"
  te_parse_withdraw :: "bytes \<Rightarrow> (withdraw_args, string) result"
  te_json_new_account :: "new_account_pub_inputs_bytes \<Rightarrow> (bytes, string) result"
  te_json_deposit :: "deposit_pub_inputs_bytes \<Rightarrow> (bytes, string) result"
  te_json_withdraw :: "withdraw_pub_inputs_bytes \<Rightarrow> (bytes, string) result"
  te_from_utf8 :: "bytes \<Rightarrow> string option"
  te_parse_payload :: "string \<Rightarrow> (proof_payload, string) result"
  te_json_request :: "tee_request \<Rightarrow> (bytes, string) result"
  te_parse_request :: "bytes \<Rightarrow> (tee_request, string) result"
  te_json_response :: "tee_response \<Rightarrow> (bytes, string) result"
  te_parse_response :: "bytes \<Rightarrow> (tee_response, string) result"
  te_write :: "bytes list \<Rightarrow> bytes \<Rightarrow> (unit, string) result"
  te_bind :: "u32 \<Rightarrow> (unit, string) result"
  te_connect :: "u32 \<Rightarrow> u32 \<Rightarrow> (unit, string) result"
  te_generate_keypair :: "bytes \<times> bytes"
  te_priv_from_bytes :: "bytes \<Rightarrow> ('sk, string) result"
  te_pub_from_bytes :: "bytes \<Rightarrow> ('pub, string) result"
  te_encrypt :: "bytes \<Rightarrow> 'pub \<Rightarrow> bytes"
  te_decrypt :: "bytes \<Rightarrow> 'sk \<Rightarrow> (bytes, string) result"
  te_to_hex :: "bytes \<Rightarrow> string"
  te_without_attestation :: bool
  te_nsm_init :: int
  te_nsm_attest :: "int \<Rightarrow> bytes \<Rightarrow> bytes option"

section \<open>Connections\<close>

record vsock =
  vs_in :: "(bytes + string) list"
  vs_out :: "bytes list"

definition vsock_send ::
  "('a \<Rightarrow> (bytes, string) result) \<Rightarrow> (bytes list \<Rightarrow> bytes \<Rightarrow> (unit, string) result) \<Rightarrow> 'a \<Rightarrow> vsock
     \<Rightarrow> (unit, vsock_error) result \<times> vsock" where
  "vsock_send json write msg c =
     (case map_err VsockSerde (json msg) of
        Ok frame \<Rightarrow>
          (case map_err VsockIO (write (vs_out c) frame) of
             Ok _ \<Rightarrow> (Ok (), c\<lparr> vs_out := vs_out c @ [frame] \<rparr>)
           | Err e \<Rightarrow> (Err e, c)
           | Panic m \<Rightarrow> (Panic m, c))
      | Err e \<Rightarrow> (Err e, c)
      | Panic m \<Rightarrow> (Panic m, c))"

definition vsock_recv ::
  "(bytes \<Rightarrow> ('a, string) result) \<Rightarrow> vsock \<Rightarrow> ('a, vsock_error) result \<times> vsock" where
  "vsock_recv parse c =
     (case vs_in c of
        [] \<Rightarrow> (Err VsockClosed, c)
      | Inr e # rest \<Rightarrow> (Err (VsockIO e), c\<lparr> vs_in := rest \<rparr>)
      | Inl msg # rest \<Rightarrow> (map_err VsockSerde (parse msg), c\<lparr> vs_in := rest \<rparr>))"

definition handle_request ::
  "('f, 'sk, 'pub, 'params, 'pk, 'vk) tee_env \<Rightarrow> (tee_request \<Rightarrow> (tee_response, vsock_error) result) \<Rightarrow> vsock
     \<Rightarrow> (unit, vsock_error) result \<times> vsock" where
  "handle_request E handler c =
     (case vsock_recv (te_parse_request E) c of
        (Ok req, c) \<Rightarrow>
          (case handler req of
             Ok res \<Rightarrow> vsock_send (te_json_response E) (te_write E) res c
           | Err e \<Rightarrow> (Err e, c)
           | Panic m \<Rightarrow> (Panic m, c))
      | (Err e, c) \<Rightarrow> (Err e, c)
      | (Panic m, c) \<Rightarrow> (Panic m, c))"

section \<open>Circuits in the enclave\<close>

text \<open>
  The module is a copy of the one in the bindings, with keys but no verifying key. A serialisable circuit is
  a record of the trait's functions.
\<close>

record ('params, 'pk) tee_circuit =
  tc_params :: 'params
  tc_pk :: 'pk

definition tee_new_pronto ::
  "('f, 'k, 'i, 'params, 'pk, 'vk) prover_api \<Rightarrow> bytes \<times> bytes \<Rightarrow> (('params, 'pk) tee_circuit, 'e) result" where
  "tee_new_pronto P artifacts =
     and_then (decode_from_bytes P (fst artifacts) (snd artifacts)) (\<lambda>(params, pk, _).
     Ok \<lparr> tc_params = params, tc_pk = pk \<rparr>)"

definition tee_circuit_prove ::
  "('f, 'k, 'i, 'params, 'pk, 'vk) prover_api \<Rightarrow> ('k \<Rightarrow> 'i \<Rightarrow> 'f) \<Rightarrow> ('params, 'pk) tee_circuit \<Rightarrow> 'k
     \<Rightarrow> bytes" where
  "tee_circuit_prove P inp c values =
     pa_generate_proof P (tc_params c) (tc_pk c) values (map (inp values) (pa_instances P))"

record ('params, 'pk, 'input, 'output) serializable_circuit =
  sc_new :: "(('params, 'pk) tee_circuit, vsock_error) result"
  sc_deserialize :: "bytes \<Rightarrow> ('input, string) result"
  sc_prove :: "('params, 'pk) tee_circuit \<Rightarrow> 'input \<Rightarrow> (bytes, unit) result"
  sc_pub_inputs :: "'input \<Rightarrow> ('output, unit) result"
  sc_to_vec :: "'output \<Rightarrow> (bytes, string) result"

definition new_account_circuit ::
  "('f, 'sk, 'pub, 'params, 'pk, 'vk) tee_env
     \<Rightarrow> ('params, 'pk, new_account_args, new_account_pub_inputs_bytes) serializable_circuit" where
  "new_account_circuit E = \<lparr>
     sc_new = tee_new_pronto (te_new_account E) (te_artifacts E NewAccountType),
     sc_deserialize = te_parse_new_account E,
     sc_prove = (\<lambda>c input. map_ok
       (tee_circuit_prove (te_new_account E) (c_new_account (be_circuits (te_bindings E))) c)
       (new_account_of_args (te_bindings E) input)),
     sc_pub_inputs = new_account_pub_inputs (te_bindings E),
     sc_to_vec = te_json_new_account E \<rparr>"

definition deposit_circuit ::
  "('f, 'sk, 'pub, 'params, 'pk, 'vk) tee_env
     \<Rightarrow> ('params, 'pk, deposit_args, deposit_pub_inputs_bytes) serializable_circuit" where
  "deposit_circuit E = \<lparr>
     sc_new = tee_new_pronto (te_deposit E) (te_artifacts E DepositType),
     sc_deserialize = te_parse_deposit E,
     sc_prove = (\<lambda>c input. map_ok
       (tee_circuit_prove (te_deposit E) (c_deposit (be_circuits (te_bindings E))) c)
       (deposit_of_args (te_bindings E) input)),
     sc_pub_inputs = deposit_pub_inputs (te_bindings E),
     sc_to_vec = te_json_deposit E \<rparr>"

definition withdraw_circuit ::
  "('f, 'sk, 'pub, 'params, 'pk, 'vk) tee_env
     \<Rightarrow> ('params, 'pk, withdraw_args, withdraw_pub_inputs_bytes) serializable_circuit" where
  "withdraw_circuit E = \<lparr>
     sc_new = tee_new_pronto (te_withdraw E) (te_artifacts E WithdrawType),
     sc_deserialize = te_parse_withdraw E,
     sc_prove = (\<lambda>c input. map_ok
       (tee_circuit_prove (te_withdraw E) (c_withdraw (be_circuits (te_bindings E))) c)
       (withdraw_of_args (te_bindings E) input)),
     sc_pub_inputs = withdraw_pub_inputs (te_bindings E),
     sc_to_vec = te_json_withdraw E \<rparr>"

section \<open>The server in the enclave\<close>

record tee_server =
  sv_private_key :: bytes
  sv_public_key :: bytes
  sv_nsm_fd :: int

definition init_nsm_driver ::
  "('f, 'sk, 'pub, 'params, 'pk, 'vk) tee_env \<Rightarrow> (int, vsock_error) result" where
  "init_nsm_driver E =
     (let nsm_fd = te_nsm_init E
      in if nsm_fd < 0 then Err (VsockProtocol ''Failed to initialize NSM driver.'') else Ok nsm_fd)"

text \<open>Without attestation (a test build) there is no driver; its file descriptor is 0 here and unused.\<close>

definition server_new ::
  "('f, 'sk, 'pub, 'params, 'pk, 'vk) tee_env \<Rightarrow> u16 \<Rightarrow> (tee_server, vsock_error) result" where
  "server_new E port =
     and_then (map_err VsockIO (te_bind E (ucast port))) (\<lambda>_.
       let (private_key, public_key) = te_generate_keypair E
       in and_then (if te_without_attestation E then Ok 0 else init_nsm_driver E) (\<lambda>nsm_fd.
          Ok \<lparr> sv_private_key = private_key, sv_public_key = public_key, sv_nsm_fd = nsm_fd \<rparr>))"

definition request_attestation_from_nsm_driver ::
  "('f, 'sk, 'pub, 'params, 'pk, 'vk) tee_env \<Rightarrow> tee_server \<Rightarrow> bytes \<Rightarrow> (bytes, vsock_error) result" where
  "request_attestation_from_nsm_driver E s tee_public_key =
     ok_or (te_nsm_attest E (sv_nsm_fd s) tee_public_key)
       (VsockProtocol ''NSM driver failed to compute attestation.'')"

definition public_key_response ::
  "('f, 'sk, 'pub, 'params, 'pk, 'vk) tee_env \<Rightarrow> tee_server \<Rightarrow> (tee_response, vsock_error) result" where
  "public_key_response E s =
     (let public_key = sv_public_key s; public_key_hex = te_to_hex E public_key
      in and_then (if te_without_attestation E then Ok []
                   else request_attestation_from_nsm_driver E s public_key)
           (\<lambda>attestation_document. Ok (TeePublicKey public_key_hex attestation_document)))"

definition decrypt_using_servers_private_key ::
  "('f, 'sk, 'pub, 'params, 'pk, 'vk) tee_env \<Rightarrow> tee_server \<Rightarrow> bytes \<Rightarrow> (bytes, vsock_error) result" where
  "decrypt_using_servers_private_key E s request_payload =
     and_then (map_err VsockProtocol (te_priv_from_bytes E (sv_private_key s))) (\<lambda>private_key.
     map_err VsockProtocol (te_decrypt E request_payload private_key))"

definition encrypt_bytes ::
  "('f, 'sk, 'pub, 'params, 'pk, 'vk) tee_env \<Rightarrow> bytes \<Rightarrow> bytes \<Rightarrow> (bytes, vsock_error) result" where
  "encrypt_bytes E user_public_key bs =
     and_then (map_err VsockProtocol (te_pub_from_bytes E user_public_key)) (\<lambda>pub_key.
     Ok (te_encrypt E bs pub_key))"

definition compute_proof_for_circuit ::
  "('params, 'pk, 'input, 'output) serializable_circuit \<Rightarrow> bytes \<Rightarrow> ('params, 'pk) tee_circuit
     \<Rightarrow> (bytes \<times> bytes, vsock_error) result" where
  "compute_proof_for_circuit SC serialized_circuit_inputs circuit =
     and_then (map_err VsockProtocol (sc_deserialize SC serialized_circuit_inputs)) (\<lambda>input.
     and_then (expect_ok (sc_pub_inputs SC input) []) (\<lambda>pub_inputs.
     and_then (expect_ok (sc_prove SC circuit input) []) (\<lambda>prf.
     and_then (map_err VsockSerde (sc_to_vec SC pub_inputs)) (\<lambda>pub_inputs_bytes.
     Ok (prf, pub_inputs_bytes)))))"

definition compute_proof_with ::
  "('params, 'pk, 'input, 'output) serializable_circuit \<Rightarrow> bytes \<Rightarrow> (bytes \<times> bytes, vsock_error) result" where
  "compute_proof_with SC serialized_circuit_inputs =
     and_then (sc_new SC) (compute_proof_for_circuit SC serialized_circuit_inputs)"

fun compute_proof ::
  "('f, 'sk, 'pub, 'params, 'pk, 'vk) tee_env \<Rightarrow> bytes \<Rightarrow> circuit_type
     \<Rightarrow> (bytes \<times> bytes, vsock_error) result" where
  "compute_proof E inputs NewAccountType = compute_proof_with (new_account_circuit E) inputs"
| "compute_proof E inputs DepositType = compute_proof_with (deposit_circuit E) inputs"
| "compute_proof E inputs WithdrawType = compute_proof_with (withdraw_circuit E) inputs"

definition encrypted_proof_response ::
  "('f, 'sk, 'pub, 'params, 'pk, 'vk) tee_env \<Rightarrow> tee_server \<Rightarrow> bytes \<Rightarrow> (bytes \<times> bytes, vsock_error) result" where
  "encrypted_proof_response E s request_payload =
     and_then (decrypt_using_servers_private_key E s request_payload) (\<lambda>decrypted_payload.
     and_then (ok_or (te_from_utf8 E decrypted_payload)
         (VsockProtocol ''Failed to decode decrypted payload as UTF-8.'')) (\<lambda>decrypted_payload.
     and_then (map_err VsockSerde (te_parse_payload E decrypted_payload)) (\<lambda>payload.
     and_then (compute_proof E (pl_circuit_inputs payload) (pl_circuit_type payload)) (\<lambda>(prf, pub_inputs).
     and_then (encrypt_bytes E (pl_user_public_key payload) prf) (\<lambda>encrypted_proof.
     and_then (encrypt_bytes E (pl_user_public_key payload) pub_inputs) (\<lambda>encrypted_pub_inputs.
     Ok (encrypted_proof, encrypted_pub_inputs)))))))"

fun tee_handler ::
  "('f, 'sk, 'pub, 'params, 'pk, 'vk) tee_env \<Rightarrow> tee_server \<Rightarrow> tee_request \<Rightarrow> (tee_response, vsock_error) result" where
  "tee_handler E s Ping = Ok Pong"
| "tee_handler E s TeePublicKeyRequest = public_key_response E s"
| "tee_handler E s (GenerateProof payload) =
     and_then (encrypted_proof_response E s payload) (\<lambda>(prf, pub_inputs). Ok (EncryptedProof prf pub_inputs))"

text \<open>The loop ends only with an error or a panic; every iteration consumes a frame.\<close>

lemma handle_request_consumes:
  assumes "handle_request E handler c = (Ok (), c')"
  shows "length (vs_in c') < length (vs_in c)"
  using assms
  by (auto simp: handle_request_def vsock_recv_def vsock_send_def split: list.splits sum.splits result.splits)

function client_loop ::
  "('f, 'sk, 'pub, 'params, 'pk, 'vk) tee_env \<Rightarrow> (tee_request \<Rightarrow> (tee_response, vsock_error) result) \<Rightarrow> vsock
     \<Rightarrow> (unit, vsock_error) result \<times> vsock" where
  "client_loop E handler c =
     (case handle_request E handler c of
        (Ok _, c') \<Rightarrow> client_loop E handler c'
      | (Err e, c') \<Rightarrow> (Err e, c')
      | (Panic m, c') \<Rightarrow> (Panic m, c'))"
  by pat_completeness auto
termination
  by (relation "measure (\<lambda>(E, handler, c). length (vs_in c))") (auto dest!: sym handle_request_consumes)

declare client_loop.simps [simp del]

definition do_handle_client ::
  "('f, 'sk, 'pub, 'params, 'pk, 'vk) tee_env \<Rightarrow> tee_server \<Rightarrow> vsock
     \<Rightarrow> (unit, vsock_error) result \<times> vsock" where
  "do_handle_client E s stream = client_loop E (tee_handler E s) stream"

section \<open>The host's HTTP server\<close>

record host_options =
  ho_public_port :: u16
  ho_tee_port :: u16
  ho_bind_address :: string
  ho_tee_cid :: u32
  ho_task_pool_capacity :: nat
  ho_maximum_request_size :: nat
  ho_task_pool_timeout_secs :: u64
  ho_tee_compute_timeout_secs :: u64

datatype host_error =
    HostIo string
  | TaskPoolError string
  | JoinHandleError string
  | ProvingServerError vsock_error

text \<open>
  The client writes its request and reads one frame of what the peer sends back; \<open>peer\<close> maps the frames
  written to the peer to the frames it answers with.
\<close>

definition client_request ::
  "('f, 'sk, 'pub, 'params, 'pk, 'vk) tee_env \<Rightarrow> (bytes list \<Rightarrow> (bytes + string) list) \<Rightarrow> tee_request
     \<Rightarrow> (tee_response, vsock_error) result" where
  "client_request E peer req =
     (case vsock_send (te_json_request E) (te_write E) req \<lparr> vs_in = [], vs_out = [] \<rparr> of
        (Ok _, c) \<Rightarrow> fst (vsock_recv (te_parse_response E) (c\<lparr> vs_in := peer (vs_out c) \<rparr>))
      | (Err e, c) \<Rightarrow> Err e
      | (Panic m, c) \<Rightarrow> Panic m)"

definition host_request ::
  "('f, 'sk, 'pub, 'params, 'pk, 'vk) tee_env \<Rightarrow> host_options \<Rightarrow> (bytes list \<Rightarrow> (bytes + string) list)
     \<Rightarrow> tee_request \<Rightarrow> (tee_response, vsock_error) result" where
  "host_request E options peer req =
     and_then (map_err VsockIO (te_connect E (ho_tee_cid options) (ucast (ho_tee_port options)))) (\<lambda>_.
     client_request E peer req)"

text \<open>The enclave as the peer of a fresh connection.\<close>

definition enclave ::
  "('f, 'sk, 'pub, 'params, 'pk, 'vk) tee_env \<Rightarrow> tee_server \<Rightarrow> bytes list \<Rightarrow> (bytes + string) list" where
  "enclave E s frames =
     map Inl (vs_out (snd (do_handle_client E s \<lparr> vs_in = map Inl frames, vs_out = [] \<rparr>)))"

text \<open>
  What the task pool decides about a task: whether it is spawned in time, whether it is joined, whether it
  finishes in time. A panicking task cannot be joined.
\<close>

record pool_outcome =
  po_spawn :: "(unit, string) result"
  po_join :: "(unit, string) result"
  po_run :: "(unit, string) result"

fun in_task_pool ::
  "pool_outcome \<Rightarrow> (tee_response, vsock_error) result \<Rightarrow> (tee_response, host_error) result" where
  "in_task_pool pool (Panic m) =
     and_then (map_err TaskPoolError (po_spawn pool)) (\<lambda>_. Err (JoinHandleError m))"
| "in_task_pool pool task =
     and_then (map_err TaskPoolError (po_spawn pool)) (\<lambda>_.
     and_then (map_err JoinHandleError (po_join pool)) (\<lambda>_.
     and_then (map_err TaskPoolError (po_run pool)) (\<lambda>_.
     map_err ProvingServerError task)))"

definition health_route ::
  "('f, 'sk, 'pub, 'params, 'pk, 'vk) tee_env \<Rightarrow> host_options \<Rightarrow> (bytes list \<Rightarrow> (bytes + string) list)
     \<Rightarrow> pool_outcome \<Rightarrow> (tee_response, host_error) result" where
  "health_route E options peer pool = in_task_pool pool (host_request E options peer Ping)"

definition tee_public_key_route ::
  "('f, 'sk, 'pub, 'params, 'pk, 'vk) tee_env \<Rightarrow> host_options \<Rightarrow> (bytes list \<Rightarrow> (bytes + string) list)
     \<Rightarrow> pool_outcome \<Rightarrow> (tee_response, host_error) result" where
  "tee_public_key_route E options peer pool = in_task_pool pool (host_request E options peer TeePublicKeyRequest)"

definition generate_proof_route ::
  "('f, 'sk, 'pub, 'params, 'pk, 'vk) tee_env \<Rightarrow> host_options \<Rightarrow> (bytes list \<Rightarrow> (bytes + string) list)
     \<Rightarrow> pool_outcome \<Rightarrow> bytes \<Rightarrow> (tee_response, host_error) result" where
  "generate_proof_route E options peer pool payload =
     in_task_pool pool (host_request E options peer (GenerateProof payload))"

text \<open>The status and the message of an error; \<open>debug\<close> prints an error of the transport.\<close>

fun into_response :: "(vsock_error \<Rightarrow> string) \<Rightarrow> host_error \<Rightarrow> u16 \<times> string" where
  "into_response debug (HostIo e) = (500, ''Internal I/O error: '' @ e)"
| "into_response debug (TaskPoolError e) = (504, ''Cannot schedule more tasks: '' @ e)"
| "into_response debug (ProvingServerError e) = (500, ''TEE Proving Server error: '' @ debug e)"
| "into_response debug (JoinHandleError e) = (500, ''Servers task failed to completion : '' @ e)"

section \<open>A connection answers requests in order\<close>

text \<open>The frame that answers a frame, if the request is understood and succeeds.\<close>

definition answer_frame ::
  "('f, 'sk, 'pub, 'params, 'pk, 'vk) tee_env \<Rightarrow> (tee_request \<Rightarrow> (tee_response, vsock_error) result) \<Rightarrow> bytes
     \<Rightarrow> bytes option" where
  "answer_frame E handler frame =
     (case te_parse_request E frame of
        Ok req \<Rightarrow> (case handler req of
            Ok res \<Rightarrow> (case te_json_response E res of Ok reply \<Rightarrow> Some reply | _ \<Rightarrow> None)
          | _ \<Rightarrow> None)
      | _ \<Rightarrow> None)"

lemma handle_request_frame:
  assumes "\<And>out f. te_write E out f = Ok ()"
  shows "case answer_frame E handler frame of
      Some reply \<Rightarrow> handle_request E handler \<lparr> vs_in = Inl frame # rest, vs_out = out \<rparr> =
        (Ok (), \<lparr> vs_in = rest, vs_out = out @ [reply] \<rparr>)
    | None \<Rightarrow> \<exists>r. handle_request E handler \<lparr> vs_in = Inl frame # rest, vs_out = out \<rparr> =
        (r, \<lparr> vs_in = rest, vs_out = out \<rparr>) \<and> \<not> is_ok r"
  using assms
  by (auto simp: handle_request_def vsock_recv_def vsock_send_def answer_frame_def
      split: result.splits option.splits)

lemma client_loop_frames:
  assumes ok_write: "\<And>out f. te_write E out f = Ok ()"
  shows "\<exists>r c. client_loop E handler \<lparr> vs_in = map Inl frames, vs_out = out \<rparr> = (r, c) \<and> \<not> is_ok r \<and>
    vs_out c = out @ map (the \<circ> answer_frame E handler)
      (takeWhile (\<lambda>f. answer_frame E handler f \<noteq> None) frames)"
proof (induction frames arbitrary: out)
  case Nil
  show ?case by (subst client_loop.simps) (simp add: handle_request_def vsock_recv_def)
next
  case (Cons frame frames)
  note step = handle_request_frame [of E handler frame "map Inl frames" out, OF ok_write]
  show ?case
  proof (cases "answer_frame E handler frame")
    case None
    with step obtain r where "handle_request E handler \<lparr> vs_in = Inl frame # map Inl frames, vs_out = out \<rparr> =
        (r, \<lparr> vs_in = map Inl frames, vs_out = out \<rparr>)" "\<not> is_ok r" by auto
    then show ?thesis using None 
      by (subst client_loop.simps) (cases r, simp_all)
  next
    case (Some reply)
    with step Cons.IH [of "out @ [reply]"] show ?thesis by (subst client_loop.simps) auto
  qed
qed

lemma enclave_single:
  assumes "\<And>out f. te_write E out f = Ok ()"
  shows "enclave E s [frame] = (case answer_frame E (tee_handler E s) frame of Some reply \<Rightarrow> [Inl reply] | None \<Rightarrow> [])"
  using client_loop_frames [of E "tee_handler E s" "[frame]" "[]", OF assms]
  by (auto simp: enclave_def do_handle_client_def split: option.splits)

text \<open>
  C25. A connection answers its requests one by one. When writing succeeds, the enclave writes exactly one
  response for every frame before the first that it cannot answer (not a request, or a request whose
  handling or encoding fails), in their order, and nothing afterwards; the loop then ends, never with
  success.
\<close>

theorem client_requests_answered_in_order:
  assumes "\<And>out f. te_write E out f = Ok ()"
  shows "vs_out (snd (do_handle_client E s \<lparr> vs_in = map Inl frames, vs_out = [] \<rparr>)) =
      map (the \<circ> answer_frame E (tee_handler E s))
        (takeWhile (\<lambda>f. answer_frame E (tee_handler E s) f \<noteq> None) frames) \<and>
    \<not> is_ok (fst (do_handle_client E s \<lparr> vs_in = map Inl frames, vs_out = [] \<rparr>))"
  using client_loop_frames [of E "tee_handler E s" frames "[]", OF assms]
  by (auto simp: do_handle_client_def)

section \<open>A proof request, end to end\<close>

lemma host_request_enclave:
  assumes ok_write: "\<And>out f. te_write E out f = Ok ()" and "te_connect E (ho_tee_cid options) (ucast (ho_tee_port options)) = Ok ()"
    and "te_json_request E req = Ok f" "te_parse_request E f = Ok req"
  shows "host_request E options (enclave E s) req =
    (case tee_handler E s req of
       Ok res \<Rightarrow> (case te_json_response E res of
           Ok g \<Rightarrow> map_err VsockSerde (te_parse_response E g)
         | _ \<Rightarrow> Err VsockClosed)
     | _ \<Rightarrow> Err VsockClosed)"
proof -
  have "vsock_send (te_json_request E) (te_write E) req \<lparr> vs_in = [], vs_out = [] \<rparr> =
      (Ok (), \<lparr> vs_in = [], vs_out = [f] \<rparr>)"
    using assms by (simp add: vsock_send_def)
  then show ?thesis
    using assms enclave_single [of E s f, OF ok_write]
    by (simp add: host_request_def client_request_def vsock_recv_def answer_frame_def split: result.splits)
qed

text \<open>The pool admits the task, joins it and lets it finish; the transport delivers what is written.\<close>

definition pool_admits :: "pool_outcome \<Rightarrow> bool" where
  "pool_admits pool \<longleftrightarrow> po_spawn pool = Ok () \<and> po_join pool = Ok () \<and> po_run pool = Ok ()"

definition transport_works :: "('f, 'sk, 'pub, 'params, 'pk, 'vk) tee_env \<Rightarrow> host_options \<Rightarrow> bool" where
  "transport_works E options \<longleftrightarrow>
     te_connect E (ho_tee_cid options) (ucast (ho_tee_port options)) = Ok () \<and>
     (\<forall>out f. te_write E out f = Ok ()) \<and>
     (\<forall>req. \<exists>f. te_json_request E req = Ok f \<and> te_parse_request E f = Ok req) \<and>
     (\<forall>res. \<exists>g. te_json_response E res = Ok g \<and> te_parse_response E g = Ok res)"

lemma host_request_handled:
  assumes "transport_works E options"
  shows "host_request E options (enclave E s) req =
    (case tee_handler E s req of Ok res \<Rightarrow> Ok res | _ \<Rightarrow> Err VsockClosed)"
proof -
  from assms have "\<exists>f. te_json_request E req = Ok f \<and> te_parse_request E f = Ok req"
    by (simp add: transport_works_def)
  then obtain f where f: "te_json_request E req = Ok f" "te_parse_request E f = Ok req" by blast
  have "\<exists>g. te_json_response E res = Ok g \<and> te_parse_response E g = Ok res" for res
    using assms by (simp add: transport_works_def)
  then show ?thesis
    using assms host_request_enclave [of E options req f s] f
    by (auto simp: transport_works_def split: result.splits) (metis map_err.simps(1) result.inject(1) result.distinct(1,3))+
qed

lemma in_task_pool_Ok:
  "in_task_pool pool task = Ok r \<longleftrightarrow> pool_admits pool \<and> task = Ok r"
  by (cases task) (auto simp: result_simps pool_admits_def)

text \<open>
  What the proof endpoint answers. Over a working transport, the endpoint succeeds exactly when the
  task pool admits the task and the enclave can serve the payload, and returns the enclave's answer; when
  the pool admits it and the enclave fails or panics (a payload it cannot decrypt or decode, a malformed
  request, arguments that are no field elements), the caller gets status 500 and only learns that the
  connection was closed.
\<close>

theorem proof_endpoint_answers:
  assumes "transport_works E options"
  shows "(generate_proof_route E options (enclave E s) pool payload = Ok r \<longleftrightarrow>
      pool_admits pool \<and> (\<exists>prf out. encrypted_proof_response E s payload = Ok (prf, out) \<and>
        r = EncryptedProof prf out)) \<and>
    (pool_admits pool \<and> \<not> is_ok (encrypted_proof_response E s payload) \<longrightarrow>
      generate_proof_route E options (enclave E s) pool payload = Err (ProvingServerError VsockClosed) \<and>
      into_response debug (ProvingServerError VsockClosed) =
        (500, ''TEE Proving Server error: '' @ debug VsockClosed))"
proof (intro conjI impI)
  show "generate_proof_route E options (enclave E s) pool payload = Ok r \<longleftrightarrow>
      pool_admits pool \<and> (\<exists>prf out. encrypted_proof_response E s payload = Ok (prf, out) \<and>
        r = EncryptedProof prf out)"
    by (auto simp: generate_proof_route_def in_task_pool_Ok host_request_handled [OF assms] result_simps
        split: result.splits)
next
  assume "pool_admits pool \<and> \<not> is_ok (encrypted_proof_response E s payload)"
  then show "generate_proof_route E options (enclave E s) pool payload = Err (ProvingServerError VsockClosed)"
    by (cases "encrypted_proof_response E s payload")
      (simp_all add: generate_proof_route_def host_request_handled [OF assms] pool_admits_def)
qed simp

text \<open>
  C10. A proof request, end to end. A client encrypts a well-formed payload for the enclave's key and
  posts it; if the enclave can compute the proof of that payload's circuit and inputs, the endpoint answers
  with a proof and public inputs that the holder of the user's secret key decrypts to exactly the computed
  ones. ECIES decryption inverts encryption for matching keys.
\<close>

theorem proof_request_end_to_end:
  assumes "transport_works E options" and "pool_admits pool"
    and "te_priv_from_bytes E (sv_private_key s) = Ok sk" and "\<And>m. te_decrypt E (te_encrypt E m pk) sk = Ok m"
    and "te_from_utf8 E msg = Some decoded"
    and "te_parse_payload E decoded = Ok \<lparr> pl_circuit_type = ty, pl_user_public_key = upk, pl_circuit_inputs = inputs \<rparr>"
    and "te_pub_from_bytes E upk = Ok up" and "\<And>m. te_decrypt E (te_encrypt E m up) usk = Ok m"
    and "compute_proof E inputs ty = Ok (prf, out)"
  shows "\<exists>c1 c2. generate_proof_route E options (enclave E s) pool (te_encrypt E msg pk) =
      Ok (EncryptedProof c1 c2) \<and> te_decrypt E c1 usk = Ok prf \<and> te_decrypt E c2 usk = Ok out"
proof -
  have "encrypted_proof_response E s (te_encrypt E msg pk) = Ok (te_encrypt E prf up, te_encrypt E out up)"
    using assms(3-9)
    by (simp add: encrypted_proof_response_def decrypt_using_servers_private_key_def encrypt_bytes_def)
  then show ?thesis
    using assms(2,8)
    by (simp add: generate_proof_route_def pool_admits_def host_request_handled [OF assms(1)])
qed

lemma compute_proof_with_Ok:
  "compute_proof_with SC inputs = Ok (prf, out) \<longleftrightarrow>
    (\<exists>c input p. sc_new SC = Ok c \<and> sc_deserialize SC inputs = Ok input \<and> sc_pub_inputs SC input = Ok p \<and>
      sc_prove SC c input = Ok prf \<and> sc_to_vec SC p = Ok out)"
  by (auto simp: compute_proof_with_def compute_proof_for_circuit_def result_simps)

lemma tee_new_pronto_keys:
  assumes "tee_new_pronto P (pb, kb) = Ok tc" and "new_pronto P pb kb = Ok c"
  shows "tee_circuit_prove P inp tc = circuit_prove P inp c"
  using assms
  by (auto simp: tee_new_pronto_def new_pronto_def decode_from_bytes_def tee_circuit_prove_def circuit_prove_def Let_def result_simps)

text \<open>
  C24. Clients can verify the enclave's proofs. Over the scalar field, when the enclave computes a proof, the
  inputs decode to arguments of a knowledge, the proof is the one the bindings make of it with the same
  keys, the returned public inputs are the JSON of that knowledge's public inputs, and a client that
  checks the proof against them through the bindings asks the proof system about exactly that knowledge.
\<close>

theorem enclave_proofs_verify:
  assumes "be_field (te_bindings E) = Fr"
    and "new_pronto (te_deposit E) (fst (te_artifacts E DepositType)) (snd (te_artifacts E DepositType)) = Ok cd"
    and "new_pronto (te_withdraw E) (fst (te_artifacts E WithdrawType)) (snd (te_artifacts E WithdrawType)) = Ok cw"
    and "new_pronto (te_new_account E) (fst (te_artifacts E NewAccountType)) (snd (te_artifacts E NewAccountType)) = Ok cn"
  shows "(compute_proof E inputs DepositType = Ok (prf, out) \<longrightarrow>
      (\<exists>a k p. te_parse_deposit E inputs = Ok a \<and> deposit_of_args (te_bindings E) a = Ok k \<and>
        te_json_deposit E p = Ok out \<and>
        prf = circuit_prove (te_deposit E) (c_deposit (be_circuits (te_bindings E))) cd k \<and>
        deposit_verify (te_bindings E) (te_deposit E) cd p prf =
          map_err VerificationFailed (pa_verify (te_deposit E) (cc_params cd) (cc_vk cd) prf
            (map (c_deposit (be_circuits (te_bindings E)) k) (pa_instances (te_deposit E)))))) \<and>
    (compute_proof E inputs WithdrawType = Ok (prf, out) \<longrightarrow>
      (\<exists>a k p. te_parse_withdraw E inputs = Ok a \<and> withdraw_of_args (te_bindings E) a = Ok k \<and>
        te_json_withdraw E p = Ok out \<and>
        prf = circuit_prove (te_withdraw E) (c_withdraw (be_circuits (te_bindings E))) cw k \<and>
        withdraw_verify (te_bindings E) (te_withdraw E) cw p prf =
          map_err VerificationFailed (pa_verify (te_withdraw E) (cc_params cw) (cc_vk cw) prf
            (map (c_withdraw (be_circuits (te_bindings E)) k) (pa_instances (te_withdraw E)))))) \<and>
    (compute_proof E inputs NewAccountType = Ok (prf, out) \<longrightarrow>
      (\<exists>a k p. te_parse_new_account E inputs = Ok a \<and> new_account_of_args (te_bindings E) a = Ok k \<and>
        te_json_new_account E p = Ok out \<and>
        prf = circuit_prove (te_new_account E) (c_new_account (be_circuits (te_bindings E))) cn k \<and>
        new_account_verify (te_bindings E) (te_new_account E) cn p prf =
          map_err VerificationFailed (pa_verify (te_new_account E) (cc_params cn) (cc_vk cn) prf
            (map (c_new_account (be_circuits (te_bindings E)) k) (pa_instances (te_new_account E))))))"
proof (intro conjI impI)
  assume "compute_proof E inputs DepositType = Ok (prf, out)"
  then show "\<exists>a k p. te_parse_deposit E inputs = Ok a \<and> deposit_of_args (te_bindings E) a = Ok k \<and>
      te_json_deposit E p = Ok out \<and>
      prf = circuit_prove (te_deposit E) (c_deposit (be_circuits (te_bindings E))) cd k \<and>
      deposit_verify (te_bindings E) (te_deposit E) cd p prf =
        map_err VerificationFailed (pa_verify (te_deposit E) (cc_params cd) (cc_vk cd) prf
          (map (c_deposit (be_circuits (te_bindings E)) k) (pa_instances (te_deposit E))))"
    using assms(1) tee_new_pronto_keys [OF _ assms(2)]
    by (fastforce simp: compute_proof_with_Ok deposit_circuit_def result_simps deposit_pub_inputs_def
        deposit_verify_def dp_binding.verify_reads)
next
  assume "compute_proof E inputs WithdrawType = Ok (prf, out)"
  then show "\<exists>a k p. te_parse_withdraw E inputs = Ok a \<and> withdraw_of_args (te_bindings E) a = Ok k \<and>
      te_json_withdraw E p = Ok out \<and>
      prf = circuit_prove (te_withdraw E) (c_withdraw (be_circuits (te_bindings E))) cw k \<and>
      withdraw_verify (te_bindings E) (te_withdraw E) cw p prf =
        map_err VerificationFailed (pa_verify (te_withdraw E) (cc_params cw) (cc_vk cw) prf
          (map (c_withdraw (be_circuits (te_bindings E)) k) (pa_instances (te_withdraw E))))"
    using assms(1) tee_new_pronto_keys [OF _ assms(3)]
    by (fastforce simp: compute_proof_with_Ok withdraw_circuit_def result_simps withdraw_pub_inputs_def
        withdraw_verify_def wd_binding.verify_reads)
next
  assume "compute_proof E inputs NewAccountType = Ok (prf, out)"
  then show "\<exists>a k p. te_parse_new_account E inputs = Ok a \<and> new_account_of_args (te_bindings E) a = Ok k \<and>
      te_json_new_account E p = Ok out \<and>
      prf = circuit_prove (te_new_account E) (c_new_account (be_circuits (te_bindings E))) cn k \<and>
      new_account_verify (te_bindings E) (te_new_account E) cn p prf =
        map_err VerificationFailed (pa_verify (te_new_account E) (cc_params cn) (cc_vk cn) prf
          (map (c_new_account (be_circuits (te_bindings E)) k) (pa_instances (te_new_account E))))"
    using assms(1) tee_new_pronto_keys [OF _ assms(4)]
    by (fastforce simp: compute_proof_with_Ok new_account_circuit_def result_simps new_account_pub_inputs_def
        new_account_verify_def na_binding.verify_reads)
qed

section \<open>Witnesses\<close>

text \<open>A transport format: a tag, and where two fields follow, the first as marked bytes with a terminator.\<close>

definition marked :: "bytes \<Rightarrow> bytes \<Rightarrow> bytes" where
  "marked xs rest = concat (map (\<lambda>x. [1, x]) xs) @ 0 # rest"

fun unmark :: "bytes \<Rightarrow> (bytes \<times> bytes, string) result" where
  "unmark [] = Err ''unexpected end''"
| "unmark (m # bs) =
     (if m = 0 then Ok ([], bs)
      else case bs of
          [] \<Rightarrow> Err ''unexpected end''
        | x # rest \<Rightarrow> map_ok (\<lambda>(xs, rest). (x # xs, rest)) (unmark rest))"

lemma unmark_marked [simp]: "unmark (marked xs rest) = Ok (xs, rest)"
  by (induction xs) (simp_all add: marked_def)

fun sample_json_request :: "tee_request \<Rightarrow> (bytes, string) result" where
  "sample_json_request Ping = Ok [0]"
| "sample_json_request TeePublicKeyRequest = Ok [1]"
| "sample_json_request (GenerateProof p) = Ok (2 # p)"

definition sample_parse_request :: "bytes \<Rightarrow> (tee_request, string) result" where
  "sample_parse_request bs =
     (case bs of [] \<Rightarrow> Err ''empty''
      | t # p \<Rightarrow> if t = 0 then Ok Ping else if t = 1 then Ok TeePublicKeyRequest
                 else if t = 2 then Ok (GenerateProof p) else Err ''unknown variant'')"

fun sample_json_response :: "tee_response \<Rightarrow> (bytes, string) result" where
  "sample_json_response Pong = Ok [0]"
| "sample_json_response (TeePublicKey hex doc) = Ok (1 # marked (map (\<lambda>c. of_nat (of_char c)) hex) doc)"
| "sample_json_response (EncryptedProof a b) = Ok (2 # marked a b)"

definition sample_parse_response :: "bytes \<Rightarrow> (tee_response, string) result" where
  "sample_parse_response bs =
     (case bs of [] \<Rightarrow> Err ''empty''
      | t # p \<Rightarrow> if t = 0 then Ok Pong
                 else if t = 1 then map_ok (\<lambda>(hex, doc). TeePublicKey (map (\<lambda>b. char_of (unat b)) hex) doc) (unmark p)
                 else map_ok (\<lambda>(a, b). EncryptedProof a b) (unmark p))"

definition sample_tee :: "(fr, unit, unit, unit, unit, unit) tee_env" where
  "sample_tee = \<lparr>
     te_bindings = sample_bindings,
     te_new_account = sample_prover [NA_HashedNote],
     te_deposit = sample_prover [D_MerkleRoot, D_DepositValue],
     te_withdraw = sample_prover [W_MerkleRoot],
     te_artifacts = (\<lambda>_. ([], [])),
     te_parse_new_account = (\<lambda>_. Ok sample_new_account_args),
     te_parse_deposit = (\<lambda>_. Ok (deposit_args_of sample_deposit_knowledge)),
     te_parse_withdraw = (\<lambda>_. Ok (withdraw_args_of sample_withdraw_knowledge)),
     te_json_new_account = (\<lambda>p. Ok (nap_hashed_note p)),
     te_json_deposit = (\<lambda>p. Ok (dpp_value p)),
     te_json_withdraw = (\<lambda>p. Ok (wdp_h_note_new p)),
     te_from_utf8 = (\<lambda>bs. Some []),
     te_parse_payload = (\<lambda>_. Ok \<lparr> pl_circuit_type = DepositType, pl_user_public_key = [], pl_circuit_inputs = [] \<rparr>),
     te_json_request = sample_json_request, te_parse_request = sample_parse_request,
     te_json_response = sample_json_response, te_parse_response = sample_parse_response,
     te_write = (\<lambda>_ _. Ok ()), te_bind = (\<lambda>_. Ok ()), te_connect = (\<lambda>_ _. Ok ()),
     te_generate_keypair = ([7], [8]), te_priv_from_bytes = (\<lambda>_. Ok ()), te_pub_from_bytes = (\<lambda>_. Ok ()),
     te_encrypt = (\<lambda>m _. rev m), te_decrypt = (\<lambda>c _. Ok (rev c)), te_to_hex = (\<lambda>_. ''08''),
     te_without_attestation = True, te_nsm_init = 0, te_nsm_attest = (\<lambda>_ _. None) \<rparr>"

definition sample_server :: tee_server where
  "sample_server = \<lparr> sv_private_key = [7], sv_public_key = [8], sv_nsm_fd = 0 \<rparr>"

definition sample_host :: host_options where
  "sample_host = \<lparr> ho_public_port = 3000, ho_tee_port = VSOCK_PORT, ho_bind_address = ''0.0.0.0'', ho_tee_cid = 2,
     ho_task_pool_capacity = 100, ho_maximum_request_size = 102400, ho_task_pool_timeout_secs = 5,
     ho_tee_compute_timeout_secs = 60 \<rparr>"

definition sample_pool :: pool_outcome where
  "sample_pool = \<lparr> po_spawn = Ok (), po_join = Ok (), po_run = Ok () \<rparr>"

lemma char_roundtrip: "char_of (unat (of_nat (of_char c) :: u8)) = c"
proof -
  have "of_char c mod 256 < (256 :: nat)" by simp
  then have "of_char c < (256 :: nat)" by (simp only: of_char_mod_256)
  then have "unat (of_nat (of_char c) :: u8) = of_char c" by (intro unat_of_nat_lt) simp
  then show ?thesis by simp
qed

lemma sample_transport: "transport_works sample_tee sample_host"
proof -
  have "\<exists>f. sample_json_request req = Ok f \<and> sample_parse_request f = Ok req" for req
    by (cases req) (simp_all add: sample_parse_request_def)
  moreover have "\<exists>g. sample_json_response res = Ok g \<and> sample_parse_response g = Ok res" for res
    by (cases res) (simp_all add: sample_parse_response_def comp_def char_roundtrip)
  ultimately show ?thesis by (simp add: transport_works_def sample_tee_def)
qed

theorem client_requests_answered_in_order_witness:
  "vs_out (snd (do_handle_client sample_tee sample_server \<lparr> vs_in = map Inl [[0], [1], [9], [0]], vs_out = [] \<rparr>)) =
     [[0], 1 # marked [48, 56] []]"
proof -
  have "map (the \<circ> answer_frame sample_tee (tee_handler sample_tee sample_server))
      (takeWhile (\<lambda>f. answer_frame sample_tee (tee_handler sample_tee sample_server) f \<noteq> None)
        [[0], [1], [9], [0]]) = [[0], 1 # marked [48, 56] []]"
    by (simp add: answer_frame_def sample_tee_def sample_parse_request_def public_key_response_def)
  then show ?thesis
    using client_requests_answered_in_order [of sample_tee sample_server "[[0], [1], [9], [0]]"]
    by (simp add: sample_tee_def)
qed

lemma sample_tee_field: "be_field (te_bindings sample_tee) = Fr"
  by (simp add: sample_tee_def)

lemma sample_compute_proof: "\<exists>prf out. compute_proof sample_tee [] DepositType = Ok (prf, out)"
  by (simp add: compute_proof_with_Ok deposit_circuit_def sample_tee_def tee_new_pronto_def decode_from_bytes_def
      sample_prover_def sample_of_args deposit_pub_inputs_def) blast

theorem proof_request_end_to_end_witness:
  "\<exists>c1 c2. generate_proof_route sample_tee sample_host (enclave sample_tee sample_server) sample_pool [1, 2, 3] =
     Ok (EncryptedProof c1 c2)"
proof -
  obtain q out where "compute_proof sample_tee [] DepositType = Ok (q, out)"
    using sample_compute_proof by blast
  then show ?thesis
    using proof_request_end_to_end [where E = sample_tee and options = sample_host and pool = sample_pool
        and s = sample_server and sk = "()" and pk = "()" and msg = "[3, 2, 1]" and decoded = "[]" and ty = DepositType
        and upk = "[]" and inputs = "[]" and up = "()" and usk = "()",
        OF sample_transport]
    by (auto simp: sample_tee_def sample_pool_def pool_admits_def)
qed

theorem proof_endpoint_answers_witness:
  "generate_proof_route (sample_tee\<lparr> te_from_utf8 := (\<lambda>_. None) \<rparr>) sample_host
     (enclave (sample_tee\<lparr> te_from_utf8 := (\<lambda>_. None) \<rparr>) sample_server) sample_pool [1, 2, 3] =
   Err (ProvingServerError VsockClosed)"
proof -
  let ?E = "sample_tee\<lparr> te_from_utf8 := (\<lambda>_. None) \<rparr>"
  have "transport_works ?E sample_host"
    using sample_transport by (simp add: transport_works_def)
  moreover have "\<not> is_ok (encrypted_proof_response ?E sample_server [1, 2, 3])"
    by (simp add: encrypted_proof_response_def decrypt_using_servers_private_key_def sample_tee_def)
  ultimately show ?thesis
    using proof_endpoint_answers [where E = ?E and options = sample_host and s = sample_server
        and pool = sample_pool and payload = "[1, 2, 3]"]
    by (simp add: sample_pool_def pool_admits_def)
qed

theorem enclave_proofs_verify_witness:
  "\<exists>prf out a k p. compute_proof sample_tee [] DepositType = Ok (prf, out) \<and>
     te_parse_deposit sample_tee [] = Ok a \<and> deposit_of_args sample_bindings a = Ok k \<and>
     te_json_deposit sample_tee p = Ok out"
proof -
  obtain q out where c: "compute_proof sample_tee [] DepositType = Ok (q, out)"
    using sample_compute_proof by blast
  have keys: "new_pronto (te_deposit sample_tee) x y = Ok sample_keys"
    "new_pronto (te_withdraw sample_tee) x y = Ok sample_keys"
    "new_pronto (te_new_account sample_tee) x y = Ok sample_keys" for x y
    by (simp_all add: sample_tee_def new_pronto_def decode_from_bytes_def sample_prover_def sample_keys_def)
  have "te_bindings sample_tee = sample_bindings" by (simp add: sample_tee_def)
  with c show ?thesis
    using enclave_proofs_verify [OF sample_tee_field keys, of "[]" q out] by auto
qed

end
