(* ===== verification/FeeEstimator.thy ===== *)
theory FeeEstimator
  imports ShielderCli
begin

text \<open>
  The crate \<open>fee-estimator\<close>: a service that estimates the gas of creating an account and of depositing, and
  serves the last estimates that could be made. The chain is a state \<open>'w\<close>: queries are functions of it, and
  the transactions the service sends (creating the account it deposits to) return the chain after them. The
  five estimates run concurrently in the code; their combination takes the five outcomes. Errors, the
  recovery loop and \<open>unwrap\<close> are those of the wallet.
\<close>

section \<open>Configuration\<close>

record service_config =
  fc_rpc_url :: string
  fc_contract_address :: address
  fc_account_pk :: u256
  fc_empty_shielder_seed :: u256
  fc_created_shielder_seed_native :: u256
  fc_created_shielder_seed_erc20 :: u256
  fc_erc20_token_address :: address
  fc_fee_refresh_interval_millis :: u64
  fc_server_address :: string

definition resolve_env :: "(string \<rightharpoonup> string) \<Rightarrow> string \<Rightarrow> (string, cli_error) result" where
  "resolve_env env env_name =
     ok_or (env env_name) (CliMsg (''Environment variable `'' @ env_name @ ''` is not set''))"

definition keccak_u256 :: "(bytes \<Rightarrow> bytes) \<Rightarrow> u256 \<Rightarrow> u256" where
  "keccak_u256 keccak v = from_be_bytes (keccak (to_be_bytes 32 v))"

definition config_from_env ::
  "(bytes \<Rightarrow> bytes) \<Rightarrow> (string \<Rightarrow> (u256, string) result) \<Rightarrow> (string \<Rightarrow> address option) \<Rightarrow>
   (string \<Rightarrow> (u64, string) result) \<Rightarrow> (string \<rightharpoonup> string) \<Rightarrow> (service_config, cli_error) result" where
  "config_from_env keccak parse_u256 parse_address parse_u64 env =
     and_then (resolve_env env ''ACCOUNT_PK'') (\<lambda>account_pk.
     and_then (map_err CliMsg (parse_u256 account_pk)) (\<lambda>account_pk.
       let empty_shielder_seed = keccak_u256 keccak account_pk;
           created_shielder_seed_native = keccak_u256 keccak empty_shielder_seed;
           created_shielder_seed_erc20 = keccak_u256 keccak created_shielder_seed_native
       in and_then (resolve_env env ''RPC_URL'') (\<lambda>rpc_url.
          and_then (resolve_env env ''CONTRACT_ADDRESS'') (\<lambda>contract_address.
          and_then (ok_or (parse_address contract_address) (CliMsg ''Invalid contract address'')) (\<lambda>contract_address.
          and_then (resolve_env env ''ERC20_TOKEN_ADDRESS'') (\<lambda>token_addr.
          and_then (ok_or (parse_address token_addr) (CliMsg ''Invalid ERC20 token address'')) (\<lambda>token_addr.
          and_then (resolve_env env ''FEE_REFRESH_INTERVAL_MILLIS'') (\<lambda>interval_millis.
          and_then (map_err CliMsg (parse_u64 interval_millis)) (\<lambda>interval_millis.
          and_then (resolve_env env ''SERVER_ADDRESS'') (\<lambda>server_address.
          Ok \<lparr> fc_rpc_url = rpc_url, fc_contract_address = contract_address, fc_account_pk = account_pk,
               fc_empty_shielder_seed = empty_shielder_seed,
               fc_created_shielder_seed_native = created_shielder_seed_native,
               fc_created_shielder_seed_erc20 = created_shielder_seed_erc20,
               fc_erc20_token_address = token_addr, fc_fee_refresh_interval_millis = interval_millis,
               fc_server_address = server_address \<rparr>))))))))))"

section \<open>Environment\<close>

record ('f, 'p, 's, 'l, 'w) fee_env =
  fe_circuits :: "'f circuits"
  fe_poseidon :: "'f list \<Rightarrow> 'f"
  fe_generate_user_id :: "bytes \<Rightarrow> 'f"
  fe_signer :: "u256 \<Rightarrow> 's option"
  fe_net :: "('p, 's) net_env"
  fe_simple_provider :: "string \<Rightarrow> (unit, contract_error) result"
  fe_random_limbs :: "nat \<Rightarrow> u64 list"
  fe_prove_new_account :: "('f new_account_knowledge \<Rightarrow> bytes, string) result"
  fe_prove_deposit :: "('f deposit_knowledge \<Rightarrow> bytes, string) result"
  fe_abi :: "'l abi"
  fe_get_logs :: "'w \<Rightarrow> hash32 \<Rightarrow> ('l chain_log list, string) result"
  fe_get_block_by_number :: "'w \<Rightarrow> u64 \<Rightarrow> (chain_tx list option option, string) result"
  fe_receipt :: "'w \<Rightarrow> hash32 \<Rightarrow> (unit option, string) result"
  fe_dry_nullifiers :: "'w \<Rightarrow> ('p, nullifiersCall, u256) call_kind"
  fe_dry_merkle_path :: "'w \<Rightarrow> ('p, getMerklePathCall, u256 list) call_kind"
  fe_dry_deposit_fee :: "'w \<Rightarrow> ('p, protocolDepositFeeBpsCall, u256) call_kind"
  fe_dry_ar_pubkey :: "'w \<Rightarrow> ('p, anonymityRevokerPubkeyCall, u256 grumpkin_point) call_kind"
  fe_call_approve :: "'w \<Rightarrow> ('p, approveCall, (hash32 \<times> hash32) \<times> 'w) call_kind"
  fe_call_new_account_native :: "'w \<Rightarrow> ('p, newAccountNativeCall, (hash32 \<times> hash32) \<times> 'w) call_kind"
  fe_call_new_account_erc20 :: "'w \<Rightarrow> ('p, newAccountERC20Call, (hash32 \<times> hash32) \<times> 'w) call_kind"
  fe_gas_new_account_native :: "'w \<Rightarrow> ('p, newAccountNativeCall, u64) call_kind"
  fe_gas_new_account_erc20 :: "'w \<Rightarrow> ('p, newAccountERC20Call, u64) call_kind"
  fe_gas_deposit_native :: "'w \<Rightarrow> ('p, depositNativeCall, u64) call_kind"
  fe_gas_deposit_erc20 :: "'w \<Rightarrow> ('p, depositERC20Call, u64) call_kind"

abbreviation fe_field :: "('f, 'p, 's, 'l, 'w) fee_env \<Rightarrow> 'f field_api" where
  "fe_field E \<equiv> c_field (fe_circuits E)"

text \<open>Four random limbs; the argument numbers the draws.\<close>

definition get_mac_salt :: "('f, 'p, 's, 'l, 'w) fee_env \<Rightarrow> nat \<Rightarrow> u256" where
  "get_mac_salt E i = of_nat (limbs_nat (fe_random_limbs E i))"

definition fee_user ::
  "('f, 'p, 's, 'l, 'w) fee_env \<Rightarrow> u256 \<Rightarrow> string \<Rightarrow> address \<Rightarrow> (('p, 's) shielder_user, cli_error) result" where
  "fee_user E private_key rpc_url contract_address =
     and_then (expect (fe_signer E private_key) ''Invalid key format - cannot cast to PrivateKeySigner'') (\<lambda>signer.
     Ok (shielder_user_new contract_address (OnDemand rpc_url signer)))"

section \<open>New accounts\<close>

definition fee_prepare_new_account ::
  "('f, 'p, 's, 'l, 'w) fee_env \<Rightarrow> shielder_account \<Rightarrow> u256 \<Rightarrow> token \<Rightarrow> u256 grumpkin_point \<Rightarrow> address \<Rightarrow> u256 \<Rightarrow> bytes
     \<Rightarrow> (new_account_call, cli_error) result" where
  "fee_prepare_new_account E account amount token anonymity_revoker_public_key caller protocol_fee memo =
     and_then (expect_ok (fe_prove_new_account E) ''called Result::unwrap() on an Err value'') (\<lambda>prove.
       let extra = \<lparr> nx_anonymity_revoker_public_key = anonymity_revoker_public_key,
             nx_encryption_salt = get_mac_salt E 0, nx_mac_salt = get_mac_salt E 1,
             nx_caller_address = caller, nx_protocol_fee = protocol_fee, nx_memo = memo \<rparr>
       in Ok (prepare_call (new_account_call_type (fe_circuits E)) prove account token amount extra))"

definition estimate_new_account_gas ::
  "('f, 'p, 's, 'l, 'w) fee_env \<Rightarrow> 'w \<Rightarrow> u256 \<Rightarrow> u256 \<Rightarrow> string \<Rightarrow> address \<Rightarrow> token \<Rightarrow> u256
     \<Rightarrow> (u64, cli_error) result" where
  "estimate_new_account_gas E w private_key shielder_seed rpc_url contract_address token amount =
     and_then (fee_user E private_key rpc_url contract_address) (\<lambda>user.
       let account = account_new (fe_field E) (fe_generate_user_id E) shielder_seed token
       in and_then (map_err CliContract (anonymity_revoker_pubkey (fe_net E) user (fe_dry_ar_pubkey E w))) (\<lambda>pubkey.
          and_then (map_err CliContract (protocol_deposit_fee_bps (fe_net E) user (fe_dry_deposit_fee E w))) (\<lambda>bps.
          and_then (compute_protocol_fee_from_gross amount bps) (\<lambda>protocol_fee.
          and_then (fee_prepare_new_account E account amount token pubkey (user_address (fe_net E) user)
              protocol_fee []) (\<lambda>call.
            case token of
              Native \<Rightarrow> and_then (cli_unwrap (new_account_native_try_from call)) (\<lambda>c.
                map_err CliContract (new_account_native (fe_net E) user (fe_gas_new_account_native E w) c amount))
            | ERC20 _ \<Rightarrow> and_then (cli_unwrap (new_account_erc20_try_from call)) (\<lambda>c.
                map_err CliContract (new_account_erc20 (fe_net E) user (fe_gas_new_account_erc20 E w) c)))))))"

definition create_new_account ::
  "('f, 'p, 's, 'l, 'w) fee_env \<Rightarrow> 'w \<Rightarrow> shielder_account \<Rightarrow> ('p, 's) shielder_user \<Rightarrow> u256 \<Rightarrow> token \<Rightarrow> u256
     \<Rightarrow> (hash32 \<times> 'w, cli_error) result" where
  "create_new_account E w account user amount token protocol_fee =
     and_then (map_err CliContract (anonymity_revoker_pubkey (fe_net E) user (fe_dry_ar_pubkey E w))) (\<lambda>pubkey.
     and_then (fee_prepare_new_account E account amount token pubkey (user_address (fe_net E) user)
         protocol_fee []) (\<lambda>call.
     and_then (case token of
         Native \<Rightarrow> and_then (cli_unwrap (new_account_native_try_from call)) (\<lambda>c.
           map_err CliContract (new_account_native (fe_net E) user (fe_call_new_account_native E w) c amount))
       | ERC20 _ \<Rightarrow> and_then (cli_unwrap (new_account_erc20_try_from call)) (\<lambda>c.
           map_err CliContract (new_account_erc20 (fe_net E) user (fe_call_new_account_erc20 E w) c)))
       (\<lambda>((tx_hash, _), w). Ok (tx_hash, w))))"

section \<open>Deposits\<close>

definition fee_lookup ::
  "('f, 'p, 's, 'l, 'w) fee_env \<Rightarrow> 'w \<Rightarrow> ('p, 's) shielder_user \<Rightarrow> shielder_account
     \<Rightarrow> (shielder_action option, cli_error) result" where
  "fee_lookup E w user account =
     (let FF = fe_field E;
          expected_nullifier = previous_nullifier (c_keccak (fe_circuits E)) account;
          expected_nullifier_hash = field_to_u256 FF (fe_poseidon E [u256_to_field FF expected_nullifier])
      in map_ok (map_option (action_from_event FF)) (map_err CliContract
           (get_shielder_action (fe_abi E) (fe_get_logs E w) (fe_get_block_by_number E w)
              (user_nullifiers (fe_net E) user (fe_dry_nullifiers E w)) expected_nullifier_hash)))"

definition fee_recover_state ::
  "('f, 'p, 's, 'l, 'w) fee_env \<Rightarrow> 'w \<Rightarrow> shielder_account \<Rightarrow> ('p, 's) shielder_user \<Rightarrow> string
     \<Rightarrow> (shielder_account, cli_error) result" where
  "fee_recover_state E w account user rpc_url =
     and_then (map_err CliContract (fe_simple_provider E rpc_url)) (\<lambda>_. recover_loop (fee_lookup E w user) account)"

definition await_receipt ::
  "('f, 'p, 's, 'l, 'w) fee_env \<Rightarrow> 'w \<Rightarrow> hash32 \<Rightarrow> (unit, cli_error) result" where
  "await_receipt E w tx_hash =
     and_then (map_err CliMsg (fe_receipt E w tx_hash)) (\<lambda>receipt. expect receipt ''Transaction receipt not found'')"

definition ensure_account_created ::
  "('f, 'p, 's, 'l, 'w) fee_env \<Rightarrow> 'w \<Rightarrow> address \<Rightarrow> shielder_account \<Rightarrow> ('p, 's) shielder_user \<Rightarrow> token \<Rightarrow> u256 \<Rightarrow>
   string \<Rightarrow> u256 \<Rightarrow> (shielder_account \<times> 'w, cli_error) result" where
  "ensure_account_created E w contract_address account user token amount rpc_url protocol_fee =
     and_then (fee_recover_state E w account user rpc_url) (\<lambda>account.
     and_then (map_err CliContract (fe_simple_provider E rpc_url)) (\<lambda>_.
     and_then (if sa_nonce account = 0 then
         and_then (case token of
             ERC20 token_addr \<Rightarrow>
               and_then (map_err CliContract (approve_erc20 (fe_net E) user (fe_call_approve E w) token_addr
                   contract_address (amount * 2))) (\<lambda>((tx_hash, _), w).
               and_then (await_receipt E w tx_hash) (\<lambda>_. Ok w))
           | Native \<Rightarrow> Ok w) (\<lambda>w.
         and_then (create_new_account E w account user amount token protocol_fee) (\<lambda>(tx_hash, w).
         and_then (await_receipt E w tx_hash) (\<lambda>_. Ok w)))
       else Ok w) (\<lambda>w.
     and_then (fee_recover_state E w account user rpc_url) (\<lambda>account. Ok (account, w)))))"

definition fee_prepare_deposit ::
  "('f, 'p, 's, 'l, 'w) fee_env \<Rightarrow> shielder_account \<Rightarrow> u256 \<Rightarrow> token \<Rightarrow> u256 list list \<Rightarrow> address \<Rightarrow> u256 \<Rightarrow> bytes
     \<Rightarrow> (deposit_call, cli_error) result" where
  "fee_prepare_deposit E account amount token merkle_path caller protocol_fee memo =
     and_then (expect_ok (fe_prove_deposit E) ''called Result::unwrap() on an Err value'') (\<lambda>prove.
       let extra = \<lparr> dx_merkle_path = merkle_path, dx_mac_salt = get_mac_salt E 2,
             dx_caller_address = caller, dx_protocol_fee = protocol_fee, dx_memo = memo \<rparr>
       in Ok (prepare_call (deposit_call_type (fe_circuits E)) prove account token amount extra))"

definition estimate_deposit_call ::
  "('f, 'p, 's, 'l, 'w) fee_env \<Rightarrow> 'w \<Rightarrow> ('p, 's) shielder_user \<Rightarrow> token \<Rightarrow> deposit_call \<Rightarrow> u256
     \<Rightarrow> (u64, cli_error) result" where
  "estimate_deposit_call E w user token call amount =
     (case token of
        Native \<Rightarrow> and_then (cli_unwrap (deposit_native_try_from call)) (\<lambda>c.
          map_err CliContract (deposit_native (fe_net E) user (fe_gas_deposit_native E w) c amount))
      | ERC20 _ \<Rightarrow> and_then (cli_unwrap (deposit_erc20_try_from call)) (\<lambda>c.
          map_err CliContract (deposit_erc20 (fe_net E) user (fe_gas_deposit_erc20 E w) c)))"

definition estimate_deposit_gas ::
  "('f, 'p, 's, 'l, 'w) fee_env \<Rightarrow> 'w \<Rightarrow> u256 \<Rightarrow> u256 \<Rightarrow> string \<Rightarrow> address \<Rightarrow> token \<Rightarrow> u256
     \<Rightarrow> (u64 \<times> 'w, cli_error) result" where
  "estimate_deposit_gas E w private_key shielder_seed rpc_url contract_address token amount =
     and_then (fee_user E private_key rpc_url contract_address) (\<lambda>user.
       let account = account_new (fe_field E) (fe_generate_user_id E) shielder_seed token
       in and_then (map_err CliContract (protocol_deposit_fee_bps (fe_net E) user (fe_dry_deposit_fee E w))) (\<lambda>bps.
          and_then (compute_protocol_fee_from_gross amount bps) (\<lambda>protocol_fee.
          and_then (ensure_account_created E w contract_address account user token amount rpc_url protocol_fee)
            (\<lambda>(account, w).
          and_then (expect (current_leaf_index account) ''Deposit mustn't be the first action'') (\<lambda>leaf_index.
          and_then (map_err CliContract (get_current_merkle_path (fe_net E) (fe_dry_merkle_path E w) leaf_index user))
            (\<lambda>(merkle_root, merkle_path).
          and_then (fee_prepare_deposit E account amount token merkle_path (user_address (fe_net E) user)
              protocol_fee []) (\<lambda>call.
          map_ok (\<lambda>gas. (gas, w)) (estimate_deposit_call E w user token call amount))))))))"

section \<open>Responses and the monitor\<close>

record fee_response =
  fr_native_new_account_gas :: string
  fr_native_deposit_gas :: string
  fr_erc20_new_account_gas :: string
  fr_erc20_deposit_gas :: string
  fr_gas_price_native :: string
  fr_update_timestamp :: int

text \<open>
  \<open>new_account\<close> and \<open>deposit\<close> are the outcomes of the estimates of a seed and a token. All five run
  before the first error is returned, so that a panic of any of them comes first. \<open>shown\<close> prints an integer.
\<close>

fun joined :: "('a, 'e) result list \<Rightarrow> (unit, 'e) result" where
  "joined [] = Ok ()"
| "joined (Panic m # rs) = Panic m"
| "joined (r # rs) = joined rs"

definition get_fee_values ::
  "(nat \<Rightarrow> string) \<Rightarrow> (unit, contract_error) result \<Rightarrow> (u256 \<Rightarrow> token \<Rightarrow> (u64, cli_error) result) \<Rightarrow>
   (u256 \<Rightarrow> token \<Rightarrow> (u64, cli_error) result) \<Rightarrow> (u128, string) result \<Rightarrow> int \<Rightarrow> service_config
     \<Rightarrow> (fee_response, cli_error) result" where
  "get_fee_values shown provider new_account deposit gas_price now config =
     and_then (map_err CliContract provider) (\<lambda>_.
     and_then (joined [new_account (fc_empty_shielder_seed config) Native,
         new_account (fc_empty_shielder_seed config) (ERC20 (fc_erc20_token_address config)),
         deposit (fc_created_shielder_seed_native config) Native,
         deposit (fc_created_shielder_seed_erc20 config) (ERC20 (fc_erc20_token_address config)),
         map_err CliMsg (map_ok (\<lambda>_. 0) gas_price)]) (\<lambda>_.
     and_then (new_account (fc_empty_shielder_seed config) Native) (\<lambda>native_new_account_gas.
     and_then (new_account (fc_empty_shielder_seed config) (ERC20 (fc_erc20_token_address config)))
       (\<lambda>erc20_new_account_gas.
     and_then (deposit (fc_created_shielder_seed_native config) Native) (\<lambda>native_deposit_gas.
     and_then (deposit (fc_created_shielder_seed_erc20 config) (ERC20 (fc_erc20_token_address config)))
       (\<lambda>erc20_deposit_gas.
     and_then (map_err CliMsg gas_price) (\<lambda>gas_price_native.
     Ok \<lparr> fr_native_new_account_gas = shown (unat native_new_account_gas),
          fr_native_deposit_gas = shown (unat native_deposit_gas),
          fr_erc20_new_account_gas = shown (unat erc20_new_account_gas),
          fr_erc20_deposit_gas = shown (unat erc20_deposit_gas),
          fr_gas_price_native = shown (unat gas_price_native),
          fr_update_timestamp = now \<rparr>)))))))"

text \<open>
  The monitor over the outcomes of its ticks: what it holds after them. A panic ends its task, and an
  interval of zero panics at once; the server keeps serving what the monitor left.
\<close>

fun monitor_ticks :: "fee_response \<Rightarrow> (fee_response, cli_error) result list \<Rightarrow> fee_response" where
  "monitor_ticks fees [] = fees"
| "monitor_ticks fees (new_fees # ticks) =
     (case new_fees of
        Ok f \<Rightarrow> monitor_ticks f ticks
      | Err e \<Rightarrow> monitor_ticks fees ticks
      | Panic m \<Rightarrow> fees)"

definition start_fee_monitor ::
  "service_config \<Rightarrow> fee_response \<Rightarrow> (fee_response, cli_error) result list \<Rightarrow> fee_response" where
  "start_fee_monitor config fees ticks =
     (if fc_fee_refresh_interval_millis config = 0 then fees else monitor_ticks fees ticks)"

text \<open>The server: it starts only with fees at hand, and answers with the current ones.\<close>

definition estimator_main ::
  "(service_config, cli_error) result \<Rightarrow> (service_config \<Rightarrow> (fee_response, cli_error) result) \<Rightarrow>
   (fee_response, cli_error) result list \<Rightarrow> (fee_response, cli_error) result" where
  "estimator_main config fetch ticks =
     and_then config (\<lambda>service_config.
     and_then (fetch service_config) (\<lambda>fees. Ok (start_fee_monitor service_config fees ticks)))"

section \<open>Properties\<close>

lemma recover_loop_fixed:
  "recover_loop lookup account = Ok a \<Longrightarrow> recover_loop lookup a = Ok a"
proof (induction lookup account rule: recover_loop.induct)
  case (1 lookup account)
  from 1(2) obtain found where found: "lookup account = Ok found"
    and rest: "(case found of
       Some action \<Rightarrow>
         and_then (map_err (\<lambda>_. CliMsg []) (register_action account action)) (recover_loop lookup)
     | None \<Rightarrow> Ok account) = Ok a"
    unfolding recover_loop.simps [of lookup account] and_then_Ok by blast
  show ?case
  proof (cases found)
    case None
    with found rest show ?thesis by (subst recover_loop.simps) simp
  next
    case (Some action)
    with rest obtain b where b: "register_action account action = Ok b" and "recover_loop lookup b = Ok a"
      by (auto simp: result_simps)
    with 1(1) [OF found Some, of b] show ?thesis by simp
  qed
qed

lemma fee_recover_state_fixed:
  "fee_recover_state E w account user rpc_url = Ok a \<Longrightarrow> fee_recover_state E w a user rpc_url = Ok a"
  by (auto simp: fee_recover_state_def result_simps dest: recover_loop_fixed)

lemma ensure_existing_account:
  assumes "fee_recover_state E w account user rpc_url = Ok a" and "sa_nonce a \<noteq> 0"
  shows "ensure_account_created E w contract_address account user token amount rpc_url fee = Ok (a, w)"
  using assms fee_recover_state_fixed [OF assms(1)]
  by (auto simp: ensure_account_created_def fee_recover_state_def result_simps)

text \<open>
  C36. A deposit estimate for an existing account sends nothing. If the chain knows a first action of the
  service's account, then a successful estimate leaves the chain as it was, and its gas is the node's
  estimate for exactly the deposit the account library prepares from the recovered account: with the Merkle
  path of its current note, the protocol fee of the gross amount, and the service's own address.
\<close>

theorem deposit_estimate_sends_nothing:
  assumes "fee_user E private_key rpc_url contract_address = Ok user"
    and "fee_recover_state E w (account_new (fe_field E) (fe_generate_user_id E) seed token) user rpc_url = Ok a"
    and "sa_nonce a \<noteq> 0"
    and "estimate_deposit_gas E w private_key seed rpc_url contract_address token amount = Ok (gas, w')"
  shows "w' = w \<and> (\<exists>bps fee leaf_index root path prove.
    protocol_deposit_fee_bps (fe_net E) user (fe_dry_deposit_fee E w) = Ok bps \<and>
    compute_protocol_fee_from_gross amount bps = (Ok fee :: (u256, cli_error) result) \<and>
    current_leaf_index a = Some leaf_index \<and>
    get_current_merkle_path (fe_net E) (fe_dry_merkle_path E w) leaf_index user = Ok (root, path) \<and>
    fe_prove_deposit E = Ok prove \<and>
    estimate_deposit_call E w user token (prepare_call (deposit_call_type (fe_circuits E)) prove a token amount
      \<lparr> dx_merkle_path = path, dx_mac_salt = get_mac_salt E 2, dx_caller_address = user_address (fe_net E) user,
        dx_protocol_fee = fee, dx_memo = [] \<rparr>) amount = Ok gas)"
  using assms ensure_existing_account [OF assms(2,3), of contract_address token amount]
  by (auto simp: estimate_deposit_gas_def fee_prepare_deposit_def result_simps Let_def)

text \<open>
  The service answers with the latest fees. It starts exactly when the configuration resolves and the
  first fees can be fetched, and then serves the last fees that were fetched before the monitor panicked,
  or the first ones; failed refreshes change nothing, and with a refresh interval of zero the first fees are
  served forever.
\<close>

theorem served_fees_are_latest:
  "estimator_main config fetch ticks = Ok served \<longleftrightarrow>
    (\<exists>c fees. config = Ok c \<and> fetch c = Ok fees \<and>
      served = last (fees # (if fc_fee_refresh_interval_millis c = 0 then []
        else [f. Ok f \<leftarrow> takeWhile (\<lambda>r. \<not> is_panic r) ticks])))"
proof -
  have "monitor_ticks fees ticks = last (fees # [f. Ok f \<leftarrow> takeWhile (\<lambda>r. \<not> is_panic r) ticks])" for fees
  proof (induction fees ticks rule: monitor_ticks.induct)
    case (2 fees new_fees ticks)
    then show ?case by (cases new_fees) auto
  qed simp
  then show ?thesis by (auto simp: estimator_main_def start_fee_monitor_def result_simps)
qed

section \<open>Witness\<close>

text \<open>A chain that knows the wallet's account; transactions would replace it by the empty chain.\<close>

definition sample_fee_env :: "(fr, unit, unit, nat, bool) fee_env" where
  "sample_fee_env = \<lparr>
     fe_circuits = ce_circuits wallet_env, fe_poseidon = ce_poseidon wallet_env,
     fe_generate_user_id = ce_generate_user_id wallet_env, fe_signer = (\<lambda>_. Some ()),
     fe_net = ce_net wallet_env, fe_simple_provider = (\<lambda>_. Ok ()), fe_random_limbs = (\<lambda>i. [1, 2, 3, 4]),
     fe_prove_new_account = Ok (\<lambda>_. [9]), fe_prove_deposit = Ok (\<lambda>_. [9]), fe_abi = ce_abi wallet_env,
     fe_get_logs = (\<lambda>w. ce_get_logs wallet_env), fe_get_block_by_number = (\<lambda>w. ce_get_block_by_number wallet_env),
     fe_receipt = (\<lambda>_ _. Ok (Some ())), fe_dry_nullifiers = (\<lambda>w. ce_dry_nullifiers wallet_env),
     fe_dry_merkle_path = (\<lambda>w. ce_dry_merkle_path wallet_env), fe_dry_deposit_fee = (\<lambda>w. ce_dry_deposit_fee wallet_env),
     fe_dry_ar_pubkey = (\<lambda>w. ce_dry_ar_pubkey wallet_env),
     fe_call_approve = (\<lambda>w _ _. Ok ((20, 5), False)), fe_call_new_account_native = (\<lambda>w _ _. Ok ((21, 5), False)),
     fe_call_new_account_erc20 = (\<lambda>w _ _. Ok ((21, 5), False)),
     fe_gas_new_account_native = (\<lambda>w _ _. Ok 300000), fe_gas_new_account_erc20 = (\<lambda>w _ _. Ok 310000),
     fe_gas_deposit_native = (\<lambda>w _ _. Ok 200000), fe_gas_deposit_erc20 = (\<lambda>w _ _. Ok 210000) \<rparr>"

lemma sample_fee_lookup: "fee_lookup sample_fee_env w user = lookup_action wallet_env user"
  by (rule ext) (simp add: fee_lookup_def lookup_action_def sample_fee_env_def)

lemma sample_fee_recovers:
  "fee_recover_state sample_fee_env w wallet_fresh (shielder_user_new 0 (OnDemand [] ())) url = Ok wallet_funded"
proof -
  note look = wallet_lookup [OF refl]
  have "recover_loop (lookup_action wallet_env (shielder_user_new 0 (OnDemand [] ()))) wallet_funded = Ok wallet_funded"
    by (subst recover_loop.simps) (simp add: look(2))
  then have "recover_loop (lookup_action wallet_env (shielder_user_new 0 (OnDemand [] ()))) wallet_fresh = Ok wallet_funded"
    by (subst recover_loop.simps) (simp add: look(1) wallet_register)
  then show ?thesis by (simp add: fee_recover_state_def sample_fee_lookup) (simp add: sample_fee_env_def)
qed

lemma sample_fee_gross: "compute_protocol_fee_from_gross 1 100 = Ok 1"
  by (simp add: compute_protocol_fee_from_gross_alt ceil_div_def)

lemma sample_estimate:
  "estimate_deposit_gas sample_fee_env True 9 9 [] 0 Native 1 = Ok (200000, True)"
proof -
  let ?user = "shielder_user_new 0 (OnDemand [] ()) :: (unit, unit) shielder_user"
  have user: "fee_user sample_fee_env 9 [] 0 = Ok ?user" by (simp add: fee_user_def sample_fee_env_def)
  have fresh: "account_new (fe_field sample_fee_env) (fe_generate_user_id sample_fee_env) seed Native = wallet_fresh" for seed
    using wallet_fresh_new [of seed] by (simp add: sample_fee_env_def)
  have bps: "protocol_deposit_fee_bps (fe_net sample_fee_env) ?user (fe_dry_deposit_fee sample_fee_env True) = Ok 100"
    by (simp add: sample_fee_env_def wallet_calls wallet_env_for_def)
  have "sa_nonce wallet_funded \<noteq> 0" by (simp add: wallet_funded_def)
  note ensure = ensure_existing_account [OF sample_fee_recovers [of True "[]"] this, of 0 Native 1 1]
  have leaf: "current_leaf_index wallet_funded = Some 4"
    by (simp add: current_leaf_index_def wallet_funded_def wallet_action_def new_account_action_def)
  obtain root path where path:
    "get_current_merkle_path (fe_net sample_fee_env) (fe_dry_merkle_path sample_fee_env True) 4 ?user = Ok (root, path)"
    by (auto simp: get_current_merkle_path_def sample_fee_env_def wallet_calls wallet_env_for_def
        reorganize_merkle_path_def Let_def)
  have tok: "token_from_address Fr (field_to_address Fr (address_to_field Fr 0)) = Native"
    using token_field_roundtrip [of Native] by simp
  have "estimate_deposit_call sample_fee_env True ?user Native
      (prepare_call (deposit_call_type (fe_circuits sample_fee_env)) prove account Native amount extra) value = Ok 200000"
    for prove account amount extra "value"
    using tok
    by (simp add: estimate_deposit_call_def prepare_call_def deposit_call_type_def deposit_call_data_def
        deposit_prover_knowledge_def Let_def deposit_native_try_from_def sample_fee_env_def)
      (simp add: deposit_native_def wallet_calls wallet_env_for_def wallet_circuits_def fr_circuits_def)
  then show ?thesis
    by (simp add: estimate_deposit_gas_def user fresh bps sample_fee_gross ensure leaf path fee_prepare_deposit_def
        Let_def) (simp add: sample_fee_env_def)
qed

theorem deposit_estimate_sends_nothing_witness:
  "\<exists>root path. get_current_merkle_path (fe_net sample_fee_env) (fe_dry_merkle_path sample_fee_env True) 4
     (shielder_user_new 0 (OnDemand [] ())) = Ok (root, path)"
proof -
  have user: "fee_user sample_fee_env 9 [] 0 = Ok (shielder_user_new 0 (OnDemand [] ()))"
    by (simp add: fee_user_def sample_fee_env_def)
  have fresh: "account_new (fe_field sample_fee_env) (fe_generate_user_id sample_fee_env) 9 Native = wallet_fresh"
    using wallet_fresh_new [of 9] by (simp add: sample_fee_env_def)
  have "sa_nonce wallet_funded \<noteq> 0" "current_leaf_index wallet_funded = Some 4"
    by (simp_all add: current_leaf_index_def wallet_funded_def wallet_action_def new_account_action_def)
  then show ?thesis
    using deposit_estimate_sends_nothing [OF user, where seed = 9 and token = Native and a = wallet_funded
        and w = True and amount = 1, OF _ _ sample_estimate] sample_fee_recovers [of True "[]"] fresh
    by auto
qed

end
