(* ===== verification/StateFile.thy ===== *)
theory StateFile
  imports ShielderCli Files
begin

text \<open>
  The crate \<open>content-encryption\<close> and the state file of \<open>shielder-cli\<close>: the wallet's state as encrypted JSON in
  a file. Argon2, XChaCha20-Poly1305, JSON and UTF-8 are parameters; the file system is that of \<open>Files\<close>.
\<close>

section \<open>Content encryption\<close>

record crypto =
  cr_hash_raw :: "bytes \<Rightarrow> bytes \<Rightarrow> (bytes, string) result"
  cr_encrypt :: "bytes \<Rightarrow> bytes \<Rightarrow> bytes \<Rightarrow> (bytes, string) result"
  cr_decrypt :: "bytes \<Rightarrow> bytes \<Rightarrow> bytes \<Rightarrow> (bytes, string) result"
  cr_as_bytes :: "string \<Rightarrow> bytes"
  cr_from_utf8 :: "bytes \<Rightarrow> (string, string) result"

definition SALT :: bytes where
  "SALT = replicate 32 41"

definition NONCE :: bytes where
  "NONCE = replicate 24 41"

text \<open>The key of the scheme; a key of another length than 32 panics in the conversion.\<close>

definition scheme_from_password :: "crypto \<Rightarrow> bytes \<Rightarrow> (bytes, string) result" where
  "scheme_from_password X password =
     and_then (map_err (\<lambda>e. ''Failed to derive key from password: '' @ e) (cr_hash_raw X password SALT)) (\<lambda>key.
     if length key = 32 then Ok key else Panic ''assertion failed: key length'')"

definition encrypt :: "crypto \<Rightarrow> bytes \<Rightarrow> bytes \<Rightarrow> (bytes, string) result" where
  "encrypt X content password =
     and_then (scheme_from_password X password) (\<lambda>scheme.
     map_err (\<lambda>e. ''Failed to encrypt data: '' @ e) (cr_encrypt X scheme NONCE content))"

definition decrypt :: "crypto \<Rightarrow> bytes \<Rightarrow> bytes \<Rightarrow> (bytes, string) result" where
  "decrypt X content password =
     and_then (scheme_from_password X password) (\<lambda>scheme.
     map_err (\<lambda>e. ''Failed to decrypt data - probably the password is incorrect: '' @ e)
       (cr_decrypt X scheme NONCE content))"

definition decrypt_to_string :: "crypto \<Rightarrow> bytes \<Rightarrow> bytes \<Rightarrow> (string, string) result" where
  "decrypt_to_string X content password =
     and_then (decrypt X content password) (\<lambda>decrypted.
     map_err (\<lambda>e. ''Failed to decrypt data - probably the password is incorrect: '' @ e)
       (cr_from_utf8 X decrypted))"

section \<open>The state file\<close>

record state_codec =
  sc_to_string_pretty :: "cli_state \<Rightarrow> (string, string) result"
  sc_from_str :: "string \<Rightarrow> (cli_state, string) result"

definition read_from ::
  "crypto \<Rightarrow> state_codec \<Rightarrow> file_system \<Rightarrow> string \<Rightarrow> string \<Rightarrow> (cli_state, string) result" where
  "read_from X J fs path password =
     and_then (map_err (\<lambda>e. ''Failed to read file content: '' @ e) (fs_read fs path)) (\<lambda>file_content.
     and_then (decrypt_to_string X file_content (cr_as_bytes X password)) (\<lambda>decrypted_content.
     map_err (\<lambda>e. ''Failed to deserialize application state: '' @ e) (sc_from_str J decrypted_content)))"

definition get_app_state ::
  "crypto \<Rightarrow> state_codec \<Rightarrow> file_system \<Rightarrow> string \<Rightarrow> string \<Rightarrow> (cli_state, string) result" where
  "get_app_state X J fs path password =
     (if fs_files fs path \<noteq> None then read_from X J fs path password
      else Err (''File '' @ path @ '' with state not found.''))"

definition save_app_state ::
  "crypto \<Rightarrow> state_codec \<Rightarrow> cli_state \<Rightarrow> string \<Rightarrow> string \<Rightarrow> file_system \<Rightarrow> (file_system, string) result" where
  "save_app_state X J app_state path password fs =
     and_then (map_err (\<lambda>e. ''Failed to serialize: '' @ e) (sc_to_string_pretty J app_state)) (\<lambda>serialized.
     and_then (encrypt X (cr_as_bytes X serialized) (cr_as_bytes X password)) (\<lambda>encrypted.
     map_err (\<lambda>e. ''Failed to save application state: '' @ e) (fs_write path encrypted fs)))"

text \<open>The file is created, or emptied, before the state is written; the outcome carries the files.\<close>

definition create_and_save_new_state ::
  "crypto \<Rightarrow> state_codec \<Rightarrow> string \<Rightarrow> string \<Rightarrow> string \<Rightarrow> file_system
     \<Rightarrow> (cli_state, string) result \<times> file_system" where
  "create_and_save_new_state X J path password private_key fs =
     (case map_err (\<lambda>e. ''Failed to create '' @ path @ '': '' @ e) (fs_write path [] fs) of
        Err e \<Rightarrow> (Err e, fs)
      | Panic m \<Rightarrow> (Panic m, fs)
      | Ok fs \<Rightarrow>
          let state = cli_state_new private_key
          in case map_err (\<lambda>e. ''Failed to save state to '' @ path @ '': '' @ e)
                    (save_app_state X J state path password fs) of
               Ok fs' \<Rightarrow> (Ok state, fs')
             | Err e \<Rightarrow> (Err e, fs)
             | Panic m \<Rightarrow> (Panic m, fs))"

section \<open>Properties\<close>

text \<open>What the packages document: decryption and decoding invert encryption and encoding, and a
  ciphertext is rejected under another key.\<close>

definition codec_laws :: "crypto \<Rightarrow> state_codec \<Rightarrow> bool" where
  "codec_laws X J \<longleftrightarrow>
     (\<forall>key nonce m c. length key = 32 \<and> cr_encrypt X key nonce m = Ok c \<longrightarrow> cr_decrypt X key nonce c = Ok m) \<and>
     (\<forall>key key' nonce m c. length key = 32 \<and> length key' = 32 \<and> key' \<noteq> key \<and> cr_encrypt X key nonce m = Ok c \<longrightarrow>
        (\<exists>e. cr_decrypt X key' nonce c = Err e)) \<and>
     (\<forall>s. cr_from_utf8 X (cr_as_bytes X s) = Ok s) \<and>
     (\<forall>st text. sc_to_string_pretty J st = Ok text \<longrightarrow> sc_from_str J text = Ok st)"

text \<open>
  The state file keeps the wallet's state. After a successful save, reading the file with the same
  password returns exactly the saved state, with a password that derives another key it fails with an error
  (never a panic, never another state), and no other file has changed.
\<close>

theorem state_file_roundtrip:
  assumes "codec_laws X J" and "save_app_state X J st path password fs = Ok fs'"
  shows "get_app_state X J fs' path password = Ok st \<and>
    (\<forall>p. p \<noteq> path \<longrightarrow> fs_files fs' p = fs_files fs p) \<and>
    (\<forall>password' key'. scheme_from_password X (cr_as_bytes X password') = Ok key' \<and>
      scheme_from_password X (cr_as_bytes X password) \<noteq> Ok key' \<longrightarrow>
      (\<exists>e. get_app_state X J fs' path password' = Err e))"
proof -
  note L = assms(1) [unfolded codec_laws_def]
  from assms(2) obtain serialized key c where
    json: "sc_to_string_pretty J st = Ok serialized" and
    key: "scheme_from_password X (cr_as_bytes X password) = Ok key" and
    c: "cr_encrypt X key NONCE (cr_as_bytes X serialized) = Ok c" and
    fs': "fs' = fs\<lparr> fs_files := (fs_files fs)(path \<mapsto> c) \<rparr>"
    by (auto simp: save_app_state_def encrypt_def fs_write_def result_simps split: if_splits)
  have len: "scheme_from_password X pw = Ok k \<Longrightarrow> length k = 32" for pw k
    by (auto simp: scheme_from_password_def result_simps split: if_splits)
  have "cr_decrypt X key NONCE c = Ok (cr_as_bytes X serialized)" using L c len [OF key] by blast
  moreover have "sc_from_str J serialized = Ok st" using L json by blast
  ultimately have "get_app_state X J fs' path password = Ok st"
    using L key by (simp add: get_app_state_def read_from_def fs_read_def fs' decrypt_to_string_def decrypt_def)
  moreover have "\<exists>e. get_app_state X J fs' path password' = Err e"
    if key': "scheme_from_password X (cr_as_bytes X password') = Ok key'" and "key' \<noteq> key" for password' key'
  proof -
    obtain e where "cr_decrypt X key' NONCE c = Err e" using L c \<open>key' \<noteq> key\<close> len [OF key] len [OF key'] by blast
    with key' show ?thesis
      by (simp add: get_app_state_def read_from_def fs_read_def fs' decrypt_to_string_def decrypt_def)
  qed
  ultimately show ?thesis using key by (auto simp: fs')
qed

text \<open>
  Every content saved with a password is encrypted under the same key and the same nonce: the salt and
  the nonce are constants of the program.
\<close>

lemma encrypt_key_and_nonce:
  "encrypt X content password = Ok c \<Longrightarrow>
    \<exists>key. scheme_from_password X password = Ok key \<and> cr_encrypt X key (replicate 24 41) content = Ok c"
  by (auto simp: encrypt_def NONCE_def result_simps)

section \<open>Witness\<close>

definition sample_crypto :: crypto where
  "sample_crypto = \<lparr>
     cr_hash_raw = (\<lambda>pw salt. Ok (take 32 (pw @ salt))),
     cr_encrypt = (\<lambda>key nonce m. Ok (key @ m)),
     cr_decrypt = (\<lambda>key nonce c. if take 32 c = key then Ok (drop 32 c)
                     else Err ''aead::Error''),
     cr_as_bytes = (\<lambda>s. map (\<lambda>c. of_nat (of_char c)) s),
     cr_from_utf8 = (\<lambda>bs. Ok (map (\<lambda>b. char_of (unat b)) bs)) \<rparr>"

definition sample_codec :: state_codec where
  "sample_codec = \<lparr>
     sc_to_string_pretty = (\<lambda>st. if st = cli_state_new ''0x9'' then Ok ''{}'' else Err ''unsupported''),
     sc_from_str = (\<lambda>t. if t = ''{}'' then Ok (cli_state_new ''0x9'') else Err ''expected value'') \<rparr>"

lemma sample_codec_laws: "codec_laws sample_crypto sample_codec"
proof -
  have "char_of (unat (of_nat (of_char c) :: u8)) = c" for c
  proof -
    have "of_char c mod 256 < (256 :: nat)" by simp
    then have "of_char c < (256 :: nat)" by (simp only: of_char_mod_256)
    then have "unat (of_nat (of_char c) :: u8) = of_char c" by (intro unat_of_nat_lt) simp
    then show ?thesis by simp
  qed
  then show ?thesis
    by (auto simp: codec_laws_def sample_crypto_def sample_codec_def comp_def split: if_splits)
qed

theorem state_file_roundtrip_witness:
  "\<exists>fs'. save_app_state sample_crypto sample_codec (cli_state_new ''0x9'') ''state'' ''pw''
       \<lparr> fs_files = [''other'' \<mapsto> [1]], fs_read_only = (\<lambda>_. False),
         fs_no_parent = (\<lambda>_. False) \<rparr> = Ok fs' \<and>
     get_app_state sample_crypto sample_codec fs' ''state'' ''pw'' = Ok (cli_state_new ''0x9'') \<and>
     fs_files fs' ''other'' = Some [1] \<and>
     (\<exists>e. get_app_state sample_crypto sample_codec fs' ''state'' ''xy'' = Err e)"
proof -
  let ?fs = "\<lparr> fs_files = [''other'' \<mapsto> [1]], fs_read_only = (\<lambda>_. False),
         fs_no_parent = (\<lambda>_. False) \<rparr>"
  let ?key = "\<lambda>pw. cr_as_bytes sample_crypto pw @ take 30 SALT"
  have keys: "scheme_from_password sample_crypto (cr_as_bytes sample_crypto pw) = Ok (?key pw)"
    if "length pw = 2" for pw
    using that by (simp add: scheme_from_password_def sample_crypto_def SALT_def)
  have "\<exists>fs'. save_app_state sample_crypto sample_codec (cli_state_new ''0x9'') ''state'' ''pw'' ?fs = Ok fs'"
    using keys [of "''pw''"]
    by (simp add: save_app_state_def sample_codec_def encrypt_def fs_write_def) (simp add: sample_crypto_def)
  then obtain fs' where fs': "save_app_state sample_crypto sample_codec (cli_state_new ''0x9'') ''state'' ''pw'' ?fs = Ok fs'"
    by blast
  have "?key ''xy'' \<noteq> ?key ''pw''" by (simp add: sample_crypto_def)
  with state_file_roundtrip [OF sample_codec_laws fs'] fs' keys [of "''pw''"] keys [of "''xy''"]
  show ?thesis by auto
qed

end
