(* ===== verification/ProvingKeys.thy ===== *)
theory ProvingKeys
  imports PowersOfTau Files
begin

text \<open>
  The caches of proving parameters and proving keys (\<open>shielder-cli/src/shielder_ops/pk.rs\<close>, its copy in
  \<open>fee-estimator/src/shielder/pk.rs\<close>) and the keys of the stress test (\<open>stress-testing/src/util.rs\<close>). The two
  copies differ in their circuits and paths: the circuits are a type \<open>'c\<close>, the paths a record. The key
  generation and the marshalling of the circuits package are parameters; the ceremony file is read by
  \<open>read_ptau\<close>. An operation returns its outcome and the files it leaves, also when it fails.
\<close>

section \<open>Circuits and paths\<close>

datatype cli_circuit = CliNewAccount | CliDeposit | CliWithdraw

datatype fee_circuit = FeeNewAccount | FeeDeposit

record 'c key_paths =
  kp_params :: "(string, string) result"
  kp_pk :: "'c \<Rightarrow> (string, string) result"

text \<open>\<open>full\<close> expands the home directory and variables of a path.\<close>

definition expand_path :: "(string \<Rightarrow> (string, string) result) \<Rightarrow> string \<Rightarrow> (string, string) result" where
  "expand_path full path = full path"

definition cli_filepath :: "(string \<Rightarrow> (string, string) result) \<Rightarrow> cli_circuit \<Rightarrow> (string, string) result" where
  "cli_filepath full c = expand_path full (case c of
       CliNewAccount \<Rightarrow> ''~/shielder-cli/new_account_pk''
     | CliDeposit \<Rightarrow> ''~/shielder-cli/deposit_pk''
     | CliWithdraw \<Rightarrow> ''~/shielder-cli/withdraw_pk'')"

definition cli_key_paths :: "(string \<Rightarrow> (string, string) result) \<Rightarrow> cli_circuit key_paths" where
  "cli_key_paths full = \<lparr> kp_params = expand_path full ''~/shielder-cli/proving_params'', kp_pk = cli_filepath full \<rparr>"

definition get_data_dir :: "(string \<rightharpoonup> string) \<Rightarrow> string" where
  "get_data_dir env = (case env ''FEE_ESTIMATOR_DATA_DIR'' of
       Some dir \<Rightarrow> dir
     | None \<Rightarrow> (case env ''HOME'' of Some home \<Rightarrow> home @ ''/fee-estimator'' | None \<Rightarrow> ''/app/data''))"

definition get_file_path :: "(string \<rightharpoonup> string) \<Rightarrow> string \<Rightarrow> string" where
  "get_file_path env filename = get_data_dir env @ ''/'' @ filename"

definition fee_filepath :: "(string \<rightharpoonup> string) \<Rightarrow> fee_circuit \<Rightarrow> (string, string) result" where
  "fee_filepath env c = Ok (get_file_path env (case c of
       FeeNewAccount \<Rightarrow> ''new_account_pk''
     | FeeDeposit \<Rightarrow> ''deposit_pk''))"

definition fee_key_paths :: "(string \<rightharpoonup> string) \<Rightarrow> fee_circuit key_paths" where
  "fee_key_paths env = \<lparr> kp_params = Ok (get_file_path env ''proving_params''), kp_pk = fee_filepath env \<rparr>"

section \<open>Keys\<close>

record ('c, 'b, 'q, 'g1, 'g2, 'params, 'pk, 'vk) key_env =
  ke_engine :: "('b, 'q, 'g1, 'g2, 'params) engine"
  ke_ptau_path :: "u32 \<Rightarrow> ptau_format \<Rightarrow> string"
  ke_max_k :: u32
  ke_marshall_params :: "'params \<Rightarrow> (bytes, string) result"
  ke_unmarshall_params :: "bytes \<Rightarrow> ('params, string) result"
  ke_marshall_pk :: "u32 \<Rightarrow> 'pk \<Rightarrow> bytes"
  ke_unmarshall :: "'c \<Rightarrow> bytes \<Rightarrow> (u32 \<times> 'pk, string) result"
  ke_generate :: "'c \<Rightarrow> 'params \<Rightarrow> ('params \<times> u32 \<times> 'pk \<times> 'vk, string) result"
  ke_downsize :: "u32 \<Rightarrow> 'params \<Rightarrow> ('params, string) result"

definition key_unmarshall_pk ::
  "('c, 'b, 'q, 'g1, 'g2, 'params, 'pk, 'vk) key_env \<Rightarrow> 'c \<Rightarrow> bytes \<Rightarrow> (u32 \<times> 'pk, string) result" where
  "key_unmarshall_pk K c bs = map_err (\<lambda>_. ''Failed to unmarshall proving key'') (ke_unmarshall K c bs)"

definition key_generate_keys ::
  "('c, 'b, 'q, 'g1, 'g2, 'params, 'pk, 'vk) key_env \<Rightarrow> 'c \<Rightarrow> 'params \<Rightarrow> ('params \<times> u32 \<times> 'pk, string) result" where
  "key_generate_keys K c full_params =
     and_then (ke_generate K c full_params) (\<lambda>(params, k, pk, _). Ok (params, k, pk))"

definition read_setup_parameters ::
  "('c, 'b, 'q, 'g1, 'g2, 'params, 'pk, 'vk) key_env \<Rightarrow> file_system \<Rightarrow> ('params, string) result" where
  "read_setup_parameters K fs =
     read_ptau (ke_engine K) (fs_files fs (ke_ptau_path K (ke_max_k K) PerpetualPowersOfTau)) PerpetualPowersOfTau"

definition save_content :: "string \<Rightarrow> bytes \<Rightarrow> file_system \<Rightarrow> (unit, string) result \<times> file_system" where
  "save_content path content fs =
     (if fs_no_parent fs path then (Err ''Not a directory'', fs)
      else case fs_write path content fs of
             Ok fs' \<Rightarrow> (Ok (), fs')
           | Err e \<Rightarrow> (Err e, fs)
           | Panic m \<Rightarrow> (Panic m, fs))"

text \<open>Saves the content and, if that succeeds, returns the value.\<close>

definition after_saving ::
  "string \<Rightarrow> (bytes, string) result \<Rightarrow> 'a \<Rightarrow> file_system \<Rightarrow> ('a, string) result \<times> file_system" where
  "after_saving path content x fs =
     (case content of
        Ok bs \<Rightarrow> (case save_content path bs fs of (saved, fs') \<Rightarrow> (map_ok (\<lambda>_. x) saved, fs'))
      | Err e \<Rightarrow> (Err e, fs)
      | Panic m \<Rightarrow> (Panic m, fs))"

definition get_params ::
  "('c, 'b, 'q, 'g1, 'g2, 'params, 'pk, 'vk) key_env \<Rightarrow> 'c key_paths \<Rightarrow> file_system
     \<Rightarrow> ('params, string) result \<times> file_system" where
  "get_params K paths fs =
     (case kp_params paths of
        Err e \<Rightarrow> (Err e, fs)
      | Panic m \<Rightarrow> (Panic m, fs)
      | Ok path \<Rightarrow>
          (case and_then (fs_read fs path) (ke_unmarshall_params K) of
             Ok full_params \<Rightarrow> (Ok full_params, fs)
           | Panic m \<Rightarrow> (Panic m, fs)
           | Err _ \<Rightarrow>
               (case read_setup_parameters K fs of
                  Err e \<Rightarrow> (Err e, fs)
                | Panic m \<Rightarrow> (Panic m, fs)
                | Ok params \<Rightarrow>
                    after_saving path
                      (map_err (\<lambda>_. ''Failed to marshall params'') (ke_marshall_params K params)) params fs)))"

definition get_equipment ::
  "('c, 'b, 'q, 'g1, 'g2, 'params, 'pk, 'vk) key_env \<Rightarrow> 'c key_paths \<Rightarrow> 'c \<Rightarrow> 'params \<Rightarrow> file_system
     \<Rightarrow> ('params \<times> 'pk, string) result \<times> file_system" where
  "get_equipment K paths c full_params fs =
     (case kp_pk paths c of
        Err e \<Rightarrow> (Err e, fs)
      | Panic m \<Rightarrow> (Panic m, fs)
      | Ok path \<Rightarrow>
          (case and_then (fs_read fs path) (key_unmarshall_pk K c) of
             Ok (k, pk) \<Rightarrow> (map_ok (\<lambda>params. (params, pk)) (ke_downsize K k full_params), fs)
           | Panic m \<Rightarrow> (Panic m, fs)
           | Err _ \<Rightarrow>
               (case key_generate_keys K c full_params of
                  Err e \<Rightarrow> (Err e, fs)
                | Panic m \<Rightarrow> (Panic m, fs)
                | Ok (params, k, pk) \<Rightarrow> after_saving path (Ok (ke_marshall_pk K k pk)) (params, pk) fs)))"

definition get_proving_equipment ::
  "('c, 'b, 'q, 'g1, 'g2, 'params, 'pk, 'vk) key_env \<Rightarrow> 'c key_paths \<Rightarrow> 'c \<Rightarrow> file_system
     \<Rightarrow> ('params \<times> 'pk, string) result \<times> file_system" where
  "get_proving_equipment K paths c fs =
     (case get_params K paths fs of
        (Ok full_params, fs) \<Rightarrow> get_equipment K paths c full_params fs
      | (Err e, fs) \<Rightarrow> (Err e, fs)
      | (Panic m, fs) \<Rightarrow> (Panic m, fs))"

text \<open>The keys of the stress test, without a cache.\<close>

definition proving_keys ::
  "('c, 'b, 'q, 'g1, 'g2, 'params, 'pk, 'vk) key_env \<Rightarrow> 'c \<Rightarrow> file_system \<Rightarrow> ('params \<times> 'pk, string) result" where
  "proving_keys K c fs =
     and_then (expect_ok (read_setup_parameters K fs) unwrap_err) (\<lambda>params.
     and_then (expect_ok (ke_generate K c params) unwrap_err) (\<lambda>(params, _, pk, _). Ok (params, pk)))"

section \<open>Properties\<close>

text \<open>
  What the circuits package documents: unmarshalling inverts marshalling, and downsizing the full
  parameters gives those the keys were generated with.
\<close>

definition key_laws :: "('c, 'b, 'q, 'g1, 'g2, 'params, 'pk, 'vk) key_env \<Rightarrow> 'c \<Rightarrow> bool" where
  "key_laws K c \<longleftrightarrow>
     (\<forall>params bs. ke_marshall_params K params = Ok bs \<longrightarrow> ke_unmarshall_params K bs = Ok params) \<and>
     (\<forall>full params k pk vk. ke_generate K c full = Ok (params, k, pk, vk) \<longrightarrow>
        ke_unmarshall K c (ke_marshall_pk K k pk) = Ok (k, pk) \<and> ke_downsize K k full = Ok params)"

lemma after_saving_Ok:
  assumes "after_saving path content x fs = (Ok y, fs')"
  shows "y = x \<and> (\<exists>bs. content = Ok bs \<and> fs' = fs\<lparr> fs_files := (fs_files fs)(path \<mapsto> bs) \<rparr>)"
  using assms
  by (auto simp: after_saving_def save_content_def fs_write_def split: result.splits if_splits)

text \<open>Parameters that were read or made are found again, whatever else is written.\<close>

lemma get_params_cases:
  assumes "kp_params paths = Ok path" and "get_params K paths fs = (Ok full, fs')"
  obtains (found) bs where "fs_files fs path = Some bs" "ke_unmarshall_params K bs = Ok full" "fs' = fs"
  | (made) bs where "read_setup_parameters K fs = Ok full" "ke_marshall_params K full = Ok bs"
      "fs' = fs\<lparr> fs_files := (fs_files fs)(path \<mapsto> bs) \<rparr>"
proof (cases "and_then (fs_read fs path) (ke_unmarshall_params K)")
  case (Ok params)
  then have "get_params K paths fs = (Ok params, fs)" using assms(1) by (simp add: get_params_def)
  with assms(2) have same: "params = full" "fs' = fs" by simp_all
  from Ok obtain bs where "fs_files fs path = Some bs" and "ke_unmarshall_params K bs = Ok params"
    by (auto simp: and_then_Ok fs_read_Ok)
  then show thesis using found same by blast
next
  case (Err e)
  with assms obtain params where params: "read_setup_parameters K fs = Ok params"
    and saved: "after_saving path (map_err (\<lambda>_. ''Failed to marshall params'') (ke_marshall_params K params))
      params fs = (Ok full, fs')"
    by (auto simp: get_params_def split: result.splits)
  from after_saving_Ok [OF saved] obtain bs where "params = full" and "ke_marshall_params K params = Ok bs"
    and "fs' = fs\<lparr> fs_files := (fs_files fs)(path \<mapsto> bs) \<rparr>" by (auto simp: map_err_Ok)
  with params show thesis using made by blast
next
  case (Panic m)
  with assms show thesis by (simp add: get_params_def)
qed

lemma get_params_again:
  assumes "key_laws K c" and "kp_params paths = Ok path" and "get_params K paths fs = (Ok full, fs')"
  shows "(\<exists>bs. fs_files fs' path = Some bs \<and> ke_unmarshall_params K bs = Ok full) \<and>
    (\<forall>other. other \<noteq> path \<longrightarrow> fs_files fs' other = fs_files fs other) \<and>
    (fs_files fs path = None \<longrightarrow> read_setup_parameters K fs = Ok full)"
  using assms(2,3)
proof (cases rule: get_params_cases)
  case found
  then show ?thesis by auto
next
  case made
  then show ?thesis using assms(1) by (simp add: key_laws_def)
qed

lemma get_params_found:
  assumes "kp_params paths = Ok path" and "fs_files fs path = Some bs" and "ke_unmarshall_params K bs = Ok full"
  shows "get_params K paths fs = (Ok full, fs)"
  using assms by (simp add: get_params_def fs_read_def)

lemma get_equipment_again:
  assumes "key_laws K c" and "kp_pk paths c = Ok path" and "get_equipment K paths c full fs = (Ok eq, fs')"
  shows "get_equipment K paths c full fs' = (Ok eq, fs') \<and>
    (\<forall>other. other \<noteq> path \<longrightarrow> fs_files fs' other = fs_files fs other) \<and>
    (fs_files fs path = None \<longrightarrow> (\<exists>k vk. ke_generate K c full = Ok (fst eq, k, snd eq, vk)))"
proof -
  consider (found) k pk where "and_then (fs_read fs path) (key_unmarshall_pk K c) = Ok (k, pk)" "fs' = fs"
    | (made) params k pk vk where "ke_generate K c full = Ok (params, k, pk, vk)" "eq = (params, pk)"
        "fs' = fs\<lparr> fs_files := (fs_files fs)(path \<mapsto> ke_marshall_pk K k pk) \<rparr>"
    using assms(2,3)
    by (auto simp: get_equipment_def key_generate_keys_def result_simps split: result.splits
        dest!: after_saving_Ok)
  then show ?thesis
  proof cases
    case found
    then show ?thesis using assms(2,3) by (auto simp: result_simps)
  next
    case made
    from assms(1) made(1) have "ke_unmarshall K c (ke_marshall_pk K k pk) = Ok (k, pk)"
      and "ke_downsize K k full = Ok params" unfolding key_laws_def by blast+
    with made show ?thesis
      using assms(2) by (simp add: get_equipment_def key_unmarshall_pk_def fs_read_def)
  qed
qed

text \<open>
  C40. The caches are transparent. When parameters and key of a circuit could be obtained, a second call
  returns the same ones and leaves all files as they are; only the two cache files were touched; and
  without cache files the result is the one computed from the ceremony file, as the stress test does.
\<close>

theorem equipment_is_cached:
  assumes "key_laws K c" and "kp_params paths = Ok p" and "kp_pk paths c = Ok q" and "p \<noteq> q"
    and "get_proving_equipment K paths c fs = (Ok equipment, fs')"
  shows "get_proving_equipment K paths c fs' = (Ok equipment, fs') \<and>
    (\<forall>other. other \<notin> {p, q} \<longrightarrow> fs_files fs' other = fs_files fs other) \<and>
    (fs_files fs p = None \<and> fs_files fs q = None \<longrightarrow> proving_keys K c fs = Ok equipment)"
proof -
  from assms(5) obtain full fs1 where
    first: "get_params K paths fs = (Ok full, fs1)"
    and second: "get_equipment K paths c full fs1 = (Ok equipment, fs')"
    by (auto simp: get_proving_equipment_def split: prod.splits result.splits)
  note params = get_params_again [OF assms(1,2) first]
  note equipment = get_equipment_again [OF assms(1,3) second]
  from params equipment assms(4) obtain bs where
    "fs_files fs' p = Some bs" and "ke_unmarshall_params K bs = Ok full" by auto
  then have "get_params K paths fs' = (Ok full, fs')" by (rule get_params_found [OF assms(2)])
  then show ?thesis
    using params equipment assms(4)
    by (auto simp: get_proving_equipment_def proving_keys_def)
qed

text \<open>The files of the fee estimator are different files.\<close>

lemma fee_paths_distinct: "fee_filepath env c \<noteq> kp_params (fee_key_paths env)"
  by (cases c) (simp_all add: fee_filepath_def fee_key_paths_def get_file_path_def)

section \<open>Witness\<close>

definition sample_key_env ::
  "(fee_circuit, z7, z7 \<times> z7, z7 \<times> z7, (z7 \<times> z7) \<times> (z7 \<times> z7), u32 \<times> (z7 \<times> z7) list, u8, unit) key_env" where
  "sample_key_env = \<lparr>
     ke_engine = z7_engine, ke_ptau_path = (\<lambda>_ _. ''ptau''), ke_max_k = 17,
     ke_marshall_params = (\<lambda>(k, points). if points = [] then Ok (to_be_bytes 4 k) else Err ''too large''),
     ke_unmarshall_params = (\<lambda>bs. if length bs = 4 then Ok (from_be_bytes bs, []) else Err ''corrupted''),
     ke_marshall_pk = (\<lambda>k pk. pk # to_be_bytes 4 k),
     ke_unmarshall = (\<lambda>c bs. case bs of pk # k \<Rightarrow> Ok (from_be_bytes k, pk) | [] \<Rightarrow> Err ''corrupted''),
     ke_generate = (\<lambda>c full. Ok ((3, snd full), 3, 5, ())),
     ke_downsize = (\<lambda>k full. if k \<le> 3 then Ok (k, snd full) else Panic ''assertion failed: k <= self.k'') \<rparr>"

lemma sample_key_laws: "key_laws sample_key_env c"
  by (auto simp: key_laws_def sample_key_env_def from_be_to_be split: if_splits)

theorem equipment_is_cached_witness:
  "\<exists>fs'. get_proving_equipment sample_key_env (fee_key_paths (\<lambda>_. None)) FeeDeposit
       \<lparr> fs_files = [''/app/data/proving_params'' \<mapsto> to_be_bytes 4 (4 :: u32)], fs_read_only = (\<lambda>_. False),
         fs_no_parent = (\<lambda>_. False) \<rparr> = (Ok ((3, []), 5), fs') \<and>
     get_proving_equipment sample_key_env (fee_key_paths (\<lambda>_. None)) FeeDeposit fs' = (Ok ((3, []), 5), fs')"
proof -
  let ?paths = "fee_key_paths (\<lambda>_. None)"
  let ?fs = "\<lparr> fs_files = [''/app/data/proving_params'' \<mapsto> to_be_bytes 4 (4 :: u32)], fs_read_only = (\<lambda>_. False),
         fs_no_parent = (\<lambda>_. False) \<rparr>"
  have paths: "kp_params ?paths = Ok ''/app/data/proving_params''" "kp_pk ?paths FeeDeposit = Ok ''/app/data/deposit_pk''"
    by (simp_all add: fee_key_paths_def fee_filepath_def get_file_path_def get_data_dir_def)
  have "\<exists>fs'. get_proving_equipment sample_key_env ?paths FeeDeposit ?fs = (Ok ((3, []), 5), fs')"
    by (simp add: get_proving_equipment_def get_params_def get_equipment_def paths fs_read_def
        sample_key_env_def key_unmarshall_pk_def key_generate_keys_def after_saving_def save_content_def fs_write_def)
  then obtain fs' where run: "get_proving_equipment sample_key_env ?paths FeeDeposit ?fs = (Ok ((3, []), 5), fs')"
    by blast
  with equipment_is_cached [OF sample_key_laws paths _ run] show ?thesis by auto
qed

end
