(* ===== verification/TokenDistributor.thy ===== *)
theory TokenDistributor
  imports Monitor Files
begin

text \<open>
  The crate \<open>token-distributor\<close>: a master account endows freshly created accounts (minions) with native
  tokens and saves their keys. Signers, random numbers, the printing of keys and addresses and the node are
  parameters; \<open>di_send\<close> sends a transaction and watches it until it is confirmed. The state \<open>'w\<close> of the chain
  and the files are threaded through.
\<close>

section \<open>Configuration and surroundings\<close>

definition TOKEN_SCALE :: u128 where "TOKEN_SCALE = 1000000000000000000"

record 's distributor_config =
  dc_master_signer :: 's
  dc_minions :: u32
  dc_bananas :: u32
  dc_deterministic_addresses :: bool
  dc_node_rpc_url :: string

record ('s, 'w) distributor_env =
  di_connect :: "string \<Rightarrow> (unit, string) result"
  di_connect_signed :: "string \<Rightarrow> 's \<Rightarrow> (unit, string) result"
  di_block_number :: "'w \<Rightarrow> (u64, string) result"
  di_balance :: "'w \<Rightarrow> address \<Rightarrow> (u256, string) result"
  di_send :: "transfer \<Rightarrow> 'w \<Rightarrow> ('w, string) result"
  di_address :: "'s \<Rightarrow> address"
  di_key_text :: "'s \<Rightarrow> bytes"
  di_address_text :: "address \<Rightarrow> bytes"
  di_random_with :: "bytes \<Rightarrow> 's"
  di_random :: "u32 \<Rightarrow> 's"

section \<open>Operations\<close>

definition distributor_check_connection ::
  "('s, 'w) distributor_env \<Rightarrow> 'w \<Rightarrow> string \<Rightarrow> (unit, string) result" where
  "distributor_check_connection E w node =
     and_then (di_connect E node) (\<lambda>_. map_ok (\<lambda>_. ()) (di_block_number E w))"

definition ensure_enough_funds ::
  "('s, 'w) distributor_env \<Rightarrow> 'w \<Rightarrow> 's distributor_config \<Rightarrow> (unit, string) result" where
  "ensure_enough_funds E w config =
     (let master_account = di_address E (dc_master_signer config) in
      and_then (di_balance E w master_account) (\<lambda>balance.
        let required = ucast (dc_minions config) * ucast (dc_bananas config) * ucast TOKEN_SCALE
        in if balance \<le> required then Err ''Master account has insufficient funds'' else Ok ()))"

text \<open>The bytes of an id, repeated: \<open>cycle\<close> and \<open>take\<close>.\<close>

definition cycled :: "nat \<Rightarrow> 'a list \<Rightarrow> 'a list" where
  "cycled n xs = map (\<lambda>i. xs ! (i mod length xs)) [0 ..< n]"

definition seed :: "u32 \<Rightarrow> bytes" where
  "seed uid = cycled 32 (to_be_bytes 4 uid)"

definition create_minions :: "('s, 'w) distributor_env \<Rightarrow> u32 \<Rightarrow> bool \<Rightarrow> 's list" where
  "create_minions E count deterministic =
     map (\<lambda>i. let uid = of_nat i in if deterministic then di_random_with E (seed uid) else di_random E uid)
       [0 ..< unat count]"

text \<open>Lines, joined by a line feed.\<close>

fun join_lines :: "bytes list \<Rightarrow> bytes" where
  "join_lines [] = []"
| "join_lines [l] = l"
| "join_lines (l # ls) = l @ 10 # join_lines ls"

definition save_minions ::
  "('s, 'w) distributor_env \<Rightarrow> 's list \<Rightarrow> file_system \<Rightarrow> (unit, string) result \<times> file_system" where
  "save_minions E minions fs =
     (let keys = map (di_key_text E) minions;
          addresses = map (\<lambda>m. di_address_text E (di_address E m)) minions
      in case expect_ok (fs_write ''minions.keys'' (join_lines keys) fs)
              ''called Result::unwrap() on an Err value'' of
           Ok fs1 \<Rightarrow>
             (case expect_ok (fs_write ''minions.addresses'' (join_lines addresses) fs1)
                     ''called Result::unwrap() on an Err value'' of
                Ok fs2 \<Rightarrow> (Ok (), fs2)
              | Err e \<Rightarrow> (Err e, fs1)
              | Panic m \<Rightarrow> (Panic m, fs1))
         | Err e \<Rightarrow> (Err e, fs)
         | Panic m \<Rightarrow> (Panic m, fs))"

definition endowment :: "('s, 'w) distributor_env \<Rightarrow> 's distributor_config \<Rightarrow> 's \<Rightarrow> transfer" where
  "endowment E config minion =
     \<lparr> tr_from = di_address E (dc_master_signer config),
       tr_value = ucast (dc_bananas config) * ucast TOKEN_SCALE,
       tr_to = di_address E minion \<rparr>"

definition endow_minions ::
  "('s, 'w) distributor_env \<Rightarrow> 's distributor_config \<Rightarrow> 's list \<Rightarrow> 'w \<Rightarrow> ('w, string) result" where
  "endow_minions E config minions w =
     and_then (di_connect_signed E (dc_node_rpc_url config) (dc_master_signer config)) (\<lambda>_.
     try_fold (\<lambda>minion. di_send E (endowment E config minion)) minions w)"

text \<open>The outcome carries the files; the keys are saved before the first transfer.\<close>

definition distributor_main ::
  "('s, 'w) distributor_env \<Rightarrow> 's distributor_config \<Rightarrow> 'w \<Rightarrow> file_system \<Rightarrow> ('w, string) result \<times> file_system" where
  "distributor_main E config w fs =
     (case and_then (distributor_check_connection E w (dc_node_rpc_url config)) (\<lambda>_.
           ensure_enough_funds E w config) of
        Err e \<Rightarrow> (Err e, fs)
      | Panic m \<Rightarrow> (Panic m, fs)
      | Ok _ \<Rightarrow>
          let minions = create_minions E (dc_minions config) (dc_deterministic_addresses config)
          in case save_minions E minions fs of
               (Ok _, fs) \<Rightarrow> (endow_minions E config minions w, fs)
             | (Err e, fs) \<Rightarrow> (Err e, fs)
             | (Panic m, fs) \<Rightarrow> (Panic m, fs))"

section \<open>Seeds\<close>

lemma seed_prefix: "take 4 (seed uid) = to_be_bytes 4 uid"
proof -
  have "length (to_be_bytes 4 uid) = 4" by simp
  then show ?thesis
    by (intro nth_equalityI) (simp_all add: seed_def cycled_def)
qed

lemma length_seed [simp]: "length (seed uid) = 32"
  by (simp add: seed_def cycled_def)

lemma seed_inj: "seed a = seed b \<longleftrightarrow> a = b"
proof
  assume "seed a = seed b"
  then have "to_be_bytes 4 a = to_be_bytes 4 b" using seed_prefix by metis
  then show "a = b" by (simp add: to_be_bytes_inj)
qed simp

section \<open>Amounts\<close>

lemma unat_ucast_u32: "unat (ucast (x :: u32) :: u256) = unat x"
proof -
  have "unat x < 2 ^ 256" using unat_lt_pow [of x] by (rule less_trans) simp
  then show ?thesis by (simp add: unsigned_ucast_eq take_bit_eq_mod)
qed

lemma unat_token_scale: "unat (ucast TOKEN_SCALE :: u256) = 10 ^ 18"
  by (simp add: TOKEN_SCALE_def)

lemma unat_bananas: "unat (ucast (b :: u32) * ucast TOKEN_SCALE :: u256) = unat b * 10 ^ 18"
proof -
  have "unat b * 10 ^ 18 < 2 ^ 32 * 10 ^ 18" using unat_lt_pow [of b] by simp
  then show ?thesis
    by (subst unat_mult_lt) (simp_all add: unat_ucast_u32 unat_token_scale)
qed

lemma unat_required:
  "unat (ucast (m :: u32) * ucast (b :: u32) * ucast TOKEN_SCALE :: u256) = unat m * (unat b * 10 ^ 18)"
proof -
  have "unat m * (unat b * 10 ^ 18) \<le> 2 ^ 32 * (2 ^ 32 * 10 ^ 18)"
    using unat_lt_pow [of m] unat_lt_pow [of b] by (intro mult_le_mono) simp_all
  then have "unat m * (unat b * 10 ^ 18) < 2 ^ 256" by (rule le_less_trans) simp
  then show ?thesis
    by (subst mult.assoc, subst unat_mult_lt) (simp_all add: unat_ucast_u32 unat_bananas)
qed

section \<open>Properties\<close>

text \<open>A confirmed transfer credits its value to the recipient; the other accounts but the sender's keep theirs.\<close>

definition credits :: "('s, 'w) distributor_env \<Rightarrow> ('w \<Rightarrow> address \<Rightarrow> nat) \<Rightarrow> bool" where
  "credits E bal \<longleftrightarrow> (\<forall>t w w' a. di_send E t w = Ok w' \<longrightarrow> a \<noteq> tr_from t \<longrightarrow>
     bal w' a = bal w a + (if a = tr_to t then unat (tr_value t) else 0))"

lemma endow_credits:
  assumes "credits E bal" and "a \<noteq> di_address E (dc_master_signer config)"
    and "try_fold (\<lambda>minion. di_send E (endowment E config minion)) minions w = Ok w'"
  shows "bal w' a = bal w a + count_list (map (di_address E) minions) a * (unat (dc_bananas config) * 10 ^ 18)"
  using assms(3)
proof (induction minions arbitrary: w)
  case (Cons minion minions)
  from Cons.prems obtain w1 where sent: "di_send E (endowment E config minion) w = Ok w1"
    and rest: "try_fold (\<lambda>minion. di_send E (endowment E config minion)) minions w1 = Ok w'"
    by (auto simp: and_then_Ok)
  from assms(1,2) sent have "bal w1 a = bal w a +
      (if a = di_address E minion then unat (dc_bananas config) * 10 ^ 18 else 0)"
    by (simp add: credits_def endowment_def unat_bananas)
  with Cons.IH [OF rest] show ?case by (simp add: algebra_simps)
qed simp

lemma endow_succeeds:
  assumes "di_connect_signed E (dc_node_rpc_url config) (dc_master_signer config) = Ok ()"
    and "\<And>t w. \<exists>w'. di_send E t w = Ok w'"
  shows "\<exists>w'. endow_minions E config minions w = Ok w'"
proof -
  have "\<exists>w'. try_fold (\<lambda>minion. di_send E (endowment E config minion)) minions w = Ok w'"
  proof (induction minions arbitrary: w)
    case (Cons minion minions)
    from assms(2) [of "endowment E config minion" w] obtain w1 where
      "di_send E (endowment E config minion) w = Ok w1" by blast
    with Cons.IH [of w1] show ?case by simp
  qed simp
  then show ?thesis using assms(1) by (simp add: endow_minions_def)
qed

lemma save_minions_Ok:
  assumes "save_minions E minions fs = (Ok (), fs')"
  shows "fs_files fs' = (fs_files fs)(''minions.keys'' \<mapsto> join_lines (map (di_key_text E) minions),
    ''minions.addresses'' \<mapsto> join_lines (map (\<lambda>m. di_address_text E (di_address E m)) minions))"
  using assms by (auto simp: save_minions_def Let_def result_simps split: result.splits)

text \<open>
  C39. Every minion gets its share. When the distribution succeeds, the files hold the keys and addresses of
  exactly the created minions, the master account could pay for all of them, computed without wrap-around,
  and every account other than the master's has been credited the exact amount once for every minion it is.
  With deterministic addresses the minions come from their numbers alone, and different numbers have
  different seeds. Confirmed transfers credit their recipient.
\<close>

theorem minions_are_endowed:
  assumes "credits E bal" and "distributor_main E config w fs = (Ok w', fs')"
  shows "\<exists>minions balance. minions = create_minions E (dc_minions config) (dc_deterministic_addresses config) \<and>
    length minions = unat (dc_minions config) \<and>
    fs_files fs' ''minions.keys'' = Some (join_lines (map (di_key_text E) minions)) \<and>
    fs_files fs' ''minions.addresses'' = Some (join_lines (map (\<lambda>m. di_address_text E (di_address E m)) minions)) \<and>
    di_balance E w (di_address E (dc_master_signer config)) = Ok balance \<and>
    unat (dc_minions config) * (unat (dc_bananas config) * 10 ^ 18) < unat balance \<and>
    (\<forall>a. a \<noteq> di_address E (dc_master_signer config) \<longrightarrow>
      bal w' a = bal w a + count_list (map (di_address E) minions) a * (unat (dc_bananas config) * 10 ^ 18)) \<and>
    (dc_deterministic_addresses config \<longrightarrow>
      minions = map (\<lambda>i. di_random_with E (seed (of_nat i))) [0 ..< unat (dc_minions config)] \<and> inj seed)"
proof -
  let ?minions = "create_minions E (dc_minions config) (dc_deterministic_addresses config)"
  from assms(2) have funds: "ensure_enough_funds E w config = Ok ()"
    and saved: "save_minions E ?minions fs = (Ok (), fs')"
    and sent: "endow_minions E config ?minions w = Ok w'"
    by (auto simp: distributor_main_def Let_def and_then_Ok split: result.splits prod.splits)
  from funds obtain balance where "di_balance E w (di_address E (dc_master_signer config)) = Ok balance"
    and "unat (dc_minions config) * (unat (dc_bananas config) * 10 ^ 18) < unat balance"
    by (auto simp: ensure_enough_funds_def Let_def and_then_Ok word_le_nat_alt unat_required split: if_splits)
  moreover have "bal w' a = bal w a +
      count_list (map (di_address E) ?minions) a * (unat (dc_bananas config) * 10 ^ 18)"
    if "a \<noteq> di_address E (dc_master_signer config)" for a
    using sent by (intro endow_credits [OF assms(1) that]) (auto simp: endow_minions_def and_then_Ok)
  moreover have "inj seed" by (rule injI) (simp add: seed_inj)
  ultimately show ?thesis
    using save_minions_Ok [OF saved] by (auto simp: create_minions_def)
qed

section \<open>Witness\<close>

text \<open>Signers are addresses; the chain is the list of balances of three accounts.\<close>

definition sample_distributor :: "(address, address \<Rightarrow> nat) distributor_env" where
  "sample_distributor = \<lparr>
     di_connect = (\<lambda>_. Ok ()), di_connect_signed = (\<lambda>_ _. Ok ()), di_block_number = (\<lambda>_. Ok 1),
     di_balance = (\<lambda>w a. Ok (of_nat (w a))),
     di_send = (\<lambda>t w. Ok (\<lambda>a. w a + (if a = tr_to t then unat (tr_value t) else 0)
       - (if a = tr_from t then unat (tr_value t) else 0))),
     di_address = (\<lambda>s. s), di_key_text = to_be_bytes 20, di_address_text = to_be_bytes 20,
     di_random_with = (\<lambda>bs. ucast (from_be_bytes (take 4 bs) :: u32)), di_random = (\<lambda>i. ucast i + 100) \<rparr>"

theorem minions_are_endowed_witness:
  "\<exists>w' fs'. distributor_main sample_distributor \<lparr> dc_master_signer = 9, dc_minions = 2, dc_bananas = 3,
         dc_deterministic_addresses = True, dc_node_rpc_url = ''node'' \<rparr>
       (\<lambda>a. if a = 9 then 7 * 10 ^ 18 else 0)
       \<lparr> fs_files = Map.empty, fs_read_only = (\<lambda>_. False), fs_no_parent = (\<lambda>_. False) \<rparr> = (Ok w', fs') \<and>
     w' 0 = 3 * 10 ^ 18 \<and> w' 1 = 3 * 10 ^ 18 \<and> w' 5 = 0"
proof -
  let ?config = "\<lparr> dc_master_signer = 9, dc_minions = 2, dc_bananas = 3, dc_deterministic_addresses = True,
      dc_node_rpc_url = ''node'' \<rparr> :: address distributor_config"
  let ?w = "\<lambda>a :: address. if a = 9 then 7 * 10 ^ 18 else 0 :: nat"
  let ?fs = "\<lparr> fs_files = Map.empty, fs_read_only = (\<lambda>_. False), fs_no_parent = (\<lambda>_. False) \<rparr>"
  have minions: "create_minions sample_distributor 2 True = [0, 1]"
    by (simp add: create_minions_def sample_distributor_def seed_prefix from_be_to_be upt_rec)
  have credits: "credits sample_distributor (\<lambda>w. w)"
    by (simp add: credits_def sample_distributor_def)
  have connected: "distributor_check_connection sample_distributor ?w ''node'' = Ok ()"
    by (simp add: distributor_check_connection_def sample_distributor_def)
  have funds: "ensure_enough_funds sample_distributor ?w ?config = Ok ()"
    by (simp add: ensure_enough_funds_def sample_distributor_def TOKEN_SCALE_def)
  have "\<exists>fs'. save_minions sample_distributor [0, 1] ?fs = (Ok (), fs')"
    by (simp add: save_minions_def fs_write_def)
  then obtain fs' where saved: "save_minions sample_distributor [0, 1] ?fs = (Ok (), fs')" by blast
  obtain w' where sent: "endow_minions sample_distributor ?config [0, 1] ?w = Ok w'"
    using endow_succeeds [of sample_distributor ?config "[0, 1]" ?w]
    by (auto simp: sample_distributor_def)
  have "distributor_main sample_distributor ?config ?w ?fs = (Ok w', fs')"
    by (simp add: distributor_main_def connected funds minions saved sent)
  then have "\<exists>w' fs'. distributor_main sample_distributor ?config ?w ?fs = (Ok w', fs')" by blast
  then obtain w' fs' where run: "distributor_main sample_distributor ?config ?w ?fs = (Ok w', fs')" by blast
  with minions_are_endowed [OF credits run] show ?thesis
    by (simp add: minions) (simp add: sample_distributor_def)
qed

end
