(* ===== verification/StressTesting.thy ===== *)
theory StressTesting
  imports ShielderCli TokenDistributor
begin

text \<open>
  The crate \<open>stress-testing\<close>: actors get native tokens, shield them and withdraw through the relayer, all at
  once. The node, the random generator, the prover with its keys and the relayer are parameters; the chain is
  a state \<open>'w\<close> that transfers and calls change. Errors are those of the wallet (\<open>cli_error\<close>).
\<close>

section \<open>Constants, configuration and surroundings\<close>

definition INITIAL_BALANCE :: u128 where "INITIAL_BALANCE = 2 * ONE_TZERO"

definition SHIELDED_BALANCE :: u128 where "SHIELDED_BALANCE = 15 * (ONE_TZERO div 10)"

definition WITHDRAW_AMOUNT :: u128 where "WITHDRAW_AMOUNT = ONE_TZERO"

definition ANONYMITY_REVOKER_PKEY :: "u256 grumpkin_point" where
  "ANONYMITY_REVOKER_PKEY = \<lparr> gp_x = of_nat (limbs_nat [1, 0, 0, 0]),
     gp_y = of_nat (limbs_nat [9457493854555940652, 3253583849847263892, 14921373847124204899, 2]) \<rparr>"

record 's stress_config =
  sg_master_seed :: 's
  sg_actor_count :: u32
  sg_node_rpc_url :: string
  sg_shielder :: address
  sg_relayer_url :: string
  sg_relayer_address :: address

record ('f, 'p, 's, 'd, 'l, 'w) stress_env =
  se_circuits :: "'f circuits"
  se_generate_user_id :: "bytes \<Rightarrow> 'f"
  se_random :: "bytes \<Rightarrow> 's \<times> u64"
  se_net :: "('p, 's) net_env"
  se_prepare_provider :: "string \<Rightarrow> 's \<Rightarrow> (unit, string) result"
  se_send :: "transfer \<Rightarrow> 'w \<Rightarrow> ('w, string) result"
  se_simple_provider :: "string \<Rightarrow> (unit, contract_error) result"
  se_chain_id :: "'w \<Rightarrow> (u64, string) result"
  se_abi :: "'l abi"
  se_get_logs :: "'w \<Rightarrow> hash32 \<Rightarrow> ('l chain_log list, string) result"
  se_dry_deposit_fee :: "'w \<Rightarrow> ('p, protocolDepositFeeBpsCall, u256) call_kind"
  se_dry_withdraw_fee :: "'w \<Rightarrow> ('p, protocolWithdrawFeeBpsCall, u256) call_kind"
  se_dry_merkle_path :: "'w \<Rightarrow> ('p, getMerklePathCall, u256 list) call_kind"
  se_call_new_account :: "'w \<Rightarrow> ('p, newAccountNativeCall, (hash32 \<times> hash32) \<times> 'w) call_kind"
  se_prove_new_account :: "('f new_account_knowledge \<Rightarrow> bytes, cli_error) result"
  se_prove_withdraw :: "('f withdraw_knowledge \<Rightarrow> bytes, cli_error) result"
  se_http_quote :: "'w \<Rightarrow> string \<Rightarrow> quote_fee_query \<Rightarrow> ('d quote_fee_response, string) result"
  se_http_relay :: "u32 \<Rightarrow> string \<Rightarrow> 'd relay_query \<Rightarrow> (bool, string) result"

section \<open>Actors\<close>

record ('p, 's) actor =
  ac_id :: u32
  ac_user :: "('p, 's) shielder_user"
  ac_account :: shielder_account

definition actor_seed :: "u32 \<Rightarrow> bytes" where
  "actor_seed uid = cycled 32 (to_be_bytes 4 uid)"

definition actor_new ::
  "('f, 'p, 's, 'd, 'l, 'w) stress_env \<Rightarrow> u32 \<Rightarrow> string \<Rightarrow> address \<Rightarrow> ('p, 's) actor" where
  "actor_new E uid rpc_url shielder =
     (let (signer, draw) = se_random E (actor_seed uid)
      in \<lparr> ac_id = uid,
           ac_user = shielder_user_new shielder (OnDemand rpc_url signer),
           ac_account = account_new (c_field (se_circuits E)) (se_generate_user_id E) (ucast draw) Native \<rparr>)"

definition actor_address :: "('f, 'p, 's, 'd, 'l, 'w) stress_env \<Rightarrow> ('p, 's) actor \<Rightarrow> address" where
  "actor_address E a = user_address (se_net E) (ac_user a)"

definition actor_new_account_call ::
  "('f, 'p, 's, 'd, 'l, 'w) stress_env \<Rightarrow> ('f new_account_knowledge \<Rightarrow> bytes) \<Rightarrow> ('p, 's) actor \<Rightarrow> u256 \<Rightarrow> u256
     \<Rightarrow> (newAccountNativeCall, cli_error) result" where
  "actor_new_account_call E prove a amount protocol_fee =
     cli_unwrap (new_account_native_try_from
       (prepare_call (new_account_call_type (se_circuits E)) prove (ac_account a) Native amount
          \<lparr> nx_anonymity_revoker_public_key = ANONYMITY_REVOKER_PKEY, nx_encryption_salt = - 1, nx_mac_salt = 0,
            nx_caller_address = actor_address E a, nx_protocol_fee = protocol_fee, nx_memo = [] \<rparr>))"

section \<open>Setting up\<close>

definition generate_actors ::
  "('f, 'p, 's, 'd, 'l, 'w) stress_env \<Rightarrow> 's stress_config \<Rightarrow> ('p, 's) actor list" where
  "generate_actors E config =
     map (\<lambda>i. actor_new E (of_nat i) (sg_node_rpc_url config) (sg_shielder config)) [0 ..< unat (sg_actor_count config)]"

definition distribute_tokens ::
  "('f, 'p, 's, 'd, 'l, 'w) stress_env \<Rightarrow> 's stress_config \<Rightarrow> ('p, 's) actor list \<Rightarrow> 'w \<Rightarrow> ('w, cli_error) result" where
  "distribute_tokens E config actors w =
     and_then (map_err CliMsg (se_prepare_provider E (sg_node_rpc_url config) (sg_master_seed config))) (\<lambda>_.
     try_fold (\<lambda>a w. map_err CliMsg (se_send E
         \<lparr> tr_from = ne_signer_address (se_net E) (sg_master_seed config), tr_value = ucast INITIAL_BALANCE,
           tr_to = actor_address E a \<rparr> w)) actors w)"

definition shield_actor ::
  "('f, 'p, 's, 'd, 'l, 'w) stress_env \<Rightarrow> ('f new_account_knowledge \<Rightarrow> bytes) \<Rightarrow> u256 \<Rightarrow> u256 \<Rightarrow> ('p, 's) actor \<Rightarrow> 'w
     \<Rightarrow> (('p, 's) actor \<times> 'w, cli_error) result" where
  "shield_actor E prove total_amount protocol_fee a w =
     and_then (actor_new_account_call E prove a total_amount protocol_fee) (\<lambda>call.
     and_then (map_err CliContract (new_account_native (se_net E) (ac_user a) (se_call_new_account E w) call
         total_amount)) (\<lambda>((tx_hash, block_hash), w).
     and_then (map_err CliContract (get_event (se_get_logs E w) (abi_NewAccount (se_abi E)) tx_hash block_hash))
       (\<lambda>new_account_event.
     and_then (map_err (\<lambda>_. CliMsg []) (register_action (ac_account a)
         (new_account_action total_amount (ena_newNoteIndex new_account_event) tx_hash Native protocol_fee)))
       (\<lambda>account. Ok (a\<lparr> ac_account := account \<rparr>, w)))))"

fun shield_actors ::
  "(('p, 's) actor \<Rightarrow> 'w \<Rightarrow> (('p, 's) actor \<times> 'w, cli_error) result) \<Rightarrow> ('p, 's) actor list \<Rightarrow> 'w
     \<Rightarrow> (('p, 's) actor list \<times> 'w, cli_error) result" where
  "shield_actors shield [] w = Ok ([], w)"
| "shield_actors shield (a # actors) w =
     and_then (shield a w) (\<lambda>(a, w).
     and_then (shield_actors shield actors w) (\<lambda>(actors, w). Ok (a # actors, w)))"

definition shield_tokens ::
  "('f, 'p, 's, 'd, 'l, 'w) stress_env \<Rightarrow> 's stress_config \<Rightarrow> ('p, 's) actor list \<Rightarrow> 'w
     \<Rightarrow> (('p, 's) actor list \<times> 'w, cli_error) result" where
  "shield_tokens E config actors w =
     and_then (se_prove_new_account E) (\<lambda>prove.
       let shielded_amount = ucast SHIELDED_BALANCE
       in and_then (map_err CliContract (se_simple_provider E (sg_node_rpc_url config))) (\<lambda>_.
          and_then (case actors of
              a # _ \<Rightarrow>
                and_then (map_err CliContract (protocol_deposit_fee_bps (se_net E) (ac_user a) (se_dry_deposit_fee E w)))
                  (compute_protocol_fee_from_net shielded_amount)
            | [] \<Rightarrow> Ok 0) (\<lambda>protocol_fee.
            let total_amount = shielded_amount + protocol_fee
            in shield_actors (shield_actor E prove total_amount protocol_fee) actors w)))"

definition setup_world ::
  "('f, 'p, 's, 'd, 'l, 'w) stress_env \<Rightarrow> 's stress_config \<Rightarrow> 'w
     \<Rightarrow> (('p, 's) actor list \<times> 'w, cli_error) result" where
  "setup_world E config w =
     (let actors = generate_actors E config
      in and_then (distribute_tokens E config actors w) (shield_tokens E config actors))"

section \<open>Relaying\<close>

definition stress_relay_query ::
  "('f, 'p, 's, 'd, 'l, 'w) stress_env \<Rightarrow> 's stress_config \<Rightarrow> 'w \<Rightarrow> ('f withdraw_knowledge \<Rightarrow> bytes) \<Rightarrow>
   'd quote_fee_response \<Rightarrow> ('p, 's) actor \<Rightarrow> ('d relay_query, cli_error) result" where
  "stress_relay_query E config w prove quote a =
     and_then (map_err CliContract (get_current_merkle_path (se_net E) (se_dry_merkle_path E w)
         (ucast (ac_id a)) (ac_user a))) (\<lambda>(merkle_root, merkle_path).
       let to = ne_signer_address (se_net E) (sg_master_seed config)
       in and_then (map_err CliContract (se_simple_provider E (sg_node_rpc_url config))) (\<lambda>_.
          and_then (map_err CliMsg (se_chain_id E w)) (\<lambda>chain_id.
          and_then (map_err CliContract
              (get_protocol_withdraw_fee_bps (se_net E) (se_dry_withdraw_fee E w) (ac_user a))) (\<lambda>protocol_fee_bps.
          and_then (compute_protocol_fee_from_net (ucast WITHDRAW_AMOUNT) protocol_fee_bps) (\<lambda>protocol_fee.
            let amount = ucast WITHDRAW_AMOUNT + protocol_fee + fd_total_cost_native (qr_fee_details quote)
            in and_then (cli_unwrap (withdraw_native_try_from
                 (prepare_call (withdraw_call_type (se_circuits E)) prove (ac_account a) Native amount
                   \<lparr> wx_merkle_path = merkle_path, wx_to = to, wx_relayer_address = sg_relayer_address config,
                     wx_relayer_fee = fd_total_cost_fee_token (qr_fee_details quote),
                     wx_contract_version = contract_version, wx_chain_id = ucast chain_id, wx_mac_salt = 0,
                     wx_pocket_money = 0, wx_protocol_fee = protocol_fee, wx_memo = [] \<rparr>))) (\<lambda>calldata.
               Ok \<lparr> rqy_calldata = \<lparr>
                      rc_expected_contract_version = version_to_bytes contract_version,
                      rc_amount = amount,
                      rc_withdraw_address = to,
                      rc_merkle_root = merkle_root,
                      rc_nullifier_hash = wn_oldNullifierHash calldata,
                      rc_new_note = wn_newNote calldata,
                      rc_proof = wn_proof calldata,
                      rc_fee_token = Native,
                      rc_fee_amount = wn_relayerFee calldata,
                      rc_mac_salt = wn_macSalt calldata,
                      rc_mac_commitment = wn_macCommitment calldata,
                      rc_pocket_money = 0,
                      rc_memo = wn_memo calldata \<rparr>,
                    rqy_quote = relay_quote_from quote \<rparr>))))))"

definition prepare_relay_queries ::
  "('f, 'p, 's, 'd, 'l, 'w) stress_env \<Rightarrow> 's stress_config \<Rightarrow> 'w \<Rightarrow> ('p, 's) actor list
     \<Rightarrow> ((('p, 's) actor \<times> 'd relay_query) list, cli_error) result" where
  "prepare_relay_queries E config w actors =
     and_then (se_prove_withdraw E) (\<lambda>prove.
     and_then (map_err CliMsg (se_http_quote E w (sg_relayer_url config @ ''/quote_fees'')
         \<lparr> qq_fee_token = Native, qq_pocket_money = 0 \<rparr>)) (\<lambda>quote.
     try_map (\<lambda>a. map_ok (Pair a) (stress_relay_query E config w prove quote a)) actors))"

text \<open>The outcome of a task: whether the relayer answered with success. A panic ends the task only.\<close>

definition actor_task ::
  "('f, 'p, 's, 'd, 'l, 'w) stress_env \<Rightarrow> string \<Rightarrow> ('p, 's) actor \<times> 'd relay_query \<Rightarrow> (bool, string) result" where
  "actor_task E relayer = (\<lambda>(a, query). se_http_relay E (ac_id a) (relayer @ ''/relay'') query)"

text \<open>The successes, counted in an \<open>i32\<close>; a task that panicked cannot be joined and ends the run.\<close>

fun await_handles :: "(bool, string) result list \<Rightarrow> nat \<Rightarrow> (nat, cli_error) result" where
  "await_handles [] successful = Ok successful"
| "await_handles (Ok True # handles) successful =
     (if successful + 1 < 2 ^ 31 then await_handles handles (successful + 1)
      else Panic ''attempt to add with overflow'')"
| "await_handles (Ok False # handles) successful = await_handles handles successful"
| "await_handles (Err e # handles) successful = await_handles handles successful"
| "await_handles (Panic m # handles) successful = Err (CliMsg m)"

definition enter_pandemonium ::
  "('f, 'p, 's, 'd, 'l, 'w) stress_env \<Rightarrow> 's stress_config \<Rightarrow> 'w \<Rightarrow> ('p, 's) actor list \<Rightarrow> (nat, cli_error) result" where
  "enter_pandemonium E config w actors =
     and_then (prepare_relay_queries E config w actors) (\<lambda>task_inputs.
     await_handles (map (actor_task E (sg_relayer_url config)) task_inputs) 0)"

definition stress_main ::
  "('f, 'p, 's, 'd, 'l, 'w) stress_env \<Rightarrow> 's stress_config \<Rightarrow> 'w \<Rightarrow> (nat, cli_error) result" where
  "stress_main E config w =
     and_then (setup_world E config w) (\<lambda>(actors, w). enter_pandemonium E config w actors)"

section \<open>Fees\<close>

text \<open>A fee from a net amount at less than 100 percent is at most ten thousand times the amount.\<close>

lemma net_fee_le:
  assumes "unat bps < 10000" and "compute_protocol_fee_from_net amount bps = Ok fee"
  shows "unat fee \<le> unat amount * 10000"
proof -
  let ?n = "unat amount * unat bps"
  have "?n * 1 \<le> ?n * (10000 - unat bps)" using assms(1) by (intro mult_le_mono2) linarith
  then have "unat fee \<le> ?n" using net_fee_Ok [OF assms] assms(1) by (simp add: ceil_div_le_iff del: mult_le_cancel1)
  also have "?n \<le> unat amount * 10000" using assms(1) by simp
  finally show ?thesis .
qed

lemma unat_ucast_u128: "unat (ucast (x :: u128) :: u256) = unat x"
proof -
  have "unat x < 2 ^ 256" using unat_lt_pow [of x] by (rule less_trans) simp
  then show ?thesis by (simp add: unsigned_ucast_eq take_bit_eq_mod)
qed

lemma unat_stress_amounts:
  "unat (ucast SHIELDED_BALANCE :: u256) = 15 * 10 ^ 17"
  "unat (ucast WITHDRAW_AMOUNT :: u256) = 10 ^ 18"
  by (simp_all add: SHIELDED_BALANCE_def WITHDRAW_AMOUNT_def ONE_TZERO_def)

lemma stress_gross_fee:
  assumes "unat bps < 10000" and "compute_protocol_fee_from_net amount bps = Ok fee"
    and "unat amount < 2 ^ 128"
  shows "unat (amount + fee) = unat amount + unat fee" and "unat amount + unat fee < 2 ^ 192"
    and "compute_protocol_fee_from_gross (amount + fee) bps = Ok fee"
proof -
  show sum: "unat amount + unat fee < 2 ^ 192" using net_fee_le [OF assms(1,2)] assms(3) by simp
  then have "unat amount + unat fee < 2 ^ 256" by (rule less_trans) simp
  then show "unat (amount + fee) = unat amount + unat fee"
    and "compute_protocol_fee_from_gross (amount + fee) bps = Ok fee"
    using net_fee_gross [OF assms(1,2)] by (simp_all add: unat_add_lt)
qed

text \<open>Adding a cost whose own fee is at least one unit raises the fee.\<close>

lemma gross_fee_raised:
  assumes "compute_protocol_fee_from_gross a bps = Ok fee" and "unat a + unat cost < 2 ^ 256"
    and "10000 \<le> unat cost * unat bps"
  shows "compute_protocol_fee_from_gross (a + cost) bps \<noteq> Ok fee"
proof
  assume "compute_protocol_fee_from_gross (a + cost) bps = Ok fee"
  from gross_fee_Ok [OF this] have "ceil_div ((unat a + unat cost) * unat bps) 10000 = unat fee"
    using assms(2) by (simp add: unat_add_lt)
  then have "(unat a + unat cost) * unat bps \<le> unat fee * 10000"
    by (simp add: ceil_div_eq_iff)
  with assms(3) have "unat a * unat bps + 10000 \<le> unat fee * 10000" by (simp add: distrib_right)
  moreover have "unat fee * 10000 < unat a * unat bps + 10000"
    using gross_fee_Ok [OF assms(1)] ceil_div_eq_iff [of 10000 "unat a * unat bps" "unat fee"]
    by (cases "unat fee") auto
  ultimately show False by simp
qed

section \<open>Properties\<close>





text \<open>What a prepared request proves: the amount and the commitment behind its proof.\<close>

definition stress_commitment ::
  "('f, 'p, 's, 'd, 'l, 'w) stress_env \<Rightarrow> 's stress_config \<Rightarrow> 'd quote_fee_response \<Rightarrow> u64 \<Rightarrow> u256 \<Rightarrow> withdraw_commitment"
  where
  "stress_commitment E config quote chain_id fee = \<lparr>
     wc_contract_version = contract_version,
     wc_withdraw_address = ne_signer_address (se_net E) (sg_master_seed config),
     wc_relayer_address = sg_relayer_address config,
     wc_relayer_fee = fd_total_cost_fee_token (qr_fee_details quote),
     wc_chain_id = ucast chain_id, wc_pocket_money = 0, wc_protocol_fee = fee, wc_memo = [] \<rparr>"

lemma cli_unwrap_Ok: "cli_unwrap r = Ok x \<longleftrightarrow> r = Ok x"
  by (cases r) simp_all

lemma stress_relay_query_Ok:
  assumes "stress_relay_query E config w prove quote a = Ok query"
    and "get_protocol_withdraw_fee_bps (se_net E) (se_dry_withdraw_fee E w) (ac_user a) = Ok bps"
  defines "FF \<equiv> c_field (se_circuits E)"
  shows "\<exists>fee chain_id k. compute_protocol_fee_from_net (ucast WITHDRAW_AMOUNT) bps = (Ok fee :: (u256, cli_error) result) \<and>
    rc_amount (rqy_calldata query) = ucast WITHDRAW_AMOUNT + fee + fd_total_cost_native (qr_fee_details quote) \<and>
    se_chain_id E w = Ok chain_id \<and> rc_proof (rqy_calldata query) = prove k \<and>
    wk_withdrawal_value k = u256_to_field FF (rc_amount (rqy_calldata query)) \<and>
    wk_commitment k = u256_to_field FF (withdraw_commitment_hash (c_keccak (se_circuits E))
      (stress_commitment E config quote chain_id fee))"
proof -
  let ?C = "se_circuits E" and ?to = "ne_signer_address (se_net E) (sg_master_seed config)"
  let ?amount = "\<lambda>fee. ucast WITHDRAW_AMOUNT + fee + fd_total_cost_native (qr_fee_details quote)"
  let ?extra = "\<lambda>path chain_id fee. \<lparr> wx_merkle_path = path, wx_to = ?to, wx_relayer_address = sg_relayer_address config,
      wx_relayer_fee = fd_total_cost_fee_token (qr_fee_details quote), wx_contract_version = contract_version,
      wx_chain_id = ucast chain_id, wx_mac_salt = 0, wx_pocket_money = 0, wx_protocol_fee = fee, wx_memo = [] \<rparr>"
  let ?k = "\<lambda>path chain_id fee. withdraw_prover_knowledge ?C (ac_account a) Native (?amount fee) (?extra path chain_id fee)"
  from assms(1,2) obtain path chain_id fee calldata where
    fee: "compute_protocol_fee_from_net (ucast WITHDRAW_AMOUNT) bps = (Ok fee :: (u256, cli_error) result)"
    and chain: "se_chain_id E w = Ok chain_id"
    and call: "withdraw_native_try_from (prepare_call (withdraw_call_type ?C) prove (ac_account a) Native (?amount fee)
      (?extra path chain_id fee)) = Ok calldata"
    and query: "rc_amount (rqy_calldata query) = ?amount fee" "rc_proof (rqy_calldata query) = wn_proof calldata"
    by (auto simp: stress_relay_query_def Let_def and_then_Ok map_err_Ok cli_unwrap_Ok split: prod.splits)
  from call have "wn_proof calldata = prove (?k path chain_id fee)"
    by (auto simp: prepare_call_def withdraw_call_type_def withdraw_call_data_def withdraw_native_try_from_def Let_def
        split: token.splits)
  moreover have "wk_withdrawal_value (?k path chain_id fee) = u256_to_field FF (?amount fee)"
    "wk_commitment (?k path chain_id fee) = u256_to_field FF (withdraw_commitment_hash (c_keccak ?C)
      (stress_commitment E config quote chain_id fee))"
    by (simp_all add: withdraw_prover_knowledge_def stress_commitment_def FF_def Let_def)
  ultimately show ?thesis using fee chain query by (intro exI [of _ fee] exI [of _ chain_id]
      exI [of _ "?k path chain_id fee"]) simp
qed

text \<open>
  C37. The stress test commits to the wrong protocol fee. A prepared request withdraws the planned amount
  plus a fee computed from that amount alone plus the relayer's cost, and its proof is for that amount
  and for a commitment to that fee, while the contract takes its fee from the whole. The two agree when the
  relayer costs nothing or the contract takes no fee; they disagree whenever the relayer's cost is large
  enough to cost one unit of fee itself, and then the bytes that the contract hashes for the commitment,
  with the fee it takes, are not those the proof commits to.
\<close>

theorem stress_fee_mismatch:
  assumes "stress_relay_query E config w prove quote a = Ok query"
    and "get_protocol_withdraw_fee_bps (se_net E) (se_dry_withdraw_fee E w) (ac_user a) = Ok bps"
    and "unat bps < 10000" and "unat (fd_total_cost_native (qr_fee_details quote)) < 2 ^ 255"
  defines "amount \<equiv> rc_amount (rqy_calldata query)" and "FF \<equiv> c_field (se_circuits E)"
  shows "\<exists>fee chain_id k c. compute_protocol_fee_from_net (ucast WITHDRAW_AMOUNT) bps = (Ok fee :: (u256, cli_error) result) \<and>
    unat amount = 10 ^ 18 + unat fee + unat (fd_total_cost_native (qr_fee_details quote)) \<and>
    se_chain_id E w = Ok chain_id \<and> c = stress_commitment E config quote chain_id fee \<and> wc_protocol_fee c = fee \<and>
    rc_proof (rqy_calldata query) = prove k \<and> wk_withdrawal_value k = u256_to_field FF amount \<and>
    wk_commitment k = u256_to_field FF (withdraw_commitment_hash (c_keccak (se_circuits E)) c) \<and>
    (bps = 0 \<or> fd_total_cost_native (qr_fee_details quote) = 0 \<longrightarrow>
      compute_protocol_fee_from_gross amount bps = (Ok fee :: (u256, cli_error) result)) \<and>
    (10000 \<le> unat (fd_total_cost_native (qr_fee_details quote)) * unat bps \<longrightarrow>
      compute_protocol_fee_from_gross amount bps \<noteq> (Ok fee :: (u256, cli_error) result) \<and>
      (\<forall>taken. compute_protocol_fee_from_gross amount bps = (Ok taken :: (u256, cli_error) result) \<longrightarrow>
         withdraw_preimage (c\<lparr>wc_protocol_fee := taken\<rparr>) \<noteq> withdraw_preimage c))"
proof -
  let ?W = "ucast WITHDRAW_AMOUNT :: u256" and ?cost = "fd_total_cost_native (qr_fee_details quote)"
  from stress_relay_query_Ok [OF assms(1,2)] obtain fee chain_id k where
    fee: "compute_protocol_fee_from_net ?W bps = (Ok fee :: (u256, cli_error) result)"
    and amount: "amount = ?W + fee + ?cost" and proved: "se_chain_id E w = Ok chain_id"
    "rc_proof (rqy_calldata query) = prove k" "wk_withdrawal_value k = u256_to_field FF amount"
    "wk_commitment k = u256_to_field FF (withdraw_commitment_hash (c_keccak (se_circuits E))
      (stress_commitment E config quote chain_id fee))"
    unfolding amount_def FF_def by blast
  let ?c = "stress_commitment E config quote chain_id fee"
  have "unat ?W < 2 ^ 128" by (simp add: unat_stress_amounts)
  note gross = stress_gross_fee [OF assms(3) fee this]
  have bound: "unat (?W + fee) + unat ?cost < 2 ^ 256" using gross(1,2) assms(4) by simp
  have free: "compute_protocol_fee_from_gross (?W + fee + ?cost) 0 = (Ok fee :: (u256, cli_error) result)" if "bps = 0"
    using net_fee_Ok [OF assms(3) fee] that
    by (simp add: compute_protocol_fee_from_gross_alt ceil_div_def Let_def word_unat_eq_iff)
  have c: "wc_protocol_fee ?c = fee" by (simp add: stress_commitment_def)
  have bound_fee: "withdraw_preimage (?c\<lparr>wc_protocol_fee := taken\<rparr>) \<noteq> withdraw_preimage ?c" if "taken \<noteq> fee" for taken
    using that by (simp add: withdraw_preimage_injective stress_commitment_def)
  have raised: "compute_protocol_fee_from_gross amount bps \<noteq> (Ok fee :: (u256, cli_error) result)"
    if "10000 \<le> unat ?cost * unat bps"
    unfolding amount using gross_fee_raised [OF gross(3) bound that] .
  show ?thesis
  proof (intro exI conjI impI allI)
    show "compute_protocol_fee_from_net ?W bps = (Ok fee :: (u256, cli_error) result)" by (rule fee)
    show "unat amount = 10 ^ 18 + unat fee + unat ?cost"
      using gross(1) bound by (simp add: amount unat_add_lt unat_stress_amounts)
    show "compute_protocol_fee_from_gross amount bps = (Ok fee :: (u256, cli_error) result)"
      if "bps = 0 \<or> ?cost = 0"
      using that free gross(3) by (auto simp: amount)
    show "withdraw_preimage (?c\<lparr>wc_protocol_fee := taken\<rparr>) \<noteq> withdraw_preimage ?c"
      if "10000 \<le> unat ?cost * unat bps"
        and "compute_protocol_fee_from_gross amount bps = (Ok taken :: (u256, cli_error) result)" for taken
      using raised [OF that(1)] that(2) by (intro bound_fee) auto
  qed (use c proved raised in auto)
qed

section \<open>Witnesses\<close>

text \<open>The wallet's chain and relayer, with one actor; transactions count up the chain.\<close>

definition sample_stress :: "(fr, unit, unit, nat, nat, nat) stress_env" where
  "sample_stress = \<lparr>
     se_circuits = wallet_circuits, se_generate_user_id = (\<lambda>_. fr_of_nat 42), se_random = (\<lambda>bs. ((), 7)),
     se_net = ce_net wallet_env, se_prepare_provider = (\<lambda>_ _. Ok ()), se_send = (\<lambda>t w. Ok (w + 1)),
     se_simple_provider = (\<lambda>_. Ok ()), se_chain_id = (\<lambda>w. Ok 1), se_abi = wallet_abi,
     se_get_logs = (\<lambda>w. ce_get_logs wallet_env),
     se_dry_deposit_fee = (\<lambda>w. ce_dry_deposit_fee wallet_env),
     se_dry_withdraw_fee = (\<lambda>w. ce_dry_withdraw_fee wallet_env),
     se_dry_merkle_path = (\<lambda>w. ce_dry_merkle_path wallet_env),
     se_call_new_account = (\<lambda>w _ _. Ok ((21, 5), w + 1)),
     se_prove_new_account = Ok (\<lambda>_. [9]), se_prove_withdraw = Ok (\<lambda>_. [9]),
     se_http_quote = (\<lambda>w url query. Ok wallet_quote), se_http_relay = (\<lambda>i url query. Ok True) \<rparr>"

definition sample_stress_config :: "unit stress_config" where
  "sample_stress_config = \<lparr> sg_master_seed = (), sg_actor_count = 1, sg_node_rpc_url = ''node'', sg_shielder = 4,
     sg_relayer_url = ''relayer'', sg_relayer_address = 3 \<rparr>"

definition sample_actor :: "(unit, unit) actor" where
  "sample_actor = \<lparr> ac_id = 0, ac_user = shielder_user_new 4 (OnDemand ''node'' ()), ac_account = wallet_fresh \<rparr>"






lemma sample_stress_query:
  "is_ok (stress_relay_query sample_stress sample_stress_config 2 (\<lambda>_. [9]) wallet_quote sample_actor)"
proof -
  have tok: "token_from_address Fr (field_to_address Fr (address_to_field Fr 0)) = Native"
    using token_field_roundtrip [of Native] by simp
  have fee: "compute_protocol_fee_from_net (ucast WITHDRAW_AMOUNT) 100 = Ok 10101010101010102"
    by (simp add: compute_protocol_fee_from_net_alt ceil_div_def unat_stress_amounts)
  have path: "\<exists>root path. get_current_merkle_path (se_net sample_stress) (se_dry_merkle_path sample_stress 2) i
      (ac_user sample_actor) = Ok (root, path)" for i
    by (simp add: get_current_merkle_path_def wallet_calls sample_stress_def sample_actor_def wallet_env_for_def
        reorganize_merkle_path_def Let_def)
  have call: "\<exists>c. withdraw_native_try_from (prepare_call (withdraw_call_type (se_circuits sample_stress)) prove
      account Native amount extra) = Ok c" for prove account amount extra
    using tok
    by (simp add: prepare_call_def withdraw_call_type_def withdraw_call_data_def withdraw_prover_knowledge_def
        Let_def withdraw_native_try_from_def sample_stress_def wallet_circuits_def fr_circuits_def)
  have "get_protocol_withdraw_fee_bps (se_net sample_stress) (se_dry_withdraw_fee sample_stress 2)
      (ac_user sample_actor) = Ok 100" and "\<And>url. se_simple_provider sample_stress url = Ok ()"
    and "se_chain_id sample_stress 2 = Ok 1"
    by (simp_all add: get_protocol_withdraw_fee_bps_def wallet_calls sample_stress_def sample_actor_def wallet_env_for_def)
  moreover from call obtain C where "\<And>prove account amount extra. withdraw_native_try_from
      (prepare_call (withdraw_call_type (se_circuits sample_stress)) prove account Native amount extra) =
      Ok (C prove account amount extra)" by metis
  moreover from path obtain root path where "get_current_merkle_path (se_net sample_stress)
      (se_dry_merkle_path sample_stress 2) (ucast (ac_id sample_actor)) (ac_user sample_actor) = Ok (root, path)" by blast
  ultimately show ?thesis by (simp add: stress_relay_query_def Let_def fee is_ok_iff)
qed

theorem stress_fee_mismatch_witness:
  "\<exists>query. stress_relay_query sample_stress sample_stress_config 2 (\<lambda>_. [9]) wallet_quote sample_actor = Ok query \<and>
     compute_protocol_fee_from_net (ucast WITHDRAW_AMOUNT) 100 = (Ok 10101010101010102 :: (u256, cli_error) result) \<and>
     compute_protocol_fee_from_gross (rc_amount (rqy_calldata query)) 100
       \<noteq> (Ok 10101010101010102 :: (u256, cli_error) result)"
proof -
  have fee: "compute_protocol_fee_from_net (ucast WITHDRAW_AMOUNT) 100 = (Ok 10101010101010102 :: (u256, cli_error) result)"
    by (simp add: compute_protocol_fee_from_net_alt ceil_div_def unat_stress_amounts)
  obtain query where
    query: "stress_relay_query sample_stress sample_stress_config 2 (\<lambda>_. [9]) wallet_quote sample_actor = Ok query"
    using sample_stress_query by (auto simp: is_ok_iff)
  have "get_protocol_withdraw_fee_bps (se_net sample_stress) (se_dry_withdraw_fee sample_stress 2)
      (ac_user sample_actor) = Ok 100"
    by (simp add: get_protocol_withdraw_fee_bps_def wallet_calls sample_stress_def sample_actor_def wallet_env_for_def)
  from stress_fee_mismatch [OF query this] query fee show ?thesis
    by (auto simp: wallet_quote_def sample_fee_def)
qed

end
