(* ===== verification/Spec2Isabelle.thy ===== *)
theory Spec2Isabelle
  imports HaloProgram ArKeys Config ShielderCli HaloScratch Tee FeeEstimator StateFile ProvingKeys StressTesting
begin

text \<open>
  A verification library for the Rust crates of zkOS, the Shielder: a shielded account whose owner moves
  tokens in and out of a contract with zero-knowledge proofs, and the relayer service that submits
  withdrawals on behalf of users and is paid from the withdrawn amount.

  \<^bold>\<open>Parts and theories.\<close> The theories follow the crates under \<^verbatim>\<open>src/crates\<close>, each importing what it calls.

  \<^item> \<open>Prelude\<close>: machine words, outcomes (\<open>result\<close>: \<open>Ok\<close>, \<open>Err\<close>, and \<open>Panic\<close> for a panic), byte strings,
    fallible loops, instants and durations in nanoseconds.
  \<^item> \<open>TypeConversions\<close> (\<^verbatim>\<open>type-conversions\<close>): field elements, 256-bit numbers, bytes, addresses. The
    field is a parameter; locales \<open>prime_field_repr\<close> and \<open>address_field\<close> state what it promises, and the
    BN254 scalar field interprets them. Lemmas: the conversions are inverse to each other where defined.
  \<^item> \<open>Setup\<close> (\<^verbatim>\<open>shielder-setup\<close>): versions, tree constants, protocol fees in basis points on 512-bit
    intermediates. Properties: rounding, bounds, and agreement of the net and gross computations.
  \<^item> \<open>Contract\<close> (\<^verbatim>\<open>shielder-contract\<close>): call and event records, errors, commitments, connections and users,
    Merkle paths, event lookup, recovery of the action that spent a nullifier. Node clients are
    functions that are arguments. Properties: commitments bind and fit the field, the recovered action is
    right and is found, money attached to calls.
  \<^item> \<open>Account\<close>, \<open>CallData\<close> (\<^verbatim>\<open>shielder-account\<close>): the account record and the registration of actions, the
    derivation of secrets, the preparation of calls for the three circuits. Keccak, the note hash and the
    circuits are parameters; the locale \<open>faithful_call_type\<close> is the contract of the trait \<open>CallType\<close>,
    interpreted for all three call types. Properties: balances are exact except for the wrap of overcharged deposits, nullifiers chain, a prepared
    call is what was asked for and is bound by the proof.
  \<^item> \<open>Fee\<close>, \<open>QuoteCache\<close>, \<open>PriceFeed\<close>, \<open>Monitor\<close>, \<open>Quote\<close>, \<open>Relay\<close>, \<open>Taskmaster\<close>, \<open>Config\<close>
    (\<^verbatim>\<open>shielder-relayer\<close>): fee computation, the cache of issued quotes (locale \<open>quote_store\<close>, interpreted by
    the cache), prices with their validity, signers with their funding and monitors, the quotation
    endpoint, the relay endpoint with request traces, the task queue with its workers and the
    bounded channel to the recharging worker (an inductive step relation over all interleavings; locale
    \<open>dry_run_manager\<close>, interpreted by both dry-run policies), and the configuration. A call that never
    returns is a worker that takes no further step.
  \<^item> \<open>MemoScan\<close> (\<^verbatim>\<open>memo-scan\<close>): the bisection for the contract's deployment block, on \<open>i64\<close> bounds, and the
    scan for memos in batches of blocks. Properties: the block found is the boundary, and scanning in
    batches equals one pass.
  \<^item> \<open>ArCli\<close> (\<^verbatim>\<open>ar-cli\<close>): the anonymity revoker's database as explicit tables, with operations that keep what
    they have written when they fail; indexing of events, collection and matching of viewing keys,
    public keys as bytes, retries with back-off. Properties: indexing skips no block and keeps
    the last event of each transaction, revocation gives each event the key that opens its commitment, keys round trip, the first outcome that is not a rate
    limit is returned. \<open>ArKeys\<close> adds the command line: generation and inspection of keys, parsing of byte
    arguments, and \<open>main\<close> over files, terminal and databases. Property: what \<open>generate\<close> writes is what
    \<open>collect-keys\<close> decrypts with, and collecting misses no new account.
  \<^item> \<open>ShielderCli\<close> (\<^verbatim>\<open>shielder-cli\<close>): the wallet with its operations, recovery and commands, over \<open>Contract\<close>,
    \<open>Account\<close>, \<open>CallData\<close> and the wire types of the relayer. Properties: the invariant of the stored state
    under all sequences of commands, exact credits, debits that are exact when the total fits, and recovery as a replay of the chain.
  \<^item> \<open>FrRing\<close>, \<open>Yul\<close>, and the theories \<open>Halo*\<close> (\<^verbatim>\<open>halo2-verifier\<close>): the generator of Solidity verifiers.
    \<open>Yul\<close> gives meaning to the text it prints: a parser that inverts the printing of expressions, and the
    execution of lines over variables with block scopes, memory and calldata; \<open>FrRing\<close> makes the scalar
    field a commutative ring, so that \<open>addmod\<close> and \<open>mulmod\<close> are its operations. \<open>HaloUtil\<close> (\<^verbatim>\<open>util.rs\<close>) is
    the layout of a proof and of memory, \<open>HaloEvaluator\<close> (\<^verbatim>\<open>evaluator.rs\<close>) the code for the constraints,
    \<open>HaloPcs\<close>, \<open>HaloBdfg\<close>, \<open>HaloGwc\<close> (\<^verbatim>\<open>pcs.rs\<close>, \<^verbatim>\<open>pcs/\<close>) the two opening schemes, \<open>HaloGenerator\<close>
    (\<^verbatim>\<open>codegen.rs\<close>, \<^verbatim>\<open>template.rs\<close>) the assembly of the verifier. \<open>HaloExpressions\<close>, \<open>HaloArguments\<close> and
    \<open>HaloQuotient\<close> prove the emitted code right: run, it never gets stuck and computes the values of all
    constraints; \<open>HaloPcs\<close> that the proof is laid out without gaps and every evaluation is read once;
    \<open>HaloScratch\<close> that scratch memory and verifying key do not overlap. \<open>HaloProgram\<close> (\<^verbatim>\<open>generator.rs\<close>) is
    the program that writes the three contracts. The locale \<open>backward_groups\<close>, for
    grouping adjacent places, is interpreted for words and for points.

  \<^item> \<open>Bindings\<close> (\<^verbatim>\<open>shielder_bindings\<close>): the interface of the three circuits in bytes, with hashing and the
    derivation of secrets. The locale \<open>circuit_binding\<close> is the contract of a wrapper (the bytes it makes
    of public inputs are those it reads back), interpreted for all three circuits. Properties: exactly the
    canonical encodings are accepted, proofs survive the interface, secrets are those of \<open>Account\<close>.
  \<^item> \<open>Tee\<close> (\<^verbatim>\<open>src/tee\<close>): the prover in an enclave: protocol, framed connections, the enclave's server and
    the host's endpoints, over \<open>Bindings\<close>. Properties: requests are answered in order, an encrypted
    request comes back as the encrypted proof of its inputs, the enclave proves what the bindings prove.
  \<^item> \<open>PowersOfTau\<close> (\<^verbatim>\<open>powers-of-tau\<close>): the reader of ceremony files over an explicit reader position.
    Property: reading a file written in the format returns its points.
  \<^item> \<open>FeeEstimator\<close> (\<^verbatim>\<open>fee-estimator\<close>): configuration, gas estimates and the refreshing monitor. The chain is
    a state that the sent calls change. Property: estimates for existing accounts send nothing.
  \<^item> \<open>Files\<close>, an explicit file system, carries \<open>StateFile\<close> (\<^verbatim>\<open>content-encryption\<close>,
    \<^verbatim>\<open>shielder-cli/src/state_file.rs\<close>), the wallet's encrypted state file, and \<open>ProvingKeys\<close> (\<^verbatim>\<open>pk.rs\<close> of
    \<^verbatim>\<open>shielder-cli\<close> and \<^verbatim>\<open>fee-estimator\<close>, \<^verbatim>\<open>stress-testing/src/util.rs\<close>), the caches of proving keys. Properties:
    a saved state is read back, and only under its password; the caches are transparent.
  \<^item> \<open>TokenDistributor\<close> (\<^verbatim>\<open>token-distributor\<close>) and \<open>StressTesting\<close> (\<^verbatim>\<open>stress-testing\<close>): accounts endowed by a
    master account, and actors that shield and withdraw through the relayer. Properties: everyone is
    endowed and shielded exactly as planned; the fee the stress test commits to is not the contract's.

  This theory joins the parts: the fee a client was quoted is the fee it is charged, and the call the
  relayer sends is the call the wallet has proved.

  \<^bold>\<open>Conventions.\<close> A Rust struct is a record (its fields with a short prefix), an enum a datatype, a method a
  function of the same name that takes and returns the state. Integers keep their width: \<open>u256\<close> is a
  256-bit word whose operators wrap as those of the library do, native arithmetic that overflows is a
  \<open>Panic\<close>, and so are failed assertions, \<open>unwrap\<close> and \<open>expect\<close>. Messages that interpolate values keep
  their fixed part only. Shared state behind a lock is a state that is threaded through; each critical
  section is one step. Clock readings, the order in which a hash map yields its entries and every answer
  from the network are arguments, so the theorems hold for all of them. Background tasks that loop
  forever are folds over the ticks or events they process; no fuel is used
  anywhere but in the parser of Yul text, whose fuel is the length of the text. Every other loop is a
  structural recursion or has a termination proof (the bisection, the batches of blocks, recovery, whose
  nonce grows), except retrying with back-off, which may run forever and is a partial function in the
  option type.

  \<^bold>\<open>Hypotheses on foreign code.\<close> \<open>decimal_repr\<close> (decimal numbers have 96-bit mantissas and scales up to 28),
  \<open>ledger_node\<close> and \<open>credits\<close> (a node reports balances and a confirmed transfer adds its value to the recipient),
  \<open>default_literals_parse\<close> (the built-in amounts parse), \<open>provider_works\<close> (creating a provider does not
  panic), \<open>serves_logs\<close> and \<open>serves_events\<close> (a log query returns the logs of its block range in order),
  \<open>curve_ok\<close> (a point is its pair of affine coordinates), \<open>scalar_ok\<close> (a scalar is read back from its
  32 bytes), \<open>serves_blocks\<close> (the node has every block with its transactions), \<open>field_laws\<close> and \<open>engine_laws\<close> (a prime field with
  canonical representations and curves given by coordinates), \<open>codec_laws\<close>, \<open>key_laws\<close> and \<open>transport_works\<close> (decryption,
  decoding and reading invert encryption, encoding and writing), that loading inverts saving the wallet's state,
  and the equations of the withdrawal circuit's public inputs. Each has a concrete instance in
  the witnesses.

  \<^bold>\<open>Not modelled.\<close> HTTP routing, OpenAPI, logging and the Prometheus rendering with floating point numbers
  (glue of other packages); the construction of node clients (\<^verbatim>\<open>providers.rs\<close>); the circuits, the prover and
  Keccak (other packages); a panic inside a node client that kills a relay worker; the Solidity and
  TypeScript parts; the test crates \<^verbatim>\<open>integration-tests\<close> and \<^verbatim>\<open>evm-utils\<close>. Of
  \<^verbatim>\<open>shielder-cli\<close> and \<^verbatim>\<open>ar-cli\<close>: the derived argument parsers and log lines. Of
  \<^verbatim>\<open>halo2-verifier\<close>: the askama templates (a parameter), and the execution of loops and curve operations in the
  emitted code. Of \<^verbatim>\<open>src/tee\<close>: the accept loops of the two main
  functions. Of \<^verbatim>\<open>fee-estimator\<close>: the HTTP server and the statics that hold the proving keys.
\<close>

section \<open>Quoting and relaying\<close>

text \<open>
  C1. The quoted fee is the fee charged. Let a client obtain a quote and send it back in a relay request
  with the same fee token and pocket money, before the validity period is over, while other requests,
  the garbage collector, the price feed and the health monitor go on. If the request names the right
  contract version and an admissible pocket money, it is admitted, and the relayed withdrawal pays
  exactly the quoted total fee, to the relayer's fee destination.
\<close>

theorem quoted_fee_is_charged:
  assumes "quote_fees_inner D quote_env app quote_query = Ok (resp, app')"
    and "try_fold (run_op store_quote_response collect_garbage) ops (as_quote_cache app')
      = (Ok cache :: ('d quote_cache, string) result)"
    and "sweeps_before (rv_now env) ops"
    and "rv_now env < qe_now_store quote_env + int (qc_validity (as_quote_cache app))"
    and "rqy_quote query = relay_quote_from resp"
    and "rc_fee_token (rqy_calldata query) = qq_fee_token quote_query"
    and "rc_pocket_money (rqy_calldata query) = qq_pocket_money quote_query"
    and "version_from_bytes (rc_expected_contract_version (rqy_calldata query)) = contract_version"
    and "qq_fee_token quote_query = Native \<longrightarrow> qq_pocket_money quote_query = 0"
    and "qq_pocket_money quote_query \<le> as_max_pocket_money app"
    and "rv_channel_open env"
  shows "\<exists>task. relay_admit D env
      (app'\<lparr>as_quote_cache := cache, as_prices := prices, as_rpc_monitor := rpc_monitor\<rparr>) query m
      = (Ok task, m, []) \<and>
    wdc_relayer_fee (tk_payload task) = fd_total_cost_fee_token (qr_fee_details resp) \<and>
    wdc_relayer_address (tk_payload task) = fee_address app \<and>
    wdc_withdrawal_address (tk_payload task) = rc_withdraw_address (rqy_calldata query) \<and>
    wdc_amount (tk_payload task) = rc_amount (rqy_calldata query)"
proof -
  let ?app = "app'\<lparr>as_quote_cache := cache, as_prices := prices, as_rpc_monitor := rpc_monitor\<rparr>"
  from assms(1) obtain gas qprices cache1 where
    "get_gas_price quote_env app = Ok gas" and
    "quote_prices_for quote_env app (qq_fee_token quote_query) = Ok qprices" and
    fee: "compute_fee D (ucast gas) (as_relay_gas app) (qq_pocket_money quote_query)
       (as_service_fee_percent app) (pr_unit_price (qp_native_token_price qprices))
       (pr_unit_price (qp_fee_token_price qprices)) = Ok (qr_fee_details resp)" and
    st: "store_quote_response (as_quote_cache app)
       (referenced_quote (qq_fee_token quote_query) (relay_quote_from resp)) (qe_now_store quote_env)
       = (Ok cache1 :: ('d quote_cache, string) result)" and
    app': "app' = app\<lparr>as_quote_cache := cache1\<rparr>" and
    q: "rq_gas_price (relay_quote_from resp) = ucast gas"
      "rq_native_token_unit_price (relay_quote_from resp) = pr_unit_price (qp_native_token_price qprices)"
      "rq_fee_token_unit_price (relay_quote_from resp) = pr_unit_price (qp_fee_token_price qprices)"
    by (rule quote_fees_inner_Ok)
  have run: "try_fold (run_op store_quote_response collect_garbage) ops cache1
      = (Ok cache :: ('d quote_cache, string) result)" using assms(2) by (simp add: app')
  from cache.store_then_valid [OF st run assms(3,4)]
  have acc: "acceptable (rv_now env) ?app query"
    using assms(5-10) by (simp add: acceptable_def app')
  have "relay_fee D ?app query = Ok (qr_fee_details resp)"
    using fee by (simp add: relay_fee_def app' assms(5,7) q)
  then show ?thesis
    unfolding relay_admit_acceptable [OF acc]
    by (simp add: Let_def assms(11) create_call_def app' fee_address_def)
qed

theorem quoted_fee_is_charged_witness:
  "\<exists>resp app' cache task. quote_fees_inner cents sample_quote_env sample_app
      \<lparr> qq_fee_token = ERC20 7, qq_pocket_money = 100 \<rparr> = Ok (resp, app') \<and>
    relay_admit cents sample_relay_env (app'\<lparr>as_quote_cache := cache, as_prices := as_prices sample_app,
        as_rpc_monitor := as_rpc_monitor sample_app\<rparr>)
      (sample_query\<lparr>rqy_quote := relay_quote_from resp\<rparr>) no_counts = (Ok task, no_counts, []) \<and>
    wdc_relayer_fee (tk_payload task) = 1155"
proof -
  let ?query = "\<lparr> qq_fee_token = ERC20 7, qq_pocket_money = 100 \<rparr>"
  let ?ops = "[SweepOp 12] :: u64 cached_quote cache_op list"
  from sample_quote_computed obtain resp app' where
    q: "quote_fees_inner cents sample_quote_env sample_app ?query = Ok (resp, app')"
    and f: "qr_fee_details resp = sample_fee" by blast
  let ?cache = "collect_garbage (as_quote_cache app') 12"
  have run: "try_fold (run_op store_quote_response collect_garbage) ?ops (as_quote_cache app')
      = (Ok ?cache :: (u64 quote_cache, string) result)" by simp
  have "\<exists>task. relay_admit cents sample_relay_env (app'\<lparr>as_quote_cache := ?cache,
        as_prices := as_prices sample_app, as_rpc_monitor := as_rpc_monitor sample_app\<rparr>)
      (sample_query\<lparr>rqy_quote := relay_quote_from resp\<rparr>) no_counts = (Ok task, no_counts, []) \<and>
    wdc_relayer_fee (tk_payload task) = fd_total_cost_fee_token (qr_fee_details resp)"
    using quoted_fee_is_charged [OF q run, where env = sample_relay_env
        and query = "sample_query\<lparr>rqy_quote := relay_quote_from resp\<rparr>" and m = no_counts
        and prices = "as_prices sample_app" and rpc_monitor = "as_rpc_monitor sample_app"]
    by (auto simp: sample_relay_env_def sample_quote_env_def sample_app_def quote_cache_new_def
        sample_query_def version_from_bytes_def version_to_bytes_def contract_version_def)
  then show ?thesis using q by (auto simp: f sample_fee_def)
qed

text \<open>
  C3. The relayer forwards the call the wallet has proved. Let the wallet prepare a withdrawal request
  from a quote of the relayer, having asked it for its fee address, and let the quote still be valid
  and the pocket money within the limits. Then the relayer admits the request, and the call its worker
  will send equals, in every field, the call the wallet generated its proof for; only the Merkle root
  is taken from the contract's answer instead of the circuit's output. The amount must fit the field
  and the circuit publish it.
\<close>

theorem wallet_call_is_relayed:
  fixes E :: "(fr, 'p, 's, 'd, 'l) cli_env" and app :: "('d, 'k) app_state"
  assumes "prepare_relayer_query E st amount to tok quote pocket fee memo = Ok query"
    and "get_relayer_address E (cs_relayer_rpc_url st) = Ok (fee_address app)"
    and "c_field (ce_circuits E) = Fr"
    and "\<And>k. c_withdraw (ce_circuits E) k W_WithdrawalValue = wk_withdrawal_value k"
    and "unat amount < fr_modulus" and "tok \<noteq> ERC20 0"
    and "relay_fee D app query = Ok (qr_fee_details quote)"
    and "tok = Native \<longrightarrow> pocket = 0" and "pocket \<le> as_max_pocket_money app"
    and "is_quote_valid (as_quote_cache app) (referenced_quote tok (relay_quote_from quote)) (rv_now env)"
    and "rv_channel_open env"
  shows "\<exists>task prove account root path chain_id.
     relay_admit D env app query m = (Ok task, m, []) \<and>
     ce_prove_withdraw E = Ok prove \<and> cs_accounts st (token_address Fr tok) = Some account \<and>
     tk_payload task = (prepare_call (withdraw_call_type (ce_circuits E)) prove account tok amount
       \<lparr> wx_merkle_path = path, wx_to = to, wx_relayer_address = fee_address app,
         wx_relayer_fee = fd_total_cost_fee_token (qr_fee_details quote),
         wx_contract_version = contract_version, wx_chain_id = chain_id, wx_mac_salt = ce_mac_salt E,
         wx_pocket_money = pocket, wx_protocol_fee = fee, wx_memo = memo \<rparr>)\<lparr> wdc_merkle_root := root \<rparr>"
proof -
  let ?extra = "\<lambda>path chain_id. \<lparr> wx_merkle_path = path, wx_to = to, wx_relayer_address = fee_address app,
         wx_relayer_fee = fd_total_cost_fee_token (qr_fee_details quote),
         wx_contract_version = contract_version, wx_chain_id = chain_id, wx_mac_salt = ce_mac_salt E,
         wx_pocket_money = pocket, wx_protocol_fee = fee, wx_memo = memo \<rparr>"
  let ?call = "\<lambda>prove account path chain_id.
      prepare_call (withdraw_call_type (ce_circuits E)) prove account tok amount (?extra path chain_id)"
  from assms(1) obtain prove account root path chain_id where
    prove: "ce_prove_withdraw E = Ok prove" and acc: "cs_accounts st (token_address Fr tok) = Some account"
    and calldata: "rqy_calldata query = (let c = ?call prove account path chain_id in \<lparr>
         rc_expected_contract_version = version_to_bytes contract_version, rc_amount = amount,
         rc_withdraw_address = to, rc_merkle_root = root, rc_nullifier_hash = wdc_old_nullifier_hash c,
         rc_new_note = wdc_new_note c, rc_proof = wdc_proof c, rc_fee_token = tok,
         rc_fee_amount = wdc_relayer_fee c, rc_mac_salt = wdc_mac_salt c,
         rc_mac_commitment = wdc_mac_commitment c, rc_pocket_money = pocket, rc_memo = memo \<rparr>)"
    and quote: "rqy_quote query = relay_quote_from quote"
    unfolding prepare_relayer_query_def Let_def
    by (auto simp: result_simps assms(2,3))
  have acceptable: "acceptable (rv_now env) app query"
    using assms(8-10) by (simp add: acceptable_def calldata quote Let_def version_bytes_roundtrip)
  note faithful = withdraw_ct.prepare_call_faithful(1,2)
    [of amount tok "c_keccak (ce_circuits E)" "c_le_bits (ce_circuits E)" "c_new_account (ce_circuits E)"
      "c_deposit (ce_circuits E)" "c_withdraw (ce_circuits E)",
      unfolded fr_circuits_cases [OF assms(3,4)], OF assms(5,6)]
  have "create_call (rqy_calldata query) (fee_address app) (fd_total_cost_fee_token (qr_fee_details quote)) =
      (?call prove account path chain_id)\<lparr> wdc_merkle_root := root \<rparr>"
    using faithful [of prove account "?extra path chain_id"]
    by (simp add: create_call_def calldata Let_def)
      (simp add: prepare_call_def Let_def withdraw_call_type_def withdraw_call_data_def)
  then show ?thesis
    unfolding relay_admit_acceptable [OF acceptable] assms(7)
    using prove acc assms(11) by (auto simp: Let_def fee_address_def)
qed

definition relayed_quote :: "u64 quote_fee_response" where
  "relayed_quote = \<lparr> qr_fee_details = sample_fee,
     qr_price_details = \<lparr> pd_gas_price = 100, pd_native_token_price = 3, pd_native_token_unit_price = 300,
       pd_fee_token_price = 6, pd_fee_token_unit_price = 600 \<rparr> \<rparr>"

theorem wallet_call_is_relayed_witness:
  "\<exists>query task. prepare_relayer_query (wallet_env_for relayed_quote)
      ((cli_state_new ''0x9'')\<lparr> cs_accounts := [7 \<mapsto> wallet_funded] \<rparr>) 5000 8 (ERC20 7) relayed_quote 100 1 [5]
      = Ok query \<and>
    relay_admit cents sample_relay_env quoted_app query no_counts = (Ok task, no_counts, []) \<and>
    wdc_proof (tk_payload task) = [9] \<and> wdc_withdrawal_address (tk_payload task) = 8 \<and>
    wdc_relayer_fee (tk_payload task) = 1155"
proof -
  let ?E = "wallet_env_for relayed_quote"
  let ?st = "(cli_state_new ''0x9'')\<lparr> cs_accounts := [7 \<mapsto> wallet_funded] \<rparr>"
  have "is_ok (prepare_relayer_query ?E ?st 5000 8 (ERC20 7) relayed_quote 100 1 [5])"
    by (rule wallet_query [OF refl]) simp
  then obtain query where query: "prepare_relayer_query ?E ?st 5000 8 (ERC20 7) relayed_quote 100 1 [5] = Ok query"
    by (auto simp: is_ok_iff)
  have address: "get_relayer_address ?E (cs_relayer_rpc_url ?st) = Ok (fee_address quoted_app)"
    by (simp add: get_relayer_address_def wallet_env_for_def fee_address_def quoted_app_def sample_app_def)
  have circuits: "c_withdraw (ce_circuits ?E) k W_WithdrawalValue = wk_withdrawal_value k" for k
    by (simp add: wallet_env_for_def wallet_circuits_def fr_circuits_def)
  have quote: "relay_quote_from relayed_quote = rqy_quote sample_query"
    by (simp add: relay_quote_from_def relayed_quote_def sample_query_def)
  from query have q: "rqy_quote query = rqy_quote sample_query" "rc_pocket_money (rqy_calldata query) = 100"
    unfolding quote [symmetric] prepare_relayer_query_def Let_def by (auto simp: result_simps)
  have fee: "relay_fee cents quoted_app query = Ok (qr_fee_details relayed_quote)"
    using sample_query_fee q by (simp add: relay_fee_def sample_query_def relayed_quote_def)
  have "is_quote_valid (as_quote_cache quoted_app) (referenced_quote (ERC20 7) (relay_quote_from relayed_quote))
      (rv_now sample_relay_env)"
    using sample_query_acceptable by (simp add: acceptable_def quote) (simp add: sample_query_def)
  moreover have "100 \<le> as_max_pocket_money quoted_app"
    using sample_query_acceptable by (simp add: acceptable_def sample_query_def)
  moreover have "unat (5000 :: u256) < fr_modulus" by (simp add: fr_modulus_def)
  ultimately obtain task prove account root path chain_id where
    "relay_admit cents sample_relay_env quoted_app query no_counts = (Ok task, no_counts, [])"
    and prove: "ce_prove_withdraw ?E = Ok prove"
    and "tk_payload task = (prepare_call (withdraw_call_type (ce_circuits ?E)) prove account (ERC20 7) 5000
       \<lparr> wx_merkle_path = path, wx_to = 8, wx_relayer_address = fee_address quoted_app,
         wx_relayer_fee = fd_total_cost_fee_token (qr_fee_details relayed_quote),
         wx_contract_version = contract_version, wx_chain_id = chain_id, wx_mac_salt = ce_mac_salt ?E,
         wx_pocket_money = 100, wx_protocol_fee = 1, wx_memo = [5] \<rparr>)\<lparr> wdc_merkle_root := root \<rparr>"
    using wallet_call_is_relayed [OF query address wallet_field circuits _ _ fee,
        where env = sample_relay_env and m = no_counts]
    by (auto simp: sample_relay_env_def)
  moreover from prove have "prove k = [9]" for k by (simp add: wallet_env_for_def) (metis)
  ultimately show ?thesis using query
    by (auto simp: prepare_call_def Let_def withdraw_call_type_def withdraw_call_data_def relayed_quote_def
        sample_fee_def)
qed

end
